(* ===== verification/Prelude.thy ===== *)
theory Prelude
  imports Main "HOL-Library.Word" "HOL-Library.List_Lexorder" "HOL-Library.Char_ord"
    "HOL-Library.Option_ord" "HOL-Library.Sublist"
begin

text \<open>
  Shared vocabulary of the development: the machine types of the Rust code, the parts of
  the Rust standard library that the source calls (string trimming, ASCII case, decimal
  rendering, prefixes, slice chunks), hash maps with an unspecified iteration order, and
  mailboxes (the sending side of a \<^verbatim>\<open>tokio::sync::mpsc\<close> channel).

  A Rust \<^verbatim>\<open>String\<close> is a list of UTF-8 bytes, one \<open>char\<close> per byte, so \<open>length\<close> is
  Rust's \<^verbatim>\<open>len()\<close>. Audio payloads are lists of \<open>8 word\<close>.
\<close>

named_theorems hub_simps \<open>unfolding rules for the agent hub\<close>
named_theorems gateway_simps \<open>unfolding rules for the gateway handlers\<close>
named_theorems bridge_simps \<open>unfolding rules for the bridge helpers\<close>

type_synonym u8 = "8 word"
type_synonym u16 = "16 word"
type_synonym u32 = "32 word"
type_synonym u64 = "64 word"
type_synonym bytes = "u8 list"

section \<open>Lists, options and results\<close>

abbreviation Err :: "'e \<Rightarrow> 'e + 'a" where "Err \<equiv> Inl"
abbreviation Ok :: "'a \<Rightarrow> 'e + 'a" where "Ok \<equiv> Inr"

text \<open>\<^verbatim>\<open>Option::or_else\<close>, \<^verbatim>\<open>Option::unwrap_or\<close>, \<^verbatim>\<open>Option::filter\<close> and the \<^verbatim>\<open>?\<close> operator.\<close>

fun or_else :: "'a option \<Rightarrow> 'a option \<Rightarrow> 'a option" where
  "or_else (Some x) y = Some x"
| "or_else None y = y"

fun unwrap_or :: "'a option \<Rightarrow> 'a \<Rightarrow> 'a" where
  "unwrap_or (Some x) d = x"
| "unwrap_or None d = d"

definition opt_filter :: "('a \<Rightarrow> bool) \<Rightarrow> 'a option \<Rightarrow> 'a option" where
  "opt_filter P x = (case x of Some y \<Rightarrow> (if P y then Some y else None) | None \<Rightarrow> None)"

fun ok_or :: "'a option \<Rightarrow> 'e \<Rightarrow> 'e + 'a" where
  "ok_or (Some x) e = Ok x"
| "ok_or None e = Err e"

fun and_then :: "'e + 'a \<Rightarrow> ('a \<Rightarrow> 'e + 'b) \<Rightarrow> 'e + 'b" where
  "and_then (Inl e) f = Err e"
| "and_then (Inr x) f = f x"

lemma or_else_None_right [simp]: "or_else x None = x"
  by (cases x) auto

lemma or_else_eq_None [simp]: "or_else x y = None \<longleftrightarrow> x = None \<and> y = None"
  by (cases x) auto

lemma opt_filter_simps [simp]:
  "opt_filter P None = None"
  "opt_filter P (Some y) = (if P y then Some y else None)"
  by (auto simp: opt_filter_def)

lemma opt_filter_SomeD: "opt_filter P x = Some y \<Longrightarrow> x = Some y \<and> P y"
  by (cases x) (auto split: if_splits)

lemma and_then_Inr [simp]:
  "and_then r f = Inr y \<longleftrightarrow> (\<exists>x. r = Inr x \<and> f x = Inr y)"
  by (cases r) auto

lemma find_SomeE:
  assumes "find P xs = Some x"
  obtains "P x" and "x \<in> set xs"
  using assms by (auto simp: find_Some_iff)

lemma find_first_split:
  assumes "find P xs = Some x"
  shows "\<exists>us vs. xs = us @ x # vs \<and> P x \<and> (\<forall>u \<in> set us. \<not> P u)"
  using assms
proof (induction xs)
  case Nil
  then show ?case by simp
next
  case (Cons a xs)
  show ?case
  proof (cases "P a")
    case True
    with Cons.prems have "a # xs = [] @ x # xs \<and> P x \<and> (\<forall>u \<in> set []. \<not> P u)" by simp
    then show ?thesis by blast
  next
    case False
    with Cons obtain us vs where "xs = us @ x # vs" "P x" "\<forall>u \<in> set us. \<not> P u" by auto
    with False have "a # xs = (a # us) @ x # vs \<and> P x \<and> (\<forall>u \<in> set (a # us). \<not> P u)" by simp
    then show ?thesis by blast
  qed
qed

section \<open>Strings\<close>

fun strip_prefix :: "string \<Rightarrow> string \<Rightarrow> string option" where
  "strip_prefix [] s = Some s"
| "strip_prefix (p # ps) [] = None"
| "strip_prefix (p # ps) (c # cs) = (if p = c then strip_prefix ps cs else None)"

lemma strip_prefix_Some_iff: "strip_prefix p s = Some r \<longleftrightarrow> s = p @ r"
  by (induction p s rule: strip_prefix.induct) auto

lemma strip_prefix_append [simp]: "strip_prefix p (p @ r) = Some r"
  by (simp add: strip_prefix_Some_iff)

lemma strip_prefix_None_iff: "strip_prefix p s = None \<longleftrightarrow> \<not> prefix p s"
  by (metis strip_prefix_Some_iff option.exhaust prefix_def option.distinct(1))

definition strip_suffix :: "string \<Rightarrow> string \<Rightarrow> string option" where
  "strip_suffix p s = map_option rev (strip_prefix (rev p) (rev s))"

lemma strip_suffix_Some_iff: "strip_suffix p s = Some r \<longleftrightarrow> s = r @ p"
proof -
  have "strip_suffix p s = Some r \<longleftrightarrow> (\<exists>q. rev s = rev p @ q \<and> r = rev q)"
    by (auto simp: strip_suffix_def strip_prefix_Some_iff)
  also have "\<dots> \<longleftrightarrow> s = r @ p"
    by (metis rev_append rev_rev_ident)
  finally show ?thesis .
qed

text \<open>
  \<^verbatim>\<open>str::trim\<close> drops the code points with the Unicode property White_Space at both ends.
  Their UTF-8 encodings are listed here; as UTF-8 is self-synchronising, an encoding that
  is a prefix (suffix) of a valid string is its first (last) code point.
\<close>

definition whitespace_encodings :: "string list" where
  "whitespace_encodings =
     [[CHR 0x20], [CHR 0x09], [CHR 0x0A], [CHR 0x0B], [CHR 0x0C], [CHR 0x0D],
      [CHR 0xC2, CHR 0x85], [CHR 0xC2, CHR 0xA0], [CHR 0xE1, CHR 0x9A, CHR 0x80],
      [CHR 0xE2, CHR 0x80, CHR 0x80], [CHR 0xE2, CHR 0x80, CHR 0x81], [CHR 0xE2, CHR 0x80, CHR 0x82],
      [CHR 0xE2, CHR 0x80, CHR 0x83], [CHR 0xE2, CHR 0x80, CHR 0x84], [CHR 0xE2, CHR 0x80, CHR 0x85],
      [CHR 0xE2, CHR 0x80, CHR 0x86], [CHR 0xE2, CHR 0x80, CHR 0x87], [CHR 0xE2, CHR 0x80, CHR 0x88],
      [CHR 0xE2, CHR 0x80, CHR 0x89], [CHR 0xE2, CHR 0x80, CHR 0x8A], [CHR 0xE2, CHR 0x80, CHR 0xA8],
      [CHR 0xE2, CHR 0x80, CHR 0xA9], [CHR 0xE2, CHR 0x80, CHR 0xAF], [CHR 0xE2, CHR 0x81, CHR 0x9F],
      [CHR 0xE3, CHR 0x80, CHR 0x80]]"

fun strip_any :: "string list \<Rightarrow> string \<Rightarrow> string option" where
  "strip_any [] s = None"
| "strip_any (p # ps) s =
     (if p = [] then strip_any ps s
      else (case strip_prefix p s of Some r \<Rightarrow> Some r | None \<Rightarrow> strip_any ps s))"

lemma strip_any_SomeD: "strip_any ps s = Some r \<Longrightarrow> \<exists>p \<in> set ps. p \<noteq> [] \<and> s = p @ r"
  by (induction ps) (auto simp: strip_prefix_Some_iff split: option.splits if_splits)

lemma strip_any_length [dest]: "strip_any ps s = Some r \<Longrightarrow> length r < length s"
  by (auto dest!: strip_any_SomeD)

lemma strip_any_None: "strip_any ps s = None \<Longrightarrow> p \<in> set ps \<Longrightarrow> p \<noteq> [] \<Longrightarrow> \<not> prefix p s"
  by (induction ps) (auto simp: strip_prefix_None_iff split: option.splits if_splits)

function strip_all :: "string list \<Rightarrow> string \<Rightarrow> string" where
  "strip_all ps s = (case strip_any ps s of None \<Rightarrow> s | Some r \<Rightarrow> strip_all ps r)"
  by pat_completeness auto
termination
  by (relation "measure (\<lambda>(ps, s). length s)") auto

declare strip_all.simps [simp del]

definition trim_start :: "string \<Rightarrow> string" where
  "trim_start s = strip_all whitespace_encodings s"

definition trim_end :: "string \<Rightarrow> string" where
  "trim_end s = rev (strip_all (map rev whitespace_encodings) (rev s))"

definition trim :: "string \<Rightarrow> string" where
  "trim s = trim_end (trim_start s)"

lemma strip_all_suffix: "\<exists>q. s = q @ strip_all ps s"
proof (induction ps s rule: strip_all.induct)
  case (1 ps s)
  show ?case
  proof (cases "strip_any ps s")
    case None
    then show ?thesis by (simp add: strip_all.simps [of ps s])
  next
    case (Some r)
    then obtain p where "s = p @ r" by (auto dest: strip_any_SomeD)
    moreover obtain q where "r = q @ strip_all ps r" using 1 [OF Some] by blast
    moreover have "strip_all ps s = strip_all ps r" using Some by (simp add: strip_all.simps [of ps s])
    ultimately have "s = (p @ q) @ strip_all ps s" by simp
    then show ?thesis by blast
  qed
qed

lemma strip_all_done: "strip_any ps (strip_all ps s) = None"
proof (induction ps s rule: strip_all.induct)
  case (1 ps s)
  then show ?case
    by (cases "strip_any ps s") (simp_all add: strip_all.simps [of ps s])
qed

lemma strip_all_idem: "strip_all ps (strip_all ps s) = strip_all ps s"
  by (subst strip_all.simps) (simp add: strip_all_done)

lemma length_trim_le: "length (trim s) \<le> length s"
proof -
  have *: "length (strip_all ps x) \<le> length x" for ps x
    using strip_all_suffix [of x ps] by (metis length_append le_add2)
  have "length (trim s) \<le> length (trim_start s)"
    using * [of "map rev whitespace_encodings" "rev (trim_start s)"] by (simp add: trim_def trim_end_def)
  also have "\<dots> \<le> length s" by (simp add: trim_start_def *)
  finally show ?thesis .
qed

lemma trim_Nil [simp]: "trim [] = []"
  using length_trim_le [of "[]"] by simp

text \<open>Graphic ASCII text, such as hex digits or base64, has nothing to trim.\<close>

definition is_graphic :: "char \<Rightarrow> bool" where
  "is_graphic c = (let n = (of_char c :: nat) in 33 \<le> n \<and> n < 127)"

lemma strip_any_other_head:
  "list_all (\<lambda>p. \<not> is_graphic (hd p)) ps \<Longrightarrow> is_graphic c \<Longrightarrow> strip_any ps (c # cs) = None"
proof (induction ps)
  case Nil
  then show ?case by simp
next
  case (Cons p ps)
  then show ?case by (cases p) auto
qed

lemma whitespace_heads:
  "list_all (\<lambda>p. \<not> is_graphic (hd p)) whitespace_encodings"
  "list_all (\<lambda>p. \<not> is_graphic (hd p)) (map rev whitespace_encodings)"
  by code_simp+

lemma strip_any_Nil: "strip_any ps [] = None"
  by (induction ps) (auto split: option.split simp: neq_Nil_conv)

lemmas strip_any_graphic = whitespace_heads [THEN strip_any_other_head]

lemma strip_all_None: "strip_any ps s = None \<Longrightarrow> strip_all ps s = s"
  by (simp add: strip_all.simps)

lemma strip_all_graphic:
  assumes "list_all is_graphic s"
  shows "strip_all whitespace_encodings s = s" "strip_all (map rev whitespace_encodings) s = s"
proof -
  have "strip_any whitespace_encodings s = None" "strip_any (map rev whitespace_encodings) s = None"
    using assms by (cases s; simp add: strip_any_graphic strip_any_Nil)+
  then show "strip_all whitespace_encodings s = s" "strip_all (map rev whitespace_encodings) s = s"
    by (simp_all add: strip_all_None)
qed

lemma trim_graphic: "list_all is_graphic s \<Longrightarrow> trim s = s"
  by (simp add: trim_def trim_start_def trim_end_def strip_all_graphic)

lemma trim_idem [simp]: "trim (trim s) = trim s"
proof -
  have "prefix (trim s) (trim_start s)"
    using strip_all_suffix [of "rev (trim_start s)" "map rev whitespace_encodings"]
    by (metis trim_def trim_end_def rev_append rev_rev_ident prefixI)
  then have "strip_any whitespace_encodings (trim s) = None"
    using strip_any_None [of whitespace_encodings "trim_start s"]
    by (metis strip_all_done trim_start_def strip_any_SomeD prefixI prefix_order.trans option.exhaust)
  then have "trim_start (trim s) = trim s" by (simp add: trim_start_def strip_all_None)
  then show ?thesis
    by (simp add: trim_def [of "trim s"]) (simp add: trim_def trim_end_def strip_all_idem)
qed

definition ascii_lower :: "char \<Rightarrow> char" where
  "ascii_lower c =
     (let n = (of_char c :: nat) in if 65 \<le> n \<and> n \<le> 90 then char_of (n + 32) else c)"

definition to_ascii_lowercase :: "string \<Rightarrow> string" where
  "to_ascii_lowercase s = map ascii_lower s"

lemma ascii_lower_idem: "ascii_lower (ascii_lower c) = ascii_lower c"
  by (auto simp: ascii_lower_def Let_def of_char_of)

lemma to_ascii_lowercase_idem [simp]:
  "to_ascii_lowercase (to_ascii_lowercase s) = to_ascii_lowercase s"
  by (simp add: to_ascii_lowercase_def ascii_lower_idem)

definition as_bytes :: "string \<Rightarrow> bytes" where
  "as_bytes s = map of_char s"

lemma length_as_bytes [simp]: "length (as_bytes s) = length s"
  by (simp add: as_bytes_def)

lemma as_bytes_append [simp]: "as_bytes (s @ t) = as_bytes s @ as_bytes t"
  by (simp add: as_bytes_def)

text \<open>The text whose bytes are the given ones.\<close>

definition byte_text :: "bytes \<Rightarrow> string" where
  "byte_text bs = map (\<lambda>b. char_of (unat b)) bs"

lemma byte_text_back: "as_bytes (byte_text bs) = bs"
proof -
  have "of_char (char_of (unat b) :: char) = b" for b :: u8
  proof -
    have n: "(of_char (char_of (unat b) :: char) :: nat) = unat b"
      using unsigned_less [of b, where 'a = nat] by simp
    have "(of_char (char_of (unat b) :: char) :: u8) = of_nat (of_char (char_of (unat b) :: char))"
      by (rule of_nat_of_char [symmetric])
    also have "\<dots> = b" unfolding n by simp
    finally show ?thesis .
  qed
  then show ?thesis by (simp add: as_bytes_def byte_text_def map_idI comp_def)
qed

text \<open>\<^verbatim>\<open>Path::join\<close>: an absolute name replaces the base.\<close>

definition path_join :: "string \<Rightarrow> string \<Rightarrow> string" where
  "path_join base name =
     (if prefix ''/'' name then name
      else if base = [] \<or> last base = CHR ''/'' then base @ name else base @ ''/'' @ name)"

text \<open>Decimal rendering of an unsigned integer (\<^verbatim>\<open>to_string\<close>, \<^verbatim>\<open>format!("{n}")\<close>).\<close>

definition digit_char :: "nat \<Rightarrow> char" where
  "digit_char d = char_of (48 + d)"

fun show_nat :: "nat \<Rightarrow> string" where
  "show_nat n = (if n < 10 then [digit_char n] else show_nat (n div 10) @ [digit_char (n mod 10)])"

declare show_nat.simps [simp del]

definition read_digit :: "char \<Rightarrow> nat" where
  "read_digit c = of_char c - 48"

definition read_nat :: "string \<Rightarrow> nat" where
  "read_nat s = foldl (\<lambda>n c. n * 10 + read_digit c) 0 s"

lemma read_digit_char [simp]: "d < 10 \<Longrightarrow> read_digit (digit_char d) = d"
  by (simp add: read_digit_def digit_char_def)

lemma read_show_nat [simp]: "read_nat (show_nat n) = n"
proof (induction n rule: show_nat.induct)
  case (1 n)
  then show ?case
    by (cases "n < 10") (simp_all add: show_nat.simps [of n] read_nat_def)
qed

lemma show_nat_inject [simp]: "show_nat m = show_nat n \<longleftrightarrow> m = n"
  by (metis read_show_nat)

section \<open>Slice chunks\<close>

text \<open>
  \<^verbatim>\<open>slice.chunks(n)\<close>. Rust panics for \<open>n = 0\<close>; every caller of the model passes a
  positive size (the code takes \<^verbatim>\<open>max(1)\<close> or filters zero out first).
\<close>

function chunks :: "nat \<Rightarrow> 'a list \<Rightarrow> 'a list list" where
  "chunks n xs = (if n = 0 \<or> xs = [] then [] else take n xs # chunks n (drop n xs))"
  by pat_completeness auto
termination
  by (relation "measure (\<lambda>(n, xs). length xs)") auto

declare chunks.simps [simp del]

lemma chunks_Nil [simp]: "chunks n [] = []"
  by (simp add: chunks.simps)

lemma chunks_step: "0 < n \<Longrightarrow> xs \<noteq> [] \<Longrightarrow> chunks n xs = take n xs # chunks n (drop n xs)"
  by (simp add: chunks.simps)

lemma concat_chunks: "0 < n \<Longrightarrow> concat (chunks n xs) = xs"
proof (induction n xs rule: chunks.induct)
  case (1 n xs)
  then show ?case by (cases "xs = []") (simp_all add: chunks_step)
qed

lemma chunks_nonempty: "c \<in> set (chunks n xs) \<Longrightarrow> c \<noteq> [] \<and> length c \<le> n"
proof (induction n xs rule: chunks.induct)
  case (1 n xs)
  then show ?case by (auto simp: chunks.simps [of n xs] split: if_splits)
qed

lemma chunks_eq_Nil [simp]: "0 < n \<Longrightarrow> chunks n xs = [] \<longleftrightarrow> xs = []"
  by (simp add: chunks.simps)

lemma length_chunks: "0 < n \<Longrightarrow> length (chunks n xs) = (length xs + n - 1) div n"
proof (induction n xs rule: chunks.induct)
  case (1 n xs)
  show ?case
  proof (cases "xs = []")
    case True
    with 1 show ?thesis by simp
  next
    case False
    with 1 have ih: "length (chunks n (drop n xs)) = (length (drop n xs) + n - 1) div n" by simp
    show ?thesis
    proof (cases "length xs \<le> n")
      case True
      have pos: "0 < length xs" using False by simp
      then have "length xs + n - 1 = (length xs - 1) + n" by linarith
      moreover have "(length xs - 1) div n = 0"
        by (rule div_less) (use True pos in linarith)
      moreover have "((length xs - 1) + n) div n = (length xs - 1) div n + 1"
        using "1.prems" by (intro div_add_self2) simp
      ultimately have "(length xs + n - 1) div n = 1" by (simp only: add_0)
      with True False 1 show ?thesis by (simp add: chunks_step)
    next
      case False
      then have "length xs + n - 1 = (length (drop n xs) + n - 1) + n" by simp
      then have "(length xs + n - 1) div n = Suc ((length (drop n xs) + n - 1) div n)"
        using "1.prems" by (simp only: div_add_self2)
      with ih \<open>xs \<noteq> []\<close> "1.prems" show ?thesis by (simp add: chunks_step)
    qed
  qed
qed

section \<open>Hash maps with an unspecified iteration order\<close>

text \<open>
  A \<^verbatim>\<open>HashMap\<close> is a map. Where the code iterates over one, the order is up to the
  hasher, so each such operation takes the order as an argument: a list of keys that
  \<open>enumerates\<close> the map. The theorems hold for every order.
\<close>

definition enumerates :: "'k list \<Rightarrow> ('k \<rightharpoonup> 'v) \<Rightarrow> bool" where
  "enumerates ks m \<longleftrightarrow> distinct ks \<and> set ks = dom m"

definition map_entries :: "'k list \<Rightarrow> ('k \<rightharpoonup> 'v) \<Rightarrow> ('k \<times> 'v) list" where
  "map_entries ks m = List.map_filter (\<lambda>k. map_option (Pair k) (m k)) ks"

definition map_values :: "'k list \<Rightarrow> ('k \<rightharpoonup> 'v) \<Rightarrow> 'v list" where
  "map_values ks m = List.map_filter m ks"

lemma map_filter_set: "set (List.map_filter f xs) = {y. \<exists>x \<in> set xs. f x = Some y}"
  by (induction xs) (auto simp: List.map_filter_simps split: option.splits)

lemma set_map_entries: "enumerates ks m \<Longrightarrow> set (map_entries ks m) = {(k, v). m k = Some v}"
  by (auto simp: map_entries_def map_filter_set enumerates_def)

lemma set_map_values: "enumerates ks m \<Longrightarrow> set (map_values ks m) = ran m"
  by (auto simp: map_values_def map_filter_set enumerates_def ran_def)

lemma set_map_values_subset: "set (map_values ks m) \<subseteq> ran m"
  by (auto simp: map_values_def map_filter_set ran_def)

lemma map_values_Cons:
  "map_values (k # ks) m = (case m k of None \<Rightarrow> map_values ks m | Some v \<Rightarrow> v # map_values ks m)"
  by (simp add: map_values_def List.map_filter_simps split: option.split)

lemma map_values_Nil [simp]: "map_values [] m = []"
  by (simp add: map_values_def List.map_filter_simps)

lemma enumerates_empty [simp]: "enumerates [] Map.empty"
  by (simp add: enumerates_def)

section \<open>Mailboxes\<close>

text \<open>
  The sending ends of the channels of a task. Channels are numbered; \<open>net_closed\<close> holds
  those whose receiver is gone, for which \<^verbatim>\<open>send(..).await\<close> fails. The log is what has
  been handed over, in order. Back-pressure (a full channel) only delays a sender and is
  not a failure of \<^verbatim>\<open>send\<close>.
\<close>

record 'm net =
  net_closed :: "nat set"
  net_log :: "(nat \<times> 'm) list"

definition net_send :: "nat \<Rightarrow> 'm \<Rightarrow> 'm net \<Rightarrow> 'm net option" where
  "net_send c m n =
     (if c \<in> net_closed n then None else Some (n\<lparr>net_log := net_log n @ [(c, m)]\<rparr>))"

text \<open>\<^verbatim>\<open>let _ = tx.send(m).await;\<close>\<close>

definition net_post :: "nat \<Rightarrow> 'm \<Rightarrow> 'm net \<Rightarrow> 'm net" where
  "net_post c m n = (case net_send c m n of Some n' \<Rightarrow> n' | None \<Rightarrow> n)"

definition sent_on :: "nat \<Rightarrow> 'm net \<Rightarrow> 'm list" where
  "sent_on c n = map snd (filter (\<lambda>p. fst p = c) (net_log n))"

text \<open>The receiver of a channel goes away.\<close>

definition net_close :: "nat \<Rightarrow> 'm net \<Rightarrow> 'm net" where
  "net_close c n = n\<lparr>net_closed := insert c (net_closed n)\<rparr>"

lemma net_close_simps [simp]:
  "net_closed (net_close c n) = insert c (net_closed n)"
  "net_log (net_close c n) = net_log n"
  "sent_on d (net_close c n) = sent_on d n"
  by (simp_all add: net_close_def sent_on_def)

lemma net_send_Some:
  "net_send c m n = Some n' \<Longrightarrow>
     c \<notin> net_closed n \<and> net_closed n' = net_closed n \<and> net_log n' = net_log n @ [(c, m)]"
  by (auto simp: net_send_def split: if_splits)

lemma net_send_None [simp]: "net_send c m n = None \<longleftrightarrow> c \<in> net_closed n"
  by (simp add: net_send_def)

lemma net_post_closed [simp]: "net_closed (net_post c m n) = net_closed n"
  by (simp add: net_post_def net_send_def)

lemma sent_on_post:
  "sent_on d (net_post c m n) =
     (if d = c \<and> c \<notin> net_closed n then sent_on d n @ [m] else sent_on d n)"
  by (auto simp: net_post_def net_send_def sent_on_def)

text \<open>
  The contract the senders rely on: a successful send appends exactly one message, and a
  failed one is possible only on a closed channel.
\<close>

locale channel =
  fixes push :: "'m \<Rightarrow> 'ch \<Rightarrow> 'ch option"
    and contents :: "'ch \<Rightarrow> 'm list"
    and is_open :: "'ch \<Rightarrow> bool"
  assumes push_open: "is_open ch \<Longrightarrow> \<exists>ch'. push m ch = Some ch'"
    and push_contents: "push m ch = Some ch' \<Longrightarrow> contents ch' = contents ch @ [m]"
    and push_keeps_open: "push m ch = Some ch' \<Longrightarrow> is_open ch' = is_open ch"

text \<open>Sending a list of messages in order, stopping at the first failure.\<close>

fun send_seq :: "('m \<Rightarrow> 'ch \<Rightarrow> 'ch option) \<Rightarrow> 'm list \<Rightarrow> 'ch \<Rightarrow> 'ch option" where
  "send_seq f [] ch = Some ch"
| "send_seq f (m # ms) ch = (case f m ch of None \<Rightarrow> None | Some ch' \<Rightarrow> send_seq f ms ch')"

context channel begin

lemma send_seq_contents:
  "send_seq push ms ch = Some ch' \<Longrightarrow> contents ch' = contents ch @ ms"
  by (induction ms arbitrary: ch) (auto split: option.splits dest!: push_contents)

lemma send_seq_open: "is_open ch \<Longrightarrow> \<exists>ch'. send_seq push ms ch = Some ch' \<and> is_open ch'"
proof (induction ms arbitrary: ch)
  case Nil
  then show ?case by simp
next
  case (Cons m ms)
  then obtain ch1 where "push m ch = Some ch1" using push_open by blast
  with Cons show ?case by (simp add: push_keeps_open)
qed

end

interpretation net: channel "net_send c" "sent_on c" "\<lambda>n. c \<notin> net_closed n" for c
  by unfold_locales (auto simp: net_send_def sent_on_def split: if_splits)

section \<open>Choosing a maximum\<close>

text \<open>\<^verbatim>\<open>Iterator::max_by_key\<close> returns the last of the elements with the largest key.\<close>

fun max_by_key :: "('a \<Rightarrow> nat) \<Rightarrow> 'a list \<Rightarrow> 'a option" where
  "max_by_key f [] = None"
| "max_by_key f (x # xs) =
     (case max_by_key f xs of
        None \<Rightarrow> Some x
      | Some y \<Rightarrow> (if f x \<le> f y then Some y else Some x))"

lemma max_by_key_None [simp]: "max_by_key f xs = None \<longleftrightarrow> xs = []"
  by (cases xs) (auto split: option.splits)

lemma max_by_key_last:
  "max_by_key f xs = Some y \<Longrightarrow>
     \<exists>us vs. xs = us @ y # vs \<and> (\<forall>x \<in> set us. f x \<le> f y) \<and> (\<forall>x \<in> set vs. f x < f y)"
proof (induction xs arbitrary: y)
  case Nil
  then show ?case by simp
next
  case (Cons x xs)
  show ?case
  proof (cases "max_by_key f xs")
    case None
    with Cons.prems have "xs = []" "y = x" by simp_all
    then show ?thesis by (intro exI [of _ "[]"]) simp
  next
    case (Some z)
    from Cons.IH [OF this] obtain us vs where
      z: "xs = us @ z # vs" "\<forall>x \<in> set us. f x \<le> f z" "\<forall>x \<in> set vs. f x < f z" by blast
    show ?thesis
    proof (cases "f x \<le> f z")
      case True
      with Some Cons.prems have "y = z" by simp
      with True z have "x # xs = (x # us) @ y # vs \<and> (\<forall>w \<in> set (x # us). f w \<le> f y) \<and>
          (\<forall>w \<in> set vs. f w < f y)" by simp
      then show ?thesis by blast
    next
      case False
      with Some Cons.prems have "y = x" by simp
      moreover have "f w < f x" if "w \<in> set xs" for w
        using that z False by auto
      ultimately have "x # xs = [] @ y # xs \<and> (\<forall>w \<in> set []. f w \<le> f y) \<and> (\<forall>w \<in> set xs. f w < f y)"
        by simp
      then show ?thesis by blast
    qed
  qed
qed

lemma max_by_key_Some:
  assumes "max_by_key f xs = Some y"
  shows "y \<in> set xs" and "x \<in> set xs \<Longrightarrow> f x \<le> f y"
  using max_by_key_last [OF assms] by (force simp: less_imp_le, fastforce simp: less_imp_le)

end
