(* ===== verification/CoreTypes.thy ===== *)
theory CoreTypes
  imports Prelude
begin

text \<open>
  The data of \<^verbatim>\<open>core/src/lib.rs\<close>, \<^verbatim>\<open>asr/src/lib.rs\<close>, \<^verbatim>\<open>tts/src/lib.rs\<close> and the error type of
  \<^verbatim>\<open>bridges/src/error.rs\<close>: identifiers, capabilities, selectors, audio formats, provider
  descriptors, recognition and synthesis requests, transcripts and audio chunks. A
  \<^verbatim>\<open>serde_json::Value\<close> is \<open>json\<close>, its number kept as the text of the number; an
  \<^verbatim>\<open>f32\<close> is its bit pattern; a \<^verbatim>\<open>Uuid\<close> is its 128 bits.
\<close>

section \<open>JSON values\<close>

datatype json =
    JNull
  | JBool bool
  | JNumber string
  | JString string
  | JArray "json list"
  | JObject "(string \<times> json) list"

text \<open>\<^verbatim>\<open>Value::get(key)\<close>, \<^verbatim>\<open>Value::as_str\<close>, \<^verbatim>\<open>Value::as_array\<close>, \<^verbatim>\<open>Value::is_null\<close>.\<close>

fun json_get :: "json \<Rightarrow> string \<Rightarrow> json option" where
  "json_get (JObject kvs) k = map_of kvs k"
| "json_get _ k = None"

fun json_as_str :: "json \<Rightarrow> string option" where
  "json_as_str (JString s) = Some s"
| "json_as_str _ = None"

fun json_as_array :: "json \<Rightarrow> json list option" where
  "json_as_array (JArray xs) = Some xs"
| "json_as_array _ = None"

text \<open>\<^verbatim>\<open>value.get(k).and_then(Value::as_str)\<close>, the access the sources use most.\<close>

definition json_get_str :: "json \<Rightarrow> string \<Rightarrow> string option" where
  "json_get_str v k = Option.bind (json_get v k) json_as_str"

section \<open>Identifiers\<close>

datatype session_id = SessionId "128 word"

datatype request_id = RequestId string

fun request_id_as_str :: "request_id \<Rightarrow> string" where
  "request_id_as_str (RequestId s) = s"

section \<open>Capabilities and providers\<close>

datatype capability_domain = Asr | Tts | Transport

record capability =
  cap_key :: string
  cap_enabled :: bool

definition capability_on :: "string \<Rightarrow> capability" where
  "capability_on key = \<lparr>cap_key = key, cap_enabled = True\<rparr>"

datatype runtime_mode = InProcess | LocalDaemon | RemoteGateway

datatype provider_selection_mode = AutoMode | ProviderMode

datatype stream_mode = Buffered | Streaming

record provider_selector =
  sel_mode :: provider_selection_mode
  sel_provider_id :: "string option"
  sel_required :: "string list"
  sel_preferred :: "string list"

definition selector_provider :: "string \<Rightarrow> provider_selector" where
  "selector_provider pid =
     \<lparr>sel_mode = ProviderMode, sel_provider_id = Some pid, sel_required = [], sel_preferred = []\<rparr>"

definition selector_default :: provider_selector where
  "selector_default =
     \<lparr>sel_mode = AutoMode, sel_provider_id = None, sel_required = [], sel_preferred = []\<rparr>"

datatype audio_encoding = PcmS16Le | PcmF32Le | Opus | Mp3 | Aac | Flac | Wav

record audio_format =
  af_encoding :: audio_encoding
  af_sample_rate_hz :: u32
  af_channels :: u16

definition audio_format_pcm_s16le :: "u32 \<Rightarrow> u16 \<Rightarrow> audio_format" where
  "audio_format_pcm_s16le rate ch =
     \<lparr>af_encoding = PcmS16Le, af_sample_rate_hz = rate, af_channels = ch\<rparr>"

record provider_descriptor =
  pd_id :: string
  pd_name :: string
  pd_domain :: capability_domain
  pd_runtime :: runtime_mode
  pd_capabilities :: "capability list"

definition provider_descriptor_new ::
  "string \<Rightarrow> string \<Rightarrow> capability_domain \<Rightarrow> runtime_mode \<Rightarrow> provider_descriptor" where
  "provider_descriptor_new i n d r =
     \<lparr>pd_id = i, pd_name = n, pd_domain = d, pd_runtime = r, pd_capabilities = []\<rparr>"

definition with_capability :: "provider_descriptor \<Rightarrow> capability \<Rightarrow> provider_descriptor" where
  "with_capability d c = d\<lparr>pd_capabilities := pd_capabilities d @ [c]\<rparr>"

lemma with_capability_simps [simp]:
  "pd_id (with_capability d c) = pd_id d"
  "pd_domain (with_capability d c) = pd_domain d"
  "pd_runtime (with_capability d c) = pd_runtime d"
  "pd_capabilities (with_capability d c) = pd_capabilities d @ [c]"
  by (simp_all add: with_capability_def)

lemma provider_descriptor_new_simps [simp]:
  "pd_id (provider_descriptor_new i n d r) = i"
  "pd_domain (provider_descriptor_new i n d r) = d"
  "pd_runtime (provider_descriptor_new i n d r) = r"
  "pd_capabilities (provider_descriptor_new i n d r) = []"
  by (simp_all add: provider_descriptor_new_def)

lemma capability_on_simps [simp]: "cap_key (capability_on k) = k" "cap_enabled (capability_on k)"
  by (simp_all add: capability_on_def)

record error_info =
  ei_code :: string
  ei_message :: string
  ei_retryable :: bool
  ei_details :: json

definition error_info_new :: "string \<Rightarrow> string \<Rightarrow> error_info" where
  "error_info_new c m = \<lparr>ei_code = c, ei_message = m, ei_retryable = False, ei_details = JNull\<rparr>"

section \<open>Speech recognition\<close>

record recognition_options =
  ro_language :: "string option"
  ro_hints :: "string list"
  ro_interim_results :: bool
  ro_timestamps :: bool
  ro_punctuation :: bool
  ro_prefer_on_device :: bool
  ro_provider_options :: json

datatype audio_input = AudioFile string | AudioBytes bytes

record transcribe_request =
  tq_provider :: provider_selector
  tq_audio :: audio_input
  tq_audio_format :: "audio_format option"
  tq_options :: recognition_options

record asr_stream_request =
  asq_provider :: provider_selector
  asq_input_format :: audio_format
  asq_options :: recognition_options

record transcript_segment =
  seg_text :: string
  seg_is_final :: bool
  seg_start_ms :: "u64 option"
  seg_end_ms :: "u64 option"

record transcript =
  tr_text :: string
  tr_language :: "string option"
  tr_segments :: "transcript_segment list"

record asr_session =
  as_id :: session_id
  as_provider_id :: string
  as_accepted_input_format :: audio_format
  as_input_mode :: stream_mode
  as_output_mode :: stream_mode

section \<open>Speech synthesis\<close>

datatype synthesis_input_kind = TextInput | SsmlInput

type_synonym f32_bits = "32 word"

record synthesis_options =
  so_language :: "string option"
  so_voice :: "string option"
  so_stream :: bool
  so_rate :: "f32_bits option"
  so_pitch :: "f32_bits option"
  so_volume :: "f32_bits option"
  so_provider_options :: json

record tts_stream_request =
  tsq_provider :: provider_selector
  tsq_input_kind :: synthesis_input_kind
  tsq_output_format :: "audio_format option"
  tsq_options :: synthesis_options

record voice_descriptor =
  vd_id :: string
  vd_language :: string
  vd_display_name :: string
  vd_gender :: "string option"
  vd_capabilities :: "string list"

record audio_chunk =
  ac_bytes :: bytes
  ac_sequence :: u64
  ac_is_final :: bool
  ac_format :: "audio_format option"

record tts_session =
  ts_id :: session_id
  ts_provider_id :: string
  ts_accepted_output_format :: "audio_format option"
  ts_input_mode :: stream_mode
  ts_output_mode :: stream_mode

section \<open>Bridge errors\<close>

datatype bridge_error =
    Unavailable string
  | Disconnected string
  | ProtocolError string
  | IoError string

fun bridge_error_text :: "bridge_error \<Rightarrow> string" where
  "bridge_error_text (Unavailable m) = ''bridge unavailable: '' @ m"
| "bridge_error_text (Disconnected m) = ''bridge disconnected: '' @ m"
| "bridge_error_text (ProtocolError m) = ''bridge protocol error: '' @ m"
| "bridge_error_text (IoError m) = ''bridge io error: '' @ m"

section \<open>Bridge events and commands\<close>

datatype bridge_asr_event =
    AsrPartialEv string
  | AsrFinalEv transcript
  | AsrEndedEv "string option"
  | AsrErrorEv string

text \<open>\<^verbatim>\<open>matches!(event, BridgeAsrEvent::Ended { .. })\<close>, as the relays distinguish it.\<close>

definition is_ended :: "bridge_asr_event \<Rightarrow> bool" where
  "is_ended e = (case e of AsrEndedEv _ \<Rightarrow> True | _ \<Rightarrow> False)"

datatype bridge_command = PushAudio bytes | AsrCommitCmd | AsrStopCmd

datatype bridge_tts_event =
    TtsAudioEv audio_chunk
  | TtsEndedEv "string option"
  | TtsErrorEv string

datatype bridge_tts_command = AppendInput string | TtsCommitCmd | TtsStopCmd

text \<open>
  The handles a bridge returns for a started session. The command sender is a channel
  number; whether the event receiver has been taken is a flag.
\<close>

record asr_handle =
  ah_session :: asr_session
  ah_command_tx :: nat
  ah_event_rx :: "nat option"

record tts_handle =
  th_session :: tts_session
  th_input_kind :: synthesis_input_kind
  th_command_tx :: nat
  th_event_rx :: "nat option"

definition command_channel_closed :: bridge_error where
  "command_channel_closed = Disconnected ''bridge command channel closed''"

text \<open>\<^verbatim>\<open>push_audio\<close>, \<^verbatim>\<open>commit\<close> and \<^verbatim>\<open>stop\<close> of the two handles.\<close>

definition asr_push_audio ::
  "asr_handle \<Rightarrow> bytes \<Rightarrow> bridge_command net \<Rightarrow> bridge_error + bridge_command net" where
  "asr_push_audio h b n = ok_or (net_send (ah_command_tx h) (PushAudio b) n) command_channel_closed"

definition asr_commit ::
  "asr_handle \<Rightarrow> bridge_command net \<Rightarrow> bridge_error + bridge_command net" where
  "asr_commit h n = ok_or (net_send (ah_command_tx h) AsrCommitCmd n) command_channel_closed"

definition asr_stop ::
  "asr_handle \<Rightarrow> bridge_command net \<Rightarrow> bridge_error + bridge_command net" where
  "asr_stop h n = ok_or (net_send (ah_command_tx h) AsrStopCmd n) command_channel_closed"

definition asr_take_event_rx :: "asr_handle \<Rightarrow> nat option \<times> asr_handle" where
  "asr_take_event_rx h = (ah_event_rx h, h\<lparr>ah_event_rx := None\<rparr>)"

definition tts_append_input ::
  "tts_handle \<Rightarrow> string \<Rightarrow> bridge_tts_command net \<Rightarrow> bridge_error + bridge_tts_command net" where
  "tts_append_input h d n = ok_or (net_send (th_command_tx h) (AppendInput d) n) command_channel_closed"

definition tts_commit ::
  "tts_handle \<Rightarrow> bridge_tts_command net \<Rightarrow> bridge_error + bridge_tts_command net" where
  "tts_commit h n = ok_or (net_send (th_command_tx h) TtsCommitCmd n) command_channel_closed"

definition tts_stop ::
  "tts_handle \<Rightarrow> bridge_tts_command net \<Rightarrow> bridge_error + bridge_tts_command net" where
  "tts_stop h n = ok_or (net_send (th_command_tx h) TtsStopCmd n) command_channel_closed"

definition tts_take_event_rx :: "tts_handle \<Rightarrow> nat option \<times> tts_handle" where
  "tts_take_event_rx h = (th_event_rx h, h\<lparr>th_event_rx := None\<rparr>)"

lemmas handle_ops =
  asr_push_audio_def asr_commit_def asr_stop_def tts_append_input_def tts_commit_def tts_stop_def

lemma ok_or_Inr [simp]: "ok_or x e = Inr y \<longleftrightarrow> x = Some y"
  by (cases x) auto

lemma ok_or_Inl [simp]: "ok_or x e = Inl e' \<longleftrightarrow> x = None \<and> e = e'"
  by (cases x) auto

end
