(* ===== verification/Protocol.thy ===== *)
theory Protocol
  imports CoreTypes
begin

text \<open>
  The wire protocols of \<^verbatim>\<open>transport/src\<close>: the client protocol of \<^verbatim>\<open>/ws\<close> (\<^verbatim>\<open>lib.rs\<close>), the agent
  protocol of \<^verbatim>\<open>/agent\<close> (\<^verbatim>\<open>agent.rs\<close>) and the control protocol of \<^verbatim>\<open>/control\<close>
  (\<^verbatim>\<open>control.rs\<close>). A message is one constructor of its enum; the \<open>_tag\<close> functions give
  the \<^verbatim>\<open>"type"\<close> field that serde writes. Payload structs with no field of their own are left out of
  the constructors.
\<close>

section \<open>Client protocol: requests\<close>

datatype transport_kind = Http | WebSocket

record hello_request =
  hq_protocol_version :: string
  hq_client_name :: "string option"

record hello_response =
  hr_protocol_version :: string
  hr_server_name :: string
  hr_one_session_per_connection :: bool

record voice_list_request =
  vlq_provider :: provider_selector
  vlq_language :: "string option"

datatype client_message =
    CHello "request_id option" hello_request
  | CDiscover request_id "capability_domain list"
  | CAsrTranscribe request_id transcribe_request
  | CAsrStart request_id asr_stream_request
  | CAsrCommit session_id
  | CTtsVoices request_id voice_list_request
  | CTtsStart request_id tts_stream_request
  | CTtsInputAppend session_id string
  | CTtsCommit session_id
  | CSessionStop session_id
  | CSessionCancel session_id
  | CPing "request_id option"

fun client_message_tag :: "client_message \<Rightarrow> string" where
  "client_message_tag (CHello _ _) = ''hello''"
| "client_message_tag (CDiscover _ _) = ''discover''"
| "client_message_tag (CAsrTranscribe _ _) = ''asr.transcribe''"
| "client_message_tag (CAsrStart _ _) = ''asr.start''"
| "client_message_tag (CAsrCommit _) = ''asr.commit''"
| "client_message_tag (CTtsVoices _ _) = ''tts.voices''"
| "client_message_tag (CTtsStart _ _) = ''tts.start''"
| "client_message_tag (CTtsInputAppend _ _) = ''tts.input.append''"
| "client_message_tag (CTtsCommit _) = ''tts.commit''"
| "client_message_tag (CSessionStop _) = ''session.stop''"
| "client_message_tag (CSessionCancel _) = ''session.cancel''"
| "client_message_tag (CPing _) = ''ping''"

section \<open>Client protocol: replies\<close>

record session_started_payload =
  ssp_domain :: capability_domain
  ssp_provider_id :: string
  ssp_accepted_input_format :: "audio_format option"
  ssp_accepted_output_format :: "audio_format option"
  ssp_input_mode :: "stream_mode option"
  ssp_output_mode :: "stream_mode option"

record asr_word_payload =
  awp_text :: string
  awp_start_ms :: "u64 option"
  awp_end_ms :: "u64 option"
  awp_is_final :: bool

record asr_result_payload =
  arp_segment_id :: u64
  arp_revision :: u64
  arp_text :: string
  arp_delta :: "string option"
  arp_is_final :: bool
  arp_speech_final :: bool
  arp_begin_time_ms :: "u64 option"
  arp_end_time_ms :: "u64 option"
  arp_words :: "asr_word_payload list"

record tts_audio_delta_payload =
  tad_chunk_id :: u64
  tad_audio_base64 :: string
  tad_is_final :: bool
  tad_format :: "audio_format option"

record tts_audio_done_payload =
  tdp_input_kind :: synthesis_input_kind
  tdp_total_chunks :: u64
  tdp_total_bytes :: u64

datatype server_message =
    SHelloOk "request_id option" hello_response
  | SDiscoverResult request_id "provider_descriptor list"
  | SSessionStarted "request_id option" session_id session_started_payload
  | SAsrResult session_id u64 asr_result_payload
  | STtsVoicesResult request_id "voice_descriptor list"
  | STtsAudioDelta session_id u64 tts_audio_delta_payload
  | STtsAudioDone session_id u64 tts_audio_done_payload
  | SSessionEnded session_id "string option"
  | SError "request_id option" "session_id option" error_info
  | SPong "request_id option"

fun server_message_tag :: "server_message \<Rightarrow> string" where
  "server_message_tag (SHelloOk _ _) = ''hello.ok''"
| "server_message_tag (SDiscoverResult _ _) = ''discover.result''"
| "server_message_tag (SSessionStarted _ _ _) = ''session.started''"
| "server_message_tag (SAsrResult _ _ _) = ''asr.result''"
| "server_message_tag (STtsVoicesResult _ _) = ''tts.voices.result''"
| "server_message_tag (STtsAudioDelta _ _ _) = ''tts.audio.delta''"
| "server_message_tag (STtsAudioDone _ _ _) = ''tts.audio.done''"
| "server_message_tag (SSessionEnded _ _) = ''session.ended''"
| "server_message_tag (SError _ _ _) = ''error''"
| "server_message_tag (SPong _) = ''pong''"

section \<open>Agent protocol\<close>

datatype agent_kind = AsrProviderAgent | DeviceAgent

fun agent_kind_text :: "agent_kind \<Rightarrow> string" where
  "agent_kind_text AsrProviderAgent = ''asr_provider''"
| "agent_kind_text DeviceAgent = ''device''"

record agent_device_identity =
  adi_device_id :: string
  adi_hostname :: "string option"
  adi_platform :: "string option"

record agent_update_status =
  aus_state :: "string option"
  aus_current_version :: "string option"
  aus_target_version :: "string option"
  aus_checked_at_unix_secs :: "u64 option"
  aus_applied :: "bool option"
  aus_restart_performed :: "bool option"
  aus_error :: "string option"

record agent_hello_payload =
  hel_agent_id :: string
  hel_agent_name :: string
  hel_provider_id :: "string option"
  hel_capabilities :: "string list"
  hel_capability_domains :: "capability_domain list"
  hel_agent_kind :: agent_kind
  hel_device :: "agent_device_identity option"
  hel_client_version :: "string option"
  hel_update_status :: "agent_update_status option"
  hel_shared_secret :: "string option"

record agent_snapshot =
  snap_agent_id :: string
  snap_agent_name :: string
  snap_provider_id :: "string option"
  snap_capabilities :: "string list"
  snap_capability_domains :: "capability_domain list"
  snap_agent_kind :: agent_kind
  snap_device :: "agent_device_identity option"
  snap_client_version :: "string option"
  snap_update_status :: "agent_update_status option"

datatype agent_task_state = TaskStarted | TaskFinished | TaskFailed

record agent_task_status =
  tst_state :: agent_task_state
  tst_message :: "string option"

datatype agent_to_gateway =
    AHello agent_hello_payload
  | ASessionStarted session_id string
  | AAsrPartial session_id string
  | AAsrFinal session_id transcript
  | ASessionEnded session_id "string option"
  | AError "session_id option" string
  | ATaskStatus string agent_task_status
  | APong

fun agent_to_gateway_tag :: "agent_to_gateway \<Rightarrow> string" where
  "agent_to_gateway_tag (AHello _) = ''agent.hello''"
| "agent_to_gateway_tag (ASessionStarted _ _) = ''session.started''"
| "agent_to_gateway_tag (AAsrPartial _ _) = ''asr.partial''"
| "agent_to_gateway_tag (AAsrFinal _ _) = ''asr.final''"
| "agent_to_gateway_tag (ASessionEnded _ _) = ''session.ended''"
| "agent_to_gateway_tag (AError _ _) = ''error''"
| "agent_to_gateway_tag (ATaskStatus _ _) = ''task.status''"
| "agent_to_gateway_tag APong = ''pong''"

datatype gateway_to_agent =
    GHelloOk string
  | GSessionStart session_id asr_stream_request
  | GSessionAudio session_id string
  | GSessionCommit session_id
  | GSessionStop session_id
  | GTaskPlayAudioStart string "audio_format option"
  | GTaskPlayAudioChunk string string
  | GTaskPlayAudioFinish string
  | GPing

fun gateway_to_agent_tag :: "gateway_to_agent \<Rightarrow> string" where
  "gateway_to_agent_tag (GHelloOk _) = ''agent.hello.ok''"
| "gateway_to_agent_tag (GSessionStart _ _) = ''session.start''"
| "gateway_to_agent_tag (GSessionAudio _ _) = ''session.audio''"
| "gateway_to_agent_tag (GSessionCommit _) = ''session.commit''"
| "gateway_to_agent_tag (GSessionStop _) = ''session.stop''"
| "gateway_to_agent_tag (GTaskPlayAudioStart _ _) = ''task.play_audio.start''"
| "gateway_to_agent_tag (GTaskPlayAudioChunk _ _) = ''task.play_audio.chunk''"
| "gateway_to_agent_tag (GTaskPlayAudioFinish _) = ''task.play_audio.finish''"
| "gateway_to_agent_tag GPing = ''ping''"

text \<open>The messages about one task.\<close>

fun about_task :: "string \<Rightarrow> gateway_to_agent \<Rightarrow> bool" where
  "about_task t (GTaskPlayAudioStart t' _) = (t' = t)"
| "about_task t (GTaskPlayAudioChunk t' _) = (t' = t)"
| "about_task t (GTaskPlayAudioFinish t') = (t' = t)"
| "about_task t _ = False"

section \<open>Control protocol\<close>

record control_play_audio =
  cpa_task_id :: "string option"
  cpa_device_id :: "string option"
  cpa_output_target :: "string option"
  cpa_agent_id :: "string option"
  cpa_format :: "audio_format option"
  cpa_audio_base64 :: string
  cpa_chunk_size_bytes :: "nat option"

record control_agent_status =
  cas_agent_id :: "string option"
  cas_device_id :: "string option"

datatype control_request =
    PlayAudio control_play_audio
  | DevicesList
  | AgentStatus control_agent_status

record control_play_audio_accepted =
  cac_task_id :: string
  cac_routed_agent_id :: string
  cac_chunk_count :: u64
  cac_total_bytes :: u64

datatype control_response =
    PlayAudioAccepted control_play_audio_accepted
  | DevicesListed "agent_snapshot list"
  | AgentStatusResult "agent_snapshot option"
  | ControlError string
  | ControlPong

fun control_request_tag :: "control_request \<Rightarrow> string" where
  "control_request_tag (PlayAudio _) = ''play_audio''"
| "control_request_tag DevicesList = ''devices.list''"
| "control_request_tag (AgentStatus _) = ''agent.status''"

fun control_response_tag :: "control_response \<Rightarrow> string" where
  "control_response_tag (PlayAudioAccepted _) = ''play_audio.accepted''"
| "control_response_tag (DevicesListed _) = ''devices.list''"
| "control_response_tag (AgentStatusResult _) = ''agent.status''"
| "control_response_tag (ControlError _) = ''error''"
| "control_response_tag ControlPong = ''pong''"

section \<open>WebSocket frames\<close>

text \<open>
  A frame of \<^verbatim>\<open>tokio_tungstenite\<close> as the handlers see it. A text frame carries the result
  of the JSON decoder, which is not under \<^verbatim>\<open>src/\<close>: the decoded message or the decoder's error text.
  \<open>ReadError\<close> is a frame whose read failed.
\<close>

datatype 'm frame =
    TextFrame "string + 'm"
  | BinaryFrame bytes
  | PingFrame bytes
  | PongFrame
  | CloseFrame
  | RawFrame
  | ReadError string

end
