(* ===== verification/DeviceModel.thy ===== *)
theory DeviceModel
  imports CoreTypes
begin

text \<open>
  The device aggregate of \<^verbatim>\<open>device/src/model.rs\<close>: a device owns audio endpoints, each with a
  direction, and is queried by endpoint id or by direction.
\<close>

datatype device_id = DeviceId string

datatype endpoint_id = EndpointId string

fun device_id_str :: "device_id \<Rightarrow> string" where
  "device_id_str (DeviceId s) = s"

datatype endpoint_direction = InputDir | OutputDir | DuplexDir

fun supports_input :: "endpoint_direction \<Rightarrow> bool" where
  "supports_input InputDir = True"
| "supports_input DuplexDir = True"
| "supports_input OutputDir = False"

fun supports_output :: "endpoint_direction \<Rightarrow> bool" where
  "supports_output OutputDir = True"
| "supports_output DuplexDir = True"
| "supports_output InputDir = False"

record audio_endpoint =
  ep_id :: endpoint_id
  ep_display_name :: "string option"
  ep_direction :: endpoint_direction
  ep_capabilities :: "string list"
  ep_supported_formats :: "audio_format list"

record device =
  dev_id :: device_id
  dev_hostname :: "string option"
  dev_platform :: "string option"
  dev_endpoints :: "audio_endpoint list"

definition device_from_legacy :: "string \<Rightarrow> string option \<Rightarrow> string option \<Rightarrow> device" where
  "device_from_legacy did host plat =
     \<lparr>dev_id = DeviceId did, dev_hostname = host, dev_platform = plat,
      dev_endpoints =
        [\<lparr>ep_id = EndpointId ''default'', ep_display_name = Some ''Default Endpoint'',
          ep_direction = DuplexDir, ep_capabilities = [''speaker'', ''microphone''],
          ep_supported_formats = []\<rparr>]\<rparr>"

definition device_endpoint :: "device \<Rightarrow> endpoint_id \<Rightarrow> audio_endpoint option" where
  "device_endpoint d e = find (\<lambda>ep. ep_id ep = e) (dev_endpoints d)"

definition endpoints_by_direction :: "device \<Rightarrow> endpoint_direction \<Rightarrow> audio_endpoint list" where
  "endpoints_by_direction d dir = filter (\<lambda>ep. ep_direction ep = dir) (dev_endpoints d)"

definition output_endpoints :: "device \<Rightarrow> audio_endpoint list" where
  "output_endpoints d = filter (\<lambda>ep. supports_output (ep_direction ep)) (dev_endpoints d)"

definition input_endpoints :: "device \<Rightarrow> audio_endpoint list" where
  "input_endpoints d = filter (\<lambda>ep. supports_input (ep_direction ep)) (dev_endpoints d)"

lemma supports_input_iff: "supports_input d \<longleftrightarrow> d \<noteq> OutputDir"
  by (cases d) auto

lemma supports_output_iff: "supports_output d \<longleftrightarrow> d \<noteq> InputDir"
  by (cases d) auto

lemma direction_cover: "supports_input d \<or> supports_output d"
  by (cases d) auto

lemma set_endpoints_split:
  "set (input_endpoints d) \<union> set (output_endpoints d) = set (dev_endpoints d)"
  using direction_cover by (auto simp: input_endpoints_def output_endpoints_def)

lemma duplex_in_both:
  "set (input_endpoints d) \<inter> set (output_endpoints d) = set (endpoints_by_direction d DuplexDir)"
  by (auto simp: input_endpoints_def output_endpoints_def endpoints_by_direction_def
      supports_input_iff supports_output_iff intro: endpoint_direction.exhaust)

lemma device_endpoint_found:
  "device_endpoint d e = Some ep \<Longrightarrow> ep \<in> set (dev_endpoints d) \<and> ep_id ep = e"
  by (auto simp: device_endpoint_def find_Some_iff)

lemma legacy_endpoint_default:
  "device_endpoint (device_from_legacy i h p) e \<noteq> None \<longleftrightarrow> e = EndpointId ''default''"
  by (auto simp: device_endpoint_def device_from_legacy_def)

end
