(* ===== verification/DeviceRegistry.thy ===== *)
theory DeviceRegistry
  imports Protocol DeviceModel
begin

text \<open>
  The generic agent registry of \<^verbatim>\<open>device/src/registry.rs\<close>: registered agents and the routes of
  their tasks. Every method locks the inner state once, so each is one atomic function
  of it. Iteration over a hash map takes the iteration order as an argument.
\<close>

section \<open>Route tables\<close>

text \<open>
  The contract shared by the tables that route by key: task routes here, session routes
  and task waiters in the agent hub, channels of a local agent.
\<close>

locale route_table =
  fixes lookup :: "'s \<Rightarrow> 'k \<Rightarrow> 'v option"
    and put :: "'k \<Rightarrow> 'v \<Rightarrow> 's \<Rightarrow> 's"
    and del :: "'k \<Rightarrow> 's \<Rightarrow> 's"
  assumes lookup_put: "lookup (put k v s) j = (if j = k then Some v else lookup s j)"
    and lookup_del: "lookup (del k s) j = (if j = k then None else lookup s j)"

context route_table begin

lemma lookup_del_all: "lookup (fold del ks s) j = (if j \<in> set ks then None else lookup s j)"
  by (induction ks arbitrary: s) (auto simp: lookup_del)

lemma lookup_del_put: "lookup (del k (put k v s)) j = lookup (del k s) j"
  by (simp add: lookup_put lookup_del)

lemma lookup_del_same [simp]: "lookup (del k s) k = None"
  by (simp add: lookup_del)

end

section \<open>Agents, snapshots and filters\<close>

datatype reg_agent_kind = RAsrProvider | RDevice

record reg_device_identity =
  rdi_device_id :: string
  rdi_hostname :: "string option"
  rdi_platform :: "string option"

record registered_agent =
  ra_agent_id :: string
  ra_agent_name :: string
  ra_provider_id :: "string option"
  ra_capabilities :: "string list"
  ra_capability_domains :: "capability_domain list"
  ra_agent_kind :: reg_agent_kind
  ra_client_version :: "string option"
  ra_update_status :: "agent_update_status option"
  ra_device :: "reg_device_identity option"
  ra_device_info :: "device option"
  ra_command_tx :: nat

record reg_agent_snapshot =
  rs_agent_id :: string
  rs_agent_name :: string
  rs_provider_id :: "string option"
  rs_capabilities :: "string list"
  rs_capability_domains :: "capability_domain list"
  rs_agent_kind :: reg_agent_kind
  rs_client_version :: "string option"
  rs_update_status :: "agent_update_status option"
  rs_device :: "reg_device_identity option"
  rs_device_info :: "device option"

definition snapshot_from_agent :: "registered_agent \<Rightarrow> reg_agent_snapshot" where
  "snapshot_from_agent a =
     \<lparr>rs_agent_id = ra_agent_id a, rs_agent_name = ra_agent_name a,
      rs_provider_id = ra_provider_id a, rs_capabilities = ra_capabilities a,
      rs_capability_domains = ra_capability_domains a, rs_agent_kind = ra_agent_kind a,
      rs_client_version = ra_client_version a, rs_update_status = ra_update_status a,
      rs_device = ra_device a, rs_device_info = ra_device_info a\<rparr>"

text \<open>The device id an agent answers to: the new device record first, then the legacy one.\<close>

definition agent_device_id :: "registered_agent \<Rightarrow> string option" where
  "agent_device_id a =
     or_else (map_option (\<lambda>info. device_id_str (dev_id info)) (ra_device_info a))
             (map_option rdi_device_id (ra_device a))"

record snapshot_filter =
  sf_agent_id :: "string option"
  sf_device_id :: "string option"

definition snapshot_filter_default :: snapshot_filter where
  "snapshot_filter_default = \<lparr>sf_agent_id = None, sf_device_id = None\<rparr>"

definition filter_matches :: "snapshot_filter \<Rightarrow> registered_agent \<Rightarrow> bool" where
  "filter_matches f a =
     (if (case sf_agent_id f of Some i \<Rightarrow> ra_agent_id a \<noteq> i | None \<Rightarrow> False) then False
      else if (case sf_device_id f of Some d \<Rightarrow> agent_device_id a \<noteq> Some d | None \<Rightarrow> False) then False
      else True)"

section \<open>State\<close>

record task_route =
  tkr_agent_id :: string

record registry =
  reg_secret :: "string option"
  reg_agents :: "string \<rightharpoonup> registered_agent"
  reg_tasks :: "string \<rightharpoonup> task_route"

definition registry_new :: "string option \<Rightarrow> registry" where
  "registry_new secret = \<lparr>reg_secret = secret, reg_agents = Map.empty, reg_tasks = Map.empty\<rparr>"

section \<open>Operations\<close>

definition put_task :: "string \<Rightarrow> task_route \<Rightarrow> registry \<Rightarrow> registry" where
  "put_task t route r = r\<lparr>reg_tasks := (reg_tasks r)(t \<mapsto> route)\<rparr>"

text \<open>\<open>ord\<close> is the iteration order of the task map; the first result is the list of orphaned tasks.\<close>

definition drop_task :: "string \<Rightarrow> registry \<Rightarrow> registry" where
  "drop_task t r = r\<lparr>reg_tasks := (reg_tasks r)(t := None)\<rparr>"

definition remove_agent_tasks_locked ::
  "string list \<Rightarrow> string \<Rightarrow> registry \<Rightarrow> string list \<times> registry" where
  "remove_agent_tasks_locked ord aid r =
     (let r1 = r\<lparr>reg_agents := (reg_agents r)(aid := None)\<rparr>;
          orphaned = map fst (filter (\<lambda>(t, route). tkr_agent_id route = aid)
                                     (map_entries ord (reg_tasks r1)))
      in (orphaned, fold drop_task orphaned r1))"

definition reg_register_agent ::
  "string list \<Rightarrow> registered_agent \<Rightarrow> registry \<Rightarrow> string list \<times> registry" where
  "reg_register_agent ord a r =
     (let (orphaned, r1) =
            (if reg_agents r (ra_agent_id a) \<noteq> None
             then remove_agent_tasks_locked ord (ra_agent_id a) r
             else ([], r))
      in (orphaned, r1\<lparr>reg_agents := (reg_agents r1)(ra_agent_id a \<mapsto> a)\<rparr>))"

definition reg_unregister_agent :: "string list \<Rightarrow> string \<Rightarrow> registry \<Rightarrow> string list \<times> registry" where
  "reg_unregister_agent ord aid r = remove_agent_tasks_locked ord aid r"

text \<open>Selections iterate over the agents; \<open>ord\<close> is the iteration order of the agent map.\<close>

definition reg_select_agent :: "string list \<Rightarrow> string \<Rightarrow> registry \<Rightarrow> registered_agent option" where
  "reg_select_agent ord pid r =
     find (\<lambda>a. ra_provider_id a = Some pid) (map_values ord (reg_agents r))"

definition speaker_matches :: "string option \<Rightarrow> string option \<Rightarrow> registered_agent \<Rightarrow> bool" where
  "speaker_matches did aid a =
     (if ra_agent_kind a \<noteq> RDevice then False
      else if \<not> (list_ex (\<lambda>c. c = ''speaker'') (ra_capabilities a)
                 \<or> list_ex (\<lambda>d. d = Tts) (ra_capability_domains a)) then False
      else if (case aid of Some i \<Rightarrow> ra_agent_id a \<noteq> i | None \<Rightarrow> False) then False
      else if (case did of Some d \<Rightarrow> agent_device_id a \<noteq> Some d | None \<Rightarrow> False) then False
      else True)"

definition reg_select_speaker_agent ::
  "string list \<Rightarrow> string option \<Rightarrow> string option \<Rightarrow> registry \<Rightarrow> registered_agent option" where
  "reg_select_speaker_agent ord did aid r =
     find (speaker_matches did aid) (map_values ord (reg_agents r))"

definition reg_register_task :: "string \<Rightarrow> string \<Rightarrow> registry \<Rightarrow> string + registry" where
  "reg_register_task tid aid r =
     (if reg_tasks r tid \<noteq> None then Err (''task_id '' @ tid @ '' is already active'')
      else Ok (put_task tid \<lparr>tkr_agent_id = aid\<rparr> r))"

definition reg_remove_task :: "string \<Rightarrow> registry \<Rightarrow> task_route option \<times> registry" where
  "reg_remove_task tid r = (reg_tasks r tid, drop_task tid r)"

definition reg_task_agent_id :: "string \<Rightarrow> registry \<Rightarrow> string option" where
  "reg_task_agent_id tid r = map_option tkr_agent_id (reg_tasks r tid)"

definition reg_agent_command_tx :: "string \<Rightarrow> registry \<Rightarrow> nat option" where
  "reg_agent_command_tx aid r = map_option ra_command_tx (reg_agents r aid)"

definition reg_get_registered_agent :: "string \<Rightarrow> registry \<Rightarrow> registered_agent option" where
  "reg_get_registered_agent aid r = reg_agents r aid"

definition reg_snapshot :: "string list \<Rightarrow> snapshot_filter \<Rightarrow> registry \<Rightarrow> reg_agent_snapshot list" where
  "reg_snapshot ord f r =
     map snapshot_from_agent (filter (filter_matches f) (map_values ord (reg_agents r)))"

section \<open>The task table\<close>

interpretation task_table: route_table reg_tasks put_task drop_task
  by unfold_locales (simp_all add: put_task_def drop_task_def)

lemma task_update_frame [simp]:
  "reg_agents (put_task t route r) = reg_agents r"
  "reg_agents (drop_task t r) = reg_agents r"
  "reg_secret (put_task t route r) = reg_secret r"
  "reg_secret (drop_task t r) = reg_secret r"
  by (simp_all add: put_task_def drop_task_def)

lemma fold_drop_task_frame [simp]:
  "reg_agents (fold drop_task ts r) = reg_agents r"
  "reg_secret (fold drop_task ts r) = reg_secret r"
  by (induction ts arbitrary: r) auto

definition routed_to :: "string \<Rightarrow> registry \<Rightarrow> string set" where
  "routed_to aid r = {t. \<exists>route. reg_tasks r t = Some route \<and> tkr_agent_id route = aid}"

lemma distinct_map_entries: "distinct ks \<Longrightarrow> distinct (map fst (map_entries ks m))"
proof (induction ks)
  case Nil
  then show ?case by (simp add: map_entries_def List.map_filter_simps)
next
  case (Cons k ks)
  have "fst ` set (map_entries ks m) \<subseteq> set ks"
    by (auto simp: map_entries_def map_filter_set)
  with Cons show ?case
    by (auto simp: map_entries_def List.map_filter_simps split: option.splits)
qed

lemma distinct_map_filter_fst: "distinct (map fst xs) \<Longrightarrow> distinct (map fst (filter P xs))"
  by (induction xs) auto

lemma orphans_of_agent:
  assumes "enumerates ord (reg_tasks r)" and "remove_agent_tasks_locked ord aid r = (os, r')"
  shows "set os = routed_to aid r" and "distinct os"
proof -
  have os: "os = map fst (filter (\<lambda>(t, route). tkr_agent_id route = aid)
                           (map_entries ord (reg_tasks r)))"
    using assms(2) by (auto simp: remove_agent_tasks_locked_def Let_def)
  show "set os = routed_to aid r"
    using set_map_entries [OF assms(1)] by (force simp: os routed_to_def)
  from assms(1) have "distinct (map fst (map_entries ord (reg_tasks r)))"
    by (auto simp: enumerates_def intro: distinct_map_entries)
  then show "distinct os"
    by (simp add: os distinct_map_filter_fst)
qed

lemma remove_agent_state:
  assumes "enumerates ord (reg_tasks r)" "remove_agent_tasks_locked ord aid r = (os, r')"
  shows "reg_agents r' = (reg_agents r)(aid := None)"
    and "reg_tasks r' t = (if t \<in> routed_to aid r then None else reg_tasks r t)"
    and "reg_secret r' = reg_secret r"
proof -
  have set_os: "set os = routed_to aid r"
    using orphans_of_agent [OF assms] by simp
  have r': "r' = fold drop_task os (r\<lparr>reg_agents := (reg_agents r)(aid := None)\<rparr>)"
    using assms(2) by (auto simp: remove_agent_tasks_locked_def Let_def)
  show "reg_agents r' = (reg_agents r)(aid := None)" and "reg_secret r' = reg_secret r"
    by (simp_all add: r')
  show "reg_tasks r' t = (if t \<in> routed_to aid r then None else reg_tasks r t)"
    by (simp add: r' task_table.lookup_del_all set_os)
qed

section \<open>Well-formedness\<close>

text \<open>Agents are stored under their own id.\<close>

definition registry_wf :: "registry \<Rightarrow> bool" where
  "registry_wf r \<longleftrightarrow> (\<forall>k a. reg_agents r k = Some a \<longrightarrow> ra_agent_id a = k)"

lemma registry_wf_new: "registry_wf (registry_new s)"
  by (simp add: registry_wf_def registry_new_def)

lemma reg_agents_remove [simp]:
  "reg_agents (snd (remove_agent_tasks_locked ord aid r)) = (reg_agents r)(aid := None)"
  by (simp add: remove_agent_tasks_locked_def Let_def)

lemma reg_agents_remove_pair:
  "remove_agent_tasks_locked ord aid r = (os, r') \<Longrightarrow> reg_agents r' = (reg_agents r)(aid := None)"
  using reg_agents_remove [of ord aid r] by simp

lemma reg_agents_register:
  "reg_agents (snd (reg_register_agent ord a r)) = (reg_agents r)(ra_agent_id a \<mapsto> a)"
  by (auto simp: reg_register_agent_def reg_agents_remove_pair split: prod.splits)

lemma registry_wf_register: "registry_wf r \<Longrightarrow> registry_wf (snd (reg_register_agent ord a r))"
  by (simp add: registry_wf_def reg_agents_register)

lemma registry_wf_unregister: "registry_wf r \<Longrightarrow> registry_wf (snd (reg_unregister_agent ord aid r))"
  by (simp add: registry_wf_def reg_unregister_agent_def)

lemma registry_wf_task_ops:
  "registry_wf (put_task t route r) = registry_wf r"
  "registry_wf (drop_task t r) = registry_wf r"
  by (simp_all add: registry_wf_def)

section \<open>Selection\<close>

lemma select_speaker_matches:
  assumes "reg_select_speaker_agent ord did aid r = Some a"
  shows "a \<in> ran (reg_agents r)" and "speaker_matches did aid a"
  using assms set_map_values_subset [of ord "reg_agents r"]
  by (auto simp: reg_select_speaker_agent_def elim!: find_SomeE)

lemma speaker_matches_iff:
  "speaker_matches did aid a \<longleftrightarrow>
     ra_agent_kind a = RDevice \<and>
     (''speaker'' \<in> set (ra_capabilities a) \<or> Tts \<in> set (ra_capability_domains a)) \<and>
     (\<forall>i. aid = Some i \<longrightarrow> ra_agent_id a = i) \<and>
     (\<forall>d. did = Some d \<longrightarrow> agent_device_id a = Some d)"
  by (auto simp: speaker_matches_def list_ex_iff split: option.splits if_splits)

lemma filter_matches_iff:
  "filter_matches f a \<longleftrightarrow>
     (\<forall>i. sf_agent_id f = Some i \<longrightarrow> ra_agent_id a = i) \<and>
     (\<forall>d. sf_device_id f = Some d \<longrightarrow> agent_device_id a = Some d)"
  by (auto simp: filter_matches_def split: option.splits if_splits)

lemma select_speaker_None:
  assumes "enumerates ord (reg_agents r)"
  shows "reg_select_speaker_agent ord did aid r = None \<longleftrightarrow>
           (\<forall>a \<in> ran (reg_agents r). \<not> speaker_matches did aid a)"
  using set_map_values [OF assms] by (auto simp: reg_select_speaker_agent_def find_None_iff)

lemma select_agent_Some:
  assumes "reg_select_agent ord pid r = Some a"
  shows "a \<in> ran (reg_agents r)" and "ra_provider_id a = Some pid"
  using assms set_map_values_subset [of ord "reg_agents r"]
  by (auto simp: reg_select_agent_def elim!: find_SomeE)

lemma set_reg_snapshot:
  assumes "enumerates ord (reg_agents r)"
  shows "set (reg_snapshot ord f r) =
           snapshot_from_agent ` {a \<in> ran (reg_agents r). filter_matches f a}"
  using set_map_values [OF assms] by (auto simp: reg_snapshot_def)

section \<open>Properties\<close>

text \<open>C5: Unregistering an agent removes that agent and exactly the tasks routed to it, whatever
  order the task table is iterated in: the returned list holds each of those tasks once, their
  routes are gone, and every other agent and route is kept.\<close>

theorem unregister_agent_exact:
  assumes "enumerates ord (reg_tasks r)"
    and "reg_unregister_agent ord aid r = (orphaned, r')"
  shows "set orphaned = routed_to aid r \<and> distinct orphaned \<and>
         reg_agents r' = (reg_agents r)(aid := None) \<and>
         (\<forall>t. reg_tasks r' t = (if t \<in> routed_to aid r then None else reg_tasks r t))"
  using orphans_of_agent [OF assms(1) assms(2) [unfolded reg_unregister_agent_def]]
    remove_agent_state [OF assms(1) assms(2) [unfolded reg_unregister_agent_def]]
  by simp

definition demo_agent :: registered_agent where
  "demo_agent =
     \<lparr>ra_agent_id = ''a1'', ra_agent_name = ''Speaker'', ra_provider_id = Some ''device.speaker'',
      ra_capabilities = [''speaker''], ra_capability_domains = [Tts], ra_agent_kind = RDevice,
      ra_client_version = None, ra_update_status = None,
      ra_device = Some \<lparr>rdi_device_id = ''mac03'', rdi_hostname = None, rdi_platform = None\<rparr>,
      ra_device_info = None, ra_command_tx = 1\<rparr>"

definition demo_registry :: registry where
  "demo_registry =
     \<lparr>reg_secret = None, reg_agents = [''a1'' \<mapsto> demo_agent],
      reg_tasks = [''t1'' \<mapsto> \<lparr>tkr_agent_id = ''a1''\<rparr>, ''t2'' \<mapsto> \<lparr>tkr_agent_id = ''b''\<rparr>]\<rparr>"

lemma demo_registry_tasks_order: "enumerates [''t2'', ''t1''] (reg_tasks demo_registry)"
  by (auto simp: enumerates_def demo_registry_def)

lemma demo_routed: "routed_to ''a1'' demo_registry = {''t1''}"
  by (auto simp: routed_to_def demo_registry_def split: if_splits)

theorem unregister_agent_exact_witness:
  "set (fst (reg_unregister_agent [''t2'', ''t1''] ''a1'' demo_registry)) = {''t1''} \<and>
   reg_tasks (snd (reg_unregister_agent [''t2'', ''t1''] ''a1'' demo_registry)) ''t2'' =
     Some \<lparr>tkr_agent_id = ''b''\<rparr>"
proof -
  let ?p = "reg_unregister_agent [''t2'', ''t1''] ''a1'' demo_registry"
  have "reg_tasks demo_registry ''t2'' = Some \<lparr>tkr_agent_id = ''b''\<rparr>"
    by (simp add: demo_registry_def)
  moreover have p: "?p = (fst ?p, snd ?p)" by (rule surjective_pairing)
  have "''t2'' \<notin> {''t1''}" by simp
  ultimately show ?thesis
    using unregister_agent_exact [OF demo_registry_tasks_order p, unfolded demo_routed]
    by presburger
qed

text \<open>C14: Selecting a speaker is sound and complete for every iteration order of the table. The rule, in terms of
  the fields: a device agent that has the capability tag \<open>speaker\<close> or the TTS domain (either is
  enough), with the requested agent id, if one is requested, and with the requested device id, if one is
  requested, where the id of the new device information counts and the old device identity only where there is none. An
  agent is selected if and only if some registered agent meets the rule, and then one that meets it.\<close>

theorem select_speaker_sound_complete:
  assumes "enumerates ord (reg_agents r)"
  shows "let fits = (\<lambda>a. a \<in> ran (reg_agents r) \<and> ra_agent_kind a = RDevice \<and>
            (''speaker'' \<in> set (ra_capabilities a) \<or> Tts \<in> set (ra_capability_domains a)) \<and>
            (aid = None \<or> aid = Some (ra_agent_id a)) \<and>
            (did = None \<or>
             did = (case ra_device_info a of
                      Some info \<Rightarrow> Some (device_id_str (dev_id info))
                    | None \<Rightarrow> map_option rdi_device_id (ra_device a))))
         in (\<forall>a. reg_select_speaker_agent ord did aid r = Some a \<longrightarrow> fits a) \<and>
            (reg_select_speaker_agent ord did aid r = None \<longleftrightarrow> (\<nexists>a. fits a))"
proof -
  have "agent_device_id a = (case ra_device_info a of
          Some info \<Rightarrow> Some (device_id_str (dev_id info))
        | None \<Rightarrow> map_option rdi_device_id (ra_device a))" for a
    by (simp add: agent_device_id_def split: option.split)
  then have matches: "speaker_matches did aid a \<longleftrightarrow> ra_agent_kind a = RDevice \<and>
            (''speaker'' \<in> set (ra_capabilities a) \<or> Tts \<in> set (ra_capability_domains a)) \<and>
            (aid = None \<or> aid = Some (ra_agent_id a)) \<and>
            (did = None \<or>
             did = (case ra_device_info a of
                      Some info \<Rightarrow> Some (device_id_str (dev_id info))
                    | None \<Rightarrow> map_option rdi_device_id (ra_device a)))" for a
    unfolding speaker_matches_iff by (cases aid; cases did) auto
  show ?thesis
    unfolding Let_def matches [symmetric]
    using select_speaker_matches [of ord did aid r] select_speaker_None [OF assms, of did aid] by blast
qed

text \<open>A device found by its TTS domain alone and by its old device identity; the other one has neither.\<close>

definition demo_tts_agent :: registered_agent where
  "demo_tts_agent = demo_agent\<lparr>ra_capabilities := [], ra_capability_domains := [Tts]\<rparr>"

definition demo_mute_agent :: registered_agent where
  "demo_mute_agent = demo_agent\<lparr>ra_agent_id := ''a2'', ra_capabilities := [], ra_capability_domains := [Asr]\<rparr>"

definition demo_speakers :: registry where
  "demo_speakers = demo_registry\<lparr>reg_agents := [''a2'' \<mapsto> demo_mute_agent, ''a1'' \<mapsto> demo_tts_agent]\<rparr>"

theorem select_speaker_sound_complete_witness:
  "reg_select_speaker_agent [''a2'', ''a1''] (Some ''mac03'') None demo_speakers = Some demo_tts_agent \<and>
   reg_select_speaker_agent [''a2'', ''a1''] (Some ''mac03'') (Some ''a2'') demo_speakers = None"
proof -
  have ord: "enumerates [''a2'', ''a1''] (reg_agents demo_speakers)"
    by (auto simp: enumerates_def demo_speakers_def)
  have ran: "ran (reg_agents demo_speakers) = {demo_tts_agent, demo_mute_agent}"
    by (simp add: demo_speakers_def ran_map_upd)
  have ids: "ra_agent_id demo_tts_agent = ''a1''" "''speaker'' \<notin> set (ra_capabilities demo_mute_agent)"
    "Tts \<notin> set (ra_capability_domains demo_mute_agent)" "ra_agent_kind demo_tts_agent = RDevice"
    "Tts \<in> set (ra_capability_domains demo_tts_agent)"
    "ra_device_info demo_tts_agent = None" "map_option rdi_device_id (ra_device demo_tts_agent) = Some ''mac03''"
    by (simp_all add: demo_tts_agent_def demo_mute_agent_def demo_agent_def)
  have "reg_select_speaker_agent [''a2'', ''a1''] (Some ''mac03'') (Some ''a2'') demo_speakers = None"
  proof (rule ccontr)
    assume "reg_select_speaker_agent [''a2'', ''a1''] (Some ''mac03'') (Some ''a2'') demo_speakers \<noteq> None"
    then obtain a where a: "reg_select_speaker_agent [''a2'', ''a1''] (Some ''mac03'') (Some ''a2'') demo_speakers = Some a"
      by blast
    note fits = select_speaker_sound_complete [OF ord, unfolded Let_def ran, THEN conjunct1, rule_format, OF a]
    from fits have "a = demo_tts_agent \<or> a = demo_mute_agent" by blast
    with fits ids show False by auto
  qed
  moreover have "reg_select_speaker_agent [''a2'', ''a1''] (Some ''mac03'') None demo_speakers \<noteq> None"
  proof
    assume n: "reg_select_speaker_agent [''a2'', ''a1''] (Some ''mac03'') None demo_speakers = None"
    have "(case ra_device_info demo_tts_agent of
            Some info \<Rightarrow> Some (device_id_str (dev_id info))
          | None \<Rightarrow> map_option rdi_device_id (ra_device demo_tts_agent)) = Some ''mac03''"
      unfolding ids by simp
    note fits = this ids
    note none = iffD1 [OF conjunct2 [OF select_speaker_sound_complete [OF ord, where did = "Some ''mac03''" and aid = None, unfolded Let_def ran]] n]
    show False by (rule notE [OF none], rule exI [of _ demo_tts_agent]) (simp only: fits, simp)
  qed
  moreover have "a = demo_tts_agent"
    if a: "reg_select_speaker_agent [''a2'', ''a1''] (Some ''mac03'') None demo_speakers = Some a" for a
  proof -
    note fits = select_speaker_sound_complete [OF ord, unfolded Let_def ran, THEN conjunct1, rule_format, OF a]
    from fits have "a = demo_tts_agent \<or> a = demo_mute_agent" by blast
    with fits ids show ?thesis by blast
  qed
  ultimately show ?thesis by blast
qed

end
