(* ===== verification/DeviceRouter.thy ===== *)
theory DeviceRouter
  imports DeviceRegistry
begin

text \<open>
  Endpoint-level routing, \<^verbatim>\<open>device/src/router.rs\<close>. A selection takes a snapshot under one lock
  and looks the agent up again under another; \<open>r\<close> is the registry at the snapshot and
  \<open>r'\<close> the one at the lookups, so an agent may vanish in between.
\<close>

record route_match =
  rm_agent :: registered_agent
  rm_endpoint_id :: "endpoint_id option"

definition device_filter :: "device_id \<Rightarrow> snapshot_filter" where
  "device_filter did = snapshot_filter_default\<lparr>sf_device_id := Some (device_id_str did)\<rparr>"

fun find_with_endpoint_loop ::
  "device_id \<Rightarrow> endpoint_id option \<Rightarrow> registry \<Rightarrow> reg_agent_snapshot list \<Rightarrow> registered_agent option" where
  "find_with_endpoint_loop did ep r' [] = None"
| "find_with_endpoint_loop did ep r' (s # ss) =
     (case rs_device_info s of
        Some info \<Rightarrow>
          (case ep of
             Some e \<Rightarrow> (if device_endpoint info e \<noteq> None
                        then reg_get_registered_agent (rs_agent_id s) r'
                        else find_with_endpoint_loop did ep r' ss)
           | None \<Rightarrow> reg_get_registered_agent (rs_agent_id s) r')
      | None \<Rightarrow>
          (if map_option rdi_device_id (rs_device s) = Some (device_id_str did)
           then reg_get_registered_agent (rs_agent_id s) r'
           else find_with_endpoint_loop did ep r' ss))"

definition find_agent_with_endpoint ::
  "string list \<Rightarrow> device_id \<Rightarrow> endpoint_id option \<Rightarrow> registry \<Rightarrow> registry \<Rightarrow> registered_agent option" where
  "find_agent_with_endpoint ord did ep r r' =
     find_with_endpoint_loop did ep r' (reg_snapshot ord (device_filter did) r)"

definition select_by_endpoint ::
  "string list \<Rightarrow> device_id \<Rightarrow> endpoint_id \<Rightarrow> registry \<Rightarrow> registry \<Rightarrow> route_match option" where
  "select_by_endpoint ord did e r r' =
     (case find_agent_with_endpoint ord did (Some e) r r' of
        None \<Rightarrow> None
      | Some a \<Rightarrow> Some \<lparr>rm_agent = a, rm_endpoint_id = Some e\<rparr>)"

definition direction_compatible :: "endpoint_direction \<Rightarrow> audio_endpoint \<Rightarrow> bool" where
  "direction_compatible dir ep \<longleftrightarrow>
     ep_direction ep = dir
     \<or> (dir = OutputDir \<and> ep_direction ep = DuplexDir)
     \<or> (dir = InputDir \<and> ep_direction ep = DuplexDir)"

fun find_by_direction_loop ::
  "device_id \<Rightarrow> endpoint_direction \<Rightarrow> registry \<Rightarrow> reg_agent_snapshot list \<Rightarrow> route_match option" where
  "find_by_direction_loop did dir r' [] = None"
| "find_by_direction_loop did dir r' (s # ss) =
     (case rs_device_info s of
        Some info \<Rightarrow>
          (case find (direction_compatible dir) (dev_endpoints info) of
             Some ep \<Rightarrow>
               (case reg_get_registered_agent (rs_agent_id s) r' of
                  Some a \<Rightarrow> Some \<lparr>rm_agent = a, rm_endpoint_id = Some (ep_id ep)\<rparr>
                | None \<Rightarrow> find_by_direction_loop did dir r' ss)
           | None \<Rightarrow> find_by_direction_loop did dir r' ss)
      | None \<Rightarrow>
          (if map_option rdi_device_id (rs_device s) = Some (device_id_str did)
           then (case reg_get_registered_agent (rs_agent_id s) r' of
                   Some a \<Rightarrow> Some \<lparr>rm_agent = a, rm_endpoint_id = None\<rparr>
                 | None \<Rightarrow> find_by_direction_loop did dir r' ss)
           else find_by_direction_loop did dir r' ss))"

definition find_agent_by_direction ::
  "string list \<Rightarrow> device_id \<Rightarrow> endpoint_direction \<Rightarrow> registry \<Rightarrow> registry \<Rightarrow> route_match option" where
  "find_agent_by_direction ord did dir r r' =
     find_by_direction_loop did dir r' (reg_snapshot ord (device_filter did) r)"

definition select_by_direction ::
  "string list \<Rightarrow> device_id \<Rightarrow> endpoint_direction \<Rightarrow> registry \<Rightarrow> registry \<Rightarrow> route_match option" where
  "select_by_direction ord did dir r r' = find_agent_by_direction ord did dir r r'"

section \<open>Lemmas\<close>

text \<open>A snapshot taken under the device filter comes from an agent that answers to the device.\<close>

definition snapshot_of_device :: "device_id \<Rightarrow> registry \<Rightarrow> reg_agent_snapshot \<Rightarrow> bool" where
  "snapshot_of_device did r s \<longleftrightarrow>
     (\<exists>a \<in> ran (reg_agents r). s = snapshot_from_agent a \<and> agent_device_id a = Some (device_id_str did))"

lemma device_snapshots:
  "s \<in> set (reg_snapshot ord (device_filter did) r) \<Longrightarrow> snapshot_of_device did r s"
  using set_map_values_subset [of ord "reg_agents r"]
  by (auto simp: reg_snapshot_def snapshot_of_device_def filter_matches_iff device_filter_def
      snapshot_filter_default_def)

lemma direction_compatible_supports:
  "direction_compatible InputDir ep = supports_input (ep_direction ep)"
  "direction_compatible OutputDir ep = supports_output (ep_direction ep)"
  "direction_compatible DuplexDir ep = (ep_direction ep = DuplexDir)"
  by (cases "ep_direction ep"; simp add: direction_compatible_def)+

lemma lookup_same_agent:
  "registry_wf r \<Longrightarrow> a \<in> ran (reg_agents r) \<Longrightarrow> reg_get_registered_agent (ra_agent_id a) r = Some a"
  by (auto simp: ran_def registry_wf_def reg_get_registered_agent_def)

lemma by_direction_loop_sound:
  assumes "find_by_direction_loop did dir r ss = Some m"
    and "\<And>s. s \<in> set ss \<Longrightarrow> snapshot_of_device did r s" and "registry_wf r"
  shows "rm_agent m \<in> ran (reg_agents r) \<and> agent_device_id (rm_agent m) = Some (device_id_str did) \<and>
         (case rm_endpoint_id m of
            Some e \<Rightarrow> \<exists>info. ra_device_info (rm_agent m) = Some info \<and>
                       (\<exists>ep \<in> set (dev_endpoints info). ep_id ep = e \<and> direction_compatible dir ep)
          | None \<Rightarrow> ra_device_info (rm_agent m) = None)"
  using assms(1,2)
proof (induction ss)
  case Nil
  then show ?case by simp
next
  case (Cons s ss)
  from Cons.prems(2) obtain a where a: "a \<in> ran (reg_agents r)" "s = snapshot_from_agent a"
    "agent_device_id a = Some (device_id_str did)" by (auto simp: snapshot_of_device_def)
  have get: "reg_get_registered_agent (rs_agent_id s) r = Some a"
    using lookup_same_agent [OF assms(3) a(1)] a(2) by (simp add: snapshot_from_agent_def)
  have info: "rs_device_info s = ra_device_info a" by (simp add: a(2) snapshot_from_agent_def)
  show ?case
  proof (cases "ra_device_info a")
    case None
    then show ?thesis using Cons a get info by (auto split: if_splits)
  next
    case (Some i)
    then show ?thesis
      using Cons a get info by (auto split: option.splits elim!: find_SomeE)
  qed
qed

text \<open>An agent that can serve a direction: a legacy agent always, another by an endpoint.\<close>

definition agent_serves :: "endpoint_direction \<Rightarrow> registered_agent \<Rightarrow> bool" where
  "agent_serves dir a \<longleftrightarrow>
     (case ra_device_info a of
        Some info \<Rightarrow> \<exists>ep \<in> set (dev_endpoints info). direction_compatible dir ep
      | None \<Rightarrow> True)"

lemma by_direction_loop_None:
  assumes "find_by_direction_loop did dir r ss = None" and "registry_wf r"
    and "a \<in> ran (reg_agents r)" "snapshot_from_agent a \<in> set ss"
    and "agent_device_id a = Some (device_id_str did)"
  shows "\<not> agent_serves dir a"
  using assms(1,4)
proof (induction ss)
  case Nil
  then show ?case by simp
next
  case (Cons s ss)
  show ?case
  proof (cases "s = snapshot_from_agent a")
    case True
    have "reg_get_registered_agent (rs_agent_id s) r = Some a"
      using lookup_same_agent [OF assms(2,3)] True by (simp add: snapshot_from_agent_def)
    moreover have "rs_device_info s = ra_device_info a" "rs_device s = ra_device a"
      by (simp_all add: True snapshot_from_agent_def)
    ultimately show ?thesis
      using Cons.prems(1) assms(5)
      by (auto simp: agent_serves_def agent_device_id_def find_None_iff split: option.splits if_splits)
  next
    case False
    then show ?thesis using Cons by (auto split: option.splits if_splits)
  qed
qed

section \<open>Properties\<close>

text \<open>Routing by direction is sound and complete if the registry does not change between
  the snapshot and the lookup: a selected agent is registered and answers to the requested device,
  and either the match names an endpoint of its device record whose direction serves the requested
  one (a duplex endpoint serves input and output), or the agent is a legacy one without endpoints
  and the match names none; nothing is selected only if no agent of the device serves the
  direction.\<close>

lemma select_by_direction_sound_complete:
  assumes "registry_wf r" and "enumerates ord (reg_agents r)"
  shows "case select_by_direction ord did dir r r of
           Some m \<Rightarrow>
             rm_agent m \<in> ran (reg_agents r) \<and>
             agent_device_id (rm_agent m) = Some (device_id_str did) \<and>
             (case rm_endpoint_id m of
                Some e \<Rightarrow> \<exists>info. ra_device_info (rm_agent m) = Some info \<and>
                           (\<exists>ep \<in> set (dev_endpoints info). ep_id ep = e \<and> direction_compatible dir ep)
              | None \<Rightarrow> ra_device_info (rm_agent m) = None)
         | None \<Rightarrow> \<forall>a \<in> ran (reg_agents r).
             agent_device_id a = Some (device_id_str did) \<longrightarrow> \<not> agent_serves dir a"
proof (cases "select_by_direction ord did dir r r")
  case (Some m)
  then have "find_by_direction_loop did dir r (reg_snapshot ord (device_filter did) r) = Some m"
    by (simp add: select_by_direction_def find_agent_by_direction_def)
  from by_direction_loop_sound [OF this device_snapshots [of _ ord] assms(1)] show ?thesis
    unfolding Some option.case by simp
next
  case None
  then have "find_by_direction_loop did dir r (reg_snapshot ord (device_filter did) r) = None"
    by (simp add: select_by_direction_def find_agent_by_direction_def)
  note never = by_direction_loop_None [OF this assms(1)]
  have "snapshot_from_agent a \<in> set (reg_snapshot ord (device_filter did) r)"
    if "a \<in> ran (reg_agents r)" "agent_device_id a = Some (device_id_str did)" for a
    using that set_map_values [OF assms(2)]
    by (auto simp: reg_snapshot_def device_filter_def snapshot_filter_default_def filter_matches_iff)
  with never show ?thesis unfolding None option.case by blast
qed

lemma demo_registry_wf: "registry_wf demo_registry"
  by (simp add: registry_wf_def demo_registry_def demo_agent_def)

lemma demo_route:
  "select_by_direction [''a1''] (DeviceId ''mac03'') InputDir demo_registry demo_registry =
     Some \<lparr>rm_agent = demo_agent, rm_endpoint_id = None\<rparr>"
  by (simp add: select_by_direction_def find_agent_by_direction_def reg_snapshot_def map_values_Cons
      demo_registry_def demo_agent_def filter_matches_def device_filter_def snapshot_filter_default_def
      agent_device_id_def snapshot_from_agent_def reg_get_registered_agent_def)

end
