(* ===== verification/Promises.thy ===== *)
theory Promises
  imports Prelude
begin

text \<open>
  One-shot channels kept in a table. A table of pending senders and a log of the outcomes of the
  receivers are in order when every receiver has at most one outcome, a pending one
  has none, and no sender is in the table twice. The operations that answer a pending sender
  share one contract, the locale \<open>promises\<close>, which the session table and the waiter table of
  the agent hub and the task table of a local agent satisfy.
\<close>

definition promise_inv :: "('k \<rightharpoonup> nat) \<Rightarrow> (nat \<times> 'f) list \<Rightarrow> bool" where
  "promise_inv P A \<longleftrightarrow>
     distinct (map fst A) \<and>
     (\<forall>k w. P k = Some w \<longrightarrow> w \<notin> fst ` set A) \<and>
     (\<forall>k j w. P k = Some w \<and> P j = Some w \<longrightarrow> k = j)"

text \<open>The channels that have been handed out so far.\<close>

definition issued :: "('k \<rightharpoonup> nat) \<Rightarrow> (nat \<times> 'f) list \<Rightarrow> nat set" where
  "issued P A = ran P \<union> fst ` set A"

lemma promise_inv_empty [simp]: "promise_inv Map.empty []"
  by (simp add: promise_inv_def)

lemma promise_inv_distinct: "promise_inv P A \<Longrightarrow> distinct (map fst A)"
  by (simp add: promise_inv_def)

lemma promise_inv_pending: "promise_inv P A \<Longrightarrow> P k = Some w \<Longrightarrow> w \<notin> fst ` set A"
  unfolding promise_inv_def by blast

lemma promise_inv_inj: "promise_inv P A \<Longrightarrow> P k = Some w \<Longrightarrow> P j = Some w \<Longrightarrow> k = j"
  unfolding promise_inv_def by blast

lemma promise_inv_submap:
  assumes "promise_inv P A" and "\<And>k w. Q k = Some w \<Longrightarrow> P k = Some w"
  shows "promise_inv Q A"
  unfolding promise_inv_def
  using promise_inv_distinct [OF assms(1)] promise_inv_pending [OF assms(1)]
    promise_inv_inj [OF assms(1)] assms(2) by blast

lemma promise_inv_settle:
  assumes "promise_inv P A" and "P k = Some w"
  shows "promise_inv (P(k := None)) (A @ [(w, f)])"
  unfolding promise_inv_def
proof (intro conjI allI impI)
  show "distinct (map fst (A @ [(w, f)]))"
    using promise_inv_distinct [OF assms(1)] promise_inv_pending [OF assms] by simp
next
  fix j v assume "(P(k := None)) j = Some v"
  then have j: "j \<noteq> k" "P j = Some v" by (auto split: if_splits)
  have "v \<noteq> w" using promise_inv_inj [OF assms(1) j(2)] assms(2) j(1) by blast
  with promise_inv_pending [OF assms(1) j(2)] show "v \<notin> fst ` set (A @ [(w, f)])" by simp
next
  fix i j v assume "(P(k := None)) i = Some v \<and> (P(k := None)) j = Some v"
  then have "P i = Some v" "P j = Some v" by (auto split: if_splits)
  then show "i = j" by (rule promise_inv_inj [OF assms(1)])
qed

lemma promise_inv_issue:
  assumes "promise_inv P A" and "w \<notin> issued P A" and "P k = None"
  shows "promise_inv (P(k \<mapsto> w)) A"
  unfolding promise_inv_def
proof (intro conjI allI impI)
  show "distinct (map fst A)" by (rule promise_inv_distinct [OF assms(1)])
next
  fix j v assume "(P(k \<mapsto> w)) j = Some v"
  then show "v \<notin> fst ` set A"
    using promise_inv_pending [OF assms(1)] assms(2) by (auto simp: issued_def split: if_splits)
next
  fix i j v assume *: "(P(k \<mapsto> w)) i = Some v \<and> (P(k \<mapsto> w)) j = Some v"
  have "P x \<noteq> Some w" for x using assms(2) by (auto simp: issued_def ran_def)
  with * show "i = j"
    using promise_inv_inj [OF assms(1), of i v j] by (auto split: if_splits)
qed

text \<open>Several keys go at once, and some of their senders are answered.\<close>

lemma promise_inv_drop_many:
  assumes "promise_inv P A" and "distinct (map fst xs)"
    and "\<And>w. w \<in> fst ` set xs \<Longrightarrow> \<exists>k \<in> K. P k = Some w"
  shows "promise_inv (\<lambda>k. if k \<in> K then None else P k) (A @ xs)"
  unfolding promise_inv_def
proof (intro conjI allI impI)
  have "w \<notin> fst ` set A" if "w \<in> fst ` set xs" for w
    using assms(3) [OF that] promise_inv_pending [OF assms(1)] by blast
  then show "distinct (map fst (A @ xs))"
    using promise_inv_distinct [OF assms(1)] assms(2) by auto
next
  fix k w assume "(if k \<in> K then None else P k) = Some w"
  then have k: "k \<notin> K" "P k = Some w" by (auto split: if_splits)
  have "w \<notin> fst ` set xs"
  proof
    assume "w \<in> fst ` set xs"
    from assms(3) [OF this] obtain j where "j \<in> K" "P j = Some w" by blast
    with k promise_inv_inj [OF assms(1)] show False by blast
  qed
  with promise_inv_pending [OF assms(1) k(2)] show "w \<notin> fst ` set (A @ xs)" by (simp add: image_Un)
next
  fix k j w
  assume "(if k \<in> K then None else P k) = Some w \<and> (if j \<in> K then None else P j) = Some w"
  then have "P k = Some w" "P j = Some w" by (auto split: if_splits)
  then show "k = j" by (rule promise_inv_inj [OF assms(1)])
qed

section \<open>The contract of an answering operation\<close>

locale promises =
  fixes pending :: "'s \<Rightarrow> 'k \<Rightarrow> nat option"
    and answered :: "'s \<Rightarrow> (nat \<times> 'f) list"
    and settle :: "'a \<Rightarrow> 's \<Rightarrow> 's"
    and key :: "'a \<Rightarrow> 'k"
    and outcome :: "'a \<Rightarrow> 'f"
  assumes settle_pending: "pending (settle a s) = (pending s)(key a := None)"
    and settle_answered:
      "answered (settle a s) =
         answered s @ (case pending s (key a) of Some w \<Rightarrow> [(w, outcome a)] | None \<Rightarrow> [])"

context promises begin

lemma settle_inv:
  assumes "promise_inv (pending s) (answered s)"
  shows "promise_inv (pending (settle a s)) (answered (settle a s))"
proof (cases "pending s (key a)")
  case None
  then have "(pending s)(key a := None) = pending s" by (simp add: fun_upd_idem)
  with None assms show ?thesis by (simp add: settle_pending settle_answered)
next
  case (Some w)
  with promise_inv_settle [OF assms Some] show ?thesis
    by (simp add: settle_pending settle_answered)
qed

lemma settle_all_inv:
  assumes "promise_inv (pending s) (answered s)"
  shows "promise_inv (pending (fold settle as s)) (answered (fold settle as s))"
  using assms by (induction as arbitrary: s) (simp_all add: settle_inv)

lemma settle_all_pending:
  "pending (fold settle as s) k = (if k \<in> key ` set as then None else pending s k)"
  by (induction as arbitrary: s) (auto simp: settle_pending)

text \<open>Answering a list of keys answers each pending one, once and in order.\<close>

lemma settle_all_answered:
  assumes "distinct (map key as)"
  shows "answered (fold settle as s) =
           answered s @ concat (map (\<lambda>a. case pending s (key a) of
                                          Some w \<Rightarrow> [(w, outcome a)] | None \<Rightarrow> []) as)"
  using assms
proof (induction as arbitrary: s)
  case Nil
  then show ?case by simp
next
  case (Cons a as)
  have eq: "map (\<lambda>x. case pending (settle a s) (key x) of Some w \<Rightarrow> [(w, outcome x)] | None \<Rightarrow> []) as =
        map (\<lambda>x. case pending s (key x) of Some w \<Rightarrow> [(w, outcome x)] | None \<Rightarrow> []) as"
  proof (intro map_cong refl)
    fix x assume "x \<in> set as"
    then have "key x \<noteq> key a" using Cons.prems by (metis distinct.simps(2) imageI list.set_map list.simps(9))
    then show "(case pending (settle a s) (key x) of Some w \<Rightarrow> [(w, outcome x)] | None \<Rightarrow> []) =
               (case pending s (key x) of Some w \<Rightarrow> [(w, outcome x)] | None \<Rightarrow> [])"
      by (simp add: settle_pending)
  qed
  show ?case using Cons.prems by (simp add: Cons.IH settle_answered eq)
qed

end

end
