(* ===== verification/AgentHub.thy ===== *)
theory AgentHub
  imports DeviceRegistry Promises
begin

text \<open>
  The gateway's agent registry, \<^verbatim>\<open>AgentRegistry\<close> of \<^verbatim>\<open>speechmeshd/src/agent.rs\<close>: the device registry
  with, on top of it, the routes of ASR sessions and the waiters of play-audio tasks. A
  method is one function of the whole state. Where it chooses an agent under one lock and uses it under
  another, other methods may run in between; the other methods are run without one in between. What the method sends is logged:
  commands to agents and events to sessions in two \<open>net\<close>s, one-shot replies as fates.
\<close>

section \<open>State\<close>

text \<open>A one-shot channel ends with a value or with its sender dropped.\<close>

datatype 'a fate = Delivered 'a | SenderDropped

type_synonym start_result = "bridge_error + unit"
type_synonym task_wait_result = "bridge_error + agent_task_status"

record session_route =
  sr_agent_id :: string
  sr_event_tx :: nat
  sr_started_tx :: "nat option"

record hub =
  hub_registry :: registry
  hub_sessions :: "session_id \<rightharpoonup> session_route"
  hub_waiters :: "string \<rightharpoonup> nat"
  hub_cmds :: "gateway_to_agent net"
  hub_events :: "bridge_asr_event net"
  hub_starts :: "(nat \<times> start_result fate) list"
  hub_waits :: "(nat \<times> task_wait_result fate) list"

record play_audio_route_request =
  par_task_id :: string
  par_device_id :: "string option"
  par_output_target :: "string option"
  par_agent_id :: "string option"
  par_format :: "audio_format option"

text \<open>Iteration orders of the three hash maps that the methods iterate over.\<close>

record hash_orders =
  ord_agents :: "string list"
  ord_tasks :: "string list"
  ord_sessions :: "session_id list"

definition valid_orders :: "hash_orders \<Rightarrow> hub \<Rightarrow> bool" where
  "valid_orders o' h \<longleftrightarrow>
     enumerates (ord_agents o') (reg_agents (hub_registry h)) \<and>
     enumerates (ord_tasks o') (reg_tasks (hub_registry h)) \<and>
     enumerates (ord_sessions o') (hub_sessions h)"

definition hub_new :: "string option \<Rightarrow> hub" where
  "hub_new secret =
     \<lparr>hub_registry = registry_new secret, hub_sessions = Map.empty, hub_waiters = Map.empty,
      hub_cmds = \<lparr>net_closed = {}, net_log = []\<rparr>, hub_events = \<lparr>net_closed = {}, net_log = []\<rparr>,
      hub_starts = [], hub_waits = []\<rparr>"

section \<open>Type conversions\<close>

fun to_device_agent_kind :: "agent_kind \<Rightarrow> reg_agent_kind" where
  "to_device_agent_kind AsrProviderAgent = RAsrProvider"
| "to_device_agent_kind DeviceAgent = RDevice"

fun from_device_agent_kind :: "reg_agent_kind \<Rightarrow> agent_kind" where
  "from_device_agent_kind RAsrProvider = AsrProviderAgent"
| "from_device_agent_kind RDevice = DeviceAgent"

definition to_device_identity :: "agent_device_identity \<Rightarrow> reg_device_identity" where
  "to_device_identity d =
     \<lparr>rdi_device_id = adi_device_id d, rdi_hostname = adi_hostname d, rdi_platform = adi_platform d\<rparr>"

definition from_device_identity :: "reg_device_identity \<Rightarrow> agent_device_identity" where
  "from_device_identity d =
     \<lparr>adi_device_id = rdi_device_id d, adi_hostname = rdi_hostname d, adi_platform = rdi_platform d\<rparr>"

definition to_transport_snapshot :: "reg_agent_snapshot \<Rightarrow> agent_snapshot" where
  "to_transport_snapshot s =
     \<lparr>snap_agent_id = rs_agent_id s, snap_agent_name = rs_agent_name s,
      snap_provider_id = rs_provider_id s, snap_capabilities = rs_capabilities s,
      snap_capability_domains = rs_capability_domains s,
      snap_agent_kind = from_device_agent_kind (rs_agent_kind s),
      snap_device = map_option from_device_identity (rs_device s),
      snap_client_version = rs_client_version s, snap_update_status = rs_update_status s\<rparr>"

lemma agent_kind_roundtrip [simp]:
  "from_device_agent_kind (to_device_agent_kind k) = k"
  "to_device_agent_kind (from_device_agent_kind k') = k'"
  by (cases k; simp) (cases k'; simp)

lemma device_identity_roundtrip [simp]:
  "from_device_identity (to_device_identity d) = d"
  "to_device_identity (from_device_identity d') = d'"
  by (simp_all add: from_device_identity_def to_device_identity_def)

section \<open>Effects\<close>

definition post_event :: "nat \<Rightarrow> bridge_asr_event \<Rightarrow> hub \<Rightarrow> hub" where
  "post_event tx e h = h\<lparr>hub_events := net_post tx e (hub_events h)\<rparr>"

definition send_command :: "nat \<Rightarrow> gateway_to_agent \<Rightarrow> hub \<Rightarrow> hub option" where
  "send_command tx m h = map_option (\<lambda>n. h\<lparr>hub_cmds := n\<rparr>) (net_send tx m (hub_cmds h))"

definition reply_start :: "nat \<Rightarrow> start_result fate \<Rightarrow> hub \<Rightarrow> hub" where
  "reply_start tx r h = h\<lparr>hub_starts := hub_starts h @ [(tx, r)]\<rparr>"

definition reply_wait :: "nat \<Rightarrow> task_wait_result fate \<Rightarrow> hub \<Rightarrow> hub" where
  "reply_wait tx r h = h\<lparr>hub_waits := hub_waits h @ [(tx, r)]\<rparr>"

section \<open>Task waiters\<close>

definition drop_waiter :: "string \<Rightarrow> hub \<Rightarrow> hub" where
  "drop_waiter t h = h\<lparr>hub_waiters := (hub_waiters h)(t := None)\<rparr>"

definition put_waiter :: "string \<Rightarrow> nat \<Rightarrow> hub \<Rightarrow> hub" where
  "put_waiter t w h = h\<lparr>hub_waiters := (hub_waiters h)(t \<mapsto> w)\<rparr>"

text \<open>Inserting into the table drops the sender that was there; \<open>w\<close> is the new channel.\<close>

definition subscribe_task_waiter :: "string \<Rightarrow> nat \<Rightarrow> hub \<Rightarrow> hub" where
  "subscribe_task_waiter t w h =
     (case hub_waiters h t of
        Some old \<Rightarrow> reply_wait old SenderDropped (put_waiter t w h)
      | None \<Rightarrow> put_waiter t w h)"

definition remove_task_waiter :: "string \<Rightarrow> hub \<Rightarrow> hub" where
  "remove_task_waiter t h =
     (case hub_waiters h t of
        Some old \<Rightarrow> reply_wait old SenderDropped (drop_waiter t h)
      | None \<Rightarrow> h)"

definition resolve_task_waiter :: "string \<Rightarrow> task_wait_result \<Rightarrow> hub \<Rightarrow> hub" where
  "resolve_task_waiter t result h =
     (case hub_waiters h t of
        Some w \<Rightarrow> reply_wait w (Delivered result) (drop_waiter t h)
      | None \<Rightarrow> h)"

section \<open>Session routes\<close>

definition drop_session :: "session_id \<Rightarrow> hub \<Rightarrow> hub" where
  "drop_session s h = h\<lparr>hub_sessions := (hub_sessions h)(s := None)\<rparr>"

definition put_session :: "session_id \<Rightarrow> session_route \<Rightarrow> hub \<Rightarrow> hub" where
  "put_session s route h = h\<lparr>hub_sessions := (hub_sessions h)(s \<mapsto> route)\<rparr>"

definition hub_register_session ::
  "string \<Rightarrow> session_id \<Rightarrow> nat \<Rightarrow> nat \<Rightarrow> hub \<Rightarrow> hub" where
  "hub_register_session aid s event_tx started_tx h =
     put_session s \<lparr>sr_agent_id = aid, sr_event_tx = event_tx, sr_started_tx = Some started_tx\<rparr>
       (case Option.bind (hub_sessions h s) sr_started_tx of
          Some old \<Rightarrow> reply_start old SenderDropped h
        | None \<Rightarrow> h)"

definition hub_remove_session :: "session_id \<Rightarrow> hub \<Rightarrow> session_route option \<times> hub" where
  "hub_remove_session s h = (hub_sessions h s, drop_session s h)"

definition mark_session_started :: "session_id \<Rightarrow> hub \<Rightarrow> hub" where
  "mark_session_started s h =
     (case hub_sessions h s of
        None \<Rightarrow> h
      | Some route \<Rightarrow>
          (let h1 = put_session s (route\<lparr>sr_started_tx := None\<rparr>) h
           in (case sr_started_tx route of
                 Some tx \<Rightarrow> reply_start tx (Delivered (Ok ())) h1
               | None \<Rightarrow> h1)))"

definition fail_session_start :: "session_id \<Rightarrow> bridge_error \<Rightarrow> hub \<Rightarrow> hub" where
  "fail_session_start s e h =
     (case hub_remove_session s h of
        (None, h1) \<Rightarrow> h1
      | (Some route, h1) \<Rightarrow>
          (case sr_started_tx route of
             Some tx \<Rightarrow> reply_start tx (Delivered (Err e)) h1
           | None \<Rightarrow>
               post_event (sr_event_tx route) (AsrEndedEv (Some ''start_failed''))
                 (post_event (sr_event_tx route)
                   (AsrErrorEv ''session failed before start acknowledgement'') h1)))"

definition route_event :: "session_id \<Rightarrow> bridge_asr_event \<Rightarrow> hub \<Rightarrow> hub" where
  "route_event s e h =
     (case hub_sessions h s of
        Some route \<Rightarrow> post_event (sr_event_tx route) e h
      | None \<Rightarrow> h)"

definition route_session_ended :: "session_id \<Rightarrow> string option \<Rightarrow> hub \<Rightarrow> hub" where
  "route_session_ended s reason h =
     (case hub_remove_session s h of
        (None, h1) \<Rightarrow> h1
      | (Some route, h1) \<Rightarrow>
          (case sr_started_tx route of
             Some tx \<Rightarrow>
               reply_start tx
                 (Delivered (Err (Disconnected (unwrap_or reason ''session ended before start ack'')))) h1
           | None \<Rightarrow> post_event (sr_event_tx route) (AsrEndedEv reason) h1))"

section \<open>Registration\<close>

definition remove_orphaned_sessions ::
  "session_id list \<Rightarrow> string \<Rightarrow> hub \<Rightarrow> (session_id \<times> session_route) list \<times> hub" where
  "remove_orphaned_sessions ord aid h =
     (let impacted = filter (\<lambda>(s, route). sr_agent_id route = aid) (map_entries ord (hub_sessions h))
      in (impacted, fold drop_session (map fst impacted) h))"

text \<open>\<open>dbg\<close> renders a session id as \<^verbatim>\<open>{session_id:?}\<close> does, with the \<^verbatim>\<open>uuid\<close> crate's text.\<close>

definition finish_orphaned_session ::
  "(session_id \<Rightarrow> string) \<Rightarrow> session_id \<times> session_route \<Rightarrow> hub \<Rightarrow> hub" where
  "finish_orphaned_session dbg p h =
     (case p of (s, route) \<Rightarrow>
        (case sr_started_tx route of
           Some tx \<Rightarrow>
             reply_start tx (Delivered (Err (Disconnected
               (''agent disconnected before session started: '' @ dbg s)))) h
         | None \<Rightarrow>
             post_event (sr_event_tx route) (AsrEndedEv (Some ''agent_disconnected''))
               (post_event (sr_event_tx route)
                 (AsrErrorEv (''agent disconnected for session '' @ dbg s)) h)))"

definition finish_orphaned_task :: "string \<Rightarrow> hub \<Rightarrow> hub" where
  "finish_orphaned_task t h =
     resolve_task_waiter t (Err (Disconnected
       (''agent disconnected before task completion: '' @ t))) h"

definition finish_agent_removal ::
  "(session_id \<Rightarrow> string) \<Rightarrow> (session_id \<times> session_route) list \<Rightarrow> string list \<Rightarrow> hub \<Rightarrow> hub" where
  "finish_agent_removal dbg orphaned_sessions orphaned_tasks h =
     fold finish_orphaned_task orphaned_tasks
       (fold (finish_orphaned_session dbg) orphaned_sessions h)"

definition agent_of_hello :: "agent_hello_payload \<Rightarrow> nat \<Rightarrow> registered_agent" where
  "agent_of_hello hello tx =
     \<lparr>ra_agent_id = hel_agent_id hello, ra_agent_name = hel_agent_name hello,
      ra_provider_id = hel_provider_id hello, ra_capabilities = hel_capabilities hello,
      ra_capability_domains = hel_capability_domains hello,
      ra_agent_kind = to_device_agent_kind (hel_agent_kind hello),
      ra_client_version = hel_client_version hello, ra_update_status = hel_update_status hello,
      ra_device = map_option to_device_identity (hel_device hello), ra_device_info = None,
      ra_command_tx = tx\<rparr>"

definition hub_register_agent ::
  "hash_orders \<Rightarrow> (session_id \<Rightarrow> string) \<Rightarrow> agent_hello_payload \<Rightarrow> nat \<Rightarrow> hub \<Rightarrow> bridge_error + hub" where
  "hub_register_agent ords dbg hello tx h =
     (if (case reg_secret (hub_registry h) of
            Some expected \<Rightarrow> hel_shared_secret hello \<noteq> Some expected | None \<Rightarrow> False)
      then Err (Unavailable ''agent authentication failed'')
      else
        (let (orphaned_sessions, h1) =
               remove_orphaned_sessions (ord_sessions ords) (hel_agent_id hello) h;
             (orphaned_tasks, reg) =
               reg_register_agent (ord_tasks ords) (agent_of_hello hello tx) (hub_registry h1)
         in Ok (finish_agent_removal dbg orphaned_sessions orphaned_tasks
                  (h1\<lparr>hub_registry := reg\<rparr>))))"

definition hub_unregister_agent ::
  "hash_orders \<Rightarrow> (session_id \<Rightarrow> string) \<Rightarrow> string \<Rightarrow> hub \<Rightarrow> hub" where
  "hub_unregister_agent ords dbg aid h =
     (let (orphaned_sessions, h1) = remove_orphaned_sessions (ord_sessions ords) aid h;
          (orphaned_tasks, reg) = reg_unregister_agent (ord_tasks ords) aid (hub_registry h1)
      in finish_agent_removal dbg orphaned_sessions orphaned_tasks (h1\<lparr>hub_registry := reg\<rparr>))"

section \<open>Play-audio tasks\<close>

definition hub_register_task :: "string \<Rightarrow> string \<Rightarrow> hub \<Rightarrow> bridge_error + hub" where
  "hub_register_task t aid h =
     (case reg_register_task t aid (hub_registry h) of
        Inl msg \<Rightarrow> Err (Unavailable msg)
      | Inr reg \<Rightarrow> Ok (h\<lparr>hub_registry := reg\<rparr>))"

definition hub_remove_task :: "string \<Rightarrow> hub \<Rightarrow> hub" where
  "hub_remove_task t h = h\<lparr>hub_registry := snd (reg_remove_task t (hub_registry h))\<rparr>"

definition hub_task_agent_id :: "string \<Rightarrow> hub \<Rightarrow> string option" where
  "hub_task_agent_id t h = reg_task_agent_id t (hub_registry h)"

text \<open>
  The start of a task takes the lock of the registry three times: to choose an agent, to register the task and, when
  the delivery fails, to remove it again. \<open>others k\<close> is what other methods do to the hub in between, so the
  agent that was chosen can be gone, or connected anew, when the task is registered.
\<close>

definition route_play_audio_start ::
  "hash_orders \<Rightarrow> (nat \<Rightarrow> hub \<Rightarrow> hub) \<Rightarrow> play_audio_route_request \<Rightarrow> hub \<Rightarrow> (bridge_error + string) \<times> hub" where
  "route_play_audio_start ords others req h =
     (let task_id = trim (par_task_id req)
      in if task_id = [] then
           (Err (Unavailable ''task_id is required for play_audio routing''), h)
         else
           (case reg_select_speaker_agent (ord_agents ords) (par_device_id req) (par_agent_id req)
                   (hub_registry h) of
              None \<Rightarrow>
                (Err (Unavailable ''no registered speaker agent matches the play_audio route''), h)
            | Some agent \<Rightarrow>
                (case hub_register_task task_id (ra_agent_id agent) (others 0 h) of
                   Inl e \<Rightarrow> (Err e, others 0 h)
                 | Inr h1 \<Rightarrow>
                     (case send_command (ra_command_tx agent)
                             (GTaskPlayAudioStart task_id (par_format req)) (others 1 h1) of
                        None \<Rightarrow>
                          (Err (Disconnected (''failed to deliver play_audio start to agent ''
                                              @ ra_agent_name agent)),
                           hub_remove_task task_id (others 2 (others 1 h1)))
                      | Some h2 \<Rightarrow> (Ok (ra_agent_id agent), h2)))))"

text \<open>The common tail of the failures of a chunk or a finish: the task goes and its waiter learns why.\<close>

definition abandon_task :: "string \<Rightarrow> string \<Rightarrow> hub \<Rightarrow> (bridge_error + unit) \<times> hub" where
  "abandon_task t message h =
     (Err (Disconnected message),
      resolve_task_waiter t (Err (Disconnected message)) (hub_remove_task t h))"

definition route_play_audio_chunk ::
  "string \<Rightarrow> string \<Rightarrow> hub \<Rightarrow> (bridge_error + unit) \<times> hub" where
  "route_play_audio_chunk t data h =
     (case hub_task_agent_id t h of
        None \<Rightarrow> (Err (Unavailable (''unknown play_audio task_id '' @ t)), h)
      | Some aid \<Rightarrow>
          (case reg_agent_command_tx aid (hub_registry h) of
             None \<Rightarrow>
               abandon_task t (''agent '' @ aid @ '' is no longer available for task '' @ t) h
           | Some tx \<Rightarrow>
               (case send_command tx (GTaskPlayAudioChunk t data) h of
                  None \<Rightarrow> abandon_task t (''failed to deliver play_audio chunk for task '' @ t) h
                | Some h1 \<Rightarrow> (Ok (), h1))))"

definition route_play_audio_finish :: "string \<Rightarrow> hub \<Rightarrow> (bridge_error + unit) \<times> hub" where
  "route_play_audio_finish t h =
     (case hub_task_agent_id t h of
        None \<Rightarrow> (Err (Unavailable (''unknown play_audio task_id '' @ t)), h)
      | Some aid \<Rightarrow>
          (case reg_agent_command_tx aid (hub_registry h) of
             None \<Rightarrow>
               abandon_task t (''agent '' @ aid @ '' is no longer available for task '' @ t) h
           | Some tx \<Rightarrow>
               (case send_command tx (GTaskPlayAudioFinish t) h of
                  None \<Rightarrow> abandon_task t (''failed to deliver play_audio finish for task '' @ t) h
                | Some h1 \<Rightarrow> (Ok (), h1))))"

section \<open>Messages from agents\<close>

definition handle_task_status :: "string \<Rightarrow> agent_task_status \<Rightarrow> hub \<Rightarrow> hub" where
  "handle_task_status t payload h =
     (if hub_task_agent_id t h = None then h
      else if tst_state payload \<in> {TaskFinished, TaskFailed} then
        resolve_task_waiter t
          (if tst_state payload = TaskFinished then Ok payload
           else Err (Unavailable (unwrap_or (tst_message payload) ''play_audio task failed'')))
          (hub_remove_task t h)
      else h)"

fun handle_agent_message :: "agent_to_gateway \<Rightarrow> hub \<Rightarrow> hub" where
  "handle_agent_message (AHello _) h = h"
| "handle_agent_message (ASessionStarted s _) h = mark_session_started s h"
| "handle_agent_message (AAsrPartial s text) h = route_event s (AsrPartialEv text) h"
| "handle_agent_message (AAsrFinal s tr) h = route_event s (AsrFinalEv tr) h"
| "handle_agent_message (ASessionEnded s reason) h = route_session_ended s reason h"
| "handle_agent_message (AError (Some s) message) h =
     (let has_pending_start = (Option.bind (hub_sessions h s) sr_started_tx \<noteq> None)
      in if has_pending_start then fail_session_start s (Unavailable message) h
         else route_event s (AsrErrorEv message) h)"
| "handle_agent_message (AError None message) h = h"
| "handle_agent_message (ATaskStatus t payload) h = handle_task_status t payload h"
| "handle_agent_message APong h = h"

definition hub_snapshot :: "hash_orders \<Rightarrow> snapshot_filter \<Rightarrow> hub \<Rightarrow> agent_snapshot list" where
  "hub_snapshot ords f h =
     map to_transport_snapshot (reg_snapshot (ord_agents ords) f (hub_registry h))"

section \<open>The waiter and session tables are route tables\<close>

interpretation waiter_table: route_table hub_waiters put_waiter drop_waiter
  by unfold_locales (simp_all add: put_waiter_def drop_waiter_def)

interpretation session_table: route_table hub_sessions put_session drop_session
  by unfold_locales (simp_all add: put_session_def drop_session_def)

lemmas hub_effect_defs =
  post_event_def reply_start_def reply_wait_def put_waiter_def drop_waiter_def
  put_session_def drop_session_def

text \<open>Each effect leaves the other fields alone.\<close>

lemma effect_frames [simp]:
  "hub_registry (post_event tx e h) = hub_registry h"
  "hub_registry (reply_start tx' f h) = hub_registry h"
  "hub_registry (reply_wait tx'' g h) = hub_registry h"
  "hub_registry (put_waiter t w h) = hub_registry h"
  "hub_registry (drop_waiter t h) = hub_registry h"
  "hub_registry (put_session s route h) = hub_registry h"
  "hub_registry (drop_session s h) = hub_registry h"
  "hub_sessions (post_event tx e h) = hub_sessions h"
  "hub_sessions (reply_start tx' f h) = hub_sessions h"
  "hub_sessions (reply_wait tx'' g h) = hub_sessions h"
  "hub_sessions (put_waiter t w h) = hub_sessions h"
  "hub_sessions (drop_waiter t h) = hub_sessions h"
  "hub_waiters (post_event tx e h) = hub_waiters h"
  "hub_waiters (reply_start tx' f h) = hub_waiters h"
  "hub_waiters (reply_wait tx'' g h) = hub_waiters h"
  "hub_waiters (put_session s route h) = hub_waiters h"
  "hub_waiters (drop_session s h) = hub_waiters h"
  "hub_waits (post_event tx e h) = hub_waits h"
  "hub_waits (reply_start tx' f h) = hub_waits h"
  "hub_waits (reply_wait tx'' g h) = hub_waits h @ [(tx'', g)]"
  "hub_waits (put_waiter t w h) = hub_waits h"
  "hub_waits (drop_waiter t h) = hub_waits h"
  "hub_waits (put_session s route h) = hub_waits h"
  "hub_waits (drop_session s h) = hub_waits h"
  "hub_starts (post_event tx e h) = hub_starts h"
  "hub_starts (reply_start tx' f h) = hub_starts h @ [(tx', f)]"
  "hub_starts (reply_wait tx'' g h) = hub_starts h"
  "hub_starts (put_waiter t w h) = hub_starts h"
  "hub_starts (drop_waiter t h) = hub_starts h"
  "hub_starts (put_session s route h) = hub_starts h"
  "hub_starts (drop_session s h) = hub_starts h"
  by (simp_all add: hub_effect_defs)

lemma registry_upd_frames [simp]:
  "hub_sessions (h\<lparr>hub_registry := r\<rparr>) = hub_sessions h"
  "hub_waiters (h\<lparr>hub_registry := r\<rparr>) = hub_waiters h"
  "hub_waits (h\<lparr>hub_registry := r\<rparr>) = hub_waits h"
  "hub_starts (h\<lparr>hub_registry := r\<rparr>) = hub_starts h"
  by simp_all

lemma hub_remove_task_frames [simp]:
  "hub_sessions (hub_remove_task t h) = hub_sessions h"
  "hub_waiters (hub_remove_task t h) = hub_waiters h"
  "hub_waits (hub_remove_task t h) = hub_waits h"
  "hub_starts (hub_remove_task t h) = hub_starts h"
  "hub_registry (hub_remove_task t h) = drop_task t (hub_registry h)"
  by (simp_all add: hub_remove_task_def reg_remove_task_def)

lemma send_command_frames:
  "send_command tx m h = Some h' \<Longrightarrow>
     hub_registry h' = hub_registry h \<and> hub_sessions h' = hub_sessions h \<and>
     hub_waiters h' = hub_waiters h \<and> hub_waits h' = hub_waits h \<and> hub_starts h' = hub_starts h \<and>
     hub_events h' = hub_events h \<and>
     sent_on d (hub_cmds h') = sent_on d (hub_cmds h) @ (if d = tx then [m] else [])"
  by (auto simp: send_command_def net_send_def sent_on_def split: if_splits)

lemma registry_upd_cmds [simp]:
  "hub_cmds (h\<lparr>hub_registry := r\<rparr>) = hub_cmds h"
  "hub_events (h\<lparr>hub_registry := r\<rparr>) = hub_events h"
  by simp_all

section \<open>Answering a pending channel\<close>

definition pending_start :: "hub \<Rightarrow> session_id \<Rightarrow> nat option" where
  "pending_start h s = Option.bind (hub_sessions h s) sr_started_tx"

lemma pending_start_frames [simp]:
  "pending_start (post_event tx e h) = pending_start h"
  "pending_start (reply_start tx' f h) = pending_start h"
  "pending_start (reply_wait tx'' g h) = pending_start h"
  "pending_start (put_waiter t w h) = pending_start h"
  "pending_start (drop_waiter t h) = pending_start h"
  "pending_start (drop_session s h) = (pending_start h)(s := None)"
  "pending_start (put_session s route h) = (pending_start h)(s := sr_started_tx route)"
  by (auto simp: pending_start_def fun_eq_iff session_table.lookup_del session_table.lookup_put)

text \<open>
  Task waiters are answered by a result or dropped; a pending start is answered by the
  acknowledgement, a failure or an early end. All five operations keep the one contract.
\<close>

lemma table_dels [simp]:
  "hub_waiters (drop_waiter t h) = (hub_waiters h)(t := None)"
  "hub_waiters (put_waiter t w h) = (hub_waiters h)(t \<mapsto> w)"
  "hub_sessions (drop_session s h) = (hub_sessions h)(s := None)"
  "hub_sessions (put_session s route h) = (hub_sessions h)(s \<mapsto> route)"
  by (auto simp: fun_eq_iff waiter_table.lookup_del waiter_table.lookup_put
      session_table.lookup_del session_table.lookup_put)

interpretation waiter_resolved: promises hub_waiters hub_waits
    "\<lambda>(t, r). resolve_task_waiter t r" fst "\<lambda>(t, r). Delivered r"
  by unfold_locales (auto simp: resolve_task_waiter_def fun_upd_idem split: option.splits)

interpretation waiter_removed: promises hub_waiters hub_waits
    remove_task_waiter "\<lambda>t. t" "\<lambda>_. SenderDropped"
  by unfold_locales (auto simp: remove_task_waiter_def fun_upd_idem split: option.splits)

interpretation start_acknowledged: promises pending_start hub_starts
    mark_session_started "\<lambda>s. s" "\<lambda>_. Delivered (Ok ())"
  by unfold_locales
    (auto simp: mark_session_started_def pending_start_def Let_def fun_eq_iff split: option.splits)

interpretation start_failed: promises pending_start hub_starts
    "\<lambda>(s, e). fail_session_start s e" fst "\<lambda>(s, e). Delivered (Err e)"
  by unfold_locales
    (auto simp: fail_session_start_def hub_remove_session_def pending_start_def fun_eq_iff Option.bind_eq_Some_conv
      split: option.splits)

interpretation start_ended: promises pending_start hub_starts
    "\<lambda>(s, reason). route_session_ended s reason" fst
    "\<lambda>(s, reason). Delivered (Err (Disconnected (unwrap_or reason ''session ended before start ack'')))"
  by unfold_locales
    (auto simp: route_session_ended_def hub_remove_session_def pending_start_def fun_eq_iff Option.bind_eq_Some_conv
      split: option.splits)

text \<open>What each of them leaves alone.\<close>

lemma waiter_op_frames [simp]:
  "hub_registry (resolve_task_waiter t r h) = hub_registry h"
  "hub_sessions (resolve_task_waiter t r h) = hub_sessions h"
  "hub_starts (resolve_task_waiter t r h) = hub_starts h"
  "hub_registry (remove_task_waiter t h) = hub_registry h"
  "hub_sessions (remove_task_waiter t h) = hub_sessions h"
  "hub_starts (remove_task_waiter t h) = hub_starts h"
  "hub_registry (subscribe_task_waiter t w h) = hub_registry h"
  "hub_sessions (subscribe_task_waiter t w h) = hub_sessions h"
  "hub_starts (subscribe_task_waiter t w h) = hub_starts h"
  by (auto simp: resolve_task_waiter_def remove_task_waiter_def subscribe_task_waiter_def
      split: option.splits)

lemma session_op_frames [simp]:
  "hub_registry (mark_session_started s h) = hub_registry h"
  "hub_waiters (mark_session_started s h) = hub_waiters h"
  "hub_waits (mark_session_started s h) = hub_waits h"
  "hub_registry (fail_session_start s e h) = hub_registry h"
  "hub_waiters (fail_session_start s e h) = hub_waiters h"
  "hub_waits (fail_session_start s e h) = hub_waits h"
  "hub_registry (route_session_ended s reason h) = hub_registry h"
  "hub_waiters (route_session_ended s reason h) = hub_waiters h"
  "hub_waits (route_session_ended s reason h) = hub_waits h"
  "hub_registry (route_event s ev h) = hub_registry h"
  "hub_waiters (route_event s ev h) = hub_waiters h"
  "hub_waits (route_event s ev h) = hub_waits h"
  "hub_sessions (route_event s ev h) = hub_sessions h"
  "hub_starts (route_event s ev h) = hub_starts h"
  "hub_registry (hub_register_session aid s ev_tx st h) = hub_registry h"
  "hub_waiters (hub_register_session aid s ev_tx st h) = hub_waiters h"
  "hub_waits (hub_register_session aid s ev_tx st h) = hub_waits h"
  by (auto simp: mark_session_started_def fail_session_start_def route_session_ended_def
      route_event_def hub_register_session_def hub_remove_session_def Let_def split: option.splits)

lemma session_op_sessions:
  "hub_sessions (fail_session_start s e h) = (hub_sessions h)(s := None)"
  "hub_sessions (route_session_ended s reason h) = (hub_sessions h)(s := None)"
  "hub_sessions (mark_session_started s h) =
     (case hub_sessions h s of None \<Rightarrow> hub_sessions h
      | Some route \<Rightarrow> (hub_sessions h)(s \<mapsto> route\<lparr>sr_started_tx := None\<rparr>))"
  "hub_sessions (hub_register_session aid s ev_tx st h) =
     (hub_sessions h)(s \<mapsto> \<lparr>sr_agent_id = aid, sr_event_tx = ev_tx, sr_started_tx = Some st\<rparr>)"
  by (auto simp: mark_session_started_def fail_session_start_def route_session_ended_def
      hub_register_session_def hub_remove_session_def Let_def fun_upd_idem split: option.splits)

end
