(* ===== verification/AgentHubInv.thy ===== *)
theory AgentHubInv
  imports AgentHub
begin

text \<open>
  Properties of the agent hub: what the removal of an agent does to its sessions, its tasks
  and everyone who waits for one of them, and the invariants of every state the hub can
  reach by the methods of \<^verbatim>\<open>AgentRegistry\<close> in any order.
\<close>

section \<open>Removing an agent\<close>

definition owned_sessions :: "string \<Rightarrow> hub \<Rightarrow> session_id set" where
  "owned_sessions aid h = {s. \<exists>route. hub_sessions h s = Some route \<and> sr_agent_id route = aid}"

lemma fold_drop_session [simp]:
  "hub_registry (fold drop_session ss h) = hub_registry h"
  "hub_waiters (fold drop_session ss h) = hub_waiters h"
  "hub_waits (fold drop_session ss h) = hub_waits h"
  "hub_starts (fold drop_session ss h) = hub_starts h"
  "hub_events (fold drop_session ss h) = hub_events h"
  "hub_cmds (fold drop_session ss h) = hub_cmds h"
  by (induction ss arbitrary: h) (simp_all add: drop_session_def)

lemma orphaned_sessions:
  assumes "enumerates ord (hub_sessions h)"
    and "remove_orphaned_sessions ord aid h = (imp, h1)"
  shows "set imp = {(s, route). hub_sessions h s = Some route \<and> sr_agent_id route = aid}"
    and "distinct (map fst imp)"
    and "h1 = fold drop_session (map fst imp) h"
    and "hub_sessions h1 s = (if s \<in> owned_sessions aid h then None else hub_sessions h s)"
proof -
  have imp: "imp = filter (\<lambda>(s, route). sr_agent_id route = aid) (map_entries ord (hub_sessions h))"
    and h1: "h1 = fold drop_session (map fst imp) h"
    using assms(2) by (auto simp: remove_orphaned_sessions_def Let_def)
  show *: "set imp = {(s, route). hub_sessions h s = Some route \<and> sr_agent_id route = aid}"
    using set_map_entries [OF assms(1)] by (auto simp: imp)
  show "distinct (map fst imp)"
    using assms(1) distinct_map_entries [of ord "hub_sessions h"]
    by (simp add: imp enumerates_def distinct_map_filter_fst)
  show "h1 = fold drop_session (map fst imp) h" by (fact h1)
  have "fst ` set imp = owned_sessions aid h" by (force simp: * owned_sessions_def)
  then show "hub_sessions h1 s = (if s \<in> owned_sessions aid h then None else hub_sessions h s)"
    by (simp add: h1 session_table.lookup_del_all)
qed

text \<open>The answers to pending starts, and the events to open sessions, of a list of orphans.\<close>

definition orphan_start_reply ::
  "(session_id \<Rightarrow> string) \<Rightarrow> session_id \<times> session_route \<Rightarrow> (nat \<times> start_result fate) option" where
  "orphan_start_reply dbg p =
     map_option (\<lambda>tx. (tx, Delivered (Err (Disconnected
         (''agent disconnected before session started: '' @ dbg (fst p))))))
       (sr_started_tx (snd p))"

definition orphan_events ::
  "(session_id \<Rightarrow> string) \<Rightarrow> nat \<Rightarrow> session_id \<times> session_route \<Rightarrow> bridge_asr_event list" where
  "orphan_events dbg c p =
     (if sr_started_tx (snd p) = None \<and> sr_event_tx (snd p) = c
      then [AsrErrorEv (''agent disconnected for session '' @ dbg (fst p)),
            AsrEndedEv (Some ''agent_disconnected'')]
      else [])"

lemma post_event_sent:
  "sent_on d (hub_events (post_event tx e h)) =
     sent_on d (hub_events h) @ (if d = tx \<and> tx \<notin> net_closed (hub_events h) then [e] else [])"
  "net_closed (hub_events (post_event tx e h)) = net_closed (hub_events h)"
  by (simp_all add: post_event_def sent_on_post)

lemma reply_events [simp]:
  "hub_events (reply_start tx f h) = hub_events h"
  "hub_events (reply_wait tx' g h) = hub_events h"
  by (simp_all add: reply_start_def reply_wait_def)

lemma finish_orphaned_session_effect:
  "hub_starts (finish_orphaned_session dbg p h) =
     hub_starts h @ (case orphan_start_reply dbg p of Some x \<Rightarrow> [x] | None \<Rightarrow> [])"
  "c \<notin> net_closed (hub_events h) \<Longrightarrow>
     sent_on c (hub_events (finish_orphaned_session dbg p h)) =
     sent_on c (hub_events h) @ orphan_events dbg c p"
  "net_closed (hub_events (finish_orphaned_session dbg p h)) = net_closed (hub_events h)"
  "hub_registry (finish_orphaned_session dbg p h) = hub_registry h"
  "hub_sessions (finish_orphaned_session dbg p h) = hub_sessions h"
  "hub_waiters (finish_orphaned_session dbg p h) = hub_waiters h"
  "hub_waits (finish_orphaned_session dbg p h) = hub_waits h"
  by (auto simp: finish_orphaned_session_def orphan_start_reply_def orphan_events_def
      post_event_sent split: prod.splits option.splits)

lemma finish_orphaned_sessions:
  "hub_starts (fold (finish_orphaned_session dbg) ps h) =
     hub_starts h @ List.map_filter (orphan_start_reply dbg) ps"
  "c \<notin> net_closed (hub_events h) \<Longrightarrow>
     sent_on c (hub_events (fold (finish_orphaned_session dbg) ps h)) =
     sent_on c (hub_events h) @ concat (map (orphan_events dbg c) ps)"
  "net_closed (hub_events (fold (finish_orphaned_session dbg) ps h)) = net_closed (hub_events h)"
  "hub_registry (fold (finish_orphaned_session dbg) ps h) = hub_registry h"
  "hub_sessions (fold (finish_orphaned_session dbg) ps h) = hub_sessions h"
  "hub_waiters (fold (finish_orphaned_session dbg) ps h) = hub_waiters h"
  "hub_waits (fold (finish_orphaned_session dbg) ps h) = hub_waits h"
  by (induction ps arbitrary: h)
    (simp_all add: finish_orphaned_session_effect List.map_filter_simps split: option.splits)

text \<open>Orphaned tasks are answered through the waiter contract.\<close>

definition orphan_task_answer :: "string \<Rightarrow> string \<times> task_wait_result" where
  "orphan_task_answer t =
     (t, Err (Disconnected (''agent disconnected before task completion: '' @ t)))"

lemma fold_orphaned_tasks:
  "fold finish_orphaned_task ts h =
     fold (\<lambda>(t, r). resolve_task_waiter t r) (map orphan_task_answer ts) h"
  by (induction ts arbitrary: h) (simp_all add: finish_orphaned_task_def orphan_task_answer_def)

lemma resolve_events [simp]: "hub_events (resolve_task_waiter t r h) = hub_events h"
  by (auto simp: resolve_task_waiter_def drop_waiter_def split: option.splits)

lemma fold_orphaned_tasks_frames [simp]:
  "hub_registry (fold finish_orphaned_task ts h) = hub_registry h"
  "hub_sessions (fold finish_orphaned_task ts h) = hub_sessions h"
  "hub_starts (fold finish_orphaned_task ts h) = hub_starts h"
  "hub_events (fold finish_orphaned_task ts h) = hub_events h"
  by (induction ts arbitrary: h) (simp_all add: finish_orphaned_task_def)

text \<open>\<open>orphan_waits\<close> is what the waiters of a list of tasks receive.\<close>

definition orphan_waits :: "(string \<Rightarrow> nat option) \<Rightarrow> string list \<Rightarrow> (nat \<times> task_wait_result fate) list" where
  "orphan_waits W ts =
     concat (map (\<lambda>t. case W t of
                        Some w \<Rightarrow> [(w, Delivered (snd (orphan_task_answer t)))] | None \<Rightarrow> []) ts)"

lemma fold_orphaned_tasks_waits:
  assumes "distinct ts"
  shows "hub_waits (fold finish_orphaned_task ts h) = hub_waits h @ orphan_waits (hub_waiters h) ts"
    and "hub_waiters (fold finish_orphaned_task ts h) t =
           (if t \<in> set ts then None else hub_waiters h t)"
proof -
  have "map fst (map orphan_task_answer ts) = ts"
    by (induction ts) (simp_all add: orphan_task_answer_def)
  then have d: "distinct (map fst (map orphan_task_answer ts))" and
    i: "fst ` set (map orphan_task_answer ts) = set ts"
    using assms by (simp, metis list.set_map)
  show "hub_waits (fold finish_orphaned_task ts h) = hub_waits h @ orphan_waits (hub_waiters h) ts"
    using waiter_resolved.settle_all_answered [OF d, of h]
    by (simp add: fold_orphaned_tasks orphan_waits_def comp_def orphan_task_answer_def
        case_prod_unfold cong: option.case_cong)
  show "hub_waiters (fold finish_orphaned_task ts h) t =
           (if t \<in> set ts then None else hub_waiters h t)"
    using waiter_resolved.settle_all_pending [of "map orphan_task_answer ts" h t] i
    by (simp add: fold_orphaned_tasks)
qed

text \<open>
  The contract of a removal. Everyone who waits for something of the agent is told:
  pending session starts and task waiters by an error, open sessions by an error event and an
  end event next to each other. Everything else stays as it was.
\<close>

definition agent_gone :: "(session_id \<Rightarrow> string) \<Rightarrow> string \<Rightarrow> hub \<Rightarrow> hub \<Rightarrow> bool" where
  "agent_gone dbg aid h h' \<longleftrightarrow>
     (\<forall>s. hub_sessions h' s = (if s \<in> owned_sessions aid h then None else hub_sessions h s)) \<and>
     (\<forall>t. reg_tasks (hub_registry h') t =
        (if t \<in> routed_to aid (hub_registry h) then None else reg_tasks (hub_registry h) t)) \<and>
     (\<forall>t. hub_waiters h' t =
        (if t \<in> routed_to aid (hub_registry h) then None else hub_waiters h t)) \<and>
     (\<forall>s route. hub_sessions h s = Some route \<and> sr_agent_id route = aid \<longrightarrow>
        (case sr_started_tx route of
           Some tx \<Rightarrow> (tx, Delivered (Err (Disconnected
             (''agent disconnected before session started: '' @ dbg s)))) \<in> set (hub_starts h')
         | None \<Rightarrow> sr_event_tx route \<in> net_closed (hub_events h) \<or>
             sublist [AsrErrorEv (''agent disconnected for session '' @ dbg s),
                      AsrEndedEv (Some ''agent_disconnected'')]
               (sent_on (sr_event_tx route) (hub_events h')))) \<and>
     (\<forall>t w. t \<in> routed_to aid (hub_registry h) \<and> hub_waiters h t = Some w \<longrightarrow>
        (w, Delivered (Err (Disconnected (''agent disconnected before task completion: '' @ t))))
          \<in> set (hub_waits h'))"

text \<open>The same with the tasks \<open>R\<close> that the removal takes along; a new registration takes those of the one it replaces.\<close>

definition removal :: "(session_id \<Rightarrow> string) \<Rightarrow> string \<Rightarrow> string set \<Rightarrow> hub \<Rightarrow> hub \<Rightarrow> bool" where
  "removal dbg aid R h h' \<longleftrightarrow>
     (\<forall>s. hub_sessions h' s = (if s \<in> owned_sessions aid h then None else hub_sessions h s)) \<and>
     (\<forall>t. reg_tasks (hub_registry h') t = (if t \<in> R then None else reg_tasks (hub_registry h) t)) \<and>
     (\<forall>t. hub_waiters h' t = (if t \<in> R then None else hub_waiters h t)) \<and>
     (\<forall>s route. hub_sessions h s = Some route \<and> sr_agent_id route = aid \<longrightarrow>
        (case sr_started_tx route of
           Some tx \<Rightarrow> (tx, Delivered (Err (Disconnected
             (''agent disconnected before session started: '' @ dbg s)))) \<in> set (hub_starts h')
         | None \<Rightarrow> sr_event_tx route \<in> net_closed (hub_events h) \<or>
             sublist [AsrErrorEv (''agent disconnected for session '' @ dbg s),
                      AsrEndedEv (Some ''agent_disconnected'')]
               (sent_on (sr_event_tx route) (hub_events h')))) \<and>
     (\<forall>t w. t \<in> R \<and> hub_waiters h t = Some w \<longrightarrow>
        (w, Delivered (Err (Disconnected (''agent disconnected before task completion: '' @ t))))
          \<in> set (hub_waits h'))"

lemma agent_gone_removal: "agent_gone dbg aid h h' \<longleftrightarrow> removal dbg aid (routed_to aid (hub_registry h)) h h'"
  unfolding agent_gone_def removal_def by (rule refl)

lemma sublist_concat_map: "x \<in> set xs \<Longrightarrow> sublist (f x) (us @ concat (map f xs))"
proof -
  assume "x \<in> set xs"
  then obtain ys zs where xs: "xs = ys @ x # zs" by (auto simp: in_set_conv_decomp)
  have "us @ concat (map f xs) = (us @ concat (map f ys)) @ f x @ concat (map f zs)"
    by (simp add: xs)
  then show ?thesis unfolding sublist_def by blast
qed

lemma finish_agent_removal_effect:
  assumes orphans: "set imp = {(s, route). hub_sessions h s = Some route \<and> sr_agent_id route = aid}"
    and h1: "h1 = fold drop_session (map fst imp) h"
    and ts: "set ts = R" "distinct ts"
    and tasks: "\<And>t. reg_tasks reg t =
      (if t \<in> R then None else reg_tasks (hub_registry h) t)"
    and h': "h' = finish_agent_removal dbg imp ts (h1\<lparr>hub_registry := reg\<rparr>)"
  shows "removal dbg aid R h h'"
    and "hub_registry h' = reg"
    and "hub_starts h' = hub_starts h @ List.map_filter (orphan_start_reply dbg) imp"
    and "hub_waits h' = hub_waits h @ orphan_waits (hub_waiters h) ts"
proof -
  note effs = h' h1 finish_agent_removal_def finish_orphaned_sessions fold_orphaned_tasks_waits [OF ts(2)]
  show reg: "hub_registry h' = reg"
    and starts: "hub_starts h' = hub_starts h @ List.map_filter (orphan_start_reply dbg) imp"
    and waits: "hub_waits h' = hub_waits h @ orphan_waits (hub_waiters h) ts"
    by (simp_all add: effs)
  have fst_imp: "fst ` set imp = owned_sessions aid h" by (force simp: orphans owned_sessions_def)
  have sessions: "hub_sessions h' s = (if s \<in> owned_sessions aid h then None else hub_sessions h s)" for s
    using fst_imp by (simp add: effs session_table.lookup_del_all)
  have waiters: "hub_waiters h' t = (if t \<in> R then None else hub_waiters h t)" for t
    using ts(1) by (simp add: effs)
  have events: "sent_on c (hub_events h') = sent_on c (hub_events h) @ concat (map (orphan_events dbg c) imp)"
    if "c \<notin> net_closed (hub_events h)" for c
    using that by (simp add: effs)
  have told: "case sr_started_tx route of
           Some tx \<Rightarrow> (tx, Delivered (Err (Disconnected
             (''agent disconnected before session started: '' @ dbg s)))) \<in> set (hub_starts h')
         | None \<Rightarrow> sr_event_tx route \<in> net_closed (hub_events h) \<or>
             sublist [AsrErrorEv (''agent disconnected for session '' @ dbg s),
                      AsrEndedEv (Some ''agent_disconnected'')]
               (sent_on (sr_event_tx route) (hub_events h'))"
    if s: "hub_sessions h s = Some route \<and> sr_agent_id route = aid" for s route
  proof (cases "sr_started_tx route")
    case None
    have "(s, route) \<in> set imp" using s by (simp add: orphans)
    note S = sublist_concat_map [OF this, of "orphan_events dbg (sr_event_tx route)"]
    have E: "orphan_events dbg (sr_event_tx route) (s, route) =
               [AsrErrorEv (''agent disconnected for session '' @ dbg s),
                AsrEndedEv (Some ''agent_disconnected'')]"
      by (simp add: orphan_events_def None)
    show ?thesis
      unfolding None option.case E [symmetric] using S events by metis
  next
    case (Some tx)
    have "(s, route) \<in> set imp" using s by (simp add: orphans)
    with Some show ?thesis
      by (auto simp: starts map_filter_set orphan_start_reply_def intro!: bexI [of _ "(s, route)"])
  qed
  have answered: "(w, Delivered (Err (Disconnected (''agent disconnected before task completion: '' @ t))))
          \<in> set (hub_waits h')" if "t \<in> R \<and> hub_waiters h t = Some w" for t w
    using that ts(1) by (auto simp: waits orphan_waits_def orphan_task_answer_def intro!: bexI [of _ t])
  show "removal dbg aid R h h'"
    unfolding removal_def
    by (intro conjI allI impI sessions waiters told answered)
      (simp_all add: reg tasks)
qed

lemma unregister_agent_effect:
  assumes "valid_orders ords h" and "h' = hub_unregister_agent ords dbg aid h"
  shows "agent_gone dbg aid h h'"
    and "reg_agents (hub_registry h') = (reg_agents (hub_registry h))(aid := None)"
    and "reg_secret (hub_registry h') = reg_secret (hub_registry h)"
    and "\<exists>imp ts. distinct (map fst imp) \<and> distinct ts \<and> set ts = routed_to aid (hub_registry h) \<and>
           set imp = {(s, route). hub_sessions h s = Some route \<and> sr_agent_id route = aid} \<and>
           hub_starts h' = hub_starts h @ List.map_filter (orphan_start_reply dbg) imp \<and>
           hub_waits h' = hub_waits h @ orphan_waits (hub_waiters h) ts"
proof -
  obtain imp h1 where imp: "remove_orphaned_sessions (ord_sessions ords) aid h = (imp, h1)"
    by (metis surj_pair)
  have ords: "enumerates (ord_sessions ords) (hub_sessions h)"
    "enumerates (ord_tasks ords) (reg_tasks (hub_registry h))"
    using assms(1) by (simp_all add: valid_orders_def)
  note orphans = orphaned_sessions [OF ords(1) imp]
  obtain ts reg where ts: "remove_agent_tasks_locked (ord_tasks ords) aid (hub_registry h) = (ts, reg)"
    by (metis surj_pair)
  have h': "h' = finish_agent_removal dbg imp ts (h1\<lparr>hub_registry := reg\<rparr>)"
    using ts by (simp add: assms(2) hub_unregister_agent_def imp reg_unregister_agent_def orphans(3))
  note tasks = orphans_of_agent [OF ords(2) ts] remove_agent_state [OF ords(2) ts]
  note eff = finish_agent_removal_effect [OF orphans(1,3) tasks(1,2) tasks(4) h']
  show "agent_gone dbg aid h h'" unfolding agent_gone_removal by (rule eff(1))
  show "reg_agents (hub_registry h') = (reg_agents (hub_registry h))(aid := None)"
    and "reg_secret (hub_registry h') = reg_secret (hub_registry h)"
    by (simp_all add: eff(2) tasks)
  show "\<exists>imp ts. distinct (map fst imp) \<and> distinct ts \<and> set ts = routed_to aid (hub_registry h) \<and>
           set imp = {(s, route). hub_sessions h s = Some route \<and> sr_agent_id route = aid} \<and>
           hub_starts h' = hub_starts h @ List.map_filter (orphan_start_reply dbg) imp \<and>
           hub_waits h' = hub_waits h @ orphan_waits (hub_waiters h) ts"
    using orphans(1,2) tasks(1,2) eff(3,4) by blast
qed

text \<open>The tasks a new registration takes along: those of the agent it replaces, if it replaces one.\<close>

definition replaced_tasks :: "string \<Rightarrow> registry \<Rightarrow> string set" where
  "replaced_tasks aid r = (if reg_agents r aid = None then {} else routed_to aid r)"

lemma reg_register_effect:
  assumes "enumerates ord (reg_tasks r)" "reg_register_agent ord a r = (ts, r')"
  shows "set ts = replaced_tasks (ra_agent_id a) r" "distinct ts"
    "reg_tasks r' t = (if t \<in> replaced_tasks (ra_agent_id a) r then None else reg_tasks r t)"
    "reg_agents r' = (reg_agents r)(ra_agent_id a \<mapsto> a)"
    "reg_secret r' = reg_secret r"
proof -
  show "reg_agents r' = (reg_agents r)(ra_agent_id a \<mapsto> a)"
    using reg_agents_register [of ord a r] by (simp add: assms(2))
  have "set ts = replaced_tasks (ra_agent_id a) r \<and> distinct ts \<and>
    reg_tasks r' t = (if t \<in> replaced_tasks (ra_agent_id a) r then None else reg_tasks r t) \<and>
    reg_secret r' = reg_secret r"
  proof (cases "reg_agents r (ra_agent_id a)")
    case None
    then show ?thesis
      using assms(2) by (auto simp: reg_register_agent_def replaced_tasks_def)
  next
    case (Some b)
    obtain os r1 where r1: "remove_agent_tasks_locked ord (ra_agent_id a) r = (os, r1)"
      by (metis surj_pair)
    then have "ts = os" "r' = r1\<lparr>reg_agents := (reg_agents r1)(ra_agent_id a \<mapsto> a)\<rparr>"
      using assms(2) Some by (auto simp: reg_register_agent_def)
    then show ?thesis
      using orphans_of_agent [OF assms(1) r1] remove_agent_state [OF assms(1) r1] Some
      by (simp add: replaced_tasks_def)
  qed
  then show "set ts = replaced_tasks (ra_agent_id a) r" "distinct ts"
    "reg_tasks r' t = (if t \<in> replaced_tasks (ra_agent_id a) r then None else reg_tasks r t)"
    "reg_secret r' = reg_secret r" by simp_all
qed

lemma agent_of_hello_id [simp]: "ra_agent_id (agent_of_hello hello tx) = hel_agent_id hello"
  by (simp add: agent_of_hello_def)

definition hello_accepted :: "string option \<Rightarrow> agent_hello_payload \<Rightarrow> bool" where
  "hello_accepted secret hello \<longleftrightarrow>
     (case secret of Some expected \<Rightarrow> hel_shared_secret hello = Some expected | None \<Rightarrow> True)"

lemma register_agent_effect:
  assumes "valid_orders ords h" and "hub_register_agent ords dbg hello tx h = Ok h'"
  shows "removal dbg (hel_agent_id hello) (replaced_tasks (hel_agent_id hello) (hub_registry h)) h h'"
    and "reg_agents (hub_registry h') =
           (reg_agents (hub_registry h))(hel_agent_id hello \<mapsto> agent_of_hello hello tx)"
    and "reg_secret (hub_registry h') = reg_secret (hub_registry h)"
    and "hello_accepted (reg_secret (hub_registry h)) hello"
    and "\<exists>imp ts. distinct (map fst imp) \<and> distinct ts \<and>
           set ts = replaced_tasks (hel_agent_id hello) (hub_registry h) \<and>
           set imp = {(s, route). hub_sessions h s = Some route \<and> sr_agent_id route = hel_agent_id hello} \<and>
           hub_starts h' = hub_starts h @ List.map_filter (orphan_start_reply dbg) imp \<and>
           hub_waits h' = hub_waits h @ orphan_waits (hub_waiters h) ts"
proof -
  let ?aid = "hel_agent_id hello"
  obtain imp h1 where imp: "remove_orphaned_sessions (ord_sessions ords) ?aid h = (imp, h1)"
    by (metis surj_pair)
  have ords: "enumerates (ord_sessions ords) (hub_sessions h)"
    "enumerates (ord_tasks ords) (reg_tasks (hub_registry h))"
    using assms(1) by (simp_all add: valid_orders_def)
  note orphans = orphaned_sessions [OF ords(1) imp]
  obtain ts reg where ts: "reg_register_agent (ord_tasks ords) (agent_of_hello hello tx) (hub_registry h) = (ts, reg)"
    by (metis surj_pair)
  show "hello_accepted (reg_secret (hub_registry h)) hello"
    using assms(2) by (auto simp: hub_register_agent_def hello_accepted_def split: option.splits if_splits)
  have h': "h' = finish_agent_removal dbg imp ts (h1\<lparr>hub_registry := reg\<rparr>)"
    using ts assms(2) by (auto simp: hub_register_agent_def imp orphans(3) split: if_splits)
  note tasks = reg_register_effect [OF ords(2) ts, unfolded agent_of_hello_id]
  note eff = finish_agent_removal_effect [OF orphans(1,3) tasks(1,2,3) h']
  show "removal dbg ?aid (replaced_tasks ?aid (hub_registry h)) h h'" by (rule eff(1))
  show "reg_agents (hub_registry h') = (reg_agents (hub_registry h))(?aid \<mapsto> agent_of_hello hello tx)"
    and "reg_secret (hub_registry h') = reg_secret (hub_registry h)"
    by (simp_all add: eff(2) tasks)
  show "\<exists>imp ts. distinct (map fst imp) \<and> distinct ts \<and> set ts = replaced_tasks ?aid (hub_registry h) \<and>
           set imp = {(s, route). hub_sessions h s = Some route \<and> sr_agent_id route = ?aid} \<and>
           hub_starts h' = hub_starts h @ List.map_filter (orphan_start_reply dbg) imp \<and>
           hub_waits h' = hub_waits h @ orphan_waits (hub_waiters h) ts"
    using orphans(1,2) tasks(1,2) eff(3,4) by blast
qed

section \<open>Invariants\<close>

definition waits_inv :: "hub \<Rightarrow> bool" where
  "waits_inv h \<longleftrightarrow> promise_inv (hub_waiters h) (hub_waits h)"

definition starts_inv :: "hub \<Rightarrow> bool" where
  "starts_inv h \<longleftrightarrow> promise_inv (pending_start h) (hub_starts h)"

definition hub_inv :: "hub \<Rightarrow> bool" where
  "hub_inv h \<longleftrightarrow> registry_wf (hub_registry h) \<and> waits_inv h \<and> starts_inv h"

text \<open>Answers to the orphans of a removal go to distinct pending channels.\<close>

lemma orphan_waits_fst: "w \<in> fst ` set (orphan_waits W ts) \<longleftrightarrow> (\<exists>t \<in> set ts. W t = Some w)"
  by (force simp: orphan_waits_def split: option.splits)

lemma orphan_waits_distinct:
  assumes "promise_inv W A" and "distinct ts"
  shows "distinct (map fst (orphan_waits W ts))"
  using assms(2)
proof (induction ts)
  case Nil
  then show ?case by (simp add: orphan_waits_def)
next
  case (Cons t ts)
  have "w \<notin> fst ` set (orphan_waits W ts)" if "W t = Some w" for w
    using Cons.prems promise_inv_inj [OF assms(1) that] by (auto simp only: orphan_waits_fst distinct.simps)
  moreover have "orphan_waits W (t # ts) =
      (case W t of Some w \<Rightarrow> [(w, Delivered (snd (orphan_task_answer t)))] | None \<Rightarrow> []) @ orphan_waits W ts"
    by (simp add: orphan_waits_def)
  ultimately show ?case using Cons by (cases "W t") simp_all
qed

lemma orphan_starts_fst:
  "w \<in> fst ` set (List.map_filter (orphan_start_reply dbg) imp) \<longleftrightarrow>
     (\<exists>p \<in> set imp. sr_started_tx (snd p) = Some w)"
  by (force simp: map_filter_set orphan_start_reply_def)

lemma orphan_starts_distinct:
  assumes "promise_inv (pending_start h) A" and "distinct (map fst imp)"
    and "\<And>s route. (s, route) \<in> set imp \<Longrightarrow> hub_sessions h s = Some route"
  shows "distinct (map fst (List.map_filter (orphan_start_reply dbg) imp))"
  using assms(2,3)
proof (induction imp)
  case Nil
  then show ?case by (simp add: List.map_filter_simps)
next
  case (Cons p imp)
  obtain s route where p: "p = (s, route)" by force
  have ih: "distinct (map fst (List.map_filter (orphan_start_reply dbg) imp))"
    using Cons by simp
  show ?case
  proof (cases "sr_started_tx route")
    case None
    then have "orphan_start_reply dbg p = None" by (simp add: orphan_start_reply_def p)
    with ih show ?thesis by (simp add: List.map_filter_simps)
  next
    case (Some w)
    have w: "pending_start h s = Some w"
      using Cons.prems(2) [of s route] Some by (simp add: p pending_start_def)
    have "w \<notin> fst ` set (List.map_filter (orphan_start_reply dbg) imp)"
    proof
      assume "w \<in> fst ` set (List.map_filter (orphan_start_reply dbg) imp)"
      then obtain q' where q': "q' \<in> set imp" "sr_started_tx (snd q') = Some w"
        by (auto simp only: orphan_starts_fst)
      obtain s' route' where "q' = (s', route')" by force
      with q' have q: "(s', route') \<in> set imp" "sr_started_tx route' = Some w" by simp_all
      then have "pending_start h s' = Some w"
        using Cons.prems(2) [of s' route'] by (simp add: pending_start_def)
      with promise_inv_inj [OF assms(1) w] have "s' = s" by simp
      with q(1) Cons.prems(1) p show False by force
    qed
    moreover obtain f where "orphan_start_reply dbg p = Some (w, f)"
      using Some by (simp add: orphan_start_reply_def p)
    ultimately show ?thesis using ih by (simp add: List.map_filter_simps)
  qed
qed

text \<open>A removal keeps the channel invariants.\<close>

lemma removal_keeps_promises:
  assumes gone: "removal dbg aid R h h'"
    and parts: "distinct (map fst imp)" "distinct ts" "set ts = R"
      "set imp = {(s, route). hub_sessions h s = Some route \<and> sr_agent_id route = aid}"
      "hub_starts h' = hub_starts h @ List.map_filter (orphan_start_reply dbg) imp"
      "hub_waits h' = hub_waits h @ orphan_waits (hub_waiters h) ts"
    and inv: "waits_inv h" "starts_inv h"
  shows "waits_inv h'" and "starts_inv h'"
proof -
  have W: "hub_waiters h' = (\<lambda>t. if t \<in> R then None else hub_waiters h t)"
    using gone unfolding removal_def by blast
  have P: "pending_start h' = (\<lambda>s. if s \<in> owned_sessions aid h then None else pending_start h s)"
    using gone unfolding removal_def by (auto simp: pending_start_def fun_eq_iff)
  note wi = inv(1) [unfolded waits_inv_def]
  note si = inv(2) [unfolded starts_inv_def]
  show "waits_inv h'"
    unfolding waits_inv_def W parts(6)
  proof (rule promise_inv_drop_many [OF wi orphan_waits_distinct [OF wi parts(2)]])
    fix w assume "w \<in> fst ` set (orphan_waits (hub_waiters h) ts)"
    then show "\<exists>k \<in> R. hub_waiters h k = Some w"
      unfolding orphan_waits_fst parts(3) .
  qed
  show "starts_inv h'"
    unfolding starts_inv_def P parts(5)
  proof (rule promise_inv_drop_many [OF si orphan_starts_distinct [OF si parts(1)]])
    fix s route assume "(s, route) \<in> set imp"
    then show "hub_sessions h s = Some route" by (simp add: parts(4))
  next
    fix w assume "w \<in> fst ` set (List.map_filter (orphan_start_reply dbg) imp)"
    then obtain p where "p \<in> set imp" "sr_started_tx (snd p) = Some w"
      by (auto simp only: orphan_starts_fst)
    then show "\<exists>k \<in> owned_sessions aid h. pending_start h k = Some w"
      by (intro bexI [of _ "fst p"]) (auto simp: parts(4) owned_sessions_def pending_start_def)
  qed
qed

section \<open>Steps and reachable hubs\<close>

text \<open>
  One step is one method call, from whichever connection or request it comes, or a receiver
  that goes away. A method that uses an agent it chose before is two steps: choosing one changes nothing, and the
  registration of a session or of a task comes with an agent id that may be of any agent, registered still
  or not. Channel numbers are fresh where the code creates a channel, and a new session id is
  not in use. \<open>dbg\<close> renders session ids. The label of a step says which hello it handles, which
  task it registers, and which task it takes back because its start could not be delivered.
\<close>

datatype hub_label =
    HelloReceived agent_hello_payload nat
  | TaskStarting string
  | TaskUndelivered string
  | OtherCall

inductive hub_step :: "(session_id \<Rightarrow> string) \<Rightarrow> hub_label \<Rightarrow> hub \<Rightarrow> hub \<Rightarrow> bool" for dbg where
  step_register: "valid_orders ords h \<Longrightarrow> hub_register_agent ords dbg hello tx h = Ok h' \<Longrightarrow>
     hub_step dbg (HelloReceived hello tx) h h'"
| step_refuse: "hub_register_agent ords dbg hello tx h = Err e \<Longrightarrow> hub_step dbg (HelloReceived hello tx) h h"
| step_unregister: "valid_orders ords h \<Longrightarrow> hub_step dbg OtherCall h (hub_unregister_agent ords dbg aid h)"
| step_message: "hub_step dbg OtherCall h (handle_agent_message m h)"
| step_task: "hub_register_task t aid h = Ok h' \<Longrightarrow> hub_step dbg (TaskStarting t) h h'"
| step_undelivered: "hub_step dbg (TaskUndelivered t) h (hub_remove_task t h)"
| step_play_chunk: "hub_step dbg OtherCall h (snd (route_play_audio_chunk t d h))"
| step_play_finish: "hub_step dbg OtherCall h (snd (route_play_audio_finish t h))"
| step_subscribe: "w \<notin> issued (hub_waiters h) (hub_waits h) \<Longrightarrow>
     hub_step dbg OtherCall h (subscribe_task_waiter t w h)"
| step_unsubscribe: "hub_step dbg OtherCall h (remove_task_waiter t h)"
| step_session: "hub_sessions h s = None \<Longrightarrow> st \<notin> issued (pending_start h) (hub_starts h) \<Longrightarrow>
     hub_step dbg OtherCall h (hub_register_session aid s ev st h)"
| step_fail_start: "hub_step dbg OtherCall h (fail_session_start s e h)"
| step_send: "send_command tx m h = Some h' \<Longrightarrow> hub_step dbg OtherCall h h'"
| step_close_agent: "hub_step dbg OtherCall h
     (h\<lparr>hub_cmds := hub_cmds h\<lparr>net_closed := insert c (net_closed (hub_cmds h))\<rparr>\<rparr>)"
| step_close_session: "hub_step dbg OtherCall h
     (h\<lparr>hub_events := hub_events h\<lparr>net_closed := insert c (net_closed (hub_events h))\<rparr>\<rparr>)"

inductive hub_reachable :: "(session_id \<Rightarrow> string) \<Rightarrow> string option \<Rightarrow> hub \<Rightarrow> bool" for dbg secret where
  hub_init: "hub_reachable dbg secret (hub_new secret)"
| hub_next: "hub_reachable dbg secret h \<Longrightarrow> hub_step dbg l h h' \<Longrightarrow> hub_reachable dbg secret h'"

text \<open>A run, with the labels of its steps.\<close>

inductive hub_run :: "(session_id \<Rightarrow> string) \<Rightarrow> string option \<Rightarrow> hub_label list \<Rightarrow> hub \<Rightarrow> bool" for dbg secret where
  run_init: "hub_run dbg secret [] (hub_new secret)"
| run_next: "hub_run dbg secret ls h \<Longrightarrow> hub_step dbg l h h' \<Longrightarrow> hub_run dbg secret (ls @ [l]) h'"

lemma hub_run_reachable: "hub_run dbg secret ls h \<Longrightarrow> hub_reachable dbg secret h"
  by (induction rule: hub_run.induct) (blast intro: hub_init hub_next)+

lemma hub_reachable_run: "hub_reachable dbg secret h \<Longrightarrow> \<exists>ls. hub_run dbg secret ls h"
  by (induction rule: hub_reachable.induct) (blast intro: run_init run_next)+

lemma pending_start_cong: "hub_sessions h' = hub_sessions h \<Longrightarrow> pending_start h' = pending_start h"
  by (simp add: pending_start_def fun_eq_iff)

lemma waiter_op_starts [simp]:
  "pending_start (resolve_task_waiter t r h) = pending_start h"
  "pending_start (remove_task_waiter t h) = pending_start h"
  by (rule pending_start_cong, simp)+

lemma hub_inv_frame:
  assumes "hub_inv h" and "reg_agents (hub_registry h') = reg_agents (hub_registry h)"
    and "hub_sessions h' = hub_sessions h" "hub_waiters h' = hub_waiters h"
    and "hub_waits h' = hub_waits h" "hub_starts h' = hub_starts h"
  shows "hub_inv h'"
  using assms pending_start_cong [OF assms(3)]
  by (simp add: hub_inv_def registry_wf_def waits_inv_def starts_inv_def)

lemma hub_inv_same:
  assumes "hub_inv h" and "hub_registry h' = hub_registry h"
    and "hub_sessions h' = hub_sessions h" "hub_waiters h' = hub_waiters h"
    and "hub_waits h' = hub_waits h" "hub_starts h' = hub_starts h"
  shows "hub_inv h'"
  using assms by (intro hub_inv_frame [OF assms(1)]) simp_all

lemma hub_inv_remove_task: "hub_inv h \<Longrightarrow> hub_inv (hub_remove_task t h)"
  by (rule hub_inv_frame) simp_all

lemma hub_inv_resolve: "hub_inv h \<Longrightarrow> hub_inv (resolve_task_waiter t r h)"
  using waiter_resolved.settle_inv [of h "(t, r)"]
  by (simp add: hub_inv_def waits_inv_def starts_inv_def)

lemma hub_inv_remove_waiter: "hub_inv h \<Longrightarrow> hub_inv (remove_task_waiter t h)"
  using waiter_removed.settle_inv [of h t]
  by (simp add: hub_inv_def waits_inv_def starts_inv_def)

lemma subscribe_is_remove_put:
  "subscribe_task_waiter t w h =
     put_waiter t w (remove_task_waiter t h)"
  by (auto simp: subscribe_task_waiter_def remove_task_waiter_def put_waiter_def drop_waiter_def
      reply_wait_def split: option.splits)

lemma hub_inv_subscribe:
  assumes "hub_inv h" and "w \<notin> issued (hub_waiters h) (hub_waits h)"
  shows "hub_inv (subscribe_task_waiter t w h)"
proof -
  let ?h = "remove_task_waiter t h"
  have h: "hub_inv ?h" by (rule hub_inv_remove_waiter [OF assms(1)])
  have "hub_waiters ?h = (hub_waiters h)(t := None)"
    by (rule waiter_removed.settle_pending)
  moreover have "set (hub_waits ?h) \<subseteq> set (hub_waits h) \<union> {(v, SenderDropped) | v. hub_waiters h t = Some v}"
    by (auto simp: waiter_removed.settle_answered split: option.splits)
  ultimately have fresh: "w \<notin> issued (hub_waiters ?h) (hub_waits ?h)"
    using assms(2) unfolding issued_def by (auto simp: ran_def split: if_splits)
  from h have "promise_inv (hub_waiters ?h) (hub_waits ?h)" by (simp add: hub_inv_def waits_inv_def)
  from promise_inv_issue [OF this fresh, of t] \<open>hub_waiters ?h = _\<close>
  have "waits_inv (put_waiter t w ?h)" by (simp add: waits_inv_def)
  with h show ?thesis
    by (simp add: subscribe_is_remove_put hub_inv_def starts_inv_def)
qed

text \<open>Operations on one session route.\<close>

lemma hub_inv_session_op:
  assumes "hub_inv h" and "hub_registry h' = hub_registry h"
    and "hub_waiters h' = hub_waiters h" "hub_waits h' = hub_waits h"
    and "promise_inv (pending_start h') (hub_starts h')"
  shows "hub_inv h'"
  using assms by (simp add: hub_inv_def waits_inv_def starts_inv_def)

lemma hub_inv_startsD: "hub_inv h \<Longrightarrow> promise_inv (pending_start h) (hub_starts h)"
  by (simp add: hub_inv_def starts_inv_def)

lemma hub_inv_mark_started:
  assumes "hub_inv h"
  shows "hub_inv (mark_session_started s h)"
  by (rule hub_inv_session_op [OF assms])
    (rule session_op_frames start_acknowledged.settle_inv [OF hub_inv_startsD [OF assms]])+

lemma hub_inv_fail_start:
  assumes "hub_inv h"
  shows "hub_inv (fail_session_start s e h)"
  by (rule hub_inv_session_op [OF assms])
    (use start_failed.settle_inv [OF hub_inv_startsD [OF assms], of "(s, e)"] in simp_all)

lemma hub_inv_ended:
  assumes "hub_inv h"
  shows "hub_inv (route_session_ended s r h)"
  by (rule hub_inv_session_op [OF assms])
    (use start_ended.settle_inv [OF hub_inv_startsD [OF assms], of "(s, r)"] in simp_all)

lemma hub_inv_route_event: "hub_inv h \<Longrightarrow> hub_inv (route_event s e h)"
  by (rule hub_inv_same) simp_all

lemma hub_inv_task_status: "hub_inv h \<Longrightarrow> hub_inv (handle_task_status t p h)"
  by (simp add: handle_task_status_def hub_inv_resolve hub_inv_remove_task)

lemma hub_inv_message: "hub_inv h \<Longrightarrow> hub_inv (handle_agent_message m h)"
  by (cases "(m, h)" rule: handle_agent_message.cases)
    (simp_all add: Let_def hub_inv_mark_started hub_inv_fail_start hub_inv_ended
      hub_inv_route_event hub_inv_task_status)

lemma hub_inv_send: "hub_inv h \<Longrightarrow> send_command tx m h = Some h' \<Longrightarrow> hub_inv h'"
  using send_command_frames [of tx m h h'] by (intro hub_inv_same [of h h']) simp_all

lemma hub_inv_abandon: "hub_inv h \<Longrightarrow> hub_inv (snd (abandon_task t m h))"
  by (simp add: abandon_task_def hub_inv_resolve hub_inv_remove_task)

lemma hub_inv_chunk: "hub_inv h \<Longrightarrow> hub_inv (snd (route_play_audio_chunk t d h))"
  by (auto simp: route_play_audio_chunk_def hub_inv_abandon split: option.splits dest: hub_inv_send)

lemma hub_inv_finish: "hub_inv h \<Longrightarrow> hub_inv (snd (route_play_audio_finish t h))"
  by (auto simp: route_play_audio_finish_def hub_inv_abandon split: option.splits dest: hub_inv_send)

lemma hub_inv_register_task:
  assumes "hub_inv h" "hub_register_task t aid h = Ok h'"
  shows "hub_inv h'"
proof -
  have "h' = h\<lparr>hub_registry := put_task t \<lparr>tkr_agent_id = aid\<rparr> (hub_registry h)\<rparr>"
    using assms(2) by (auto simp: hub_register_task_def reg_register_task_def split: if_splits)
  then show ?thesis by (intro hub_inv_frame [OF assms(1)]) simp_all
qed

lemma hub_inv_start_session:
  assumes "hub_inv h" and "hub_sessions h s = None" and "st \<notin> issued (pending_start h) (hub_starts h)"
  shows "hub_inv (hub_register_session aid s ev st h)"
proof -
  let ?route = "\<lparr>sr_agent_id = aid, sr_event_tx = ev, sr_started_tx = Some st\<rparr>"
  have h': "hub_register_session aid s ev st h = put_session s ?route h"
    using assms(2) by (simp add: hub_register_session_def)
  have "pending_start h s = None" using assms(2) by (simp add: pending_start_def)
  from promise_inv_issue [OF hub_inv_startsD [OF assms(1)] assms(3) this]
  have "promise_inv (pending_start (put_session s ?route h)) (hub_starts (put_session s ?route h))"
    by simp
  then show ?thesis
    unfolding h' by (intro hub_inv_session_op [OF assms(1)]) simp_all
qed

lemma hub_inv_register:
  assumes "hub_inv h" "valid_orders ords h" "hub_register_agent ords dbg hello tx h = Ok h'"
  shows "hub_inv h'"
proof -
  note eff = register_agent_effect [OF assms(2,3)]
  obtain imp ts where parts: "distinct (map fst imp)" "distinct ts"
    "set ts = replaced_tasks (hel_agent_id hello) (hub_registry h)"
    "set imp = {(s, route). hub_sessions h s = Some route \<and> sr_agent_id route = hel_agent_id hello}"
    "hub_starts h' = hub_starts h @ List.map_filter (orphan_start_reply dbg) imp"
    "hub_waits h' = hub_waits h @ orphan_waits (hub_waiters h) ts"
    using eff(5) by blast
  have "waits_inv h" "starts_inv h" using assms(1) by (simp_all add: hub_inv_def)
  note promises = removal_keeps_promises [OF eff(1) parts this]
  have "registry_wf (hub_registry h')"
    using assms(1) by (auto simp: hub_inv_def registry_wf_def eff(2))
  then show ?thesis using promises by (simp add: hub_inv_def)
qed

lemma hub_inv_unregister:
  assumes "hub_inv h" "valid_orders ords h"
  shows "hub_inv (hub_unregister_agent ords dbg aid h)"
proof -
  let ?h = "hub_unregister_agent ords dbg aid h"
  note eff = unregister_agent_effect [OF assms(2) refl, where dbg = dbg and aid = aid]
  obtain imp ts where parts: "distinct (map fst imp)" "distinct ts"
    "set ts = routed_to aid (hub_registry h)"
    "set imp = {(s, route). hub_sessions h s = Some route \<and> sr_agent_id route = aid}"
    "hub_starts ?h = hub_starts h @ List.map_filter (orphan_start_reply dbg) imp"
    "hub_waits ?h = hub_waits h @ orphan_waits (hub_waiters h) ts"
    using eff(4) by blast
  have "waits_inv h" "starts_inv h" using assms(1) by (simp_all add: hub_inv_def)
  note promises = removal_keeps_promises [OF eff(1) [unfolded agent_gone_removal] parts this]
  have "registry_wf (hub_registry ?h)"
    using assms(1) by (auto simp: hub_inv_def registry_wf_def eff(2))
  then show ?thesis using promises by (simp add: hub_inv_def)
qed

lemma hub_inv_step: "hub_step dbg l h h' \<Longrightarrow> hub_inv h \<Longrightarrow> hub_inv h'"
proof (induction rule: hub_step.induct)
  case (step_close_agent h c)
  then show ?case by (intro hub_inv_same [OF step_close_agent]) simp_all
next
  case (step_close_session h c)
  then show ?case by (intro hub_inv_same [OF step_close_session]) simp_all
qed (blast intro: hub_inv_register hub_inv_unregister hub_inv_message hub_inv_register_task
    hub_inv_remove_task hub_inv_chunk hub_inv_finish hub_inv_subscribe hub_inv_remove_waiter
    hub_inv_start_session hub_inv_fail_start hub_inv_send)+

lemma pending_start_new: "pending_start (hub_new secret) = Map.empty"
  by (simp add: pending_start_def hub_new_def fun_eq_iff)

lemma hub_inv_new: "hub_inv (hub_new secret)"
  unfolding hub_inv_def waits_inv_def starts_inv_def pending_start_new
  by (simp add: hub_new_def registry_new_def registry_wf_def)

lemma hub_reachable_inv: "hub_reachable dbg secret h \<Longrightarrow> hub_inv h"
  by (induction rule: hub_reachable.induct) (auto intro: hub_inv_new hub_inv_step)

text \<open>
  The registry after a step: the secret stays; an agent is new only through a hello that was accepted; a
  task is new only at the start of it; and an agent goes only with the tasks that were routed to it.
\<close>

definition registry_step :: "hub_label \<Rightarrow> registry \<Rightarrow> registry \<Rightarrow> bool" where
  "registry_step l r r' \<longleftrightarrow>
     reg_secret r' = reg_secret r \<and>
     (\<forall>aid a. reg_agents r' aid = Some a \<longrightarrow> reg_agents r aid = Some a \<or>
        (\<exists>hello tx. l = HelloReceived hello tx \<and> a = agent_of_hello hello tx \<and>
           hel_agent_id hello = aid \<and> hello_accepted (reg_secret r) hello)) \<and>
     (\<forall>t route. reg_tasks r' t = Some route \<longrightarrow>
        (if reg_tasks r t = Some route
         then reg_agents r' (tkr_agent_id route) = None \<longrightarrow> reg_agents r (tkr_agent_id route) = None
         else l = TaskStarting t \<and> reg_register_task t (tkr_agent_id route) r = Ok r'))"

lemma registry_step_shrinks:
  assumes "reg_secret r' = reg_secret r" "reg_agents r' = reg_agents r"
    and "\<And>t. reg_tasks r' t = None \<or> reg_tasks r' t = reg_tasks r t"
  shows "registry_step l r r'"
  using assms unfolding registry_step_def by (metis option.distinct(1))

lemma registry_step_same [simp]: "registry_step l r r"
  by (simp add: registry_step_shrinks)

lemma registry_step_drop [simp]: "registry_step l r (drop_task t r)"
  by (rule registry_step_shrinks) (simp_all add: task_table.lookup_del)

lemma registry_step_register:
  assumes "valid_orders ords h" "hub_register_agent ords dbg hello tx h = Ok h'"
  shows "registry_step (HelloReceived hello tx) (hub_registry h) (hub_registry h')"
proof -
  note eff = register_agent_effect [OF assms]
  have "reg_tasks (hub_registry h') t = (if t \<in> replaced_tasks (hel_agent_id hello) (hub_registry h)
      then None else reg_tasks (hub_registry h) t)" for t
    using eff(1) unfolding removal_def by blast
  then show ?thesis by (auto simp: registry_step_def eff(2,3,4))
qed

lemma registry_step_unregister:
  assumes "valid_orders ords h"
  shows "registry_step l (hub_registry h) (hub_registry (hub_unregister_agent ords dbg aid h))"
proof -
  note eff = unregister_agent_effect [OF assms refl, where dbg = dbg and aid = aid]
  have "reg_tasks (hub_registry (hub_unregister_agent ords dbg aid h)) t =
      (if t \<in> routed_to aid (hub_registry h) then None else reg_tasks (hub_registry h) t)" for t
    using eff(1) unfolding agent_gone_def by blast
  then show ?thesis by (auto simp: registry_step_def eff(2,3) routed_to_def)
qed

lemma registry_step_task:
  "hub_register_task t aid h = Ok h' \<Longrightarrow> registry_step (TaskStarting t) (hub_registry h) (hub_registry h')"
  by (auto simp: registry_step_def hub_register_task_def reg_register_task_def task_table.lookup_put
      split: if_splits)

lemma registry_step_message: "registry_step l (hub_registry h) (hub_registry (handle_agent_message m h))"
  by (cases "(m, h)" rule: handle_agent_message.cases) (simp_all add: Let_def handle_task_status_def)

lemma registry_step_abandon [simp]: "registry_step l (hub_registry h) (hub_registry (snd (abandon_task t m h)))"
  by (simp add: abandon_task_def)

lemma hub_step_registry: "hub_step dbg l h h' \<Longrightarrow> registry_step l (hub_registry h) (hub_registry h')"
proof (induction rule: hub_step.induct)
  case (step_play_chunk h t d)
  then show ?case by (auto simp: route_play_audio_chunk_def split: option.split dest: send_command_frames)
next
  case (step_play_finish h t)
  then show ?case by (auto simp: route_play_audio_finish_def split: option.split dest: send_command_frames)
next
  case (step_send tx m h h')
  then show ?case by (auto dest: send_command_frames)
qed (simp_all add: registry_step_register registry_step_unregister registry_step_task registry_step_message)

lemma hub_run_secret: "hub_run dbg secret ls h \<Longrightarrow> reg_secret (hub_registry h) = secret"
proof (induction rule: hub_run.induct)
  case run_init
  then show ?case by (simp add: hub_new_def registry_new_def)
next
  case (run_next ls h l h')
  then show ?case using hub_step_registry [OF run_next(2)] by (simp add: registry_step_def)
qed

lemma hub_run_agents:
  "hub_run dbg secret ls h \<Longrightarrow> reg_agents (hub_registry h) aid = Some a \<Longrightarrow>
     \<exists>hello tx. HelloReceived hello tx \<in> set ls \<and> a = agent_of_hello hello tx \<and>
       hel_agent_id hello = aid \<and> hello_accepted secret hello"
proof (induction rule: hub_run.induct)
  case run_init
  then show ?case by (simp add: hub_new_def registry_new_def)
next
  case (run_next ls h l h')
  then show ?case
    using hub_step_registry [OF run_next(2)] hub_run_secret [OF run_next(1)]
    unfolding registry_step_def by fastforce
qed

lemma hub_run_stale_task:
  assumes "hub_run dbg secret ls h" "reg_tasks (hub_registry h) t = Some route"
    "reg_agents (hub_registry h) (tkr_agent_id route) = None"
  shows "\<exists>ls1 ls2 h1. ls = ls1 @ TaskStarting t # ls2 \<and> hub_run dbg secret ls1 h1 \<and>
       reg_agents (hub_registry h1) (tkr_agent_id route) = None \<and>
       reg_tasks (hub_registry h1) t = None"
  using assms
proof (induction rule: hub_run.induct)
  case run_init
  then show ?case by (simp add: hub_new_def registry_new_def)
next
  case (run_next ls h l h')
  note S = hub_step_registry [OF run_next(2), unfolded registry_step_def]
  show ?case
  proof (cases "reg_tasks (hub_registry h) t = Some route")
    case True
    then have "reg_agents (hub_registry h) (tkr_agent_id route) = None"
      using S run_next.prems by auto
    with run_next.IH True obtain ls1 ls2 h1 where "ls = ls1 @ TaskStarting t # ls2"
      "hub_run dbg secret ls1 h1" "reg_agents (hub_registry h1) (tkr_agent_id route) = None"
      "reg_tasks (hub_registry h1) t = None" by blast
    then show ?thesis by (intro exI [of _ ls1] exI [of _ "ls2 @ [l]"] exI [of _ h1]) simp
  next
    case False
    then have l: "l = TaskStarting t" and
      "reg_register_task t (tkr_agent_id route) (hub_registry h) = Ok (hub_registry h')"
      using S run_next.prems by (metis, metis)
    then have "reg_tasks (hub_registry h) t = None"
      and "reg_agents (hub_registry h') = reg_agents (hub_registry h)"
      by (auto simp: reg_register_task_def dest!: sym [of _ "hub_registry h'"] split: if_splits)
    then show ?thesis using run_next.prems run_next(1) l by (intro exI [of _ ls] exI [of _ "[]"] exI [of _ h]) simp
  qed
qed

text \<open>
  The waiters over a step: a channel is new in the table only if it was never handed out, none is
  forgotten, and a task goes with its waiter, except when its start was not delivered.
\<close>

definition waits_advance :: "hub_label \<Rightarrow> hub \<Rightarrow> hub \<Rightarrow> bool" where
  "waits_advance l h h' \<longleftrightarrow>
     (\<forall>k v. hub_waiters h' k = Some v \<longrightarrow>
        hub_waiters h k = Some v \<or> v \<notin> issued (hub_waiters h) (hub_waits h)) \<and>
     issued (hub_waiters h) (hub_waits h) \<subseteq> issued (hub_waiters h') (hub_waits h') \<and>
     (\<forall>k. reg_tasks (hub_registry h) k \<noteq> None \<and> reg_tasks (hub_registry h') k = None \<longrightarrow>
        l = TaskUndelivered k \<or> hub_waiters h' k = None)"

lemma waits_advance_same:
  assumes "hub_waiters h' = hub_waiters h" "hub_waits h' = hub_waits h"
    and "\<And>k. reg_tasks (hub_registry h) k \<noteq> None \<Longrightarrow> reg_tasks (hub_registry h') k \<noteq> None"
  shows "waits_advance l h h'"
  unfolding waits_advance_def assms(1,2) using assms(3) by blast

lemma issued_settle:
  "issued P A \<subseteq> issued (P(t := x)) (A @ (case P t of Some w \<Rightarrow> [(w, f)] | None \<Rightarrow> []))"
proof
  fix v assume "v \<in> issued P A"
  then consider "v \<in> fst ` set A" | k where "P k = Some v" unfolding issued_def ran_def by blast
  then show "v \<in> issued (P(t := x)) (A @ (case P t of Some w \<Rightarrow> [(w, f)] | None \<Rightarrow> []))"
  proof cases
    case 1
    then show ?thesis by (simp add: issued_def image_Un)
  next
    case (2 k)
    then show ?thesis by (cases "k = t") (auto simp: issued_def intro: ranI)
  qed
qed

lemma waits_advance_settle:
  assumes "hub_waiters h' = (hub_waiters h)(t := None)"
    and "hub_waits h' = hub_waits h @ (case hub_waiters h t of Some w \<Rightarrow> [(w, f)] | None \<Rightarrow> [])"
    and "\<And>k. k \<noteq> t \<Longrightarrow> reg_tasks (hub_registry h') k = reg_tasks (hub_registry h) k"
  shows "waits_advance l h h'"
  unfolding waits_advance_def
proof (intro conjI allI impI)
  show "issued (hub_waiters h) (hub_waits h) \<subseteq> issued (hub_waiters h') (hub_waits h')"
    unfolding assms(1,2) by (rule issued_settle)
qed (use assms(1,3) in \<open>auto split: if_splits\<close>)

lemma waits_advance_gone:
  assumes gone: "removal dbg aid (set ts) h h'"
    and waits: "hub_waits h' = hub_waits h @ orphan_waits (hub_waiters h) ts"
  shows "waits_advance l h h'"
proof -
  have W: "hub_waiters h' t = (if t \<in> set ts then None else hub_waiters h t)"
    and T: "reg_tasks (hub_registry h') t = (if t \<in> set ts then None else reg_tasks (hub_registry h) t)" for t
    using gone unfolding removal_def by blast+
  have "v \<in> issued (hub_waiters h') (hub_waits h')" if "hub_waiters h k = Some v" for k v
  proof (cases "k \<in> set ts")
    case True
    with that have "v \<in> fst ` set (orphan_waits (hub_waiters h) ts)" unfolding orphan_waits_fst by blast
    then show ?thesis unfolding issued_def waits by (simp add: image_Un)
  next
    case False
    with that W show ?thesis unfolding issued_def by (auto intro!: ranI)
  qed
  then have "issued (hub_waiters h) (hub_waits h) \<subseteq> issued (hub_waiters h') (hub_waits h')"
    unfolding issued_def [of "hub_waiters h"] by (auto simp: issued_def waits ran_def)
  then show ?thesis unfolding waits_advance_def using W T by (auto split: if_splits)
qed

lemma waits_advance_resolve_task:
  "waits_advance l h (resolve_task_waiter t r (hub_remove_task t h))"
  using waiter_resolved.settle_pending [of "(t, r)" "hub_remove_task t h"]
    waiter_resolved.settle_answered [of "(t, r)" "hub_remove_task t h"]
  by (intro waits_advance_settle [of _ _ t "Delivered r"]) (auto simp: task_table.lookup_del split: option.splits)

lemma waits_advance_message: "waits_advance l h (handle_agent_message m h)"
  by (cases "(m, h)" rule: handle_agent_message.cases)
    (simp_all add: Let_def handle_task_status_def waits_advance_resolve_task waits_advance_same)

lemma waits_advance_subscribe:
  assumes "w \<notin> issued (hub_waiters h) (hub_waits h)"
  shows "waits_advance l h (subscribe_task_waiter t w h)"
proof -
  have W: "hub_waiters (subscribe_task_waiter t w h) = (hub_waiters h)(t \<mapsto> w)"
    "hub_waits (subscribe_task_waiter t w h) =
       hub_waits h @ (case hub_waiters h t of Some v \<Rightarrow> [(v, SenderDropped)] | None \<Rightarrow> [])"
    by (auto simp: subscribe_task_waiter_def split: option.split)
  have "issued (hub_waiters h) (hub_waits h) \<subseteq>
      issued (hub_waiters (subscribe_task_waiter t w h)) (hub_waits (subscribe_task_waiter t w h))"
    unfolding W by (rule issued_settle)
  then show ?thesis using assms by (auto simp: waits_advance_def W(1) split: if_splits)
qed

lemma waits_advance_send: "send_command tx m h = Some h' \<Longrightarrow> waits_advance l h h'"
  using send_command_frames [of tx m h h'] by (intro waits_advance_same) simp_all

lemma hub_step_waits: "hub_step dbg l h h' \<Longrightarrow> waits_advance l h h'"
proof (induction rule: hub_step.induct)
  case (step_register ords h hello tx h')
  note eff = register_agent_effect [OF step_register]
  from eff(1,5) waits_advance_gone show ?case by metis
next
  case (step_unregister ords h aid)
  note eff = unregister_agent_effect [OF step_unregister(1) refl, where dbg = dbg and aid = aid]
  from eff(4) eff(1) [unfolded agent_gone_removal] waits_advance_gone show ?case by metis
next
  case (step_task t aid h h')
  then show ?case
    by (auto intro!: waits_advance_same simp: hub_register_task_def reg_register_task_def task_table.lookup_put
        split: if_splits)
next
  case (step_undelivered t h)
  then show ?case by (auto simp: waits_advance_def task_table.lookup_del split: if_splits)
next
  case (step_play_chunk h t d)
  then show ?case
    by (auto simp: route_play_audio_chunk_def abandon_task_def waits_advance_resolve_task waits_advance_same
        intro: waits_advance_send split: option.split)
next
  case (step_play_finish h t)
  then show ?case
    by (auto simp: route_play_audio_finish_def abandon_task_def waits_advance_resolve_task waits_advance_same
        intro: waits_advance_send split: option.split)
next
  case (step_unsubscribe h t)
  show ?case
    by (rule waits_advance_settle [OF waiter_removed.settle_pending waiter_removed.settle_answered]) simp
qed (simp_all add: waits_advance_message waits_advance_subscribe waits_advance_send waits_advance_same)

section \<open>Properties\<close>

text \<open>C1: When an agent goes, everyone who depends on it is told, whatever the iteration orders of
  the tables: every session of it whose start is pending gets a start error, every open
  session gets an error event followed by an end event (unless its receiver is gone), every waiter of
  one of its tasks gets an error, the routes and waiters are removed, and all other sessions, tasks,
  waiters and agents stay.\<close>

theorem unregister_notifies_everyone:
  assumes "valid_orders ords h"
  shows "agent_gone dbg aid h (hub_unregister_agent ords dbg aid h) \<and>
         reg_agents (hub_registry (hub_unregister_agent ords dbg aid h)) =
           (reg_agents (hub_registry h))(aid := None)"
  using unregister_agent_effect(1,2) [OF assms refl] by blast

definition demo_hub :: hub where
  "demo_hub =
     \<lparr>hub_registry = demo_registry,
      hub_sessions = [SessionId 1 \<mapsto> \<lparr>sr_agent_id = ''a1'', sr_event_tx = 4, sr_started_tx = Some 9\<rparr>,
                      SessionId 2 \<mapsto> \<lparr>sr_agent_id = ''a1'', sr_event_tx = 5, sr_started_tx = None\<rparr>],
      hub_waiters = [''t1'' \<mapsto> 7],
      hub_cmds = \<lparr>net_closed = {}, net_log = []\<rparr>, hub_events = \<lparr>net_closed = {}, net_log = []\<rparr>,
      hub_starts = [], hub_waits = []\<rparr>"

definition demo_orders :: hash_orders where
  "demo_orders = \<lparr>ord_agents = [''a1''], ord_tasks = [''t2'', ''t1''],
                   ord_sessions = [SessionId 2, SessionId 1]\<rparr>"

lemma demo_orders_valid: "valid_orders demo_orders demo_hub"
  using demo_registry_tasks_order
  by (auto simp: valid_orders_def demo_orders_def demo_hub_def enumerates_def demo_registry_def)

theorem unregister_notifies_everyone_witness:
  "(7, Delivered (Err (Disconnected (''agent disconnected before task completion: '' @ ''t1'')))) \<in>
     set (hub_waits (hub_unregister_agent demo_orders (\<lambda>_. ''s'') ''a1'' demo_hub)) \<and>
   hub_sessions (hub_unregister_agent demo_orders (\<lambda>_. ''s'') ''a1'' demo_hub) (SessionId 1) = None"
proof -
  let ?h = "hub_unregister_agent demo_orders (\<lambda>_. ''s'') ''a1'' demo_hub"
  have gone: "agent_gone (\<lambda>_. ''s'') ''a1'' demo_hub ?h"
    using unregister_notifies_everyone [OF demo_orders_valid] by blast
  have "''t1'' \<in> routed_to ''a1'' (hub_registry demo_hub) \<and> hub_waiters demo_hub ''t1'' = Some 7"
    using demo_routed by (simp add: demo_hub_def)
  moreover have "SessionId 1 \<in> owned_sessions ''a1'' demo_hub"
    by (simp add: owned_sessions_def demo_hub_def)
  ultimately show ?thesis using gone unfolding agent_gone_def by metis
qed

text \<open>C2: In every reachable hub, each task waiter and each pending session start has been answered
  at most once, one that is still in its table has not been answered, and no channel is in a table twice.\<close>

theorem reachable_answers_unique:
  assumes "hub_reachable dbg secret h"
  shows "distinct (map fst (hub_waits h)) \<and> distinct (map fst (hub_starts h)) \<and>
         (\<forall>t w. hub_waiters h t = Some w \<longrightarrow> w \<notin> fst ` set (hub_waits h)) \<and>
         (\<forall>s w. pending_start h s = Some w \<longrightarrow> w \<notin> fst ` set (hub_starts h)) \<and>
         inj_on (hub_waiters h) (dom (hub_waiters h)) \<and> inj_on (pending_start h) (dom (pending_start h))"
proof -
  have "promise_inv (hub_waiters h) (hub_waits h)" "promise_inv (pending_start h) (hub_starts h)"
    using hub_reachable_inv [OF assms] by (simp_all add: hub_inv_def waits_inv_def starts_inv_def)
  then show ?thesis unfolding promise_inv_def inj_on_def dom_def by auto
qed

text \<open>C3: A route of a task leads to an agent that is registered, however the calls of the hub interleave, with
  one exception: the agent was already gone when the task was registered for it, between its choice and the
  registration. Such a task is found out at its first use: a chunk or the finish of it is refused, its route goes and its waiter is
  told why.\<close>

theorem task_routes_lead_to_agents:
  assumes "hub_run dbg secret ls h" and "hub_task_agent_id t h = Some aid"
  shows "reg_agent_command_tx aid (hub_registry h) \<noteq> None \<or>
    (\<exists>ls1 ls2 h1. ls = ls1 @ TaskStarting t # ls2 \<and> hub_run dbg secret ls1 h1 \<and>
       reg_agent_command_tx aid (hub_registry h1) = None \<and> hub_task_agent_id t h1 = None) \<and>
    (let e = Disconnected (''agent '' @ aid @ '' is no longer available for task '' @ t)
     in \<forall>r \<in> {route_play_audio_finish t h} \<union> range (\<lambda>d. route_play_audio_chunk t d h).
          fst r = Err e \<and> hub_task_agent_id t (snd r) = None \<and> hub_waiters (snd r) t = None \<and>
          (\<forall>w. hub_waiters h t = Some w \<longrightarrow> (w, Delivered (Err e)) \<in> set (hub_waits (snd r))))"
proof (cases "reg_agents (hub_registry h) aid")
  case None
  obtain route where route: "reg_tasks (hub_registry h) t = Some route" "aid = tkr_agent_id route"
    using assms(2) by (auto simp: hub_task_agent_id_def reg_task_agent_id_def)
  have "\<exists>ls1 ls2 h1. ls = ls1 @ TaskStarting t # ls2 \<and> hub_run dbg secret ls1 h1 \<and>
       reg_agent_command_tx aid (hub_registry h1) = None \<and> hub_task_agent_id t h1 = None"
    using hub_run_stale_task [OF assms(1) route(1)] None route(2)
    by (auto simp: reg_agent_command_tx_def hub_task_agent_id_def reg_task_agent_id_def)
  moreover have "reg_agent_command_tx aid (hub_registry h) = None"
    using None by (simp add: reg_agent_command_tx_def)
  ultimately show ?thesis
    using assms(2) waiter_resolved.settle_pending [of "(t, r)" for r]
    by (auto simp: Let_def route_play_audio_finish_def route_play_audio_chunk_def abandon_task_def
        hub_task_agent_id_def reg_task_agent_id_def resolve_task_waiter_def split: option.split)
qed (simp add: reg_agent_command_tx_def)

text \<open>C4: With a shared secret configured, every agent that is ever registered is the one of a hello that arrived
  and carried exactly that secret, and a hello that arrives without it, at any time, is refused.\<close>

theorem reachable_agents_authenticated:
  assumes "hub_run dbg (Some secret) ls h"
  shows "(\<forall>aid a. reg_agents (hub_registry h) aid = Some a \<longrightarrow>
      (\<exists>hello tx. HelloReceived hello tx \<in> set ls \<and> a = agent_of_hello hello tx \<and>
         hel_agent_id hello = aid \<and> hel_shared_secret hello = Some secret)) \<and>
    (\<forall>ords hello tx. hel_shared_secret hello \<noteq> Some secret \<longrightarrow>
       hub_register_agent ords dbg hello tx h = Err (Unavailable ''agent authentication failed''))"
  using hub_run_agents [OF assms] hub_run_secret [OF assms]
  by (fastforce simp: hello_accepted_def hub_register_agent_def)

definition demo_hello :: agent_hello_payload where
  "demo_hello =
     \<lparr>hel_agent_id = ''a1'', hel_agent_name = ''Speaker'', hel_provider_id = Some ''p'',
      hel_capabilities = [''speaker''], hel_capability_domains = [Tts], hel_agent_kind = DeviceAgent,
      hel_device = None, hel_client_version = None, hel_update_status = None,
      hel_shared_secret = Some ''k''\<rparr>"

definition empty_orders :: hash_orders where
  "empty_orders = \<lparr>ord_agents = [], ord_tasks = [], ord_sessions = []\<rparr>"

definition demo_connected :: hub where
  "demo_connected =
     (hub_new (Some ''k''))\<lparr>hub_registry := (registry_new (Some ''k''))
        \<lparr>reg_agents := [''a1'' \<mapsto> agent_of_hello demo_hello 3]\<rparr>\<rparr>"

lemma demo_connects:
  "hub_register_agent empty_orders dbg demo_hello 3 (hub_new (Some ''k'')) = Ok demo_connected"
  by (simp add: hub_register_agent_def hub_new_def registry_new_def demo_connected_def demo_hello_def
      remove_orphaned_sessions_def empty_orders_def map_entries_def List.map_filter_simps
      reg_register_agent_def agent_of_hello_def finish_agent_removal_def)

lemma demo_connected_reachable: "hub_reachable dbg (Some ''k'') demo_connected"
proof (rule hub_next [OF hub_init step_register])
  show "valid_orders empty_orders (hub_new (Some ''k''))"
    by (simp add: valid_orders_def empty_orders_def hub_new_def registry_new_def)
  show "hub_register_agent empty_orders dbg demo_hello 3 (hub_new (Some ''k'')) = Ok demo_connected"
    by (rule demo_connects)
qed

text \<open>A waiter subscribed twice under one task id: the first one is dropped unanswered.\<close>

definition demo_waiting :: hub where
  "demo_waiting = subscribe_task_waiter ''t'' 8 (subscribe_task_waiter ''t'' 7 demo_connected)"

lemma demo_connected_tables:
  "hub_waiters demo_connected = Map.empty" "hub_waits demo_connected = []"
  "hub_sessions demo_connected = Map.empty" "hub_starts demo_connected = []"
  by (simp_all add: demo_connected_def hub_new_def)

lemma demo_waiting_tables:
  "hub_waiters demo_waiting = [''t'' \<mapsto> 8]" "hub_waits demo_waiting = [(7, SenderDropped)]"
  by (simp_all add: demo_waiting_def subscribe_task_waiter_def demo_connected_tables)

lemma demo_waiting_reachable: "hub_reachable dbg (Some ''k'') demo_waiting"
  unfolding demo_waiting_def
proof (rule hub_next [OF hub_next [OF demo_connected_reachable step_subscribe] step_subscribe])
  show "7 \<notin> issued (hub_waiters demo_connected) (hub_waits demo_connected)"
    by (simp add: issued_def demo_connected_tables)
  show "8 \<notin> issued (hub_waiters (subscribe_task_waiter ''t'' 7 demo_connected))
                     (hub_waits (subscribe_task_waiter ''t'' 7 demo_connected))"
    by (simp add: issued_def demo_connected_tables subscribe_task_waiter_def)
qed

theorem reachable_answers_unique_witness:
  "hub_waiters demo_waiting ''t'' = Some 8 \<and> 8 \<notin> fst ` set (hub_waits demo_waiting)"
  using reachable_answers_unique [OF demo_waiting_reachable] demo_waiting_tables by simp

text \<open>A run with an accepted hello, the end of the connection, and a task that was about to be registered for the agent.\<close>

lemma demo_connected_run: "hub_run dbg (Some ''k'') [HelloReceived demo_hello 3] demo_connected"
proof -
  have "hub_step dbg (HelloReceived demo_hello 3) (hub_new (Some ''k'')) demo_connected"
    by (rule step_register [OF _ demo_connects])
      (simp add: valid_orders_def empty_orders_def hub_new_def registry_new_def)
  from run_next [OF run_init this] show ?thesis by simp
qed

theorem reachable_agents_authenticated_witness:
  "\<exists>hello tx. HelloReceived hello tx \<in> set [HelloReceived demo_hello 3] \<and>
     agent_of_hello demo_hello 3 = agent_of_hello hello tx \<and> hel_agent_id hello = ''a1'' \<and>
     hel_shared_secret hello = Some ''k''"
proof -
  have "reg_agents (hub_registry demo_connected) ''a1'' = Some (agent_of_hello demo_hello 3)"
    by (simp add: demo_connected_def)
  then show ?thesis using reachable_agents_authenticated [OF demo_connected_run] by blast
qed

definition demo_race :: hub where
  "demo_race = demo_connected\<lparr>hub_registry := (hub_registry demo_connected)
     \<lparr>reg_agents := Map.empty, reg_tasks := [''t'' \<mapsto> \<lparr>tkr_agent_id = ''a1''\<rparr>]\<rparr>\<rparr>"

definition demo_connected_orders :: hash_orders where
  "demo_connected_orders = \<lparr>ord_agents = [''a1''], ord_tasks = [], ord_sessions = []\<rparr>"

lemma demo_race_run:
  "hub_run dbg (Some ''k'') [HelloReceived demo_hello 3, OtherCall, TaskStarting ''t''] demo_race"
proof -
  let ?h = "hub_unregister_agent demo_connected_orders dbg ''a1'' demo_connected"
  have gone: "?h = demo_connected\<lparr>hub_registry := (hub_registry demo_connected)\<lparr>reg_agents := Map.empty\<rparr>\<rparr>"
    by (simp add: hub_unregister_agent_def remove_orphaned_sessions_def demo_connected_def hub_new_def
        map_entries_def List.map_filter_simps demo_connected_orders_def reg_unregister_agent_def
        remove_agent_tasks_locked_def registry_new_def finish_agent_removal_def)
  have "valid_orders demo_connected_orders demo_connected"
    by (simp add: valid_orders_def demo_connected_orders_def demo_connected_def hub_new_def registry_new_def
        enumerates_def)
  from run_next [OF demo_connected_run step_unregister [OF this]]
  have "hub_run dbg (Some ''k'') [HelloReceived demo_hello 3, OtherCall] ?h" by simp
  moreover have "hub_register_task ''t'' ''a1'' ?h = Ok demo_race"
    unfolding gone
    by (simp add: hub_register_task_def reg_register_task_def demo_race_def demo_connected_def hub_new_def
        registry_new_def put_task_def)
  ultimately show ?thesis using run_next [OF _ step_task] by fastforce
qed

theorem task_routes_lead_to_agents_witness:
  "fst (route_play_audio_finish ''t'' demo_race) =
     Err (Disconnected ''agent a1 is no longer available for task t'')"
proof -
  have "hub_task_agent_id ''t'' demo_race = Some ''a1''"
    by (simp add: demo_race_def hub_task_agent_id_def reg_task_agent_id_def)
  note task_routes_lead_to_agents [OF demo_race_run this, unfolded Let_def]
  moreover have "reg_agent_command_tx ''a1'' (hub_registry demo_race) = None"
    by (simp add: demo_race_def reg_agent_command_tx_def)
  ultimately show ?thesis by simp
qed

end
