(* ===== verification/AgentBridge.thy ===== *)
theory AgentBridge
  imports AgentHubInv
begin

text \<open>
  The gateway's side of a remote agent, \<^verbatim>\<open>speechmeshd/src/agent.rs\<close>: \<^verbatim>\<open>RemoteAgentAsrBridge\<close>, which
  starts a session on a registered agent and forwards its commands, and the connection
  handler of \<^verbatim>\<open>/agent\<close>. Where the code waits, the model stops and takes up again with what
  the wait returned, and other methods of the hub may have run in between.
\<close>

section \<open>Starting a session on an agent\<close>

record remote_bridge_config =
  rbc_provider_id :: string
  rbc_display_name :: "string option"

definition remote_descriptors :: "remote_bridge_config \<Rightarrow> provider_descriptor list" where
  "remote_descriptors cfg =
     [fold (\<lambda>k d. with_capability d (capability_on k))
        [''streaming-input'', ''buffered-input'', ''streaming-output'', ''buffered-output'',
         ''on-device'', ''agent-backhaul'']
        (provider_descriptor_new (rbc_provider_id cfg)
          (unwrap_or (rbc_display_name cfg) ''Remote Agent ASR Bridge'') Asr RemoteGateway)]"

definition remote_input_mode :: "asr_stream_request \<Rightarrow> stream_mode" where
  "remote_input_mode req =
     (case opt_filter (\<lambda>v. v = ''buffered'')
             (map_option (\<lambda>v. to_ascii_lowercase (trim v))
               (json_get_str (ro_provider_options (asq_options req)) ''input_mode'')) of
        Some _ \<Rightarrow> Buffered
      | None \<Rightarrow> Streaming)"

definition remote_output_mode :: "asr_stream_request \<Rightarrow> stream_mode" where
  "remote_output_mode req =
     (if map_option (\<lambda>v. to_ascii_lowercase (trim v))
           (json_get_str (ro_provider_options (asq_options req)) ''output_mode'') = Some ''streaming''
         \<or> ro_interim_results (asq_options req)
      then Streaming else Buffered)"

text \<open>Channels and the session id the code creates for one start.\<close>

record start_resources =
  sx_session_id :: session_id
  sx_command_tx :: nat
  sx_event_tx :: nat
  sx_started_tx :: nat

record remote_start =
  rst_session :: asr_session
  rst_agent_tx :: nat
  rst_resources :: start_resources

definition remote_session :: "remote_bridge_config \<Rightarrow> asr_stream_request \<Rightarrow> session_id \<Rightarrow> asr_session" where
  "remote_session cfg req s =
     \<lparr>as_id = s, as_provider_id = rbc_provider_id cfg, as_accepted_input_format = asq_input_format req,
      as_input_mode = remote_input_mode req, as_output_mode = remote_output_mode req\<rparr>"

text \<open>
  Up to the wait for the acknowledgement. The agent is chosen under one lock and the session registered under another, and
  the send and the clean-up after it are later still. \<open>others k\<close> is what other methods do to the hub in between.
\<close>

definition remote_start_begin ::
  "hash_orders \<Rightarrow> (nat \<Rightarrow> hub \<Rightarrow> hub) \<Rightarrow> remote_bridge_config \<Rightarrow> asr_stream_request \<Rightarrow> start_resources \<Rightarrow> hub
     \<Rightarrow> (bridge_error + remote_start) \<times> hub" where
  "remote_start_begin ords others cfg req rs h =
     (if (case sel_provider_id (asq_provider req) of
            Some pid \<Rightarrow> pid \<noteq> rbc_provider_id cfg | None \<Rightarrow> False)
      then (Err (Unavailable (''requested provider '' @ the (sel_provider_id (asq_provider req))
                              @ '' is not available on this gateway'')), h)
      else
        (case reg_select_agent (ord_agents ords) (rbc_provider_id cfg) (hub_registry h) of
           None \<Rightarrow>
             (Err (Unavailable (''no registered agent available for provider '' @ rbc_provider_id cfg)), h)
         | Some agent \<Rightarrow>
             (let s = sx_session_id rs;
                  h1 = hub_register_session (ra_agent_id agent) s (sx_event_tx rs) (sx_started_tx rs)
                         (others 0 h)
              in (case send_command (ra_command_tx agent) (GSessionStart s req) (others 1 h1) of
                    None \<Rightarrow>
                      (Err (Disconnected ''agent command channel closed''),
                       fail_session_start s (Disconnected ''agent command channel closed'')
                         (others 2 (others 1 h1)))
                  | Some h2 \<Rightarrow>
                      (Ok \<lparr>rst_session = remote_session cfg req s,
                           rst_agent_tx = ra_command_tx agent, rst_resources = rs\<rparr>, h2)))))"

text \<open>What \<^verbatim>\<open>timeout(start_timeout, started_rx).await\<close> returns.\<close>

datatype await_outcome = Acknowledged start_result | AckLost | AckTimeout

definition remote_start_end ::
  "remote_start \<Rightarrow> await_outcome \<Rightarrow> hub \<Rightarrow> (bridge_error + asr_handle) \<times> hub" where
  "remote_start_end st outcome h =
     (let s = as_id (rst_session st)
      in (case outcome of
            Acknowledged (Inr _) \<Rightarrow>
              (Ok \<lparr>ah_session = rst_session st, ah_command_tx = sx_command_tx (rst_resources st),
                   ah_event_rx = Some (sx_event_tx (rst_resources st))\<rparr>, h)
          | Acknowledged (Inl e) \<Rightarrow> (Err e, h)
          | AckLost \<Rightarrow>
              (Err (Disconnected ''session start acknowledgement lost''),
               fail_session_start s (Disconnected ''session start acknowledgement lost'') h)
          | AckTimeout \<Rightarrow>
              (Err (Unavailable ''timed out waiting for agent session start''),
               fail_session_start s (Unavailable ''timed out waiting for agent session start'') h)))"

text \<open>\<open>env\<close> is what happens to the hub during the wait, and how the wait ends.\<close>

definition remote_start_stream ::
  "hash_orders \<Rightarrow> (nat \<Rightarrow> hub \<Rightarrow> hub) \<Rightarrow> remote_bridge_config \<Rightarrow> asr_stream_request \<Rightarrow> start_resources
     \<Rightarrow> (hub \<Rightarrow> hub \<times> await_outcome) \<Rightarrow> hub \<Rightarrow> (bridge_error + asr_handle) \<times> hub" where
  "remote_start_stream ords others cfg req rs env h =
     (case remote_start_begin ords others cfg req rs h of
        (Inl e, h1) \<Rightarrow> (Err e, h1)
      | (Inr st, h1) \<Rightarrow> (case env h1 of (h2, outcome) \<Rightarrow> remote_start_end st outcome h2))"

section \<open>Forwarding commands to the agent\<close>

text \<open>\<open>b64\<close> is the standard encoder of the \<^verbatim>\<open>base64\<close> crate.\<close>

fun outbound_command :: "(bytes \<Rightarrow> string) \<Rightarrow> session_id \<Rightarrow> bridge_command \<Rightarrow> gateway_to_agent" where
  "outbound_command b64 s (PushAudio chunk) = GSessionAudio s (b64 chunk)"
| "outbound_command b64 s AsrCommitCmd = GSessionCommit s"
| "outbound_command b64 s AsrStopCmd = GSessionStop s"

fun forward_commands_to_agent ::
  "(bytes \<Rightarrow> string) \<Rightarrow> session_id \<Rightarrow> nat \<Rightarrow> nat \<Rightarrow> bridge_command list \<Rightarrow> hub \<Rightarrow> hub" where
  "forward_commands_to_agent b64 s agent_tx event_tx [] h = h"
| "forward_commands_to_agent b64 s agent_tx event_tx (c # cs) h =
     (case send_command agent_tx (outbound_command b64 s c) h of
        None \<Rightarrow> post_event event_tx (AsrEndedEv (Some ''agent_disconnected''))
                  (post_event event_tx (AsrErrorEv ''agent command channel closed'') h)
      | Some h1 \<Rightarrow> forward_commands_to_agent b64 s agent_tx event_tx cs h1)"

section \<open>The connection of an agent\<close>

text \<open>
  \<open>show_frame\<close> and \<open>show_message\<close> are the \<^verbatim>\<open>{other:?}\<close> renderings of the library's frame
  type and of a message. The command channel \<open>tx\<close> is the one the handler creates.
\<close>

definition accept_hello ::
  "(agent_to_gateway frame \<Rightarrow> string) \<Rightarrow> (agent_to_gateway \<Rightarrow> string) \<Rightarrow> agent_to_gateway frame option
     \<Rightarrow> bridge_error + agent_hello_payload" where
  "accept_hello show_frame show_message first =
     (case first of
        None \<Rightarrow> Err (ProtocolError ''agent closed before hello'')
      | Some (ReadError e) \<Rightarrow> Err (IoError (''read agent hello failed: '' @ e))
      | Some (TextFrame (Inl e)) \<Rightarrow> Err (ProtocolError (''invalid agent hello: '' @ e))
      | Some (TextFrame (Inr (AHello payload))) \<Rightarrow> Ok payload
      | Some (TextFrame (Inr other)) \<Rightarrow>
          Err (ProtocolError (''expected agent.hello first, got '' @ show_message other))
      | Some other \<Rightarrow>
          Err (ProtocolError (''agent hello must be text frame, got '' @ show_frame other)))"

definition open_agent_connection ::
  "(agent_to_gateway frame \<Rightarrow> string) \<Rightarrow> (agent_to_gateway \<Rightarrow> string) \<Rightarrow> hash_orders
     \<Rightarrow> (session_id \<Rightarrow> string) \<Rightarrow> string \<Rightarrow> nat \<Rightarrow> agent_to_gateway frame option \<Rightarrow> hub
     \<Rightarrow> (bridge_error + string) \<times> hub" where
  "open_agent_connection show_frame show_message ords dbg server_name tx first h =
     (case accept_hello show_frame show_message first of
        Inl e \<Rightarrow> (Err e, h)
      | Inr hello \<Rightarrow>
          (case hub_register_agent ords dbg hello tx h of
             Inl e \<Rightarrow> (Err e, h)
           | Inr h1 \<Rightarrow>
               (case send_command tx (GHelloOk server_name) h1 of
                  None \<Rightarrow> (Err (Disconnected ''agent writer closed''), h1)
                | Some h2 \<Rightarrow> (Ok (hel_agent_id hello), h2))))"

text \<open>
  The loop waits for a frame, the heartbeat or the end of the writer. A heartbeat comes with the
  milliseconds since the last frame.
\<close>

datatype agent_conn_event =
    AgentFrame "agent_to_gateway frame option"
  | HeartbeatTick nat
  | WriterFinished

datatype loop_status = LoopRunning | LoopBroken | LoopReturned bridge_error

definition agent_heartbeat_timeout_ms :: nat where
  "agent_heartbeat_timeout_ms = 90 * 1000"

definition post_command :: "nat \<Rightarrow> gateway_to_agent \<Rightarrow> hub \<Rightarrow> hub" where
  "post_command tx m h = (case send_command tx m h of Some h' \<Rightarrow> h' | None \<Rightarrow> h)"

fun agent_conn_step :: "nat \<Rightarrow> agent_conn_event \<Rightarrow> hub \<Rightarrow> loop_status \<times> hub" where
  "agent_conn_step tx (AgentFrame None) h = (LoopBroken, h)"
| "agent_conn_step tx (AgentFrame (Some (ReadError e))) h =
     (LoopReturned (IoError (''read agent frame failed: '' @ e)), h)"
| "agent_conn_step tx (AgentFrame (Some (TextFrame (Inl e)))) h =
     (LoopReturned (ProtocolError (''invalid agent frame payload: '' @ e)), h)"
| "agent_conn_step tx (AgentFrame (Some (TextFrame (Inr m)))) h =
     (LoopRunning, handle_agent_message m h)"
| "agent_conn_step tx (AgentFrame (Some (PingFrame _))) h = (LoopRunning, post_command tx GPing h)"
| "agent_conn_step tx (AgentFrame (Some CloseFrame)) h = (LoopBroken, h)"
| "agent_conn_step tx (AgentFrame (Some PongFrame)) h = (LoopRunning, h)"
| "agent_conn_step tx (AgentFrame (Some (BinaryFrame _))) h = (LoopRunning, h)"
| "agent_conn_step tx (AgentFrame (Some RawFrame)) h = (LoopRunning, h)"
| "agent_conn_step tx (HeartbeatTick elapsed) h =
     (if elapsed > agent_heartbeat_timeout_ms then (LoopBroken, h)
      else (LoopRunning, post_command tx GPing h))"
| "agent_conn_step tx WriterFinished h = (LoopBroken, h)"

text \<open>The end of the handler: a broken loop unregisters the agent, a \<^verbatim>\<open>?\<close> in the loop returns at once.\<close>

definition close_agent_connection ::
  "hash_orders \<Rightarrow> (session_id \<Rightarrow> string) \<Rightarrow> string \<Rightarrow> loop_status \<Rightarrow> hub \<Rightarrow> (bridge_error + unit) \<times> hub" where
  "close_agent_connection ords dbg aid status h =
     (case status of
        LoopReturned e \<Rightarrow> (Err e, h)
      | LoopBroken \<Rightarrow> (Ok (), hub_unregister_agent ords dbg aid h)
      | LoopRunning \<Rightarrow> (Ok (), h))"

text \<open>A run of the loop over its events; what others do to the hub before an event is part of it.\<close>

fun agent_conn_loop ::
  "nat \<Rightarrow> (agent_conn_event \<times> (hub \<Rightarrow> hub)) list \<Rightarrow> hub \<Rightarrow> loop_status \<times> hub" where
  "agent_conn_loop tx [] h = (LoopRunning, h)"
| "agent_conn_loop tx ((ev, others) # evs) h =
     (case agent_conn_step tx ev (others h) of
        (LoopRunning, h1) \<Rightarrow> agent_conn_loop tx evs h1
      | (status, h1) \<Rightarrow> (status, h1))"

text \<open>The whole handler, for a list of events that ends its loop. \<open>ords'\<close> are the orders at the end.\<close>

definition handle_agent_connection ::
  "(agent_to_gateway frame \<Rightarrow> string) \<Rightarrow> (agent_to_gateway \<Rightarrow> string) \<Rightarrow> hash_orders \<Rightarrow> hash_orders
     \<Rightarrow> (session_id \<Rightarrow> string) \<Rightarrow> string \<Rightarrow> nat \<Rightarrow> agent_to_gateway frame option
     \<Rightarrow> (agent_conn_event \<times> (hub \<Rightarrow> hub)) list \<Rightarrow> hub \<Rightarrow> (bridge_error + unit) \<times> hub" where
  "handle_agent_connection show_frame show_message ords ords' dbg server_name tx first evs h =
     (case open_agent_connection show_frame show_message ords dbg server_name tx first h of
        (Inl e, h1) \<Rightarrow> (Err e, h1)
      | (Inr aid, h1) \<Rightarrow>
          (case agent_conn_loop tx evs h1 of
             (status, h2) \<Rightarrow> close_agent_connection ords' dbg aid status h2))"

section \<open>Lemmas\<close>

interpretation agent_channel: channel "send_command tx" "\<lambda>h. sent_on tx (hub_cmds h)"
    "\<lambda>h. tx \<notin> net_closed (hub_cmds h)" for tx
  by unfold_locales
    (auto simp: send_command_def net_send_def sent_on_def split: if_splits)

lemma send_command_None: "send_command tx m h = None \<longleftrightarrow> tx \<in> net_closed (hub_cmds h)"
  by (simp add: send_command_def)

lemma send_command_closed: "send_command tx m h = Some h' \<Longrightarrow> net_closed (hub_cmds h') = net_closed (hub_cmds h)"
  by (auto simp: send_command_def dest: net_send_Some)

lemma forward_as_send_seq:
  "tx \<notin> net_closed (hub_cmds h) \<Longrightarrow>
     send_seq (send_command tx) (map (outbound_command b64 s) cs) h =
       Some (forward_commands_to_agent b64 s tx ev cs h)"
proof (induction cs arbitrary: h)
  case Nil
  then show ?case by simp
next
  case (Cons c cs)
  then obtain h1 where h1: "send_command tx (outbound_command b64 s c) h = Some h1"
    using agent_channel.push_open by blast
  with Cons show ?case by (simp add: send_command_closed)
qed

lemma send_command_events: "send_command tx m h = Some h' \<Longrightarrow> hub_events h' = hub_events h"
  using send_command_frames by blast

lemma forward_open_events:
  "tx \<notin> net_closed (hub_cmds h) \<Longrightarrow> hub_events (forward_commands_to_agent b64 s tx ev cs h) = hub_events h"
  by (induction cs arbitrary: h)
    (auto simp: send_command_None send_command_closed send_command_events split: option.split)

lemma post_event_cmds [simp]: "hub_cmds (post_event tx e h) = hub_cmds h"
  by (simp add: post_event_def)

text \<open>
  What a step does to the answers of session starts: the new answers go to channels that were
  pending, an answer other than the acknowledgement comes with the removal of the session,
  and no pending channel vanishes unanswered.
\<close>

definition starts_advance :: "hub \<Rightarrow> hub \<Rightarrow> bool" where
  "starts_advance h h' \<longleftrightarrow>
     (\<exists>xs. hub_starts h' = hub_starts h @ xs \<and>
        (\<forall>w f. (w, f) \<in> set xs \<longrightarrow>
           (\<exists>k. pending_start h k = Some w \<and> (f = Delivered (Ok ()) \<or> hub_sessions h' k = None))) \<and>
        (\<forall>k w. pending_start h k = Some w \<longrightarrow> pending_start h' k = Some w \<or> w \<in> fst ` set xs) \<and>
        (\<forall>k w. pending_start h' k = Some w \<longrightarrow>
           pending_start h k = Some w \<or> w \<notin> issued (pending_start h) (hub_starts h)))"

lemma starts_advance_same:
  assumes "hub_sessions h' = hub_sessions h" "hub_starts h' = hub_starts h"
  shows "starts_advance h h'"
  unfolding starts_advance_def
  by (rule exI [of _ "[]"]) (simp add: assms(2) pending_start_cong [OF assms(1)])

lemma starts_advance_settle:
  assumes "pending_start h' = (pending_start h)(s := None)"
    and "hub_starts h' = hub_starts h @ (case pending_start h s of Some w \<Rightarrow> [(w, f)] | None \<Rightarrow> [])"
    and "f = Delivered (Ok ()) \<or> hub_sessions h' s = None"
  shows "starts_advance h h'"
  unfolding starts_advance_def assms(1,2)
  by (rule exI, rule conjI [OF refl]) (use assms(3) in \<open>auto split: option.splits if_splits\<close>)

lemma starts_advance_gone:
  assumes gone: "removal dbg aid R h h'"
    and imp: "set imp = {(s, route). hub_sessions h s = Some route \<and> sr_agent_id route = aid}"
    and starts: "hub_starts h' = hub_starts h @ List.map_filter (orphan_start_reply dbg) imp"
  shows "starts_advance h h'"
proof -
  let ?xs = "List.map_filter (orphan_start_reply dbg) imp"
  have S: "hub_sessions h' s = (if s \<in> owned_sessions aid h then None else hub_sessions h s)" for s
    using gone unfolding removal_def by blast
  have P: "pending_start h' s = (if s \<in> owned_sessions aid h then None else pending_start h s)" for s
    by (simp add: pending_start_def S)
  have fst_xs: "w \<in> fst ` set ?xs \<longleftrightarrow> (\<exists>k \<in> owned_sessions aid h. pending_start h k = Some w)" for w
    unfolding orphan_starts_fst imp by (force simp: owned_sessions_def pending_start_def)
  have "\<exists>k. pending_start h k = Some w \<and> (f = Delivered (Ok ()) \<or> hub_sessions h' k = None)"
    if "(w, f) \<in> set ?xs" for w f
  proof -
    from that have "w \<in> fst ` set ?xs" by (rule image_eqI [rotated]) simp
    then obtain k where "k \<in> owned_sessions aid h" "pending_start h k = Some w" unfolding fst_xs ..
    with S show ?thesis by auto
  qed
  moreover have "pending_start h' k = Some w \<or> w \<in> fst ` set ?xs" if "pending_start h k = Some w" for k w
    using that P fst_xs by auto
  moreover have "pending_start h k = Some w" if "pending_start h' k = Some w" for k w
    using that P by (auto split: if_splits)
  ultimately show ?thesis unfolding starts_advance_def using starts by blast
qed

lemma message_starts_advance: "starts_advance h (handle_agent_message m h)"
proof (cases "(m, h)" rule: handle_agent_message.cases)
  case (2 s p h)
  then show ?thesis
    by (auto intro!: starts_advance_settle start_acknowledged.settle_pending
        start_acknowledged.settle_answered)
next
  case (5 s reason h)
  then show ?thesis
    using start_ended.settle_pending [of "(s, reason)" h] start_ended.settle_answered [of "(s, reason)" h]
    by (auto intro!: starts_advance_settle simp: session_op_sessions)
next
  case (6 s message h)
  have "starts_advance h (fail_session_start s (Unavailable message) h)"
    using start_failed.settle_pending [of "(s, Unavailable message)" h]
      start_failed.settle_answered [of "(s, Unavailable message)" h]
    by (auto intro!: starts_advance_settle simp: session_op_sessions)
  with 6 show ?thesis by (simp add: Let_def starts_advance_same)
qed (auto intro: starts_advance_same simp: handle_task_status_def)

lemma play_frames [simp]:
  "hub_sessions (snd (route_play_audio_chunk t d h)) = hub_sessions h"
  "hub_starts (snd (route_play_audio_chunk t d h)) = hub_starts h"
  "hub_sessions (snd (route_play_audio_finish t h)) = hub_sessions h"
  "hub_starts (snd (route_play_audio_finish t h)) = hub_starts h"
  by (auto simp: route_play_audio_chunk_def route_play_audio_finish_def abandon_task_def
      split: option.split dest: send_command_frames)

lemma step_starts_advance: "hub_step dbg l h h' \<Longrightarrow> starts_advance h h'"
proof (induction rule: hub_step.induct)
  case (step_register ords h hello tx h')
  note eff = register_agent_effect [OF step_register]
  from eff(5) starts_advance_gone [OF eff(1)] show ?case by blast
next
  case (step_unregister ords h aid)
  note eff = unregister_agent_effect [OF step_unregister(1) refl, where dbg = dbg and aid = aid]
  from eff(4) starts_advance_gone [OF eff(1) [unfolded agent_gone_removal]] show ?case by blast
next
  case (step_message h m)
  show ?case by (rule message_starts_advance)
next
  case (step_session h s st aid ev)
  let ?h = "hub_register_session aid s ev st h"
  have "?h = put_session s \<lparr>sr_agent_id = aid, sr_event_tx = ev, sr_started_tx = Some st\<rparr> h"
    using step_session(1) by (simp add: hub_register_session_def)
  then have "pending_start ?h = (pending_start h)(s \<mapsto> st)" "hub_starts ?h = hub_starts h" by simp_all
  moreover have "pending_start h s = None" using step_session(1) by (simp add: pending_start_def)
  ultimately show ?case
    unfolding starts_advance_def using step_session(2) by (intro exI [of _ "[]"]) auto
next
  case (step_fail_start h s e)
  show ?case
    using start_failed.settle_pending [of "(s, e)" h] start_failed.settle_answered [of "(s, e)" h]
    by (auto intro!: starts_advance_settle simp: session_op_sessions)
next
  case (step_send tx m h h')
  then show ?case by (auto intro: starts_advance_same dest: send_command_frames)
next
  case (step_task t aid h h')
  then show ?case by (auto intro: starts_advance_same simp: hub_register_task_def split: sum.splits)
qed (simp_all add: starts_advance_same)

text \<open>What may happen while one start waits: any step that does not register its session again.\<close>

inductive wait_steps :: "(session_id \<Rightarrow> string) \<Rightarrow> session_id \<Rightarrow> hub \<Rightarrow> hub \<Rightarrow> bool" for dbg s where
  wait_refl: "wait_steps dbg s h h"
| wait_next: "wait_steps dbg s h h1 \<Longrightarrow> hub_step dbg l h1 h2 \<Longrightarrow>
     (hub_sessions h1 s = None \<longrightarrow> hub_sessions h2 s = None) \<Longrightarrow> wait_steps dbg s h h2"

definition answer_consistent :: "nat \<Rightarrow> await_outcome \<Rightarrow> hub \<Rightarrow> bool" where
  "answer_consistent st outcome h \<longleftrightarrow>
     (\<forall>r. outcome = Acknowledged r \<longrightarrow> (st, Delivered r) \<in> set (hub_starts h))"

text \<open>The invariant of the wait: the channel belongs to the session alone, and a failure removed it.\<close>

definition waiting_for :: "session_id \<Rightarrow> nat \<Rightarrow> hub \<Rightarrow> bool" where
  "waiting_for s st h \<longleftrightarrow>
     st \<in> issued (pending_start h) (hub_starts h) \<and>
     (\<forall>k. pending_start h k = Some st \<longrightarrow> k = s) \<and>
     (\<forall>f. (st, f) \<in> set (hub_starts h) \<and> f \<noteq> Delivered (Ok ()) \<longrightarrow> hub_sessions h s = None)"

lemma waiting_for_advance:
  assumes "waiting_for s st h" "starts_advance h h'"
    and "hub_sessions h s = None \<longrightarrow> hub_sessions h' s = None"
  shows "waiting_for s st h'"
proof -
  obtain xs where xs: "hub_starts h' = hub_starts h @ xs"
    "\<And>w f. (w, f) \<in> set xs \<Longrightarrow>
       \<exists>k. pending_start h k = Some w \<and> (f = Delivered (Ok ()) \<or> hub_sessions h' k = None)"
    "\<And>k w. pending_start h k = Some w \<Longrightarrow> pending_start h' k = Some w \<or> w \<in> fst ` set xs"
    "\<And>k w. pending_start h' k = Some w \<Longrightarrow>
       pending_start h k = Some w \<or> w \<notin> issued (pending_start h) (hub_starts h)"
    using assms(2) unfolding starts_advance_def by blast
  note w = assms(1) [unfolded waiting_for_def]
  have "st \<in> issued (pending_start h') (hub_starts h')"
  proof (cases "st \<in> fst ` set (hub_starts h)")
    case True
    then show ?thesis unfolding issued_def xs(1) by (simp add: image_Un)
  next
    case False
    with w obtain k where "pending_start h k = Some st" unfolding issued_def ran_def by blast
    from xs(3) [OF this] show ?thesis
      unfolding issued_def xs(1) ran_def by (auto simp only: image_Un set_append)
  qed
  moreover have "k = s" if "pending_start h' k = Some st" for k
    using w xs(4) [OF that] by blast
  moreover have "hub_sessions h' s = None"
    if "(st, f) \<in> set (hub_starts h')" "f \<noteq> Delivered (Ok ())" for f
  proof (cases "(st, f) \<in> set xs")
    case True
    from xs(2) [OF this] that(2) obtain k where "pending_start h k = Some st" "hub_sessions h' k = None"
      by blast
    with w show ?thesis by blast
  next
    case False
    with that w assms(3) show ?thesis by (auto simp: xs(1))
  qed
  ultimately show ?thesis unfolding waiting_for_def by blast
qed

lemma waiting_for_steps:
  "wait_steps dbg s h h' \<Longrightarrow> hub_inv h \<Longrightarrow> waiting_for s st h \<Longrightarrow> hub_inv h' \<and> waiting_for s st h'"
proof (induction rule: wait_steps.induct)
  case (wait_refl h)
  then show ?case by simp
next
  case (wait_next h h1 l h2)
  then have i: "hub_inv h1" "waiting_for s st h1" by blast+
  show ?case
    using hub_inv_step [OF wait_next(2) i(1)]
      waiting_for_advance [OF i(2) step_starts_advance [OF wait_next(2)] wait_next(3)] by blast
qed

text \<open>The beginning of a start.\<close>

lemma remote_start_begin_ok:
  assumes "remote_start_begin ords others cfg req rs h = (Ok r, h1)"
  obtains a where
    "reg_select_agent (ord_agents ords) (rbc_provider_id cfg) (hub_registry h) = Some a"
    "send_command (ra_command_tx a) (GSessionStart (sx_session_id rs) req)
       (others 1 (hub_register_session (ra_agent_id a) (sx_session_id rs) (sx_event_tx rs) (sx_started_tx rs)
          (others 0 h))) = Some h1"
    "r = \<lparr>rst_session = remote_session cfg req (sx_session_id rs),
           rst_agent_tx = ra_command_tx a, rst_resources = rs\<rparr>"
  using assms
  by (auto simp: remote_start_begin_def Let_def split: if_splits option.splits)

lemma wait_steps_fresh: "wait_steps dbg s h h' \<Longrightarrow> hub_sessions h s = None \<Longrightarrow> hub_sessions h' s = None"
  by (induction rule: wait_steps.induct) simp_all

lemma wait_steps_inv: "wait_steps dbg s h h' \<Longrightarrow> hub_inv h \<Longrightarrow> hub_inv h'"
  by (induction rule: wait_steps.induct) (simp_all add: hub_inv_step)

lemma register_session_waiting:
  assumes "hub_inv h" "hub_sessions h s = None" "st \<notin> issued (pending_start h) (hub_starts h)"
  shows "waiting_for s st (hub_register_session aid s ev st h)"
proof -
  let ?h = "hub_register_session aid s ev st h"
  have "hub_starts ?h = hub_starts h" "pending_start ?h = (pending_start h)(s \<mapsto> st)"
    using assms(2) by (simp_all add: hub_register_session_def)
  then show ?thesis
    using assms(3) unfolding waiting_for_def issued_def by (auto simp: ran_def image_iff)
qed

lemma remote_start_begin_waiting:
  assumes "remote_start_begin ords others cfg req rs h = (Ok r, h1)" and "hub_inv h"
    and "\<And>k g. wait_steps dbg (sx_session_id rs) g (others k g)"
    and "hub_sessions h (sx_session_id rs) = None"
    and "sx_started_tx rs \<notin> issued (pending_start (others 0 h)) (hub_starts (others 0 h))"
  shows "hub_inv h1" and "waiting_for (sx_session_id rs) (sx_started_tx rs) h1"
    and "as_id (rst_session r) = sx_session_id rs"
proof -
  let ?s = "sx_session_id rs" and ?st = "sx_started_tx rs"
  obtain a where
    sel: "reg_select_agent (ord_agents ords) (rbc_provider_id cfg) (hub_registry h) = Some a" and
    a: "send_command (ra_command_tx a) (GSessionStart ?s req)
       (others 1 (hub_register_session (ra_agent_id a) ?s (sx_event_tx rs) ?st (others 0 h))) = Some h1"
    "r = \<lparr>rst_session = remote_session cfg req ?s, rst_agent_tx = ra_command_tx a, rst_resources = rs\<rparr>"
    by (rule remote_start_begin_ok [OF assms(1)])
  let ?h = "hub_register_session (ra_agent_id a) ?s (sx_event_tx rs) ?st (others 0 h)"
  have i: "hub_inv (others 0 h)" "hub_sessions (others 0 h) ?s = None"
    using wait_steps_inv [OF assms(3,2)] wait_steps_fresh [OF assms(3,4)] .
  have "hub_inv (others 1 ?h)" "waiting_for ?s ?st (others 1 ?h)"
    using waiting_for_steps [OF assms(3) hub_inv_start_session [OF i assms(5)]
      register_session_waiting [OF i assms(5)]] by blast+
  moreover have "starts_advance (others 1 ?h) h1" "hub_sessions h1 = hub_sessions (others 1 ?h)"
    using step_starts_advance [OF step_send [OF a(1)]] send_command_frames [OF a(1)] by blast+
  ultimately show "hub_inv h1" and "waiting_for ?s ?st h1"
    using hub_inv_send [OF _ a(1)] waiting_for_advance by auto
  show "as_id (rst_session r) = ?s" by (simp add: a(2) remote_session_def)
qed

section \<open>Properties\<close>

text \<open>C15: A failed start leaves no session in the hub. Whatever methods run between the choice of the agent, the
  registration of the session, the send and the clean-up, or while the start waits,
  and however the wait ends (the agent refuses, disconnects or ends the session early, the
  acknowledgement is lost, or the time is up), if \<^verbatim>\<open>start_stream\<close> returns an error then
  the session has no route afterwards.\<close>

theorem failed_start_leaves_no_session:
  assumes "hub_reachable dbg secret h"
    and "hub_sessions h (sx_session_id rs) = None"
    and "\<And>k g. wait_steps dbg (sx_session_id rs) g (others k g)"
    and "sx_started_tx rs \<notin> issued (pending_start (others 0 h)) (hub_starts (others 0 h))"
    and "\<And>h1 h2 outcome. env h1 = (h2, outcome) \<Longrightarrow>
           wait_steps dbg (sx_session_id rs) h1 h2 \<and> answer_consistent (sx_started_tx rs) outcome h2"
    and "remote_start_stream ords others cfg req rs env h = (Err e, h')"
  shows "hub_sessions h' (sx_session_id rs) = None"
proof (cases "remote_start_begin ords others cfg req rs h")
  case (Pair r h1)
  show ?thesis
  proof (cases r)
    case (Inl e1)
    with Pair assms(2,6) show ?thesis
      by (auto simp: remote_start_stream_def remote_start_begin_def Let_def session_op_sessions
          split: if_splits option.splits)
  next
    case (Inr st)
    note started = Pair [unfolded Inr]
    note waiting = remote_start_begin_waiting [OF started hub_reachable_inv [OF assms(1)] assms(3,2,4)]
    obtain h2 outcome where env: "env h1 = (h2, outcome)" by (metis surj_pair)
    note w = waiting_for_steps [OF conjunct1 [OF assms(5) [OF env]] waiting(1,2)]
    have "remote_start_end st outcome h2 = (Err e, h')"
      using assms(6) by (simp add: remote_start_stream_def started env)
    then show ?thesis
      using w conjunct2 [OF assms(5) [OF env]] waiting(3)
      unfolding remote_start_end_def waiting_for_def answer_consistent_def
      by (auto simp: Let_def session_op_sessions split: await_outcome.splits sum.splits)
  qed
qed

definition demo_request :: asr_stream_request where
  "demo_request =
     \<lparr>asq_provider = selector_default, asq_input_format = audio_format_pcm_s16le 16000 1,
      asq_options = \<lparr>ro_language = None, ro_hints = [], ro_interim_results = True, ro_timestamps = False,
        ro_punctuation = False, ro_prefer_on_device = False, ro_provider_options = JObject []\<rparr>\<rparr>"

definition demo_resources :: start_resources where
  "demo_resources = \<lparr>sx_session_id = SessionId 1, sx_command_tx = 11, sx_event_tx = 12, sx_started_tx = 13\<rparr>"

lemma demo_select: "reg_select_agent [''a1''] ''p'' (hub_registry demo_connected) = Some (agent_of_hello demo_hello 3)"
  by (simp add: reg_select_agent_def demo_connected_def map_values_Cons agent_of_hello_def demo_hello_def)

theorem failed_start_leaves_no_session_witness:
  "\<exists>e h'. remote_start_stream \<lparr>ord_agents = [''a1''], ord_tasks = [], ord_sessions = []\<rparr> (\<lambda>_ h. h)
            \<lparr>rbc_provider_id = ''p'', rbc_display_name = None\<rparr> demo_request demo_resources
            (\<lambda>h. (h, AckTimeout)) demo_connected = (Err e, h') \<and>
          hub_sessions h' (SessionId 1) = None"
proof -
  let ?r = "remote_start_stream \<lparr>ord_agents = [''a1''], ord_tasks = [], ord_sessions = []\<rparr> (\<lambda>_ h. h)
            \<lparr>rbc_provider_id = ''p'', rbc_display_name = None\<rparr> demo_request demo_resources
            (\<lambda>h. (h, AckTimeout)) demo_connected"
  have "\<exists>e h'. ?r = (Err e, h')"
    by (simp add: remote_start_stream_def remote_start_begin_def demo_request_def selector_default_def
        demo_select Let_def remote_start_end_def split: option.split)
  then obtain e h' where r: "?r = (Err e, h')" by blast
  have "hub_sessions h' (sx_session_id demo_resources) = None"
    by (rule failed_start_leaves_no_session [OF demo_connected_reachable _ _ _ _ r, where dbg = "\<lambda>_. []"])
      (auto simp: demo_connected_tables demo_resources_def issued_def pending_start_def ran_def
        answer_consistent_def intro: wait_refl)
  with r show ?thesis by (auto simp: demo_resources_def)
qed

text \<open>Forwarding preserves order: as long as the agent's channel is open, exactly the
  translations of the session's commands arrive on it, in order; if it is closed, the session learns it by
  an error event followed by an end event, provided it has a command to send and its receiver is there.\<close>

lemma forward_commands_in_order:
  "sent_on tx (hub_cmds (forward_commands_to_agent b64 s tx ev cs h)) =
     sent_on tx (hub_cmds h) @
       (if tx \<in> net_closed (hub_cmds h) then [] else map (outbound_command b64 s) cs) \<and>
   sent_on ev (hub_events (forward_commands_to_agent b64 s tx ev cs h)) =
     sent_on ev (hub_events h) @
       (if tx \<in> net_closed (hub_cmds h) \<and> cs \<noteq> [] \<and> ev \<notin> net_closed (hub_events h)
        then [AsrErrorEv ''agent command channel closed'', AsrEndedEv (Some ''agent_disconnected'')] else [])"
proof (cases "tx \<in> net_closed (hub_cmds h)")
  case True
  then have "send_command tx m h = None" for m by (simp add: send_command_None)
  with True show ?thesis by (cases cs) (simp_all add: post_event_sent)
next
  case False
  from agent_channel.send_seq_contents [OF forward_as_send_seq [OF False]] False show ?thesis
    by (simp add: forward_open_events)
qed

lemma unregister_removes [simp]:
  "reg_agents (hub_registry (hub_unregister_agent ords dbg aid h)) aid = None"
  by (auto simp: hub_unregister_agent_def reg_unregister_agent_def finish_agent_removal_def
      finish_orphaned_sessions dest: reg_agents_remove_pair split: prod.splits)

text \<open>C16: The connection handler unregisters its agent only when the loop breaks. If the handler
  returns an error after the registration (an unreadable frame, an undecodable text, or a writer
  that is gone before the greeting) the hub keeps the agent as the last step left it, although
  nobody reads its connection any more.\<close>

theorem connection_end_registration:
  assumes "accept_hello show_frame show_message first = Ok hello"
    and "hub_register_agent ords dbg hello tx h = Ok h0"
    and "fst (agent_conn_loop tx evs (post_command tx (GHelloOk server) h0)) \<noteq> LoopRunning"
  shows "case handle_agent_connection show_frame show_message ords ords' dbg server tx first evs h of
           (Inr _, h') \<Rightarrow> reg_agents (hub_registry h') (hel_agent_id hello) = None
         | (Inl e, h') \<Rightarrow>
             h' = (if tx \<in> net_closed (hub_cmds h0) then h0
                   else snd (agent_conn_loop tx evs (post_command tx (GHelloOk server) h0)))"
proof (cases "send_command tx (GHelloOk server) h0")
  case None
  then have "tx \<in> net_closed (hub_cmds h0)" by (simp add: send_command_None)
  with None show ?thesis
    using assms by (simp add: handle_agent_connection_def open_agent_connection_def)
next
  case (Some h1)
  then have "tx \<notin> net_closed (hub_cmds h0)" by (metis send_command_None option.distinct(1))
  with Some show ?thesis
    using assms
    by (auto simp: handle_agent_connection_def open_agent_connection_def post_command_def
        close_agent_connection_def split: prod.splits loop_status.splits)
qed

lemma demo_bad_frame:
  "agent_conn_loop 3 [(AgentFrame (Some (TextFrame (Inl ''bad''))), \<lambda>h. h)] h =
     (LoopReturned (ProtocolError (''invalid agent frame payload: '' @ ''bad'')), h)"
  by simp

theorem connection_end_registration_witness:
  "reg_agents (hub_registry (snd (handle_agent_connection (\<lambda>_. []) (\<lambda>_. []) empty_orders empty_orders
      (\<lambda>_. []) ''srv'' 3 (Some (TextFrame (Ok (AHello demo_hello))))
      [(AgentFrame (Some (TextFrame (Inl ''bad''))), \<lambda>h. h)] (hub_new (Some ''k''))))) ''a1'' =
   Some (agent_of_hello demo_hello 3)"
proof -
  let ?f = "Some (TextFrame (Ok (AHello demo_hello)))"
  let ?evs = "[(AgentFrame (Some (TextFrame (Inl ''bad''))), \<lambda>h :: hub. h)]"
  let ?r = "handle_agent_connection (\<lambda>_. []) (\<lambda>_. []) empty_orders empty_orders
      (\<lambda>_. []) ''srv'' 3 ?f ?evs (hub_new (Some ''k''))"
  have a: "accept_hello (\<lambda>_. []) (\<lambda>_. []) ?f = Ok demo_hello" by (simp add: accept_hello_def)
  have open3: "3 \<notin> net_closed (hub_cmds demo_connected)" by (simp add: demo_connected_def hub_new_def)
  then obtain h1 where h1: "send_command 3 (GHelloOk ''srv'') demo_connected = Some h1"
    by (metis agent_channel.push_open)
  have err: "fst ?r = Err (ProtocolError (''invalid agent frame payload: '' @ ''bad''))"
    using demo_connects h1
    by (simp add: handle_agent_connection_def open_agent_connection_def a close_agent_connection_def)
  have "snd ?r = post_command 3 (GHelloOk ''srv'') demo_connected"
    using connection_end_registration [OF a demo_connects [of "\<lambda>_. []"], of ?evs "''srv''" empty_orders]
      err open3 by (cases ?r) simp
  moreover have "hub_registry (post_command 3 (GHelloOk ''srv'') demo_connected) = hub_registry demo_connected"
    using send_command_frames [OF h1] by (simp add: post_command_def h1)
  ultimately show ?thesis by (simp add: demo_connected_def)
qed

end
