(* ===== verification/LocalAgent.thy ===== *)
theory LocalAgent
  imports AgentBridge
begin

text \<open>
  The ASR agent that runs beside a provider, \<^verbatim>\<open>run_local_agent\<close> of \<^verbatim>\<open>speechmeshd/src/agent.rs\<close>: it
  greets the gateway, starts sessions on a local bridge, relays their events and feeds them the
  gateway's commands. The local bridge and the decoder of the \<^verbatim>\<open>base64\<close> crate are parameters.
\<close>

section \<open>State\<close>

text \<open>\<open>la_sessions\<close> maps a session to the command sender of its controller.\<close>

record local_agent =
  la_sessions :: "session_id \<rightharpoonup> nat"
  la_cmds :: "bridge_command net"
  la_out :: "agent_to_gateway net"

definition la_put :: "session_id \<Rightarrow> nat \<Rightarrow> local_agent \<Rightarrow> local_agent" where
  "la_put s tx a = a\<lparr>la_sessions := (la_sessions a)(s \<mapsto> tx)\<rparr>"

definition la_del :: "session_id \<Rightarrow> local_agent \<Rightarrow> local_agent" where
  "la_del s a = a\<lparr>la_sessions := (la_sessions a)(s := None)\<rparr>"

interpretation controller_table: route_table la_sessions la_put la_del
  by unfold_locales (simp_all add: la_put_def la_del_def)

definition la_post :: "nat \<Rightarrow> agent_to_gateway \<Rightarrow> local_agent \<Rightarrow> local_agent" where
  "la_post out m a = a\<lparr>la_out := net_post out m (la_out a)\<rparr>"

record local_agent_config =
  lac_agent_id :: string
  lac_agent_name :: string
  lac_provider_id :: string
  lac_shared_secret :: "string option"

text \<open>The greeting. \<open>hostname\<close> is the variable HOSTNAME, \<open>platform\<close> and \<open>version\<close> constants of the build.\<close>

definition local_hello ::
  "local_agent_config \<Rightarrow> string option \<Rightarrow> string \<Rightarrow> string \<Rightarrow> agent_hello_payload" where
  "local_hello cfg hostname platform version =
     (let host = opt_filter (\<lambda>v. trim v \<noteq> []) hostname
      in \<lparr>hel_agent_id = lac_agent_id cfg, hel_agent_name = lac_agent_name cfg,
          hel_provider_id = Some (lac_provider_id cfg),
          hel_capabilities = [''streaming-input'', ''interim-results''],
          hel_capability_domains = [Asr], hel_agent_kind = AsrProviderAgent,
          hel_device = Some \<lparr>adi_device_id = unwrap_or host (lac_agent_id cfg),
                             adi_hostname = host, adi_platform = Some platform\<rparr>,
          hel_client_version = Some version, hel_update_status = None,
          hel_shared_secret = lac_shared_secret cfg\<rparr>)"

section \<open>Operations\<close>

definition session_error :: "session_id \<Rightarrow> string \<Rightarrow> agent_to_gateway" where
  "session_error s m = AError (Some s) m"

text \<open>The relay task of a session: one event, and the whole loop.\<close>

fun relay_message :: "session_id \<Rightarrow> bridge_asr_event \<Rightarrow> agent_to_gateway" where
  "relay_message s (AsrPartialEv text) = AAsrPartial s text"
| "relay_message s (AsrFinalEv tr) = AAsrFinal s tr"
| "relay_message s (AsrEndedEv reason) = ASessionEnded s reason"
| "relay_message s (AsrErrorEv m) = AError (Some s) m"

fun relay_events :: "nat \<Rightarrow> session_id \<Rightarrow> bridge_asr_event list \<Rightarrow> local_agent \<Rightarrow> local_agent" where
  "relay_events out s [] a = la_del s a"
| "relay_events out s (e # es) a =
     (let a1 = (if is_ended e then la_del s a else a)
      in (case net_send out (relay_message s e) (la_out a1) of
            Some n \<Rightarrow> relay_events out s es (a1\<lparr>la_out := n\<rparr>)
          | None \<Rightarrow> la_del s a1))"

text \<open>A command for a running session; a closed controller is reported.\<close>

definition feed_session :: "nat \<Rightarrow> session_id \<Rightarrow> nat \<Rightarrow> bridge_command \<Rightarrow> local_agent \<Rightarrow> local_agent" where
  "feed_session out s tx c a =
     (case net_send tx c (la_cmds a) of
        Some n \<Rightarrow> a\<lparr>la_cmds := n\<rparr>
      | None \<Rightarrow> la_post out (session_error s (bridge_error_text command_channel_closed)) a)"

text \<open>\<open>start\<close> is the local bridge's \<^verbatim>\<open>start_stream\<close>, \<open>b64d\<close> the decoder.\<close>

fun handle_gateway_message ::
  "(asr_stream_request \<Rightarrow> bridge_error + asr_handle) \<Rightarrow> (string \<Rightarrow> string + bytes) \<Rightarrow> nat
     \<Rightarrow> gateway_to_agent \<Rightarrow> local_agent \<Rightarrow> local_agent" where
  "handle_gateway_message start b64d out (GHelloOk _) a = a"
| "handle_gateway_message start b64d out (GSessionStart s req) a =
     (case start req of
        Inr handle \<Rightarrow>
          la_post out (ASessionStarted s (as_provider_id (ah_session handle)))
            (la_put s (ah_command_tx handle) a)
      | Inl e \<Rightarrow> la_post out (session_error s (bridge_error_text e)) a)"
| "handle_gateway_message start b64d out (GSessionAudio s data) a =
     (case la_sessions a s of
        Some tx \<Rightarrow>
          (case b64d data of
             Inr bytes \<Rightarrow> feed_session out s tx (PushAudio bytes) a
           | Inl e \<Rightarrow> la_post out (session_error s (''invalid audio base64: '' @ e)) a)
      | None \<Rightarrow> la_post out (session_error s ''session not found'') a)"
| "handle_gateway_message start b64d out (GSessionCommit s) a =
     (case la_sessions a s of
        Some tx \<Rightarrow> feed_session out s tx AsrCommitCmd a
      | None \<Rightarrow> a)"
| "handle_gateway_message start b64d out (GSessionStop s) a =
     (case la_sessions a s of
        Some tx \<Rightarrow> feed_session out s tx AsrStopCmd a
      | None \<Rightarrow> a)"
| "handle_gateway_message start b64d out (GTaskPlayAudioStart t _) a =
     la_post out (ATaskStatus t \<lparr>tst_state = TaskFailed,
       tst_message = Some ''play_audio tasks are not supported by this ASR-only local agent''\<rparr>) a"
| "handle_gateway_message start b64d out (GTaskPlayAudioChunk t _) a =
     la_post out (ATaskStatus t \<lparr>tst_state = TaskFailed,
       tst_message = Some ''play_audio tasks are not supported by this ASR-only local agent''\<rparr>) a"
| "handle_gateway_message start b64d out (GTaskPlayAudioFinish t) a =
     la_post out (ATaskStatus t \<lparr>tst_state = TaskFailed,
       tst_message = Some ''play_audio tasks are not supported by this ASR-only local agent''\<rparr>) a"
| "handle_gateway_message start b64d out GPing a = la_post out APong a"

section \<open>The connection\<close>

text \<open>The wait for the gateway's greeting: the frames after it, or why the connection ends.\<close>

fun await_hello_ok :: "gateway_to_agent frame list \<Rightarrow> bridge_error + gateway_to_agent frame list" where
  "await_hello_ok [] = Err (Disconnected ''gateway closed connection'')"
| "await_hello_ok (ReadError e # fs) = Err (IoError (''read gateway frame failed: '' @ e))"
| "await_hello_ok (TextFrame (Inl e) # fs) = Err (ProtocolError (''invalid gateway frame payload: '' @ e))"
| "await_hello_ok (TextFrame (Inr (GHelloOk _)) # fs) = Ok fs"
| "await_hello_ok (CloseFrame # fs) = Err (Disconnected ''gateway closed during hello handshake'')"
| "await_hello_ok (f # fs) = await_hello_ok fs"

fun local_agent_loop ::
  "(asr_stream_request \<Rightarrow> bridge_error + asr_handle) \<Rightarrow> (string \<Rightarrow> string + bytes) \<Rightarrow> nat
     \<Rightarrow> gateway_to_agent frame list \<Rightarrow> local_agent \<Rightarrow> bridge_error \<times> local_agent" where
  "local_agent_loop start b64d out [] a = (Disconnected ''gateway connection closed'', a)"
| "local_agent_loop start b64d out (ReadError e # fs) a =
     (IoError (''read gateway frame failed: '' @ e), a)"
| "local_agent_loop start b64d out (TextFrame (Inl e) # fs) a =
     (ProtocolError (''invalid gateway frame payload: '' @ e), a)"
| "local_agent_loop start b64d out (TextFrame (Inr m) # fs) a =
     local_agent_loop start b64d out fs (handle_gateway_message start b64d out m a)"
| "local_agent_loop start b64d out (CloseFrame # fs) a = (Disconnected ''gateway connection closed'', a)"
| "local_agent_loop start b64d out (PingFrame _ # fs) a =
     local_agent_loop start b64d out fs (la_post out APong a)"
| "local_agent_loop start b64d out (f # fs) a = local_agent_loop start b64d out fs a"

definition run_local_agent_once ::
  "(asr_stream_request \<Rightarrow> bridge_error + asr_handle) \<Rightarrow> (string \<Rightarrow> string + bytes) \<Rightarrow> nat
     \<Rightarrow> agent_hello_payload \<Rightarrow> gateway_to_agent frame list \<Rightarrow> local_agent \<Rightarrow> bridge_error \<times> local_agent" where
  "run_local_agent_once start b64d out hello frames a =
     (case net_send out (AHello hello) (la_out a) of
        None \<Rightarrow> (Disconnected ''agent writer channel closed'', a)
      | Some n \<Rightarrow>
          (case await_hello_ok frames of
             Inl e \<Rightarrow> (e, a\<lparr>la_out := n\<rparr>)
           | Inr rest \<Rightarrow> local_agent_loop start b64d out rest (a\<lparr>la_out := n\<rparr>)))"

section \<open>Lemmas\<close>

lemma feed_session_open:
  "tx \<notin> net_closed (la_cmds a) \<Longrightarrow>
     sent_on tx (la_cmds (feed_session out s tx c a)) = sent_on tx (la_cmds a) @ [c] \<and>
     net_closed (la_cmds (feed_session out s tx c a)) = net_closed (la_cmds a) \<and>
     la_sessions (feed_session out s tx c a) = la_sessions a \<and>
     la_out (feed_session out s tx c a) = la_out a"
  by (auto simp: feed_session_def net_send_def sent_on_def)

lemma deliver_command:
  assumes "la_sessions a s = Some tx" "tx \<notin> net_closed (la_cmds a)"
    and "\<And>x. b64d (b64 x) = Ok x"
  shows "handle_gateway_message start b64d out (outbound_command b64 s c) a = feed_session out s tx c a"
  using assms by (cases c) simp_all

lemma relay_events_out:
  assumes "out \<notin> net_closed (la_out a)"
  shows "sent_on out (la_out (relay_events out s es a)) = sent_on out (la_out a) @ map (relay_message s) es \<and>
         la_sessions (relay_events out s es a) s = None"
  using assms
proof (induction es arbitrary: a)
  case Nil
  then show ?case by (simp add: la_del_def)
next
  case (Cons e es)
  let ?a = "if is_ended e then la_del s a else a"
  have open': "out \<notin> net_closed (la_out ?a)" and la: "la_out ?a = la_out a"
    using Cons.prems by (auto simp: la_del_def)
  obtain n where n: "net_send out (relay_message s e) (la_out ?a) = Some n"
    using net.push_open [OF open'] by blast
  have "out \<notin> net_closed n" using net.push_keeps_open [OF n] open' by simp
  with Cons.IH [of "?a\<lparr>la_out := n\<rparr>"] net.push_contents [OF n] n la
  show ?case by (simp add: Let_def)
qed

section \<open>Properties\<close>

text \<open>C17: Commands travel unchanged from the gateway's bridge to the agent's: with a base64
  decoder that inverts the encoder, the messages that \<^verbatim>\<open>forward_commands_to_agent\<close> puts on the agent's channel,
  handled in order by the local agent, feed exactly the original commands to the controller of the
  session, and the agent has nothing to report.\<close>

theorem forwarded_commands_arrive:
  assumes "\<And>x. b64d (b64 x) = Ok x"
    and "tx \<notin> net_closed (hub_cmds h)" and "sent_on tx (hub_cmds h) = []"
    and "la_sessions a s = Some ctl" and "ctl \<notin> net_closed (la_cmds a)"
    and "a' = fold (handle_gateway_message start b64d out)
                (sent_on tx (hub_cmds (forward_commands_to_agent b64 s tx ev cs h))) a"
  shows "sent_on ctl (la_cmds a') = sent_on ctl (la_cmds a) @ cs \<and> la_out a' = la_out a"
proof -
  have "sent_on tx (hub_cmds (forward_commands_to_agent b64 s tx ev cs h)) = map (outbound_command b64 s) cs"
    using agent_channel.send_seq_contents [OF forward_as_send_seq [OF assms(2), of b64 s cs ev]] assms(3)
    by simp
  then have a': "a' = fold (handle_gateway_message start b64d out) (map (outbound_command b64 s) cs) a"
    by (simp add: assms(6))
  have "sent_on ctl (la_cmds (fold (handle_gateway_message start b64d out) (map (outbound_command b64 s) cs) a))
          = sent_on ctl (la_cmds a) @ cs \<and>
        la_out (fold (handle_gateway_message start b64d out) (map (outbound_command b64 s) cs) a) = la_out a"
    using assms(4,5)
  proof (induction cs arbitrary: a)
    case Nil
    then show ?case by simp
  next
    case (Cons c cs)
    note step = deliver_command [OF Cons.prems(1,2) assms(1), of start out c]
    from Cons.IH [of "feed_session out s ctl c a"] feed_session_open [OF Cons.prems(2), of out s c] Cons.prems
    show ?case by (simp add: step)
  qed
  then show ?thesis by (simp add: a')
qed

text \<open>The relay of a session's events is faithful while the gateway connection is up: each
  event becomes one message about that session, in order, and when the relay ends the session's
  controller is gone from the table.\<close>

lemma relay_events_faithful:
  assumes "out \<notin> net_closed (la_out a)"
  shows "sent_on out (la_out (relay_events out s es a)) = sent_on out (la_out a) @ map (relay_message s) es \<and>
         la_sessions (relay_events out s es a) s = None"
  by (rule relay_events_out [OF assms])

definition demo_local :: local_agent where
  "demo_local = \<lparr>la_sessions = [SessionId 1 \<mapsto> 6], la_cmds = \<lparr>net_closed = {}, net_log = []\<rparr>,
                 la_out = \<lparr>net_closed = {}, net_log = []\<rparr>\<rparr>"

definition plain_b64d :: "string \<Rightarrow> string + bytes" where
  "plain_b64d s = Ok (as_bytes s)"

lemma plain_b64_inverse: "plain_b64d (byte_text xs) = Ok xs"
  by (simp add: plain_b64d_def byte_text_back)

theorem forwarded_commands_arrive_witness:
  "sent_on 6 (la_cmds (fold (handle_gateway_message (\<lambda>_. Err (IoError [])) plain_b64d 0)
     (sent_on 3 (hub_cmds (forward_commands_to_agent byte_text (SessionId 1) 3 4
        [PushAudio [1, 255], AsrCommitCmd] (hub_new None)))) demo_local)) =
   [PushAudio [1, 255], AsrCommitCmd]"
proof -
  let ?h = "hub_new None"
  have "3 \<notin> net_closed (hub_cmds ?h)" "sent_on 3 (hub_cmds ?h) = []"
    "la_sessions demo_local (SessionId 1) = Some 6" "6 \<notin> net_closed (la_cmds demo_local)"
    by (simp_all add: hub_new_def demo_local_def sent_on_def)
  note arrive = forwarded_commands_arrive [OF plain_b64_inverse this refl]
  have "sent_on 6 (la_cmds demo_local) = []" by (simp add: demo_local_def sent_on_def)
  then show ?thesis by (simp only: arrive append_Nil)
qed

end
