(* ===== verification/BridgeCommon.thy ===== *)
theory BridgeCommon
  imports Protocol
begin

text \<open>
  The helpers that the provider bridges share, \<^verbatim>\<open>bridges/src/asr/mod.rs\<close> and
  \<^verbatim>\<open>bridges/src/tts/mod.rs\<close>: stream modes, capability tests, transcripts out of JSON, the WAV
  container, multipart forms, audio names, chunked audio events and the hex/base64 payloads. The
  float arithmetic behind \<^verbatim>\<open>seconds_to_ms\<close>, the \<^verbatim>\<open>base64\<close> crate and \<^verbatim>\<open>serde_json\<close>'s
  rendering are parameters.
\<close>

section \<open>Machine arithmetic\<close>

text \<open>\<^verbatim>\<open>checked_mul\<close>, \<^verbatim>\<open>checked_add\<close> and \<^verbatim>\<open>to_le_bytes\<close>.\<close>

definition checked_mul :: "'a::len word \<Rightarrow> 'a word \<Rightarrow> 'a word option" where
  "checked_mul a b = (if unat a * unat b < 2 ^ LENGTH('a) then Some (a * b) else None)"

definition checked_add :: "'a::len word \<Rightarrow> 'a word \<Rightarrow> 'a word option" where
  "checked_add a b = (if unat a + unat b < 2 ^ LENGTH('a) then Some (a + b) else None)"

definition le_bytes :: "nat \<Rightarrow> 'a::len word \<Rightarrow> bytes" where
  "le_bytes n w = map (\<lambda>i. ucast (drop_bit (8 * i) w)) [0..<n]"

fun of_le_bytes :: "bytes \<Rightarrow> nat" where
  "of_le_bytes [] = 0"
| "of_le_bytes (b # bs) = unat b + 256 * of_le_bytes bs"

lemma length_le_bytes [simp]: "length (le_bytes n w) = n"
  by (simp add: le_bytes_def)

lemma of_le_bytes_le_bytes: "of_le_bytes (le_bytes n w) = unat w mod 2 ^ (8 * n)"
proof (induction n arbitrary: w)
  case 0
  then show ?case by (simp add: le_bytes_def)
next
  case (Suc n)
  have "le_bytes (Suc n) w = ucast w # le_bytes n (drop_bit 8 w)"
    by (simp add: le_bytes_def upt_conv_Cons map_Suc_upt [symmetric] comp_def del: upt_Suc)
      (simp add: drop_bit_drop_bit add.commute mult.commute)
  moreover have "unat (ucast w :: u8) = unat w mod 256"
    by (simp add: unsigned_ucast_eq take_bit_eq_mod)
  moreover have "unat (drop_bit 8 w) = unat w div 256"
    by (simp only: unsigned_drop_bit_eq) (simp add: drop_bit_eq_div take_bit_nat_eq_self unsigned_less)
  moreover have "(2::nat) ^ (8 * Suc n) = 256 * 2 ^ (8 * n)" by (simp add: power_add)
  ultimately show ?case
    by (simp add: Suc.IH mod_mult2_eq)
qed

section \<open>Stream modes and capabilities\<close>

definition parse_stream_mode :: "json option \<Rightarrow> stream_mode \<Rightarrow> stream_mode" where
  "parse_stream_mode value dflt =
     (case map_option (\<lambda>v. to_ascii_lowercase (trim v)) (Option.bind value json_as_str) of
        Some mode \<Rightarrow>
          (if mode = ''streaming'' then Streaming else if mode = ''buffered'' then Buffered else dflt)
      | None \<Rightarrow> dflt)"

definition requested_asr_input_mode :: "asr_stream_request \<Rightarrow> stream_mode" where
  "requested_asr_input_mode req =
     parse_stream_mode (json_get (ro_provider_options (asq_options req)) ''input_mode'') Streaming"

definition requested_asr_output_mode :: "asr_stream_request \<Rightarrow> stream_mode" where
  "requested_asr_output_mode req =
     (case json_get (ro_provider_options (asq_options req)) ''output_mode'' of
        Some explicit \<Rightarrow> parse_stream_mode (Some explicit) Buffered
      | None \<Rightarrow> (if ro_interim_results (asq_options req) then Streaming else Buffered))"

definition requested_tts_input_mode :: "synthesis_options \<Rightarrow> stream_mode" where
  "requested_tts_input_mode opts =
     parse_stream_mode (json_get (so_provider_options opts) ''input_mode'') Buffered"

definition requested_tts_output_mode :: "synthesis_options \<Rightarrow> stream_mode" where
  "requested_tts_output_mode opts =
     (case json_get (so_provider_options opts) ''output_mode'' of
        Some explicit \<Rightarrow> parse_stream_mode (Some explicit) Buffered
      | None \<Rightarrow> (if so_stream opts then Streaming else Buffered))"

definition asr_descriptor_with_io_modes :: "provider_descriptor \<Rightarrow> bool \<Rightarrow> provider_descriptor" where
  "asr_descriptor_with_io_modes d streaming_output =
     (let d1 = with_capability (with_capability (with_capability d
                 (capability_on ''streaming-input''))
                 (capability_on ''buffered-input''))
                 (capability_on ''buffered-output'')
      in if streaming_output then with_capability d1 (capability_on ''streaming-output'') else d1)"

definition has_enabled_capability :: "provider_descriptor \<Rightarrow> string \<Rightarrow> bool" where
  "has_enabled_capability d key = list_ex (\<lambda>c. cap_enabled c \<and> cap_key c = key) (pd_capabilities d)"

definition ensure_tts_modes_supported ::
  "stream_mode \<Rightarrow> stream_mode \<Rightarrow> bool \<Rightarrow> bool \<Rightarrow> string \<Rightarrow> bridge_error + unit" where
  "ensure_tts_modes_supported input output streaming_in streaming_out provider =
     (if input = Streaming \<and> \<not> streaming_in
      then Err (Unavailable (provider @ '' does not support streaming TTS input''))
      else if output = Streaming \<and> \<not> streaming_out
      then Err (Unavailable (provider @ '' does not support streaming TTS output''))
      else Ok ())"

lemma has_capability_with [simp, bridge_simps]:
  "has_enabled_capability (with_capability d (capability_on k)) key \<longleftrightarrow>
     k = key \<or> has_enabled_capability d key"
  "\<not> has_enabled_capability (provider_descriptor_new i n dom' r) key"
  by (auto simp: has_enabled_capability_def)

section \<open>Transcripts out of JSON\<close>

fun json_as_object :: "json \<Rightarrow> (string \<times> json) list option" where
  "json_as_object (JObject kvs) = Some kvs"
| "json_as_object _ = None"

text \<open>\<open>ms\<close> is \<^verbatim>\<open>as_f64\<close> of a JSON number followed by \<^verbatim>\<open>seconds_to_ms\<close>. The sum of two times wraps
  around, as in a release build.\<close>

definition json_ms :: "(string \<Rightarrow> u64) \<Rightarrow> json option \<Rightarrow> u64 option" where
  "json_ms ms v = (case v of Some (JNumber n) \<Rightarrow> Some (ms n) | _ \<Rightarrow> None)"

definition segment_of_json :: "(string \<Rightarrow> u64) \<Rightarrow> json \<Rightarrow> transcript_segment option" where
  "segment_of_json ms segment =
     (case json_get_str segment ''substring'' of
        None \<Rightarrow> None
      | Some text \<Rightarrow>
          (let start = json_ms ms (json_get segment ''timestamp_s'');
               dur = json_ms ms (json_get segment ''duration_s'')
           in Some \<lparr>seg_text = text, seg_is_final = True, seg_start_ms = start,
                    seg_end_ms = (case (start, dur) of
                                    (Some a, Some b) \<Rightarrow> Some (a + b) | _ \<Rightarrow> None)\<rparr>))"

definition extract_final_transcript :: "(string \<Rightarrow> u64) \<Rightarrow> json \<Rightarrow> transcript option" where
  "extract_final_transcript ms payload =
     (case json_get_str payload ''text'' of
        None \<Rightarrow> None
      | Some text \<Rightarrow>
          Some \<lparr>tr_text = text, tr_language = None,
                tr_segments =
                  unwrap_or (map_option (List.map_filter (segment_of_json ms))
                    (Option.bind (json_get payload ''segments'') json_as_array)) []\<rparr>)"

section \<open>Audio formats\<close>

text \<open>\<^verbatim>\<open>usize\<close> is 64 bits wide: the product of a rate, a channel count and a sample size fits.\<close>

definition streaming_partial_trigger_bytes :: "audio_format \<Rightarrow> nat \<Rightarrow> nat" where
  "streaming_partial_trigger_bytes format configured =
     (if 0 < configured then configured
      else
        (let inferred =
               (case af_encoding format of
                  PcmS16Le \<Rightarrow> Some (unat (af_sample_rate_hz format) * unat (af_channels format) * 2)
                | PcmF32Le \<Rightarrow> Some (unat (af_sample_rate_hz format) * unat (af_channels format) * 4)
                | _ \<Rightarrow> None)
         in unwrap_or inferred (32 * 1024)))"

definition encode_pcm_s16le_wav :: "bytes \<Rightarrow> u32 \<Rightarrow> u16 \<Rightarrow> bridge_error + bytes" where
  "encode_pcm_s16le_wav pcm rate channels =
     (if length pcm > 2 ^ 32 - 1 - 44 then Err (ProtocolError ''PCM payload too large to wrap in WAV'')
      else
        (case Option.bind (checked_mul rate (ucast channels)) (\<lambda>v. checked_mul v 2) of
           None \<Rightarrow> Err (ProtocolError ''invalid WAV byte rate'')
         | Some byte_rate \<Rightarrow>
             (case checked_mul channels 2 of
                None \<Rightarrow> Err (ProtocolError ''invalid WAV block align'')
              | Some block_align \<Rightarrow>
                  (let data_size = (word_of_nat (length pcm) :: u32)
                   in case checked_add 36 data_size of
                        None \<Rightarrow> Err (ProtocolError ''invalid WAV size'')
                      | Some riff_size \<Rightarrow>
                          Ok (as_bytes ''RIFF'' @ le_bytes 4 riff_size @ as_bytes ''WAVE'' @
                              as_bytes ''fmt '' @ le_bytes 4 (16 :: u32) @ le_bytes 2 (1 :: u16) @
                              le_bytes 2 channels @ le_bytes 4 rate @ le_bytes 4 byte_rate @
                              le_bytes 2 block_align @ le_bytes 2 (16 :: u16) @
                              as_bytes ''data'' @ le_bytes 4 data_size @ pcm)))))"

fun audio_encoding_name :: "audio_encoding \<Rightarrow> string" where
  "audio_encoding_name PcmS16Le = ''pcm_s16le''"
| "audio_encoding_name PcmF32Le = ''pcm_f32le''"
| "audio_encoding_name Opus = ''opus''"
| "audio_encoding_name Mp3 = ''mp3''"
| "audio_encoding_name Aac = ''aac''"
| "audio_encoding_name Flac = ''flac''"
| "audio_encoding_name Wav = ''wav''"

definition unsupported_minimax_input :: "audio_encoding \<Rightarrow> bridge_error" where
  "unsupported_minimax_input e =
     Unavailable (''MiniMax ASR does not support '' @ audio_encoding_name e @ '' input yet'')"

definition audio_mime_type :: "audio_format \<Rightarrow> bridge_error + string" where
  "audio_mime_type format =
     (case af_encoding format of
        PcmS16Le \<Rightarrow> Ok ''audio/wav''
      | Mp3 \<Rightarrow> Ok ''audio/mpeg''
      | Flac \<Rightarrow> Ok ''audio/flac''
      | Wav \<Rightarrow> Ok ''audio/wav''
      | _ \<Rightarrow> Err (unsupported_minimax_input (af_encoding format)))"

definition encode_minimax_upload_audio :: "audio_format \<Rightarrow> bytes \<Rightarrow> bridge_error + bytes" where
  "encode_minimax_upload_audio format audio =
     (case af_encoding format of
        PcmS16Le \<Rightarrow> encode_pcm_s16le_wav audio (af_sample_rate_hz format) (af_channels format)
      | Mp3 \<Rightarrow> Ok audio
      | Flac \<Rightarrow> Ok audio
      | Wav \<Rightarrow> Ok audio
      | _ \<Rightarrow> Err (unsupported_minimax_input (af_encoding format)))"

definition default_audio_filename :: "audio_format \<Rightarrow> string" where
  "default_audio_filename format =
     (case af_encoding format of
        PcmS16Le \<Rightarrow> ''audio.wav''
      | Mp3 \<Rightarrow> ''audio.mp3''
      | Flac \<Rightarrow> ''audio.flac''
      | Wav \<Rightarrow> ''audio.wav''
      | _ \<Rightarrow> ''audio.bin'')"

section \<open>HTTP exchanges\<close>

text \<open>Sending failed, the status is not a success (status text and body), or the body as decoded.\<close>

datatype 'a http_reply = SendFailed string | BadStatus string string | Replied "string + 'a"

text \<open>\<^verbatim>\<open>trim_end_matches('/')\<close>.\<close>

definition trim_end_slashes :: "string \<Rightarrow> string" where
  "trim_end_slashes s = rev (dropWhile (\<lambda>c. c = CHR ''/'') (rev s))"

section \<open>Provider options and forms\<close>

definition filter_reserved_provider_options :: "json \<Rightarrow> string list \<Rightarrow> json" where
  "filter_reserved_provider_options options reserved =
     (case json_as_object options of
        None \<Rightarrow> JNull
      | Some kvs \<Rightarrow>
          (let kept = filter (\<lambda>(k, v). \<not> list_ex (\<lambda>r. r = k) reserved) kvs
           in if kept = [] then JNull else JObject kept))"

text \<open>\<open>render\<close> is \<^verbatim>\<open>to_string\<close> of an array or an object.\<close>

fun provider_option_to_form_value :: "(json \<Rightarrow> string) \<Rightarrow> json \<Rightarrow> string" where
  "provider_option_to_form_value render JNull = ''null''"
| "provider_option_to_form_value render (JBool b) = (if b then ''true'' else ''false'')"
| "provider_option_to_form_value render (JNumber n) = n"
| "provider_option_to_form_value render (JString s) = s"
| "provider_option_to_form_value render other = render other"

definition crlf :: string where
  "crlf = [CHR 0x0D, CHR 0x0A]"

definition quoted :: "string \<Rightarrow> string" where
  "quoted s = CHR 0x22 # s @ [CHR 0x22]"

definition form_field :: "string \<Rightarrow> string \<times> string \<Rightarrow> string" where
  "form_field boundary p =
     ''--'' @ boundary @ crlf @
     ''Content-Disposition: form-data; name='' @ quoted (fst p) @ crlf @ crlf @ snd p @ crlf"

definition build_multipart_form_body ::
  "string \<Rightarrow> (string \<times> string) list \<Rightarrow> string \<Rightarrow> string \<Rightarrow> bytes \<Rightarrow> bytes" where
  "build_multipart_form_body boundary parts filename mime file =
     concat (map (\<lambda>p. as_bytes (form_field boundary p)) parts) @
     as_bytes (''--'' @ boundary @ crlf @
       ''Content-Disposition: form-data; name='' @ quoted ''file'' @ ''; filename='' @ quoted filename @ crlf @
       ''Content-Type: '' @ mime @ crlf @ crlf) @
     file @ as_bytes (crlf @ ''--'' @ boundary @ ''--'' @ crlf)"

section \<open>Output formats\<close>

text \<open>The error shows the encoding as \<^verbatim>\<open>{other:?}\<close> does.\<close>

fun audio_encoding_debug :: "audio_encoding \<Rightarrow> string" where
  "audio_encoding_debug PcmS16Le = ''PcmS16Le''"
| "audio_encoding_debug PcmF32Le = ''PcmF32Le''"
| "audio_encoding_debug Opus = ''Opus''"
| "audio_encoding_debug Mp3 = ''Mp3''"
| "audio_encoding_debug Aac = ''Aac''"
| "audio_encoding_debug Flac = ''Flac''"
| "audio_encoding_debug Wav = ''Wav''"

definition normalize_output_format_name :: "audio_encoding option \<Rightarrow> string \<Rightarrow> bridge_error + string" where
  "normalize_output_format_name encoding fallback =
     map_sum id (\<lambda>r. to_ascii_lowercase (trim r))
       (case encoding of
          Some Wav \<Rightarrow> Ok ''wav''
        | Some Mp3 \<Rightarrow> Ok ''mp3''
        | Some Flac \<Rightarrow> Ok ''flac''
        | Some other \<Rightarrow>
            Err (Unavailable (''unsupported TTS output encoding for upstream provider: ''
                              @ audio_encoding_debug other))
        | None \<Rightarrow> Ok fallback)"

definition audio_encoding_from_name :: "string \<Rightarrow> bridge_error + audio_encoding" where
  "audio_encoding_from_name name =
     (let n = to_ascii_lowercase (trim name)
      in if n = ''wav'' then Ok Wav
         else if n = ''mp3'' then Ok Mp3
         else if n = ''flac'' then Ok Flac
         else Err (Unavailable (''unsupported audio format requested from upstream provider: '' @ n)))"

section \<open>Audio events\<close>

definition event_channel_closed :: bridge_error where
  "event_channel_closed = Disconnected ''bridge event channel closed''"

definition chunk_event :: "audio_format option \<Rightarrow> nat \<Rightarrow> nat \<times> bytes \<Rightarrow> bridge_tts_event" where
  "chunk_event fmt count p =
     TtsAudioEv \<lparr>ac_bytes = snd p, ac_sequence = word_of_nat (fst p + 1),
                 ac_is_final = (fst p + 1 = count),
                 ac_format = (if fst p = 0 then fmt else None)\<rparr>"

fun send_tts_events :: "nat \<Rightarrow> bridge_tts_event list \<Rightarrow> bridge_tts_event net
    \<Rightarrow> (bridge_error + unit) \<times> bridge_tts_event net" where
  "send_tts_events tx [] n = (Ok (), n)"
| "send_tts_events tx (e # es) n =
     (case net_send tx e n of
        None \<Rightarrow> (Err event_channel_closed, n)
      | Some n' \<Rightarrow> send_tts_events tx es n')"

definition emit_audio_chunks ::
  "nat \<Rightarrow> bytes \<Rightarrow> audio_format option \<Rightarrow> nat \<Rightarrow> bridge_tts_event net
     \<Rightarrow> (bridge_error + unit) \<times> bridge_tts_event net" where
  "emit_audio_chunks tx audio fmt chunk_size n =
     (if audio = [] then (Err (ProtocolError ''provider returned empty audio''), n)
      else
        (let count = max 1 ((length audio + chunk_size - 1) div chunk_size)
         in send_tts_events tx (map (chunk_event fmt count) (enumerate 0 (chunks chunk_size audio))) n))"

section \<open>Hex and base64 payloads\<close>

definition is_ascii_hexdigit :: "char \<Rightarrow> bool" where
  "is_ascii_hexdigit c =
     (let n = (of_char c :: nat)
      in (48 \<le> n \<and> n \<le> 57) \<or> (65 \<le> n \<and> n \<le> 70) \<or> (97 \<le> n \<and> n \<le> 102))"

definition hex_value :: "char \<Rightarrow> nat option" where
  "hex_value c =
     (let n = (of_char c :: nat)
      in if 48 \<le> n \<and> n \<le> 57 then Some (n - 48)
         else if 65 \<le> n \<and> n \<le> 70 then Some (n - 55)
         else if 97 \<le> n \<and> n \<le> 102 then Some (n - 87)
         else None)"

text \<open>\<^verbatim>\<open>std::str::from_utf8\<close> of two bytes: its error text, if it fails.\<close>

definition utf8_lead :: "nat \<Rightarrow> bool" where
  "utf8_lead n \<longleftrightarrow> 0xC2 \<le> n \<and> n \<le> 0xF4"

definition utf8_second_ok :: "nat \<Rightarrow> nat \<Rightarrow> bool" where
  "utf8_second_ok a b \<longleftrightarrow>
     (if a = 0xE0 then 0xA0 \<le> b else if a = 0xF0 then 0x90 \<le> b else 0x80 \<le> b) \<and>
     (if a = 0xED then b \<le> 0x9F else if a = 0xF4 then b \<le> 0x8F else b \<le> 0xBF)"

definition utf8_pair_error :: "char \<Rightarrow> char \<Rightarrow> string option" where
  "utf8_pair_error c d =
     (let a = (of_char c :: nat); b = (of_char d :: nat)
      in if a < 0x80 then
           (if b < 0x80 then None
            else if utf8_lead b then Some ''incomplete utf-8 byte sequence from index 1''
            else Some ''invalid utf-8 sequence of 1 bytes from index 1'')
         else if \<not> utf8_lead a \<or> \<not> utf8_second_ok a b
           then Some ''invalid utf-8 sequence of 1 bytes from index 0''
         else if a < 0xE0 then None
         else Some ''incomplete utf-8 byte sequence from index 0'')"

text \<open>\<^verbatim>\<open>u8::from_str_radix(pair, 16)\<close>: an optional plus sign, then hex digits.\<close>

definition hex_pair :: "char \<Rightarrow> char \<Rightarrow> string + u8" where
  "hex_pair c d =
     (case utf8_pair_error c d of
        Some e \<Rightarrow> Err e
      | None \<Rightarrow>
          (case (if c = CHR ''+'' then Some 0 else hex_value c, hex_value d) of
             (Some h, Some l) \<Rightarrow> Ok (word_of_nat (16 * h + l))
           | _ \<Rightarrow> Err ''invalid digit found in string''))"

function drop_whitespace :: "string \<Rightarrow> string" where
  "drop_whitespace s =
     (case s of
        [] \<Rightarrow> []
      | c # cs \<Rightarrow>
          (case strip_any whitespace_encodings s of
             Some r \<Rightarrow> drop_whitespace r
           | None \<Rightarrow> c # drop_whitespace cs))"
  by pat_completeness auto
termination
  by (relation "measure length") auto

declare drop_whitespace.simps [simp del]

fun hex_pairs :: "string \<Rightarrow> string + bytes" where
  "hex_pairs (c # d # cs) =
     (case hex_pair c d of
        Inl e \<Rightarrow> Err e
      | Inr b \<Rightarrow> map_sum id (Cons b) (hex_pairs cs))"
| "hex_pairs _ = Ok []"

definition decode_hex :: "string \<Rightarrow> string + bytes" where
  "decode_hex value =
     (let compact = drop_whitespace value
      in if length compact mod 2 \<noteq> 0 then Err ''hex input has an odd number of digits''
         else hex_pairs compact)"

text \<open>\<open>b64d\<close> is the standard decoder of the \<^verbatim>\<open>base64\<close> crate.\<close>

definition decode_minimax_audio :: "(string \<Rightarrow> string + bytes) \<Rightarrow> string \<Rightarrow> bridge_error + bytes" where
  "decode_minimax_audio b64d encoded =
     (let trimmed = trim encoded;
          as_hex = map_sum (\<lambda>e. ProtocolError (''failed to decode MiniMax audio payload: '' @ e)) id
                     (decode_hex trimmed)
      in if trimmed = [] then Err (ProtocolError ''MiniMax TTS returned an empty audio payload'')
         else if length trimmed mod 2 = 0 \<and> list_all is_ascii_hexdigit trimmed then as_hex
         else (case b64d trimmed of
                 Inr bytes \<Rightarrow> Ok bytes
               | Inl _ \<Rightarrow> as_hex))"

section \<open>Lemmas\<close>

lemma send_tts_events_open:
  "tx \<notin> net_closed n \<Longrightarrow>
     fst (send_tts_events tx es n) = Ok () \<and>
     sent_on tx (snd (send_tts_events tx es n)) = sent_on tx n @ es \<and>
     net_closed (snd (send_tts_events tx es n)) = net_closed n"
proof (induction es arbitrary: n)
  case Nil
  then show ?case by simp
next
  case (Cons e es)
  obtain n1 where n1: "net_send tx e n = Some n1" using net.push_open [OF Cons.prems] by blast
  have closed: "net_closed n1 = net_closed n" using net_send_Some [OF n1] by simp
  with Cons.prems have "tx \<notin> net_closed n1" by simp
  note ih = Cons.IH [OF this]
  have "send_tts_events tx (e # es) n = send_tts_events tx es n1" by (simp add: n1)
  then show ?case using ih net.push_contents [OF n1] closed by simp
qed

text \<open>A failure leaves what has been sent: a prefix of the events.\<close>

lemma send_tts_events_prefix:
  "send_tts_events tx es n = (r, n') \<Longrightarrow> \<exists>sent. prefix sent es \<and> sent_on tx n' = sent_on tx n @ sent"
proof (induction es arbitrary: n)
  case Nil
  then show ?case by simp
next
  case (Cons e es)
  show ?case
  proof (cases "net_send tx e n")
    case None
    with Cons.prems have "n' = n" by (auto simp del: net_send_None)
    then show ?thesis by (intro exI [of _ "[]"]) simp
  next
    case (Some n1)
    with Cons obtain sent where "prefix sent es" "sent_on tx n' = sent_on tx n1 @ sent" by auto
    with net.push_contents [OF Some] show ?thesis
      by (intro exI [of _ "e # sent"]) simp
  qed
qed

lemma checked_mul_Some: "checked_mul a b = Some c \<longleftrightarrow> c = a * b \<and> unat a * unat b < 2 ^ LENGTH('a)"
  for a b :: "'a::len word"
  by (auto simp: checked_mul_def)

lemma checked_mul_unat: "checked_mul a b = Some c \<Longrightarrow> unat c = unat a * unat b"
  for a b :: "'a::len word"
  by (simp add: checked_mul_Some unat_mult_lem [symmetric])

lemma checked_add_unat: "checked_add a b = Some c \<Longrightarrow> unat c = unat a + unat b"
  for a b :: "'a::len word"
  by (auto simp: checked_add_def unat_add_lem [symmetric] split: if_splits)

section \<open>Properties\<close>

text \<open>A reader of the canonical 44-byte WAV header, the specification of the encoder.\<close>

definition wav_field :: "nat \<Rightarrow> nat \<Rightarrow> bytes \<Rightarrow> nat" where
  "wav_field off len w = of_le_bytes (take len (drop off w))"

definition wav_tag :: "nat \<Rightarrow> string \<Rightarrow> bytes \<Rightarrow> bool" where
  "wav_tag off tag w \<longleftrightarrow> take 4 (drop off w) = as_bytes tag"

record wav_view =
  wv_format :: nat
  wv_channels :: nat
  wv_rate :: nat
  wv_byte_rate :: nat
  wv_block_align :: nat
  wv_bits :: nat
  wv_data :: bytes

definition parse_wav :: "bytes \<Rightarrow> wav_view option" where
  "parse_wav w =
     (if wav_tag 0 ''RIFF'' w \<and> wav_tag 8 ''WAVE'' w \<and> wav_tag 12 ''fmt '' w \<and> wav_tag 36 ''data'' w \<and>
         wav_field 4 4 w = length w - 8 \<and> wav_field 16 4 w = 16 \<and> wav_field 40 4 w = length w - 44
      then Some \<lparr>wv_format = wav_field 20 2 w, wv_channels = wav_field 22 2 w, wv_rate = wav_field 24 4 w,
                 wv_byte_rate = wav_field 28 4 w, wv_block_align = wav_field 32 2 w,
                 wv_bits = wav_field 34 2 w, wv_data = drop 44 w\<rparr>
      else None)"

lemma of_le_word: "LENGTH('a) \<le> 8 * n \<Longrightarrow> of_le_bytes (le_bytes n w) = unat w"
  for w :: "'a::len word"
proof -
  assume "LENGTH('a) \<le> 8 * n"
  then have "(2::nat) ^ LENGTH('a) \<le> 2 ^ (8 * n)" by (rule power_increasing) simp
  moreover have "unat w < 2 ^ LENGTH('a)" by (rule unsigned_less)
  ultimately have "unat w < 2 ^ (8 * n)" by (rule less_le_trans [rotated])
  then show ?thesis by (simp add: of_le_bytes_le_bytes)
qed

lemma encode_wav_parts:
  assumes "encode_pcm_s16le_wav pcm rate channels = Ok w"
  obtains byte_rate block_align riff where
    "unat byte_rate = unat rate * unat channels * 2" "unat block_align = unat channels * 2"
    "unat riff = length pcm + 36" "length pcm \<le> 2 ^ 32 - 45"
    "w = as_bytes ''RIFF'' @ le_bytes 4 (riff :: u32) @ as_bytes ''WAVE'' @
         as_bytes ''fmt '' @ le_bytes 4 (16 :: u32) @ le_bytes 2 (1 :: u16) @
         le_bytes 2 channels @ le_bytes 4 rate @ le_bytes 4 (byte_rate :: u32) @
         le_bytes 2 (block_align :: u16) @ le_bytes 2 (16 :: u16) @
         as_bytes ''data'' @ le_bytes 4 (word_of_nat (length pcm) :: u32) @ pcm"
proof -
  from assms obtain v byte_rate block_align riff where
    r: "checked_mul rate (ucast channels) = Some v" "checked_mul v 2 = Some byte_rate"
      "checked_mul channels 2 = Some block_align"
      "checked_add 36 (word_of_nat (length pcm) :: u32) = Some riff"
    and len: "length pcm \<le> 2 ^ 32 - 45"
    and w: "w = as_bytes ''RIFF'' @ le_bytes 4 (riff :: u32) @ as_bytes ''WAVE'' @
         as_bytes ''fmt '' @ le_bytes 4 (16 :: u32) @ le_bytes 2 (1 :: u16) @
         le_bytes 2 channels @ le_bytes 4 rate @ le_bytes 4 (byte_rate :: u32) @
         le_bytes 2 (block_align :: u16) @ le_bytes 2 (16 :: u16) @
         as_bytes ''data'' @ le_bytes 4 (word_of_nat (length pcm) :: u32) @ pcm"
    by (auto simp: encode_pcm_s16le_wav_def Let_def Option.bind_eq_Some_conv split: if_splits option.splits)
  have "unat (ucast channels :: u32) = unat channels"
    by (simp add: unsigned_ucast_eq take_bit_nat_eq_self less_le_trans [OF unsigned_less])
  then have "unat byte_rate = unat rate * unat channels * 2"
    using checked_mul_unat [OF r(1)] checked_mul_unat [OF r(2)] by simp
  moreover have "unat block_align = unat channels * 2"
    using checked_mul_unat [OF r(3)] by simp
  moreover have "unat riff = length pcm + 36"
    using checked_add_unat [OF r(4)] len by (simp add: unat_of_nat)
  ultimately show ?thesis using that len w by blast
qed

text \<open>C18: WAV wrapping round-trips: whenever the encoder succeeds, a reader of the canonical header
  finds a well-formed PCM file of 44 bytes more than the payload with the given channels and rate,
  the matching byte rate and block align, 16 bits a sample, and exactly the payload as its data.\<close>

theorem wav_roundtrip:
  assumes "encode_pcm_s16le_wav pcm rate channels = Ok w"
  shows "parse_wav w =
           Some \<lparr>wv_format = 1, wv_channels = unat channels, wv_rate = unat rate,
                 wv_byte_rate = unat rate * unat channels * 2, wv_block_align = unat channels * 2,
                 wv_bits = 16, wv_data = pcm\<rparr> \<and> length w = 44 + length pcm"
proof -
  from encode_wav_parts [OF assms] obtain byte_rate block_align riff where
    vals: "unat byte_rate = unat rate * unat channels * 2" "unat block_align = unat channels * 2"
      "unat riff = length pcm + 36" "length pcm \<le> 2 ^ 32 - 45"
    and w: "w = as_bytes ''RIFF'' @ le_bytes 4 (riff :: u32) @ as_bytes ''WAVE'' @
         as_bytes ''fmt '' @ le_bytes 4 (16 :: u32) @ le_bytes 2 (1 :: u16) @
         le_bytes 2 channels @ le_bytes 4 rate @ le_bytes 4 (byte_rate :: u32) @
         le_bytes 2 (block_align :: u16) @ le_bytes 2 (16 :: u16) @
         as_bytes ''data'' @ le_bytes 4 (word_of_nat (length pcm) :: u32) @ pcm" .
  have len: "length w = 44 + length pcm" by (simp add: w)
  have size: "of_le_bytes (le_bytes 4 (word_of_nat (length pcm) :: u32)) = length pcm"
    using vals(4) by (simp add: of_le_word unat_of_nat)
  have tags: "wav_tag 0 ''RIFF'' w" "wav_tag 8 ''WAVE'' w" "wav_tag 12 ''fmt '' w" "wav_tag 36 ''data'' w"
    by (simp_all add: wav_tag_def w)
  have nums: "wav_field 4 4 w = length w - 8" "wav_field 16 4 w = 16" "wav_field 40 4 w = length w - 44"
    "wav_field 20 2 w = 1" "wav_field 22 2 w = unat channels" "wav_field 24 4 w = unat rate"
    "wav_field 28 4 w = unat rate * unat channels * 2" "wav_field 32 2 w = unat channels * 2"
    "wav_field 34 2 w = 16"
    using size by (simp_all add: wav_field_def w of_le_word vals)
  have "drop 44 w = pcm" by (simp add: w)
  with tags nums len show ?thesis by (simp add: parse_wav_def)
qed

theorem wav_roundtrip_witness:
  "\<exists>w. encode_pcm_s16le_wav [1, 2, 3, 4] 16000 1 = Ok w \<and> map_option wv_data (parse_wav w) = Some [1, 2, 3, 4]"
proof -
  have "\<exists>w. encode_pcm_s16le_wav [1, 2, 3, 4] 16000 1 = Ok w"
    by (simp add: encode_pcm_s16le_wav_def checked_mul_def checked_add_def Let_def)
  then obtain w where w: "encode_pcm_s16le_wav [1, 2, 3, 4] 16000 1 = Ok w" by blast
  show ?thesis using wav_roundtrip [OF w] w by auto
qed

text \<open>C19: The WAV encoder fails exactly when a field of the header would overflow: the payload
  with its header does not fit 32 bits, the byte rate does not, or the block align does not fit 16 bits.\<close>

theorem wav_encodes_iff:
  "(\<exists>w. encode_pcm_s16le_wav pcm rate channels = Ok w) \<longleftrightarrow>
     length pcm + 44 < 2 ^ 32 \<and> unat rate * unat channels * 2 < 2 ^ 32 \<and> unat channels * 2 < 2 ^ 16"
proof -
  have ch: "unat (ucast channels :: u32) = unat channels"
    by (simp add: unsigned_ucast_eq take_bit_nat_eq_self less_le_trans [OF unsigned_less])
  have bind: "(\<exists>b. Option.bind (checked_mul rate (ucast channels)) (\<lambda>v. checked_mul v 2) = Some b) \<longleftrightarrow>
          unat rate * unat channels * 2 < 2 ^ 32"
  proof
    assume "\<exists>b. Option.bind (checked_mul rate (ucast channels)) (\<lambda>v. checked_mul v 2) = Some b"
    then obtain v b where v: "checked_mul rate (ucast channels) = Some v" "checked_mul v 2 = Some b"
      by (auto simp: Option.bind_eq_Some_conv)
    from checked_mul_unat [OF v(1)] v(2) show "unat rate * unat channels * 2 < 2 ^ 32"
      by (simp add: checked_mul_Some ch)
  next
    assume less: "unat rate * unat channels * 2 < 2 ^ 32"
    then have v: "checked_mul rate (ucast channels) = Some (rate * ucast channels)"
      by (simp add: checked_mul_Some ch)
    from checked_mul_unat [OF v] less show "\<exists>b. Option.bind (checked_mul rate (ucast channels)) (\<lambda>v. checked_mul v 2) = Some b"
      by (simp add: v checked_mul_Some ch)
  qed
  have riff: "checked_add 36 (word_of_nat (length pcm) :: u32) \<noteq> None" if "length pcm + 44 < 2 ^ 32"
    using that by (simp add: checked_add_def unat_of_nat)
  have align: "(\<exists>b. checked_mul channels 2 = Some b) \<longleftrightarrow> unat channels * 2 < 2 ^ 16"
    by (simp add: checked_mul_Some)
  show ?thesis
  proof (cases "length pcm + 44 < 2 ^ 32")
    case False
    then show ?thesis by (simp add: encode_pcm_s16le_wav_def)
  next
    case True
    with riff [OF True] have "(\<exists>w. encode_pcm_s16le_wav pcm rate channels = Ok w) \<longleftrightarrow>
        (\<exists>b. Option.bind (checked_mul rate (ucast channels)) (\<lambda>v. checked_mul v 2) = Some b) \<and>
        (\<exists>b. checked_mul channels 2 = Some b)"
      by (auto simp: encode_pcm_s16le_wav_def Let_def split: option.splits)
    with bind align True show ?thesis by blast
  qed
qed

lemma emit_audio_chunks_sent:
  assumes "0 < chunk_size" and "audio \<noteq> []" and "tx \<notin> net_closed n"
  shows "\<exists>cs. fst (emit_audio_chunks tx audio fmt chunk_size n) = Ok () \<and>
              sent_on tx (snd (emit_audio_chunks tx audio fmt chunk_size n)) = sent_on tx n @ map TtsAudioEv cs \<and>
              concat (map ac_bytes cs) = audio \<and>
              length cs = (length audio + chunk_size - 1) div chunk_size \<and>
              (\<forall>i < length cs.
                 ac_bytes (cs ! i) \<noteq> [] \<and> length (ac_bytes (cs ! i)) \<le> chunk_size \<and>
                 ac_sequence (cs ! i) = word_of_nat (i + 1) \<and>
                 ac_is_final (cs ! i) = (i + 1 = length cs) \<and>
                 ac_format (cs ! i) = (if i = 0 then fmt else None))"
proof -
  let ?parts = "chunks chunk_size audio"
  let ?count = "(length audio + chunk_size - 1) div chunk_size"
  let ?chunk = "\<lambda>p. \<lparr>ac_bytes = snd p, ac_sequence = word_of_nat (fst p + 1), ac_is_final = (fst p + 1 = ?count),
                     ac_format = (if fst p = 0 then fmt else None)\<rparr>"
  let ?cs = "map ?chunk (enumerate 0 ?parts)"
  have len: "length ?parts = ?count" by (rule length_chunks [OF assms(1)])
  then have "0 < ?count" using assms(1,2) by (metis chunks_eq_Nil length_greater_0_conv)
  then have "max 1 ?count = ?count" by simp
  then have emit: "emit_audio_chunks tx audio fmt chunk_size n = send_tts_events tx (map TtsAudioEv ?cs) n"
    using assms(2) by (simp add: emit_audio_chunks_def Let_def comp_def chunk_event_def [abs_def])
  have nth: "?cs ! i = ?chunk (i, ?parts ! i)" if "i < length ?cs" for i
    using that by (simp add: nth_enumerate_eq)
  have part: "?parts ! i \<in> set ?parts" if "i < length ?cs" for i using that by simp
  show ?thesis
  proof (intro exI [of _ ?cs] conjI allI impI)
    show "fst (emit_audio_chunks tx audio fmt chunk_size n) = Ok ()"
      "sent_on tx (snd (emit_audio_chunks tx audio fmt chunk_size n)) = sent_on tx n @ map TtsAudioEv ?cs"
      unfolding emit using send_tts_events_open [OF assms(3)] by blast+
    show "concat (map ac_bytes ?cs) = audio"
      using concat_chunks [OF assms(1), of audio] by (simp add: comp_def)
    show "length ?cs = ?count" using len by simp
  next
    fix i assume i: "i < length ?cs"
    have bytes: "ac_bytes (?cs ! i) = ?parts ! i"
      by (simp only: nth [OF i] audio_chunk.select_convs snd_conv)
    show "ac_bytes (?cs ! i) \<noteq> []" "length (ac_bytes (?cs ! i)) \<le> chunk_size"
      unfolding bytes using chunks_nonempty [OF part [OF i]] by blast+
    show "ac_sequence (?cs ! i) = word_of_nat (i + 1)"
      "ac_is_final (?cs ! i) = (i + 1 = length ?cs)"
      "ac_format (?cs ! i) = (if i = 0 then fmt else None)"
      using len by (simp_all only: nth [OF i] audio_chunk.select_convs fst_conv length_map length_enumerate)
  qed
qed

text \<open>C20: Chunked audio is complete and well numbered: on an open channel a non-empty payload is sent as
  the least number of chunks of at most the given size whose concatenation is the payload; they are
  numbered from one, exactly the last is final, and only the first carries the format.\<close>

theorem emit_audio_chunks_complete:
  assumes "0 < chunk_size" and "audio \<noteq> []" and "tx \<notin> net_closed n"
  shows "\<exists>cs. fst (emit_audio_chunks tx audio fmt chunk_size n) = Ok () \<and>
              sent_on tx (snd (emit_audio_chunks tx audio fmt chunk_size n)) = sent_on tx n @ map TtsAudioEv cs \<and>
              concat (map ac_bytes cs) = audio \<and>
              length cs = (length audio + chunk_size - 1) div chunk_size \<and>
              (\<forall>i < length cs.
                 ac_bytes (cs ! i) \<noteq> [] \<and> length (ac_bytes (cs ! i)) \<le> chunk_size \<and>
                 ac_sequence (cs ! i) = word_of_nat (i + 1) \<and>
                 ac_is_final (cs ! i) = (i + 1 = length cs) \<and>
                 ac_format (cs ! i) = (if i = 0 then fmt else None))"
  by (rule emit_audio_chunks_sent [OF assms])

theorem emit_audio_chunks_complete_witness:
  "\<exists>cs :: audio_chunk list. concat (map ac_bytes cs) = [1, 2, 3, 4, 5] \<and> length cs = 3 \<and> ac_is_final (cs ! 2)"
proof -
  have "0 < (2 :: nat)" "[1, 2, 3, 4, 5 :: u8] \<noteq> []"
    "0 \<notin> net_closed (\<lparr>net_closed = {}, net_log = []\<rparr> :: bridge_tts_event net)" by simp_all
  from emit_audio_chunks_complete [OF this, of None] obtain cs :: "audio_chunk list" where
    "concat (map ac_bytes cs) = [1, 2, 3, 4, 5]" and len: "length cs = (length [1, 2, 3, 4, 5 :: u8] + 2 - 1) div 2"
    and final: "\<And>i. i < length cs \<Longrightarrow> ac_is_final (cs ! i) = (i + 1 = length cs)"
    by blast
  moreover have "length cs = 3" using len by simp
  ultimately show ?thesis using final [of 2] by auto
qed

text \<open>Lower-case hexadecimal, the inverse of the decoder.\<close>

definition hex_digit :: "nat \<Rightarrow> char" where
  "hex_digit n = (if n < 10 then char_of (48 + n) else char_of (87 + n))"

definition encode_hex :: "bytes \<Rightarrow> string" where
  "encode_hex bs = concat (map (\<lambda>b. [hex_digit (unat b div 16), hex_digit (unat b mod 16)]) bs)"

lemma hex_digit_facts:
  assumes "n < 16"
  shows "hex_value (hex_digit n) = Some n" "is_ascii_hexdigit (hex_digit n)" "is_graphic (hex_digit n)"
    "hex_digit n \<noteq> CHR ''+''" "of_char (hex_digit n) < (0x80 :: nat)"
proof -
  have oc: "(of_char (hex_digit n) :: nat) = (if n < 10 then 48 + n else 87 + n)"
    using assms by (simp add: hex_digit_def)
  show "hex_value (hex_digit n) = Some n" "is_ascii_hexdigit (hex_digit n)" "is_graphic (hex_digit n)"
    "of_char (hex_digit n) < (0x80 :: nat)"
    using assms by (auto simp: hex_value_def is_ascii_hexdigit_def is_graphic_def oc Let_def)
  show "hex_digit n \<noteq> CHR ''+''"
  proof
    assume "hex_digit n = CHR ''+''"
    with oc have "(of_char (CHR ''+'') :: nat) = (if n < 10 then 48 + n else 87 + n)" by simp
    then show False by (simp split: if_splits)
  qed
qed

lemma hex_pair_digits:
  assumes "m < 16" "n < 16"
  shows "hex_pair (hex_digit m) (hex_digit n) = Ok (word_of_nat (16 * m + n))"
  using hex_digit_facts [OF assms(1)] hex_digit_facts [OF assms(2)]
  by (simp add: hex_pair_def utf8_pair_error_def Let_def)

lemma hex_nibbles: "unat b div 16 < 16" "unat b mod 16 < 16" for b :: u8
  using unsigned_less [of b] by (simp_all add: div_less_iff_less_mult)

lemma hex_pairs_encode: "hex_pairs (encode_hex bs) = Ok bs"
proof (induction bs)
  case Nil
  then show ?case by (simp add: encode_hex_def)
next
  case (Cons b bs)
  have "word_of_nat (16 * (unat b div 16) + unat b mod 16) = b" by (simp add: mult_div_mod_eq)
  with Cons show ?case
    by (simp add: encode_hex_def hex_pair_digits [OF hex_nibbles])
qed

lemma encode_hex_text:
  "list_all is_ascii_hexdigit (encode_hex bs)" "list_all is_graphic (encode_hex bs)"
  "length (encode_hex bs) = 2 * length bs"
  by (induction bs) (simp_all add: encode_hex_def hex_digit_facts hex_nibbles)

lemma drop_whitespace_graphic: "list_all is_graphic s \<Longrightarrow> drop_whitespace s = s"
proof (induction s)
  case Nil
  then show ?case by (simp add: drop_whitespace.simps)
next
  case (Cons c cs)
  then show ?case by (subst drop_whitespace.simps) (simp add: strip_any_graphic)
qed

text \<open>A hexadecimal payload always decodes to its bytes, whatever a base64 decoder would make of
  the same text: even-length text of hex digits is taken for hex, so a base64 payload that happens to
  consist of hex digits only is never decoded as base64.\<close>

lemma minimax_hex_payload:
  "decode_minimax_audio b64d (encode_hex (b # bs)) = Ok (b # bs)"
proof -
  let ?s = "encode_hex (b # bs)"
  have "?s \<noteq> []" using encode_hex_text(3) [of "b # bs"] by (auto simp del: encode_hex_text(3))
  then show ?thesis
    using encode_hex_text [of "b # bs"] hex_pairs_encode [of "b # bs"]
    by (simp add: decode_minimax_audio_def trim_graphic decode_hex_def drop_whitespace_graphic Let_def)
qed

end
