(* ===== verification/Composite.thy ===== *)
theory Composite
  imports BridgeCommon
begin

text \<open>
  The composite bridges, \<^verbatim>\<open>bridges/src/asr/composite.rs\<close> and \<^verbatim>\<open>bridges/src/tts/composite.rs\<close>:
  provider bindings without duplicate ids, and the choice of a binding for a request, by
  id or by capabilities. A bridge is a value of any type \<open>'b\<close>; what it advertises, its voices
  and its way to start a session are arguments.
\<close>

section \<open>The contract of an automatic choice\<close>

text \<open>
  What the gateway relies on when the client names no provider: the chosen binding is one of the
  installed ones, is eligible and has the best score, the last one wins a tie, and
  there is a choice as soon as something is eligible.
\<close>

locale automatic_choice =
  fixes eligible :: "'a \<Rightarrow> bool"
    and score :: "'a \<Rightarrow> nat"
    and pick :: "'a list \<Rightarrow> 'a option"
  assumes pick_last: "pick bs = Some b \<Longrightarrow>
      \<exists>us vs. bs = us @ b # vs \<and> eligible b \<and>
        (\<forall>c \<in> set us. eligible c \<longrightarrow> score c \<le> score b) \<and> (\<forall>c \<in> set vs. eligible c \<longrightarrow> score c < score b)"
    and pick_any: "b \<in> set bs \<Longrightarrow> eligible b \<Longrightarrow> pick bs \<noteq> None"

context automatic_choice begin

lemma pick_member: "pick bs = Some b \<Longrightarrow> b \<in> set bs \<and> eligible b"
  using pick_last by fastforce

lemma pick_best: "pick bs = Some b \<Longrightarrow> c \<in> set bs \<Longrightarrow> eligible c \<Longrightarrow> score c \<le> score b"
  using pick_last by (fastforce dest: less_imp_le)

lemma pick_None_iff: "pick bs = None \<longleftrightarrow> (\<forall>b \<in> set bs. \<not> eligible b)"
proof
  assume none: "pick bs = None"
  show "\<forall>b \<in> set bs. \<not> eligible b" using pick_any none by blast
next
  assume "\<forall>b \<in> set bs. \<not> eligible b"
  then show "pick bs = None" using pick_member by (cases "pick bs") auto
qed

lemma pick_outcome:
  "case pick bs of
     Some b \<Rightarrow> b \<in> set bs \<and> eligible b \<and> (\<forall>c \<in> set bs. eligible c \<longrightarrow> score c \<le> score b)
   | None \<Rightarrow> (\<forall>b \<in> set bs. \<not> eligible b)"
  using pick_member pick_best pick_None_iff [of bs] by (cases "pick bs") auto

text \<open>Installing another binding never makes the choice worse.\<close>

lemma pick_monotone:
  assumes "pick bs = Some b" and "pick (us @ bs @ vs) = Some c"
  shows "score b \<le> score c"
  using pick_best [OF assms(2), of b] pick_member [OF assms(1)] by simp

end

lemma filter_split:
  "filter P bs = us @ b # vs \<Longrightarrow> \<exists>ps ts. bs = ps @ b # ts \<and> filter P ps = us \<and> filter P ts = vs"
proof (induction bs arbitrary: us)
  case Nil
  then show ?case by simp
next
  case (Cons c bs)
  show ?case
  proof (cases "P c \<and> us = []")
    case True
    with Cons.prems have "c # bs = [] @ b # bs \<and> filter P [] = us \<and> filter P bs = vs" by simp
    then show ?thesis by blast
  next
    case False
    with Cons.prems have "filter P bs = (if P c then tl us else us) @ b # vs"
      by (cases us) (auto split: if_splits)
    from Cons.IH [OF this] obtain ps ts where
      *: "bs = ps @ b # ts" "filter P ps = (if P c then tl us else us)" "filter P ts = vs" by blast
    have "filter P (c # ps) = us"
      using * False Cons.prems by (cases us) (auto split: if_splits)
    with * have "c # bs = (c # ps) @ b # ts \<and> filter P (c # ps) = us \<and> filter P ts = vs" by simp
    then show ?thesis by blast
  qed
qed

lemma max_by_key_choice:
  assumes "max_by_key f (filter P bs) = Some b"
  shows "\<exists>us vs. bs = us @ b # vs \<and> P b \<and>
           (\<forall>c \<in> set us. P c \<longrightarrow> f c \<le> f b) \<and> (\<forall>c \<in> set vs. P c \<longrightarrow> f c < f b)"
proof -
  from max_by_key_last [OF assms] obtain us vs where
    f: "filter P bs = us @ b # vs" "\<forall>x \<in> set us. f x \<le> f b" "\<forall>x \<in> set vs. f x < f b" by blast
  from filter_split [OF f(1)] obtain ps ts where
    bs: "bs = ps @ b # ts" "filter P ps = us" "filter P ts = vs" by blast
  have "P b" using max_by_key_Some(1) [OF assms] by simp
  moreover have "\<forall>c \<in> set ps. P c \<longrightarrow> f c \<le> f b" using f(2) bs(2) by auto
  moreover have "\<forall>c \<in> set ts. P c \<longrightarrow> f c < f b" using f(3) bs(3) by auto
  ultimately show ?thesis using bs(1) by blast
qed

section \<open>Bindings\<close>

record 'b binding =
  bd_descriptor :: provider_descriptor
  bd_bridge :: 'b

text \<open>\<open>label\<close> is "ASR" or "TTS"; the two constructors differ in nothing else.\<close>

fun bind_descriptors ::
  "string \<Rightarrow> 'b \<Rightarrow> provider_descriptor list \<Rightarrow> string set \<Rightarrow> 'b binding list
     \<Rightarrow> bridge_error + (string set \<times> 'b binding list)" where
  "bind_descriptors label b [] seen bs = Ok (seen, bs)"
| "bind_descriptors label b (d # ds) seen bs =
     (if pd_id d \<in> seen
      then Err (Unavailable (''duplicate '' @ label @ '' provider id registered: '' @ pd_id d))
      else bind_descriptors label b ds (insert (pd_id d) seen)
             (bs @ [\<lparr>bd_descriptor = d, bd_bridge = b\<rparr>]))"

fun bind_bridges ::
  "string \<Rightarrow> ('b \<Rightarrow> provider_descriptor list) \<Rightarrow> 'b list \<Rightarrow> string set \<Rightarrow> 'b binding list
     \<Rightarrow> bridge_error + 'b binding list" where
  "bind_bridges label descriptors [] seen bs = Ok bs"
| "bind_bridges label descriptors (b # rest) seen bs =
     (if descriptors b = []
      then Err (Unavailable ''bridge registered without any provider descriptors'')
      else (case bind_descriptors label b (descriptors b) seen bs of
              Inl e \<Rightarrow> Err e
            | Inr (seen', bs') \<Rightarrow> bind_bridges label descriptors rest seen' bs'))"

definition asr_composite_new :: "('b \<Rightarrow> provider_descriptor list) \<Rightarrow> 'b list \<Rightarrow> bridge_error + 'b binding list" where
  "asr_composite_new descriptors bridges = bind_bridges ''ASR'' descriptors bridges {} []"

definition tts_composite_new :: "('b \<Rightarrow> provider_descriptor list) \<Rightarrow> 'b list \<Rightarrow> bridge_error + 'b binding list" where
  "tts_composite_new descriptors bridges = bind_bridges ''TTS'' descriptors bridges {} []"

definition composite_descriptors :: "'b binding list \<Rightarrow> provider_descriptor list" where
  "composite_descriptors bs = map bd_descriptor bs"

definition descriptor_matches_required :: "provider_descriptor \<Rightarrow> string list \<Rightarrow> bool" where
  "descriptor_matches_required d required = list_all (has_enabled_capability d) required"

section \<open>Recognition\<close>

definition asr_preferred_score :: "provider_descriptor \<Rightarrow> asr_stream_request \<Rightarrow> nat" where
  "asr_preferred_score d req =
     length (filter (has_enabled_capability d) (sel_preferred (asq_provider req))) +
     (if ro_prefer_on_device (asq_options req) \<and> has_enabled_capability d ''on-device'' then 1 else 0)"

definition asr_auto_choice :: "asr_stream_request \<Rightarrow> 'b binding list \<Rightarrow> 'b binding option" where
  "asr_auto_choice req bs =
     max_by_key (\<lambda>b. asr_preferred_score (bd_descriptor b) req)
       (filter (\<lambda>b. descriptor_matches_required (bd_descriptor b) (sel_required (asq_provider req))) bs)"

definition asr_select_binding :: "'b binding list \<Rightarrow> asr_stream_request \<Rightarrow> bridge_error + 'b binding" where
  "asr_select_binding bs req =
     (if sel_mode (asq_provider req) = ProviderMode \<or> sel_provider_id (asq_provider req) \<noteq> None then
        (case sel_provider_id (asq_provider req) of
           None \<Rightarrow> Err (Unavailable ''provider mode requires a concrete provider_id'')
         | Some pid \<Rightarrow>
             (case find (\<lambda>b. pd_id (bd_descriptor b) = pid) bs of
                None \<Rightarrow> Err (Unavailable (''requested provider '' @ pid @ '' is not installed on this gateway''))
              | Some b \<Rightarrow>
                  (if \<not> descriptor_matches_required (bd_descriptor b) (sel_required (asq_provider req))
                   then Err (Unavailable (''requested provider '' @ pid
                              @ '' does not satisfy required capabilities''))
                   else Ok b)))
      else ok_or (asr_auto_choice req bs)
             (Unavailable ''no installed ASR provider satisfies the requested capabilities''))"

text \<open>\<open>start\<close> is the \<^verbatim>\<open>start_stream\<close> of the selected bridge.\<close>

definition asr_composite_start ::
  "('b \<Rightarrow> asr_stream_request \<Rightarrow> bridge_error + asr_handle) \<Rightarrow> 'b binding list \<Rightarrow> asr_stream_request
     \<Rightarrow> bridge_error + asr_handle" where
  "asr_composite_start start bs req =
     and_then (asr_select_binding bs req) (\<lambda>b. start (bd_bridge b) req)"

section \<open>Synthesis\<close>

definition tts_preferred_score :: "provider_descriptor \<Rightarrow> string list \<Rightarrow> nat" where
  "tts_preferred_score d preferred = length (filter (has_enabled_capability d) preferred)"

definition tts_auto_choice :: "string list \<Rightarrow> string list \<Rightarrow> 'b binding list \<Rightarrow> 'b binding option" where
  "tts_auto_choice required preferred bs =
     max_by_key (\<lambda>b. tts_preferred_score (bd_descriptor b) preferred)
       (filter (\<lambda>b. descriptor_matches_required (bd_descriptor b) required) bs)"

definition tts_select_binding :: "'b binding list \<Rightarrow> provider_selector \<Rightarrow> bridge_error + 'b binding" where
  "tts_select_binding bs sel =
     (if sel_mode sel = ProviderMode \<or> sel_provider_id sel \<noteq> None then
        (case sel_provider_id sel of
           None \<Rightarrow> Err (Unavailable ''provider mode requires a concrete provider_id'')
         | Some pid \<Rightarrow>
             (case find (\<lambda>b. pd_id (bd_descriptor b) = pid) bs of
                None \<Rightarrow> Err (Unavailable (''requested provider '' @ pid
                             @ '' is not available for TTS on this gateway''))
              | Some b \<Rightarrow>
                  (if \<not> descriptor_matches_required (bd_descriptor b) (sel_required sel)
                   then Err (Unavailable (''requested provider '' @ pid
                              @ '' does not satisfy required TTS capabilities''))
                   else Ok b)))
      else ok_or (tts_auto_choice (sel_required sel) (sel_preferred sel) bs)
             (Unavailable ''no configured TTS provider satisfies the requested capabilities''))"

definition route_capabilities :: "string \<Rightarrow> string list" where
  "route_capabilities route =
     (if route \<in> {''realtime'', ''real_time'', ''low_latency'', ''low-latency''}
      then [''realtime-low-latency'', ''cloud-managed'']
      else if route \<in> {''quality'', ''quality_first'', ''quality-first'', ''offline'', ''local''}
      then [''quality-high'', ''local-inference'']
      else [])"

definition add_preferred :: "string \<Rightarrow> provider_selector \<Rightarrow> provider_selector" where
  "add_preferred c sel =
     (if list_ex (\<lambda>e. e = c) (sel_preferred sel) then sel
      else sel\<lparr>sel_preferred := sel_preferred sel @ [c]\<rparr>)"

definition apply_route_preferences :: "provider_selector \<Rightarrow> json \<Rightarrow> provider_selector" where
  "apply_route_preferences sel options =
     (if sel_mode sel \<noteq> AutoMode \<or> sel_provider_id sel \<noteq> None then sel
      else (case map_option (\<lambda>v. to_ascii_lowercase (trim v)) (json_get_str options ''route'') of
              None \<Rightarrow> sel
            | Some route \<Rightarrow> fold add_preferred (route_capabilities route) sel))"

definition tts_composite_start ::
  "('b \<Rightarrow> tts_stream_request \<Rightarrow> bridge_error + tts_handle) \<Rightarrow> 'b binding list \<Rightarrow> tts_stream_request
     \<Rightarrow> bridge_error + tts_handle" where
  "tts_composite_start start bs req =
     (let req' = req\<lparr>tsq_provider := apply_route_preferences (tsq_provider req)
                                      (so_provider_options (tsq_options req))\<rparr>
      in and_then (tts_select_binding bs (tsq_provider req')) (\<lambda>b. start (bd_bridge b) req'))"

fun collect_voices ::
  "('b \<Rightarrow> voice_list_request \<Rightarrow> bridge_error + voice_descriptor list) \<Rightarrow> 'b binding list \<Rightarrow> voice_list_request
     \<Rightarrow> voice_descriptor list \<Rightarrow> bridge_error + voice_descriptor list" where
  "collect_voices voices [] req acc = Ok acc"
| "collect_voices voices (b # bs) req acc =
     (if \<not> descriptor_matches_required (bd_descriptor b) (sel_required (vlq_provider req))
      then collect_voices voices bs req acc
      else (case voices (bd_bridge b) req of
              Inl e \<Rightarrow> Err e
            | Inr vs \<Rightarrow> collect_voices voices bs req (acc @ vs)))"

definition tts_composite_voices ::
  "('b \<Rightarrow> voice_list_request \<Rightarrow> bridge_error + voice_descriptor list) \<Rightarrow> 'b binding list \<Rightarrow> voice_list_request
     \<Rightarrow> bridge_error + voice_descriptor list" where
  "tts_composite_voices voices bs req =
     (if sel_mode (vlq_provider req) = ProviderMode \<or> sel_provider_id (vlq_provider req) \<noteq> None
      then and_then (tts_select_binding bs (vlq_provider req)) (\<lambda>b. voices (bd_bridge b) req)
      else collect_voices voices bs req [])"

section \<open>Both choices keep the contract\<close>

interpretation asr_auto: automatic_choice
    "\<lambda>b. descriptor_matches_required (bd_descriptor b) (sel_required (asq_provider req))"
    "\<lambda>b. asr_preferred_score (bd_descriptor b) req" "asr_auto_choice req"
  for req
  by unfold_locales (auto simp: asr_auto_choice_def filter_empty_conv intro: max_by_key_choice)

interpretation tts_auto: automatic_choice
    "\<lambda>b. descriptor_matches_required (bd_descriptor b) required"
    "\<lambda>b. tts_preferred_score (bd_descriptor b) preferred" "tts_auto_choice required preferred"
  for required preferred
  by unfold_locales (auto simp: tts_auto_choice_def filter_empty_conv intro: max_by_key_choice)

section \<open>Lemmas\<close>

definition binding_ids :: "'b binding list \<Rightarrow> string list" where
  "binding_ids bs = map (\<lambda>b. pd_id (bd_descriptor b)) bs"

lemma bind_descriptors_ok:
  "bind_descriptors label b ds seen bs = Ok (seen', bs') \<Longrightarrow>
     bs' = bs @ map (\<lambda>d. \<lparr>bd_descriptor = d, bd_bridge = b\<rparr>) ds \<and>
     seen' = seen \<union> pd_id ` set ds \<and> distinct (map pd_id ds) \<and> seen \<inter> pd_id ` set ds = {}"
proof (induction ds arbitrary: seen bs)
  case Nil
  then show ?case by simp
next
  case (Cons d ds)
  then have d: "pd_id d \<notin> seen" and
    "bind_descriptors label b ds (insert (pd_id d) seen) (bs @ [\<lparr>bd_descriptor = d, bd_bridge = b\<rparr>]) = Ok (seen', bs')"
    by (auto split: if_splits)
  from Cons.IH [OF this(2)] d show ?case by simp
qed

lemma bind_descriptors_total:
  "distinct (map pd_id ds) \<Longrightarrow> seen \<inter> pd_id ` set ds = {} \<Longrightarrow>
     \<exists>r. bind_descriptors label b ds seen bs = Ok r"
  by (induction ds arbitrary: seen bs) auto

text \<open>What the constructor builds: every descriptor of every bridge, in order, with its bridge.\<close>

definition all_bindings :: "('b \<Rightarrow> provider_descriptor list) \<Rightarrow> 'b list \<Rightarrow> 'b binding list" where
  "all_bindings descriptors bridges =
     concat (map (\<lambda>b. map (\<lambda>d. \<lparr>bd_descriptor = d, bd_bridge = b\<rparr>) (descriptors b)) bridges)"

lemma all_bindings_simps [simp]:
  "all_bindings descriptors [] = []"
  "all_bindings descriptors (b # bridges) =
     map (\<lambda>d. \<lparr>bd_descriptor = d, bd_bridge = b\<rparr>) (descriptors b) @ all_bindings descriptors bridges"
  by (simp_all add: all_bindings_def)

lemma binding_ids_simps [simp]:
  "binding_ids [] = []"
  "binding_ids (xs @ ys) = binding_ids xs @ binding_ids ys"
  "binding_ids (map (\<lambda>d. \<lparr>bd_descriptor = d, bd_bridge = b\<rparr>) ds) = map pd_id ds"
  by (simp_all add: binding_ids_def)

lemma bind_bridges_ok:
  "bind_bridges label descriptors bridges seen bs = Ok bs' \<Longrightarrow>
     bs' = bs @ all_bindings descriptors bridges \<and> distinct (binding_ids (all_bindings descriptors bridges)) \<and>
     seen \<inter> set (binding_ids (all_bindings descriptors bridges)) = {} \<and>
     (\<forall>b \<in> set bridges. descriptors b \<noteq> [])"
proof (induction bridges arbitrary: seen bs)
  case Nil
  then show ?case by simp
next
  case (Cons b bridges)
  then obtain seen1 bs1 where
    1: "descriptors b \<noteq> []" "bind_descriptors label b (descriptors b) seen bs = Ok (seen1, bs1)"
      "bind_bridges label descriptors bridges seen1 bs1 = Ok bs'"
    by (auto split: if_splits sum.splits)
  from bind_descriptors_ok [OF 1(2)] Cons.IH [OF 1(3)] 1(1) show ?case
    by (auto simp: disjoint_iff)
qed

lemma bind_bridges_total:
  "distinct (binding_ids (all_bindings descriptors bridges)) \<Longrightarrow>
   seen \<inter> set (binding_ids (all_bindings descriptors bridges)) = {} \<Longrightarrow>
   (\<forall>b \<in> set bridges. descriptors b \<noteq> []) \<Longrightarrow>
   \<exists>bs'. bind_bridges label descriptors bridges seen bs = Ok bs'"
proof (induction bridges arbitrary: seen bs)
  case Nil
  then show ?case by simp
next
  case (Cons b bridges)
  have "distinct (map pd_id (descriptors b))" "seen \<inter> pd_id ` set (descriptors b) = {}"
    using Cons.prems by auto
  from bind_descriptors_total [OF this] obtain seen1 bs1 where
    1: "bind_descriptors label b (descriptors b) seen bs = Ok (seen1, bs1)" by (metis surj_pair)
  have "seen1 \<inter> set (binding_ids (all_bindings descriptors bridges)) = {}"
    using bind_descriptors_ok [OF 1] Cons.prems by auto
  with Cons.IH [of seen1 bs1] Cons.prems obtain bs' where
    "bind_bridges label descriptors bridges seen1 bs1 = Ok bs'" by auto
  with 1 Cons.prems(3) show ?case by simp
qed

lemma binding_by_id:
  assumes "distinct (binding_ids bs)" "b \<in> set bs" "c \<in> set bs"
    "pd_id (bd_descriptor b) = pd_id (bd_descriptor c)"
  shows "b = c"
  using assms by (auto simp: binding_ids_def distinct_map dest: inj_onD)

text \<open>Selection by id finds the binding of that id.\<close>

lemma find_binding:
  assumes "distinct (binding_ids bs)"
  shows "find (\<lambda>b. pd_id (bd_descriptor b) = pid) bs = Some b \<longleftrightarrow>
           b \<in> set bs \<and> pd_id (bd_descriptor b) = pid"
proof
  assume "find (\<lambda>b. pd_id (bd_descriptor b) = pid) bs = Some b"
  then show "b \<in> set bs \<and> pd_id (bd_descriptor b) = pid" by (auto elim: find_SomeE)
next
  assume b: "b \<in> set bs \<and> pd_id (bd_descriptor b) = pid"
  then obtain c where c: "find (\<lambda>b. pd_id (bd_descriptor b) = pid) bs = Some c"
    by (metis (mono_tags, lifting) find_None_iff not_None_eq)
  then have "c \<in> set bs" "pd_id (bd_descriptor c) = pid" by (auto elim: find_SomeE)
  with binding_by_id [OF assms] b have "c = b" by blast
  with c show "find (\<lambda>b. pd_id (bd_descriptor b) = pid) bs = Some b" by simp
qed

lemma find_binding_None:
  "find (\<lambda>b. pd_id (bd_descriptor b) = pid) bs = None \<longleftrightarrow> (\<forall>b \<in> set bs. pd_id (bd_descriptor b) \<noteq> pid)"
  by (auto simp: find_None_iff)

section \<open>Properties\<close>

text \<open>Which bindings may serve a selector: the required capabilities, and the id if one is given.\<close>

definition binding_serves :: "provider_selector \<Rightarrow> 'b binding \<Rightarrow> bool" where
  "binding_serves sel b \<longleftrightarrow>
     descriptor_matches_required (bd_descriptor b) (sel_required sel) \<and>
     (case sel_provider_id sel of
        Some pid \<Rightarrow> pd_id (bd_descriptor b) = pid
      | None \<Rightarrow> sel_mode sel = AutoMode)"

lemma auto_mode_iff: "m \<noteq> ProviderMode \<longleftrightarrow> m = AutoMode"
  by (cases m) auto

text \<open>Installing bridges succeeds exactly if every bridge advertises something and no provider id
  occurs twice; then the bindings are all descriptors of all bridges, in order.\<close>

lemma composite_new_iff:
  "asr_composite_new descriptors bridges = Ok bs \<longleftrightarrow>
     bs = all_bindings descriptors bridges \<and> distinct (binding_ids bs) \<and> [] \<notin> descriptors ` set bridges"
proof
  assume "asr_composite_new descriptors bridges = Ok bs"
  from bind_bridges_ok [OF this [unfolded asr_composite_new_def]]
  show "bs = all_bindings descriptors bridges \<and> distinct (binding_ids bs) \<and> [] \<notin> descriptors ` set bridges"
    by auto
next
  assume r: "bs = all_bindings descriptors bridges \<and> distinct (binding_ids bs) \<and> [] \<notin> descriptors ` set bridges"
  then have ne: "\<forall>b \<in> set bridges. descriptors b \<noteq> []" by force
  from r bind_bridges_total [OF _ _ ne, of "{}" "''ASR''" "[]"]
  obtain bs' where bs': "bind_bridges ''ASR'' descriptors bridges {} [] = Ok bs'" by auto
  from bind_bridges_ok [OF this] r have "bs' = bs" by simp
  with bs' show "asr_composite_new descriptors bridges = Ok bs" by (simp add: asr_composite_new_def)
qed

text \<open>C21: Recognition requests go to the right provider: among installed bindings without duplicate
  ids, the selected one may serve the request and has the best score of those that may (its preferred
  capabilities, and a bonus for running on the device if that is preferred), and the request is refused
  only if no binding may serve it.\<close>

theorem asr_selection_best:
  assumes "distinct (binding_ids bs)"
  shows "case asr_select_binding bs req of
           Inr b \<Rightarrow> b \<in> set bs \<and> binding_serves (asq_provider req) b \<and>
             (\<forall>c \<in> set bs. binding_serves (asq_provider req) c \<longrightarrow>
                asr_preferred_score (bd_descriptor c) req \<le> asr_preferred_score (bd_descriptor b) req)
         | Inl e \<Rightarrow> (\<forall>b \<in> set bs. \<not> binding_serves (asq_provider req) b)"
proof (cases "sel_provider_id (asq_provider req)")
  case (Some pid)
  show ?thesis
  proof (cases "find (\<lambda>b. pd_id (bd_descriptor b) = pid) bs")
    case None
    then have "asr_select_binding bs req =
        Err (Unavailable (''requested provider '' @ pid @ '' is not installed on this gateway''))"
      using Some by (simp add: asr_select_binding_def)
    then show ?thesis
      using Some None [unfolded find_binding_None] by (auto simp: binding_serves_def)
  next
    case found: (Some b)
    note b = found [unfolded find_binding [OF assms]]
    have uniq: "c = b" if "c \<in> set bs" "pd_id (bd_descriptor c) = pid" for c
      using binding_by_id [OF assms that(1)] b that(2) by simp
    have "asr_select_binding bs req =
        (if descriptor_matches_required (bd_descriptor b) (sel_required (asq_provider req)) then Ok b
         else Err (Unavailable (''requested provider '' @ pid @ '' does not satisfy required capabilities'')))"
      using Some found by (simp add: asr_select_binding_def)
    then show ?thesis using Some b uniq by (auto simp: binding_serves_def)
  qed
next
  case None
  show ?thesis
  proof (cases "sel_mode (asq_provider req)")
    case AutoMode
    then show ?thesis
      using None asr_auto.pick_outcome [where bs = bs and req = req]
      by (cases "asr_auto_choice req bs") (auto simp: asr_select_binding_def binding_serves_def)
  next
    case ProviderMode
    then show ?thesis using None by (simp add: asr_select_binding_def binding_serves_def)
  qed
qed

definition demo_bindings :: "nat binding list" where
  "demo_bindings =
     [\<lparr>bd_descriptor = with_capability (provider_descriptor_new ''a'' ''A'' Asr LocalDaemon) (capability_on ''x''),
       bd_bridge = 1\<rparr>,
      \<lparr>bd_descriptor = with_capability (with_capability (provider_descriptor_new ''b'' ''B'' Asr LocalDaemon)
                         (capability_on ''x'')) (capability_on ''on-device''), bd_bridge = 2\<rparr>]"

definition demo_auto_request :: asr_stream_request where
  "demo_auto_request =
     \<lparr>asq_provider = selector_default\<lparr>sel_required := [''x'']\<rparr>,
      asq_input_format = audio_format_pcm_s16le 16000 1,
      asq_options = \<lparr>ro_language = None, ro_hints = [], ro_interim_results = True, ro_timestamps = False,
        ro_punctuation = False, ro_prefer_on_device = True, ro_provider_options = JNull\<rparr>\<rparr>"

theorem asr_selection_best_witness:
  "\<exists>b. asr_select_binding demo_bindings demo_auto_request = Ok b \<and> bd_bridge b = 2 \<and>
       (\<forall>c \<in> set demo_bindings. binding_serves (asq_provider demo_auto_request) c \<longrightarrow>
          asr_preferred_score (bd_descriptor c) demo_auto_request
            \<le> asr_preferred_score (bd_descriptor b) demo_auto_request)"
proof -
  have "distinct (binding_ids demo_bindings)" by (simp add: demo_bindings_def binding_ids_def)
  note best = asr_selection_best [OF this, of demo_auto_request]
  have "\<exists>b. asr_select_binding demo_bindings demo_auto_request = Ok b \<and> bd_bridge b = 2"
    by (simp add: asr_select_binding_def demo_auto_request_def selector_default_def asr_auto_choice_def
        demo_bindings_def descriptor_matches_required_def asr_preferred_score_def)
  then obtain b where "asr_select_binding demo_bindings demo_auto_request = Ok b" "bd_bridge b = 2" by blast
  with best show ?thesis by auto
qed

text \<open>Synthesis requests are selected in the same way, by the selector with the route
  preferences applied, which change nothing when a provider is named and only ever add to the preferred
  capabilities.\<close>

lemma tts_selection_best:
  assumes "distinct (binding_ids bs)" and "sel' = apply_route_preferences sel options"
  shows "case tts_select_binding bs sel' of
           Inr b \<Rightarrow> b \<in> set bs \<and> binding_serves sel b \<and>
             (\<forall>c \<in> set bs. binding_serves sel c \<longrightarrow>
                tts_preferred_score (bd_descriptor c) (sel_preferred sel')
                  \<le> tts_preferred_score (bd_descriptor b) (sel_preferred sel'))
         | Inl e \<Rightarrow> (\<forall>b \<in> set bs. \<not> binding_serves sel b)"
proof -
  have frame: "sel_mode (fold add_preferred cs s) = sel_mode s \<and>
      sel_provider_id (fold add_preferred cs s) = sel_provider_id s \<and>
      sel_required (fold add_preferred cs s) = sel_required s" for cs s
    by (induction cs arbitrary: s) (auto simp: add_preferred_def)
  have same: "sel_mode sel' = sel_mode sel" "sel_provider_id sel' = sel_provider_id sel"
    "sel_required sel' = sel_required sel"
    using frame by (auto simp: assms(2) apply_route_preferences_def split: option.split)
  have serves: "binding_serves sel b = binding_serves sel' b" for b
    by (simp add: binding_serves_def same cong: option.case_cong)
  show ?thesis
  proof (cases "sel_provider_id sel'")
    case (Some pid)
    show ?thesis
    proof (cases "find (\<lambda>b. pd_id (bd_descriptor b) = pid) bs")
      case None
      then have "tts_select_binding bs sel' =
          Err (Unavailable (''requested provider '' @ pid @ '' is not available for TTS on this gateway''))"
        using Some by (simp add: tts_select_binding_def)
      then show ?thesis
        unfolding serves using Some None [unfolded find_binding_None] by (auto simp: binding_serves_def)
    next
      case found: (Some b)
      note b = found [unfolded find_binding [OF assms(1)]]
      have uniq: "c = b" if "c \<in> set bs" "pd_id (bd_descriptor c) = pid" for c
        using binding_by_id [OF assms(1) that(1)] b that(2) by simp
      have "tts_select_binding bs sel' =
          (if descriptor_matches_required (bd_descriptor b) (sel_required sel') then Ok b
           else Err (Unavailable (''requested provider '' @ pid @ '' does not satisfy required TTS capabilities'')))"
        using Some found by (simp add: tts_select_binding_def)
      then show ?thesis unfolding serves using Some b uniq by (auto simp: binding_serves_def)
    qed
  next
    case None
    show ?thesis
    proof (cases "sel_mode sel'")
      case AutoMode
      then show ?thesis
        unfolding serves
        using None tts_auto.pick_outcome [where bs = bs and required = "sel_required sel'" and
            preferred = "sel_preferred sel'"]
        by (cases "tts_auto_choice (sel_required sel') (sel_preferred sel') bs")
          (auto simp: tts_select_binding_def binding_serves_def)
    next
      case ProviderMode
      then show ?thesis unfolding serves using None by (simp add: tts_select_binding_def binding_serves_def)
    qed
  qed
qed

end
