(* ===== verification/TtsProviders.thy ===== *)
theory TtsProviders
  imports BridgeCommon
begin

text \<open>
  The synthesis providers of \<^verbatim>\<open>bridges/src/tts\<close> with buffered output: \<^verbatim>\<open>mock.rs\<close>, \<^verbatim>\<open>melo_http.rs\<close>,
  \<^verbatim>\<open>qwen_http.rs\<close> and the REST part of \<^verbatim>\<open>minimax_http.rs\<close>. An HTTP exchange is a parameter: a
  request goes to an \<open>http\<close> function that returns what the client library reports. A JSON object
  holds its entries in the order in which the code adds them.
\<close>

section \<open>The session loop\<close>

text \<open>
  All providers collect text until a commit or a stop ends the session; the end of the command
  channel ends it silently. \<open>on_commit\<close> is the provider's answer to a commit.
\<close>

fun tts_session_loop ::
  "nat \<Rightarrow> (string \<Rightarrow> bridge_tts_event net \<Rightarrow> bridge_tts_event net) \<Rightarrow> string \<Rightarrow> bridge_tts_command list
     \<Rightarrow> bridge_tts_event net \<Rightarrow> bridge_tts_event net" where
  "tts_session_loop tx on_commit buffer [] n = n"
| "tts_session_loop tx on_commit buffer (AppendInput d # cs) n = tts_session_loop tx on_commit (buffer @ d) cs n"
| "tts_session_loop tx on_commit buffer (TtsCommitCmd # cs) n = on_commit buffer n"
| "tts_session_loop tx on_commit buffer (TtsStopCmd # cs) n = net_post tx (TtsEndedEv (Some ''stopped'')) n"

definition post_tts_error :: "nat \<Rightarrow> string \<Rightarrow> string \<Rightarrow> bridge_tts_event net \<Rightarrow> bridge_tts_event net" where
  "post_tts_error tx message reason n =
     net_post tx (TtsEndedEv (Some reason)) (net_post tx (TtsErrorEv message) n)"

section \<open>Mock\<close>

definition mock_tts_descriptors :: "string \<Rightarrow> string option \<Rightarrow> provider_descriptor list" where
  "mock_tts_descriptors pid name =
     [fold (\<lambda>k d. with_capability d (capability_on k))
        [''voice-list'', ''buffered-input'', ''buffered-text-input'', ''buffered-output'', ''rate-control'']
        (provider_descriptor_new pid (unwrap_or name ''Mock TTS Bridge'') Tts LocalDaemon)]"

definition mock_tts_voices :: "voice_descriptor list" where
  "mock_tts_voices =
     [\<lparr>vd_id = ''mock.default'', vd_language = ''und'', vd_display_name = ''Mock Voice'',
       vd_gender = None, vd_capabilities = [''rate-control'']\<rparr>]"

definition wav_mono :: "u32 \<Rightarrow> audio_format" where
  "wav_mono rate = \<lparr>af_encoding = Wav, af_sample_rate_hz = rate, af_channels = 1\<rparr>"

definition mock_tts_start :: "string \<Rightarrow> tts_stream_request \<Rightarrow> session_id \<Rightarrow> bridge_error + tts_session" where
  "mock_tts_start pid req s =
     (let input = requested_tts_input_mode (tsq_options req);
          output = requested_tts_output_mode (tsq_options req)
      in and_then (ensure_tts_modes_supported input output False False ''Mock TTS'')
           (\<lambda>_. Ok \<lparr>ts_id = s, ts_provider_id = pid,
                   ts_accepted_output_format = or_else (tsq_output_format req) (Some (wav_mono 16000)),
                   ts_input_mode = input, ts_output_mode = output\<rparr>))"

definition mock_tts_commit :: "nat \<Rightarrow> audio_format option \<Rightarrow> string \<Rightarrow> bridge_tts_event net \<Rightarrow> bridge_tts_event net" where
  "mock_tts_commit tx fmt buffer n =
     (case net_send tx (TtsAudioEv \<lparr>ac_bytes = as_bytes (''MOCK_TTS:'' @ buffer), ac_sequence = 1,
                                    ac_is_final = True, ac_format = fmt\<rparr>) n of
        None \<Rightarrow> n
      | Some n' \<Rightarrow> net_post tx (TtsEndedEv None) n')"

section \<open>MeloTTS\<close>

record melo_config =
  mc_provider_id :: string
  mc_display_name :: "string option"
  mc_base_url :: string
  mc_chunk_size :: nat

record melo_health =
  mh_ok :: bool
  mh_language :: string
  mh_speaker :: string
  mh_sample_rate :: u32

definition fetch_melo_health :: "(string \<Rightarrow> melo_health http_reply) \<Rightarrow> string \<Rightarrow> bridge_error + melo_health" where
  "fetch_melo_health http base_url =
     (let url = trim_end_slashes base_url @ ''/healthz''
      in (case http url of
            SendFailed e \<Rightarrow> Err (Unavailable (''failed to reach MeloTTS health endpoint '' @ url @ '': '' @ e))
          | BadStatus status _ \<Rightarrow>
              Err (Unavailable (''MeloTTS health endpoint '' @ url @ '' returned status '' @ status))
          | Replied (Inl e) \<Rightarrow> Err (ProtocolError (''failed to decode MeloTTS health response: '' @ e))
          | Replied (Inr payload) \<Rightarrow>
              (if \<not> mh_ok payload then Err (Unavailable ''MeloTTS health endpoint reported not ready'')
               else Ok payload)))"

text \<open>\<open>f32_json\<close> renders a float as a JSON number.\<close>

definition synthesize_melo ::
  "(f32_bits \<Rightarrow> json) \<Rightarrow> (string \<Rightarrow> json \<Rightarrow> bytes http_reply) \<Rightarrow> string \<Rightarrow> string \<Rightarrow> f32_bits
     \<Rightarrow> bridge_error + bytes" where
  "synthesize_melo f32_json http base_url text speed =
     (let url = trim_end_slashes base_url @ ''/v1/tts''
      in (case http url (JObject [(''text'', JString text), (''speed'', f32_json speed)]) of
            SendFailed e \<Rightarrow> Err (Unavailable (''failed to call MeloTTS synth endpoint '' @ url @ '': '' @ e))
          | BadStatus status body \<Rightarrow>
              Err (Unavailable (''MeloTTS synth endpoint '' @ url @ '' returned status '' @ status @ '': '' @ body))
          | Replied (Inl e) \<Rightarrow> Err (IoError (''failed to read MeloTTS audio body: '' @ e))
          | Replied (Inr bytes) \<Rightarrow> Ok bytes))"

definition melo_descriptors :: "melo_config \<Rightarrow> provider_descriptor list" where
  "melo_descriptors cfg =
     [fold (\<lambda>k d. with_capability d (capability_on k))
        [''voice-list'', ''streaming-input'', ''buffered-input'', ''buffered-text-input'',
         ''streaming-output'', ''buffered-output'', ''rate-control'', ''wav-output'']
        (provider_descriptor_new (mc_provider_id cfg) (unwrap_or (mc_display_name cfg) ''MeloTTS'')
          Tts LocalDaemon)]"

definition melo_list_voices ::
  "(string \<Rightarrow> melo_health http_reply) \<Rightarrow> melo_config \<Rightarrow> voice_list_request \<Rightarrow> bridge_error + voice_descriptor list" where
  "melo_list_voices http cfg req =
     and_then (fetch_melo_health http (mc_base_url cfg))
       (\<lambda>health.
          if (case vlq_language req of Some l \<Rightarrow> l \<noteq> mh_language health | None \<Rightarrow> False) then Ok []
          else Ok [\<lparr>vd_id = mh_speaker health, vd_language = mh_language health,
                    vd_display_name = ''MeloTTS '' @ mh_speaker health, vd_gender = None,
                    vd_capabilities = [''rate-control'', ''wav-output'']\<rparr>])"

definition melo_start ::
  "(string \<Rightarrow> melo_health http_reply) \<Rightarrow> melo_config \<Rightarrow> tts_stream_request \<Rightarrow> session_id \<Rightarrow> bridge_error + tts_session" where
  "melo_start http cfg req s =
     (let input = requested_tts_input_mode (tsq_options req);
          output = requested_tts_output_mode (tsq_options req)
      in and_then (ensure_tts_modes_supported input output False False ''MeloTTS'')
           (\<lambda>_. if tsq_input_kind req \<noteq> TextInput
                then Err (Unavailable ''MeloTTS bridge currently supports text input only'')
                else and_then (fetch_melo_health http (mc_base_url cfg))
           (\<lambda>health. if (case so_language (tsq_options req) of Some l \<Rightarrow> l \<noteq> mh_language health | None \<Rightarrow> False)
                then Err (Unavailable (''MeloTTS bridge is serving language '' @ mh_language health
                       @ '' but request asked for '' @ the (so_language (tsq_options req))))
                else if (case so_voice (tsq_options req) of Some v \<Rightarrow> v \<noteq> mh_speaker health | None \<Rightarrow> False)
                then Err (Unavailable (''MeloTTS bridge exposes voice '' @ mh_speaker health
                       @ '' but request asked for '' @ the (so_voice (tsq_options req))))
                else (let accepted = or_else (tsq_output_format req) (Some (wav_mono (mh_sample_rate health)))
                      in if (case accepted of Some f \<Rightarrow> af_encoding f \<noteq> Wav | None \<Rightarrow> False)
                         then Err (Unavailable ''MeloTTS bridge currently outputs WAV only'')
                         else Ok \<lparr>ts_id = s, ts_provider_id = mc_provider_id cfg,
                                  ts_accepted_output_format = accepted,
                                  ts_input_mode = input, ts_output_mode = output\<rparr>))))"

text \<open>\<open>synth\<close> is \<open>synthesize_melo\<close> with its client, URL and speed.\<close>

definition melo_commit ::
  "nat \<Rightarrow> (string \<Rightarrow> bridge_error + bytes) \<Rightarrow> audio_format option \<Rightarrow> nat \<Rightarrow> string
     \<Rightarrow> bridge_tts_event net \<Rightarrow> bridge_tts_event net" where
  "melo_commit tx synth fmt chunk_size buffer n =
     (let text = trim buffer
      in if text = [] then post_tts_error tx ''TTS input buffer is empty'' ''empty_input'' n
         else (case synth text of
                 Inl e \<Rightarrow> post_tts_error tx (bridge_error_text e) ''provider_error'' n
               | Inr audio \<Rightarrow>
                   (if audio = [] then post_tts_error tx ''MeloTTS returned empty audio'' ''empty_audio'' n
                    else (let count = max 1 ((length audio + chunk_size - 1) div chunk_size)
                          in case send_tts_events tx (map (chunk_event fmt count)
                                    (enumerate 0 (chunks chunk_size audio))) n of
                               (Inl _, n') \<Rightarrow> n'
                             | (Inr _, n') \<Rightarrow> net_post tx (TtsEndedEv None) n'))))"

section \<open>Qwen3 TTS\<close>

record qwen_config =
  qc_provider_id :: string
  qc_display_name :: "string option"
  qc_base_url :: string
  qc_chunk_size :: nat
  qc_default_model :: "string option"
  qc_default_voice :: "string option"
  qc_default_language :: "string option"
  qc_default_sample_rate :: u32

definition opt_field :: "string \<Rightarrow> json option \<Rightarrow> (string \<times> json) list" where
  "opt_field k v = (case v of Some x \<Rightarrow> [(k, x)] | None \<Rightarrow> [])"

definition qwen_request_body :: "(f32_bits \<Rightarrow> json) \<Rightarrow> qwen_config \<Rightarrow> string \<Rightarrow> synthesis_options \<Rightarrow> json" where
  "qwen_request_body f32_json cfg text opts =
     (let po = so_provider_options opts;
          extra = filter_reserved_provider_options po
            [''route'', ''instruction'', ''voice'', ''language'', ''model'', ''output_format'']
      in JObject
           ([(''text'', JString text)] @
            opt_field ''model'' (map_option JString (or_else (json_get_str po ''model'') (qc_default_model cfg))) @
            opt_field ''voice'' (map_option JString
              (or_else (or_else (json_get_str po ''voice'') (so_voice opts)) (qc_default_voice cfg))) @
            opt_field ''language'' (map_option JString
              (or_else (or_else (json_get_str po ''language'') (so_language opts)) (qc_default_language cfg))) @
            opt_field ''instruction'' (map_option JString (json_get_str po ''instruction'')) @
            opt_field ''rate'' (map_option f32_json (so_rate opts)) @
            opt_field ''pitch'' (map_option f32_json (so_pitch opts)) @
            opt_field ''volume'' (map_option f32_json (so_volume opts)) @
            [(''stream'', JBool False)] @
            opt_field ''output_format'' (map_option JString
              (or_else (json_get_str po ''output_format'') (Some ''wav''))) @
            opt_field ''extra'' (if extra = JNull then None else Some extra)))"

definition synthesize_qwen_http ::
  "(f32_bits \<Rightarrow> json) \<Rightarrow> (string \<Rightarrow> json \<Rightarrow> bytes http_reply) \<Rightarrow> qwen_config \<Rightarrow> string \<Rightarrow> synthesis_options
     \<Rightarrow> bridge_error + bytes" where
  "synthesize_qwen_http f32_json http cfg text opts =
     (let url = trim_end_slashes (qc_base_url cfg) @ ''/v1/tts''
      in (case http url (qwen_request_body f32_json cfg text opts) of
            SendFailed e \<Rightarrow> Err (Unavailable (''failed to call Qwen3 TTS synth endpoint '' @ url @ '': '' @ e))
          | BadStatus status body \<Rightarrow>
              Err (Unavailable (''Qwen3 TTS synth endpoint '' @ url @ '' returned status '' @ status @ '': '' @ body))
          | Replied (Inl e) \<Rightarrow> Err (IoError (''failed to read Qwen3 TTS audio body: '' @ e))
          | Replied (Inr bytes) \<Rightarrow> Ok bytes))"

definition qwen_descriptors :: "qwen_config \<Rightarrow> provider_descriptor list" where
  "qwen_descriptors cfg =
     [fold (\<lambda>k d. with_capability d (capability_on k))
        [''voice-list'', ''streaming-input'', ''buffered-input'', ''buffered-text-input'',
         ''streaming-output'', ''buffered-output'', ''rate-control'', ''pitch-control'', ''volume-control'',
         ''instruction-control'', ''wav-output'', ''quality-high'', ''local-inference'']
        (provider_descriptor_new (qc_provider_id cfg) (unwrap_or (qc_display_name cfg) ''Qwen3 TTS'')
          Tts LocalDaemon)]"

definition qwen_list_voices :: "qwen_config \<Rightarrow> voice_list_request \<Rightarrow> voice_descriptor list" where
  "qwen_list_voices cfg req =
     (let language = unwrap_or (qc_default_language cfg) ''und''
      in if (case vlq_language req of Some f \<Rightarrow> f \<noteq> language | None \<Rightarrow> False) then []
         else [\<lparr>vd_id = unwrap_or (qc_default_voice cfg) ''default'', vd_language = language,
                vd_display_name = unwrap_or (qc_display_name cfg) ''Qwen3 TTS'', vd_gender = None,
                vd_capabilities = [''rate-control'', ''pitch-control'', ''volume-control'',
                  ''instruction-control'', ''wav-output'', ''quality-high'', ''local-inference'']\<rparr>])"

definition qwen_start :: "qwen_config \<Rightarrow> tts_stream_request \<Rightarrow> session_id \<Rightarrow> bridge_error + tts_session" where
  "qwen_start cfg req s =
     (let input = requested_tts_input_mode (tsq_options req);
          output = requested_tts_output_mode (tsq_options req);
          accepted = or_else (tsq_output_format req) (Some (wav_mono (qc_default_sample_rate cfg)))
      in and_then (ensure_tts_modes_supported input output False False ''Qwen3 TTS'')
           (\<lambda>_. if tsq_input_kind req \<noteq> TextInput
                then Err (Unavailable ''Qwen3 TTS bridge currently supports text input only'')
                else if (case accepted of Some f \<Rightarrow> af_encoding f \<noteq> Wav | None \<Rightarrow> False)
                then Err (Unavailable ''Qwen3 TTS bridge currently outputs WAV only'')
                else Ok \<lparr>ts_id = s, ts_provider_id = qc_provider_id cfg, ts_accepted_output_format = accepted,
                         ts_input_mode = input, ts_output_mode = output\<rparr>))"

text \<open>The answer to a commit, which the REST session of MiniMax has word for word, too.\<close>

definition chunked_commit ::
  "nat \<Rightarrow> (string \<Rightarrow> bridge_error + bytes) \<Rightarrow> audio_format option \<Rightarrow> nat \<Rightarrow> string
     \<Rightarrow> bridge_tts_event net \<Rightarrow> bridge_tts_event net" where
  "chunked_commit tx synth fmt chunk_size buffer n =
     (let text = trim buffer
      in if text = [] then post_tts_error tx ''TTS input buffer is empty'' ''empty_input'' n
         else (case synth text of
                 Inl e \<Rightarrow> post_tts_error tx (bridge_error_text e) ''provider_error'' n
               | Inr audio \<Rightarrow>
                   (case emit_audio_chunks tx audio fmt chunk_size n of
                      (Inl e, n') \<Rightarrow>
                        net_post tx (TtsEndedEv None) (net_post tx (TtsErrorEv (bridge_error_text e)) n')
                    | (Inr _, n') \<Rightarrow> net_post tx (TtsEndedEv None) n')))"

definition qwen_commit ::
  "nat \<Rightarrow> (string \<Rightarrow> bridge_error + bytes) \<Rightarrow> audio_format option \<Rightarrow> nat \<Rightarrow> string
     \<Rightarrow> bridge_tts_event net \<Rightarrow> bridge_tts_event net" where
  "qwen_commit = chunked_commit"

section \<open>MiniMax over REST\<close>

record minimax_config =
  mm_provider_id :: string
  mm_display_name :: "string option"
  mm_base_url :: string
  mm_group_id :: string
  mm_default_model :: string
  mm_default_voice_id :: string
  mm_default_sample_rate :: u32
  mm_default_format :: string
  mm_chunk_size :: nat

record minimax_status =
  ms_code :: "int option"
  ms_msg :: "string option"

record minimax_audio_data =
  md_audio :: "string option"
  md_audio_base64 :: "string option"

record minimax_response =
  mr_base_resp :: "minimax_status option"
  mr_data :: "minimax_audio_data option"

definition minimax_descriptors :: "minimax_config \<Rightarrow> provider_descriptor list" where
  "minimax_descriptors cfg =
     [fold (\<lambda>k d. with_capability d (capability_on k))
        [''voice-list'', ''buffered-input'', ''buffered-text-input'', ''buffered-output'', ''rate-control'',
         ''pitch-control'', ''volume-control'', ''emotion-control'', ''wav-output'', ''mp3-output'',
         ''cloud-managed'', ''realtime-low-latency'']
        (provider_descriptor_new (mm_provider_id cfg) (unwrap_or (mm_display_name cfg) ''MiniMax Speech'')
          Tts RemoteGateway)]"

definition minimax_list_voices :: "minimax_config \<Rightarrow> voice_list_request \<Rightarrow> voice_descriptor list" where
  "minimax_list_voices cfg req =
     (if (case vlq_language req of
            Some l \<Rightarrow> l \<noteq> ''und'' \<and> l \<noteq> ''zh'' \<and> l \<noteq> ''zh-CN'' | None \<Rightarrow> False) then []
      else [\<lparr>vd_id = mm_default_voice_id cfg, vd_language = ''und'',
             vd_display_name = unwrap_or (mm_display_name cfg) ''MiniMax Speech'', vd_gender = None,
             vd_capabilities = [''rate-control'', ''pitch-control'', ''volume-control'', ''emotion-control'',
               ''wav-output'', ''mp3-output'', ''cloud-managed'', ''realtime-low-latency'']\<rparr>])"

definition minimax_start :: "minimax_config \<Rightarrow> tts_stream_request \<Rightarrow> session_id \<Rightarrow> bridge_error + tts_session" where
  "minimax_start cfg req s =
     (let input = requested_tts_input_mode (tsq_options req);
          output = requested_tts_output_mode (tsq_options req)
      in and_then (ensure_tts_modes_supported input output True True ''MiniMax TTS'')
           (\<lambda>_. if tsq_input_kind req \<noteq> TextInput
                then Err (Unavailable ''MiniMax TTS bridge currently supports text input only'')
                else and_then (normalize_output_format_name
                       (or_else (map_option af_encoding (tsq_output_format req))
                         (Some (if output = Streaming then Mp3 else Wav)))
                       (mm_default_format cfg))
           (\<lambda>desired. if output = Streaming \<and> desired = ''wav''
                then Err (Unavailable ''MiniMax streaming TTS does not support WAV output; use mp3 or flac'')
                else and_then (audio_encoding_from_name desired)
           (\<lambda>enc. Ok \<lparr>ts_id = s, ts_provider_id = mm_provider_id cfg,
                      ts_accepted_output_format =
                        Some \<lparr>af_encoding = enc, af_sample_rate_hz = mm_default_sample_rate cfg, af_channels = 1\<rparr>,
                      ts_input_mode = input, ts_output_mode = output\<rparr>))))"

definition minimax_emotion :: "json \<Rightarrow> string option" where
  "minimax_emotion po = or_else (json_get_str po ''emotion'') (json_get_str po ''emotion_tag'')"

definition minimax_voice_setting ::
  "(f32_bits \<Rightarrow> json) \<Rightarrow> minimax_config \<Rightarrow> synthesis_options \<Rightarrow> json" where
  "minimax_voice_setting f32_json cfg opts =
     (let po = so_provider_options opts
      in JObject
           ([(''voice_id'', JString (unwrap_or (or_else (json_get_str po ''voice_id'') (so_voice opts))
                                      (mm_default_voice_id cfg)))] @
            opt_field ''speed'' (map_option f32_json (so_rate opts)) @
            opt_field ''pitch'' (map_option f32_json (so_pitch opts)) @
            opt_field ''vol'' (map_option f32_json (so_volume opts)) @
            opt_field ''emotion'' (map_option JString (minimax_emotion po))))"

definition minimax_audio_setting :: "minimax_config \<Rightarrow> string \<Rightarrow> json" where
  "minimax_audio_setting cfg format =
     JObject ([(''sample_rate'', JNumber (show_nat (unat (mm_default_sample_rate cfg)))),
               (''format'', JString format), (''channel'', JNumber ''1'')] @
              (if format = ''mp3'' then [(''bitrate'', JNumber ''128000'')] else []))"

definition minimax_request_body ::
  "(f32_bits \<Rightarrow> json) \<Rightarrow> minimax_config \<Rightarrow> string \<Rightarrow> synthesis_options \<Rightarrow> bridge_error + json" where
  "minimax_request_body f32_json cfg text opts =
     (let po = so_provider_options opts
      in and_then (normalize_output_format_name None (unwrap_or (json_get_str po ''format'') (mm_default_format cfg)))
           (\<lambda>format.
              let extra = filter_reserved_provider_options po
                    [''route'', ''voice_id'', ''model'', ''format'', ''emotion'', ''emotion_tag'']
              in Ok (JObject
                   ([(''model'', JString (unwrap_or (json_get_str po ''model'') (mm_default_model cfg))),
                     (''text'', JString text), (''stream'', JBool False),
                     (''voice_setting'', minimax_voice_setting f32_json cfg opts),
                     (''audio_setting'', minimax_audio_setting cfg format)] @
                    opt_field ''extra'' (if extra = JNull then None else Some extra)))))"

definition minimax_audio_of_response ::
  "(string \<Rightarrow> string + bytes) \<Rightarrow> minimax_response \<Rightarrow> bridge_error + bytes" where
  "minimax_audio_of_response b64d payload =
     (if (case mr_base_resp payload of Some s \<Rightarrow> unwrap_or (ms_code s) 0 \<noteq> 0 | None \<Rightarrow> False)
      then Err (Unavailable (''MiniMax TTS failed: '' @
             unwrap_or (Option.bind (mr_base_resp payload) ms_msg) ''unknown provider error''))
      else (case mr_data payload of
              None \<Rightarrow> Err (ProtocolError ''MiniMax TTS response missing data'')
            | Some d \<Rightarrow>
                (case or_else (md_audio_base64 d) (md_audio d) of
                   Some encoded \<Rightarrow> decode_minimax_audio b64d encoded
                 | None \<Rightarrow> Err (ProtocolError ''MiniMax TTS response missing audio payload''))))"

definition synthesize_minimax ::
  "(f32_bits \<Rightarrow> json) \<Rightarrow> (string \<Rightarrow> string + bytes) \<Rightarrow> (string \<Rightarrow> json \<Rightarrow> minimax_response http_reply)
     \<Rightarrow> minimax_config \<Rightarrow> string \<Rightarrow> synthesis_options \<Rightarrow> bridge_error + bytes" where
  "synthesize_minimax f32_json b64d http cfg text opts =
     and_then (minimax_request_body f32_json cfg text opts)
       (\<lambda>body.
          let url = trim_end_slashes (mm_base_url cfg) @ ''/v1/t2a_v2?GroupId='' @ mm_group_id cfg
          in (case http url body of
                SendFailed e \<Rightarrow> Err (Unavailable (''failed to call MiniMax TTS endpoint '' @ url @ '': '' @ e))
              | BadStatus status text' \<Rightarrow>
                  Err (Unavailable (''MiniMax TTS endpoint '' @ url @ '' returned status '' @ status @ '': '' @ text'))
              | Replied (Inl e) \<Rightarrow> Err (ProtocolError (''failed to decode MiniMax TTS response: '' @ e))
              | Replied (Inr payload) \<Rightarrow> minimax_audio_of_response b64d payload))"

definition minimax_commit ::
  "nat \<Rightarrow> (string \<Rightarrow> bridge_error + bytes) \<Rightarrow> audio_format option \<Rightarrow> nat \<Rightarrow> string
     \<Rightarrow> bridge_tts_event net \<Rightarrow> bridge_tts_event net" where
  "minimax_commit = chunked_commit"

section \<open>The contract of a session\<close>

fun is_tts_ended :: "bridge_tts_event \<Rightarrow> bool" where
  "is_tts_ended (TtsEndedEv _) = True"
| "is_tts_ended _ = False"

text \<open>What a commit of a provider promises: on an open channel it sends some events and then
  the one that ends the session.\<close>

locale buffered_session =
  fixes tx :: nat
    and on_commit :: "string \<Rightarrow> bridge_tts_event net \<Rightarrow> bridge_tts_event net"
  assumes commit_ends: "tx \<notin> net_closed n \<Longrightarrow>
      \<exists>es reason. sent_on tx (on_commit buf n) = sent_on tx n @ es @ [TtsEndedEv reason] \<and>
                  (\<forall>e \<in> set es. \<not> is_tts_ended e)"

context buffered_session begin

lemma session_ends:
  assumes "TtsCommitCmd \<in> set cs \<or> TtsStopCmd \<in> set cs" and "tx \<notin> net_closed n"
  shows "\<exists>es reason. sent_on tx (tts_session_loop tx on_commit buf cs n) = sent_on tx n @ es @ [TtsEndedEv reason] \<and>
           (\<forall>e \<in> set es. \<not> is_tts_ended e)"
  using assms
proof (induction cs arbitrary: buf)
  case Nil
  then show ?case by simp
next
  case (Cons c cs)
  show ?case
  proof (cases c)
    case (AppendInput d)
    with Cons show ?thesis by simp
  next
    case TtsCommitCmd
    then show ?thesis using commit_ends [OF Cons.prems(2), of buf] by simp
  next
    case TtsStopCmd
    then show ?thesis
      using Cons.prems(2) by (intro exI [of _ "[]"]) (simp add: sent_on_post)
  qed
qed

lemma session_open: "TtsCommitCmd \<notin> set cs \<Longrightarrow> TtsStopCmd \<notin> set cs \<Longrightarrow>
    tts_session_loop tx on_commit buf cs n = n"
proof (induction cs arbitrary: buf)
  case Nil
  then show ?case by simp
next
  case (Cons c cs)
  then show ?case by (cases c) simp_all
qed

end

lemma appended_text:
  "tts_session_loop tx on_commit buf (map AppendInput ds @ TtsCommitCmd # cs) n = on_commit (buf @ concat ds) n"
  by (induction ds arbitrary: buf) simp_all

lemma post_open: "tx \<notin> net_closed n \<Longrightarrow> sent_on tx (net_post tx e n) = sent_on tx n @ [e]"
  by (simp add: sent_on_post)

lemma post_tts_error_sent:
  "tx \<notin> net_closed n \<Longrightarrow>
     sent_on tx (post_tts_error tx m r n) = sent_on tx n @ [TtsErrorEv m, TtsEndedEv (Some r)]"
  by (simp add: post_tts_error_def sent_on_post)

lemma chunk_event_not_ended [simp]: "\<not> is_tts_ended (chunk_event fmt k p)"
  by (simp add: chunk_event_def)

lemma emit_open:
  assumes "tx \<notin> net_closed n"
  shows "\<exists>es. sent_on tx (snd (emit_audio_chunks tx audio fmt size' n)) = sent_on tx n @ es \<and>
           (\<forall>e \<in> set es. \<not> is_tts_ended e) \<and>
           net_closed (snd (emit_audio_chunks tx audio fmt size' n)) = net_closed n"
proof (cases "audio = []")
  case True
  then show ?thesis by (simp add: emit_audio_chunks_def)
next
  case False
  let ?es = "map (chunk_event fmt (max 1 ((length audio + size' - 1) div size'))) (enumerate 0 (chunks size' audio))"
  have "emit_audio_chunks tx audio fmt size' n = send_tts_events tx ?es n"
    using False by (simp add: emit_audio_chunks_def Let_def)
  then show ?thesis using send_tts_events_open [OF assms, of ?es] by auto
qed

lemma chunked_commit_ends:
  assumes "tx \<notin> net_closed n"
  shows "\<exists>es reason. sent_on tx (chunked_commit tx synth fmt size' buf n) = sent_on tx n @ es @ [TtsEndedEv reason] \<and>
           (\<forall>e \<in> set es. \<not> is_tts_ended e)"
proof -
  have error: "\<exists>es reason. sent_on tx (post_tts_error tx m r n) = sent_on tx n @ es @ [TtsEndedEv reason] \<and>
           (\<forall>e \<in> set es. \<not> is_tts_ended e)" for m r
    by (intro exI [of _ "[TtsErrorEv m]"] exI [of _ "Some r"]) (simp add: post_tts_error_sent [OF assms])
  show ?thesis
  proof (cases "synth (trim buf)")
    case (Inl e)
    then show ?thesis using error by (simp add: chunked_commit_def Let_def)
  next
    case (Inr audio)
    obtain r n' where emit: "emit_audio_chunks tx audio fmt size' n = (r, n')" by force
    from emit_open [OF assms, of audio fmt size'] emit obtain es where
      es: "sent_on tx n' = sent_on tx n @ es" "\<forall>e \<in> set es. \<not> is_tts_ended e" "net_closed n' = net_closed n"
      by auto
    show ?thesis
    proof (cases r)
      case (Inl e)
      then show ?thesis
        using Inr emit es assms error
        by (auto simp: chunked_commit_def Let_def sent_on_post
            intro!: exI [of _ "es @ [TtsErrorEv (bridge_error_text e)]"])
    next
      case ok: (Inr u)
      then show ?thesis
        using Inr emit es assms error by (auto simp: chunked_commit_def Let_def sent_on_post)
    qed
  qed
qed

interpretation mock_session: buffered_session tx "mock_tts_commit tx fmt" for tx fmt
proof
  fix n :: "bridge_tts_event net" and buf assume op: "tx \<notin> net_closed n"
  let ?e = "TtsAudioEv \<lparr>ac_bytes = as_bytes (''MOCK_TTS:'' @ buf), ac_sequence = 1,
                         ac_is_final = True, ac_format = fmt\<rparr>"
  obtain n' where n': "net_send tx ?e n = Some n'" using net.push_open [OF op] by blast
  have "tx \<notin> net_closed n'" using net.push_keeps_open [OF n'] op by simp
  then have "sent_on tx (mock_tts_commit tx fmt buf n) = sent_on tx n' @ [TtsEndedEv None]"
    unfolding mock_tts_commit_def n' option.case by (rule post_open)
  then have "sent_on tx (mock_tts_commit tx fmt buf n) = sent_on tx n @ [?e] @ [TtsEndedEv None]"
    by (simp only: net.push_contents [OF n'] append.assoc)
  moreover have "\<forall>e \<in> set [?e]. \<not> is_tts_ended e" by simp
  ultimately show "\<exists>es reason. sent_on tx (mock_tts_commit tx fmt buf n) = sent_on tx n @ es @ [TtsEndedEv reason] \<and>
          (\<forall>e \<in> set es. \<not> is_tts_ended e)"
    by blast
qed

interpretation qwen_session: buffered_session tx "qwen_commit tx synth fmt size'" for tx synth fmt size'
  by unfold_locales (unfold qwen_commit_def, rule chunked_commit_ends)

interpretation minimax_session: buffered_session tx "minimax_commit tx synth fmt size'" for tx synth fmt size'
  by unfold_locales (unfold minimax_commit_def, rule chunked_commit_ends)

interpretation melo_session: buffered_session tx "melo_commit tx synth fmt size'" for tx synth fmt size'
proof
  fix n :: "bridge_tts_event net" and buf assume op: "tx \<notin> net_closed n"
  have error: "\<exists>es reason. sent_on tx (post_tts_error tx m r n) = sent_on tx n @ es @ [TtsEndedEv reason] \<and>
           (\<forall>e \<in> set es. \<not> is_tts_ended e)" for m r
    by (intro exI [of _ "[TtsErrorEv m]"] exI [of _ "Some r"]) (simp add: post_tts_error_sent [OF op])
  show "\<exists>es reason. sent_on tx (melo_commit tx synth fmt size' buf n) = sent_on tx n @ es @ [TtsEndedEv reason] \<and>
          (\<forall>e \<in> set es. \<not> is_tts_ended e)"
  proof (cases "synth (trim buf)")
    case (Inl e)
    then show ?thesis using error by (simp add: melo_commit_def Let_def)
  next
    case (Inr audio)
    let ?es = "map (chunk_event fmt (max 1 ((length audio + size' - 1) div size'))) (enumerate 0 (chunks size' audio))"
    note sent = send_tts_events_open [OF op, of ?es]
    obtain n' where n': "send_tts_events tx ?es n = (Inr (), n')" using sent by (metis prod.collapse)
    show ?thesis
      using Inr error n' sent op by (auto simp: melo_commit_def Let_def sent_on_post)
  qed
qed

section \<open>Properties\<close>

text \<open>C22: A buffered synthesis session always ends, and ends once: with a commit or a stop among its
  commands and an open event channel, each of the four providers sends exactly one end event, and sends it last.\<close>

theorem tts_sessions_end_once:
  assumes "on_commit \<in> {mock_tts_commit tx fmt, melo_commit tx synth fmt k, qwen_commit tx synth fmt k,
                        minimax_commit tx synth fmt k}"
    and "TtsCommitCmd \<in> set cs \<or> TtsStopCmd \<in> set cs" and "tx \<notin> net_closed n"
  shows "\<exists>es reason. sent_on tx (tts_session_loop tx on_commit [] cs n) = sent_on tx n @ es @ [TtsEndedEv reason] \<and>
           (\<forall>e \<in> set es. \<not> is_tts_ended e)"
  using assms(1) mock_session.session_ends [OF assms(2,3)] melo_session.session_ends [OF assms(2,3)]
    qwen_session.session_ends [OF assms(2,3)] minimax_session.session_ends [OF assms(2,3)]
  by (elim insertE emptyE) simp_all

definition demo_net :: "bridge_tts_event net" where
  "demo_net = \<lparr>net_closed = {}, net_log = []\<rparr>"

theorem tts_sessions_end_once_witness:
  "\<exists>es reason. sent_on 0 (tts_session_loop 0 (mock_tts_commit 0 None) [] [AppendInput ''hi'', TtsCommitCmd] demo_net)
     = es @ [TtsEndedEv reason]"
proof -
  have "mock_tts_commit 0 None \<in> {mock_tts_commit 0 None, melo_commit 0 (\<lambda>_. Ok []) None 1,
          qwen_commit 0 (\<lambda>_. Ok []) None 1, minimax_commit 0 (\<lambda>_. Ok []) None 1}"
    "TtsCommitCmd \<in> set [AppendInput ''hi'', TtsCommitCmd] \<or> TtsStopCmd \<in> set [AppendInput ''hi'', TtsCommitCmd]"
    "0 \<notin> net_closed demo_net" by (simp_all add: demo_net_def)
  from tts_sessions_end_once [OF this] show ?thesis by (auto simp: demo_net_def sent_on_def)
qed

text \<open>The commits of the three providers with chunked audio, when the text and its audio are not empty.\<close>

lemma commit_emits:
  assumes "on_commit \<in> {melo_commit tx synth fmt k, qwen_commit tx synth fmt k, minimax_commit tx synth fmt k}"
    and "trim buf \<noteq> []" and "synth (trim buf) = Ok audio" and "audio \<noteq> []"
    and "emit_audio_chunks tx audio fmt k n = (Inr (), n')"
  shows "on_commit buf n = net_post tx (TtsEndedEv None) n'"
proof -
  have "melo_commit tx synth fmt k buf n = net_post tx (TtsEndedEv None) n'"
    using assms(2-5) by (simp add: melo_commit_def emit_audio_chunks_def Let_def)
  moreover have "chunked_commit tx synth fmt k buf n = net_post tx (TtsEndedEv None) n'"
    using assms(2-5) by (simp add: chunked_commit_def Let_def)
  ultimately show ?thesis using assms(1) by (auto simp: qwen_commit_def minimax_commit_def)
qed

text \<open>C23: A committed text is delivered whole, by MeloTTS, by Qwen3 TTS and by MiniMax over REST: the provider is given the
  trimmed concatenation of all appended pieces, and the event channel gets the audio it answers with, cut into chunks
  that are not empty, of at most the configured size and numbered from one, the last one marked as such, followed by a normal end.
  What comes after the commit is ignored.\<close>

theorem committed_text_is_delivered:
  assumes "on_commit \<in> {melo_commit tx synth fmt chunk_size, qwen_commit tx synth fmt chunk_size,
                        minimax_commit tx synth fmt chunk_size}"
    and "0 < chunk_size" and "tx \<notin> net_closed n" and "trim (concat ds) \<noteq> []"
    and "synth (trim (concat ds)) = Ok audio" and "audio \<noteq> []"
  shows "\<exists>chs. sent_on tx (tts_session_loop tx on_commit [] (map AppendInput ds @ TtsCommitCmd # cs) n)
               = sent_on tx n @ map TtsAudioEv chs @ [TtsEndedEv None] \<and>
             concat (map ac_bytes chs) = audio \<and>
             (\<forall>i < length chs. ac_bytes (chs ! i) \<noteq> [] \<and> length (ac_bytes (chs ! i)) \<le> chunk_size \<and>
                               ac_sequence (chs ! i) = word_of_nat (i + 1) \<and>
                               ac_is_final (chs ! i) = (i + 1 = length chs))"
proof -
  from emit_audio_chunks_sent [OF assms(2,6,3), of fmt] obtain chs where
    chs: "fst (emit_audio_chunks tx audio fmt chunk_size n) = Ok ()"
      "sent_on tx (snd (emit_audio_chunks tx audio fmt chunk_size n)) = sent_on tx n @ map TtsAudioEv chs"
      "concat (map ac_bytes chs) = audio"
      "\<And>i. i < length chs \<Longrightarrow> ac_bytes (chs ! i) \<noteq> [] \<and> length (ac_bytes (chs ! i)) \<le> chunk_size \<and>
                               ac_sequence (chs ! i) = word_of_nat (i + 1) \<and>
                               ac_is_final (chs ! i) = (i + 1 = length chs)" by blast
  obtain n' where n': "emit_audio_chunks tx audio fmt chunk_size n = (Inr (), n')"
    using chs(1) by (metis prod.collapse)
  have "tx \<notin> net_closed n'" using emit_open [OF assms(3), of audio fmt chunk_size] assms(3) n' by auto
  then have "sent_on tx (on_commit (concat ds) n) = sent_on tx n @ map TtsAudioEv chs @ [TtsEndedEv None]"
    using chs(2) by (simp add: commit_emits [OF assms(1,4-6) n'] n' post_open)
  then show ?thesis using chs(3,4) by (intro exI [of _ chs]) (simp add: appended_text)
qed

theorem committed_text_is_delivered_witness:
  "(\<exists>chs. sent_on 0 (tts_session_loop 0 (melo_commit 0 (\<lambda>t. Ok (as_bytes t)) None 2) []
             (map AppendInput [''he'', ''llo''] @ TtsCommitCmd # []) demo_net)
           = map TtsAudioEv chs @ [TtsEndedEv None] \<and> concat (map ac_bytes chs) = as_bytes ''hello'') \<and>
   (\<exists>chs. sent_on 0 (tts_session_loop 0 (minimax_commit 0 (\<lambda>t. Ok (as_bytes t)) None 2) []
             (map AppendInput [''he'', ''llo''] @ TtsCommitCmd # []) demo_net)
           = map TtsAudioEv chs @ [TtsEndedEv None] \<and> concat (map ac_bytes chs) = as_bytes ''hello'')"
proof -
  have t: "trim (concat [''he'', ''llo'']) = ''hello''"
    by (simp add: trim_graphic is_graphic_def)
  have "0 < (2 :: nat)" "0 \<notin> net_closed demo_net" "trim (concat [''he'', ''llo'']) \<noteq> []"
    "(\<lambda>t. Ok (as_bytes t)) (trim (concat [''he'', ''llo''])) = (Ok (as_bytes ''hello'') :: bridge_error + bytes)"
    "as_bytes ''hello'' \<noteq> []"
    unfolding t by (simp_all add: demo_net_def as_bytes_def)
  note deliver = committed_text_is_delivered [where synth = "\<lambda>t. Ok (as_bytes t)" and cs = "[]" and fmt = None, OF _ this]
  have "\<exists>chs. sent_on 0 (tts_session_loop 0 on_commit [] (map AppendInput [''he'', ''llo''] @ TtsCommitCmd # []) demo_net)
          = map TtsAudioEv chs @ [TtsEndedEv None] \<and> concat (map ac_bytes chs) = as_bytes ''hello''"
    if "on_commit \<in> {melo_commit 0 (\<lambda>t. Ok (as_bytes t)) None 2, qwen_commit 0 (\<lambda>t. Ok (as_bytes t)) None 2,
                 minimax_commit 0 (\<lambda>t. Ok (as_bytes t)) None 2}" for on_commit
  proof -
    have "sent_on 0 demo_net = []" by (simp add: demo_net_def sent_on_def)
    with deliver [OF that] show ?thesis by (simp only: append_Nil) blast
  qed
  then show ?thesis by simp
qed

text \<open>MeloTTS and Qwen3 TTS advertise streaming input and streaming output as enabled
  capabilities, so a selection that requires them may pick these providers; yet each refuses every request
  that asks for streaming output.\<close>

lemma advertised_streaming_refused:
  "(\<forall>d \<in> set (melo_descriptors mcfg) \<union> set (qwen_descriptors qcfg).
      has_enabled_capability d ''streaming-input'' \<and> has_enabled_capability d ''streaming-output'') \<and>
   (requested_tts_output_mode (tsq_options req) = Streaming \<longrightarrow>
      (\<exists>m. melo_start http mcfg req s = Err (Unavailable m)) \<and>
      (\<exists>m. qwen_start qcfg req s = Err (Unavailable m)))"
  by (auto simp: melo_descriptors_def qwen_descriptors_def melo_start_def qwen_start_def
      ensure_tts_modes_supported_def Let_def)

definition streaming_request :: tts_stream_request where
  "streaming_request =
     \<lparr>tsq_provider = selector_default, tsq_input_kind = TextInput, tsq_output_format = None,
      tsq_options = \<lparr>so_language = None, so_voice = None, so_stream = True, so_rate = None, so_pitch = None,
                     so_volume = None, so_provider_options = JObject []\<rparr>\<rparr>"

text \<open>The REST synthesis of MiniMax ignores the output format the session has accepted: for a
  request for MP3 on a gateway whose default format is WAV, the session promises MP3 audio, but the body of
  the upstream request asks for WAV.\<close>

lemma minimax_rest_format_mismatch:
  assumes "mm_default_format cfg = ''wav''"
    and "tsq_output_format req = Some \<lparr>af_encoding = Mp3, af_sample_rate_hz = rate, af_channels = 1\<rparr>"
    and "tsq_input_kind req = TextInput" and "tsq_options req = opts"
    and "json_get (so_provider_options opts) ''format'' = None"
  shows "(\<exists>session. minimax_start cfg req s = Ok session \<and>
            map_option af_encoding (ts_accepted_output_format session) = Some Mp3) \<and>
         (\<exists>body. minimax_request_body f32_json cfg buf opts = Ok body \<and>
            Option.bind (json_get body ''audio_setting'') (\<lambda>a. json_get_str a ''format'') = Some ''wav'')"
proof
  have t: "trim ''mp3'' = ''mp3''" "trim ''wav'' = ''wav''" by (simp_all add: trim_graphic is_graphic_def)
  have l: "to_ascii_lowercase ''mp3'' = ''mp3''" "to_ascii_lowercase ''wav'' = ''wav''"
    by (simp_all add: to_ascii_lowercase_def ascii_lower_def)
  show "\<exists>session. minimax_start cfg req s = Ok session \<and>
            map_option af_encoding (ts_accepted_output_format session) = Some Mp3"
    using assms(2,3)
    by (simp add: minimax_start_def ensure_tts_modes_supported_def normalize_output_format_name_def
        audio_encoding_from_name_def t l Let_def)
  show "\<exists>body. minimax_request_body f32_json cfg buf opts = Ok body \<and>
            Option.bind (json_get body ''audio_setting'') (\<lambda>a. json_get_str a ''format'') = Some ''wav''"
    using assms(1,5)
    by (simp add: minimax_request_body_def normalize_output_format_name_def json_get_str_def
        minimax_audio_setting_def t l Let_def)
qed

definition demo_minimax :: minimax_config where
  "demo_minimax =
     \<lparr>mm_provider_id = ''minimax.tts'', mm_display_name = None, mm_base_url = ''https://x'', mm_group_id = ''g'',
      mm_default_model = ''m'', mm_default_voice_id = ''v'', mm_default_sample_rate = 32000,
      mm_default_format = ''wav'', mm_chunk_size = 1024\<rparr>"

end
