(* ===== verification/Gateway.thy ===== *)
theory Gateway
  imports Protocol
begin

text \<open>
  The client endpoint of the gateway, \<^verbatim>\<open>speechmeshd/src/server.rs\<close>: the frame loop of a client
  connection, the message handler with its one active session, and the tasks that relay a
  session's events. The bridges are trait objects; \<open>bridges\<close> is what they answer at the
  time of a frame. The socket's writer task is the channel \<open>cc_sent\<close>.
\<close>

section \<open>Errors\<close>

datatype server_error =
    InvalidRequest string
  | Unsupported string
  | SessionNotFound string
  | BridgeFailure bridge_error
  | ConnectionGone

fun to_error_info :: "server_error \<Rightarrow> error_info" where
  "to_error_info (InvalidRequest m) = error_info_new ''invalid_request'' m"
| "to_error_info (Unsupported m) = error_info_new ''unsupported_request'' m"
| "to_error_info (SessionNotFound m) = error_info_new ''session_not_found'' m"
| "to_error_info (BridgeFailure e) = error_info_new ''provider_error'' (bridge_error_text e)"
| "to_error_info ConnectionGone = error_info_new ''connection_closed'' ''connection closed''"

section \<open>Relaying the events of a session\<close>

definition compute_delta :: "string \<Rightarrow> string \<Rightarrow> string option" where
  "compute_delta previous current =
     (if current = previous then None
      else if previous = [] then Some current
      else (case strip_prefix previous current of
              Some rest \<Rightarrow> Some rest
            | None \<Rightarrow> Some current))"

record asr_pump =
  pa_sequence :: u64
  pa_revision :: u64
  pa_previous :: string

definition asr_pump_new :: asr_pump where
  "asr_pump_new = \<lparr>pa_sequence = 0, pa_revision = 0, pa_previous = []\<rparr>"

definition word_of_segment :: "transcript_segment \<Rightarrow> asr_word_payload" where
  "word_of_segment g =
     \<lparr>awp_text = seg_text g, awp_start_ms = seg_start_ms g, awp_end_ms = seg_end_ms g,
      awp_is_final = seg_is_final g\<rparr>"

definition first_segment_start :: "transcript_segment list \<Rightarrow> u64 option" where
  "first_segment_start gs = (case gs of [] \<Rightarrow> None | g # _ \<Rightarrow> seg_start_ms g)"

definition last_segment_end :: "transcript_segment list \<Rightarrow> u64 option" where
  "last_segment_end gs = (if gs = [] then None else seg_end_ms (last gs))"

definition provider_error_message :: "session_id \<Rightarrow> string \<Rightarrow> server_message" where
  "provider_error_message s m = SError None (Some s) (error_info_new ''provider_error'' m)"

text \<open>One event: the messages for the client, whether the task goes on, and its variables.\<close>

fun asr_pump_step ::
  "session_id \<Rightarrow> bridge_asr_event \<Rightarrow> asr_pump \<Rightarrow> server_message list \<times> bool \<times> asr_pump" where
  "asr_pump_step s (AsrPartialEv text) p =
     (let seq = pa_sequence p + 1; rev = pa_revision p + 1
      in ([SAsrResult s seq
             \<lparr>arp_segment_id = 0, arp_revision = rev, arp_text = text,
              arp_delta = compute_delta (pa_previous p) text, arp_is_final = False,
              arp_speech_final = False, arp_begin_time_ms = None, arp_end_time_ms = None,
              arp_words = []\<rparr>], True,
          \<lparr>pa_sequence = seq, pa_revision = rev, pa_previous = text\<rparr>))"
| "asr_pump_step s (AsrFinalEv tr) p =
     (let seq = pa_sequence p + 1; rev = pa_revision p + 1
      in ([SAsrResult s seq
             \<lparr>arp_segment_id = 0, arp_revision = rev, arp_text = tr_text tr,
              arp_delta = compute_delta (pa_previous p) (tr_text tr), arp_is_final = True,
              arp_speech_final = True, arp_begin_time_ms = first_segment_start (tr_segments tr),
              arp_end_time_ms = last_segment_end (tr_segments tr),
              arp_words = map word_of_segment (tr_segments tr)\<rparr>], True,
          \<lparr>pa_sequence = seq, pa_revision = rev, pa_previous = tr_text tr\<rparr>))"
| "asr_pump_step s (AsrEndedEv reason) p =
     ([SSessionEnded s reason], True, p\<lparr>pa_sequence := pa_sequence p + 1\<rparr>)"
| "asr_pump_step s (AsrErrorEv m) p =
     ([provider_error_message s m], True, p\<lparr>pa_sequence := pa_sequence p + 1\<rparr>)"

record tts_pump =
  pt_input_kind :: synthesis_input_kind
  pt_sequence :: u64
  pt_total_chunks :: u64
  pt_total_bytes :: u64

definition tts_pump_new :: "synthesis_input_kind \<Rightarrow> tts_pump" where
  "tts_pump_new k = \<lparr>pt_input_kind = k, pt_sequence = 0, pt_total_chunks = 0, pt_total_bytes = 0\<rparr>"

text \<open>\<open>b64\<close> is the standard encoder of the \<^verbatim>\<open>base64\<close> crate.\<close>

fun tts_pump_step ::
  "(bytes \<Rightarrow> string) \<Rightarrow> session_id \<Rightarrow> bridge_tts_event \<Rightarrow> tts_pump
     \<Rightarrow> server_message list \<times> bool \<times> tts_pump" where
  "tts_pump_step b64 s (TtsAudioEv chunk) p =
     (let seq = pt_sequence p + 1; count = pt_total_chunks p + 1
      in ([STtsAudioDelta s seq
             \<lparr>tad_chunk_id = count, tad_audio_base64 = b64 (ac_bytes chunk),
              tad_is_final = ac_is_final chunk, tad_format = ac_format chunk\<rparr>], True,
          p\<lparr>pt_sequence := seq, pt_total_chunks := count,
            pt_total_bytes := pt_total_bytes p + word_of_nat (length (ac_bytes chunk))\<rparr>))"
| "tts_pump_step b64 s (TtsEndedEv reason) p =
     (let seq = pt_sequence p + 1
      in ([STtsAudioDone s seq
             \<lparr>tdp_input_kind = pt_input_kind p, tdp_total_chunks = pt_total_chunks p,
              tdp_total_bytes = pt_total_bytes p\<rparr>,
           SSessionEnded s reason], False, p\<lparr>pt_sequence := seq\<rparr>))"
| "tts_pump_step b64 s (TtsErrorEv m) p = ([provider_error_message s m], True, p)"

text \<open>A whole task over the events it receives, as long as the client's channel accepts its messages.\<close>

fun run_pump ::
  "('ev \<Rightarrow> 'st \<Rightarrow> server_message list \<times> bool \<times> 'st) \<Rightarrow> 'st \<Rightarrow> 'ev list
     \<Rightarrow> server_message list \<times> bool \<times> 'st" where
  "run_pump step st [] = ([], True, st)"
| "run_pump step st (e # es) =
     (case step e st of
        (ms, False, st1) \<Rightarrow> (ms, False, st1)
      | (ms, True, st1) \<Rightarrow>
          (case run_pump step st1 es of (ms1, r, st2) \<Rightarrow> (ms @ ms1, r, st2)))"

section \<open>The connection\<close>

datatype active_session =
    ActiveAsr session_id asr_handle
  | ActiveTts session_id tts_handle

fun active_session_id :: "active_session \<Rightarrow> session_id" where
  "active_session_id (ActiveAsr s _) = s"
| "active_session_id (ActiveTts s _) = s"

datatype relay_state = AsrRelay asr_pump | TtsRelay tts_pump
datatype relay_event = AsrRelayEv bridge_asr_event | TtsRelayEv bridge_tts_event

text \<open>
  A spawned task: its variables, the messages of the current event that it still has to send,
  whether its loop goes on, whether a send failed. \<open>rl_consumed\<close> is the history of its events.
\<close>

record relay =
  rl_session :: session_id
  rl_start :: relay_state
  rl_state :: relay_state
  rl_consumed :: "relay_event list"
  rl_pending :: "server_message list"
  rl_running :: bool
  rl_failed :: bool

record client_conn =
  cc_active :: "active_session option"
  cc_asr_cmds :: "bridge_command net"
  cc_tts_cmds :: "bridge_tts_command net"
  cc_writer_gone :: bool
  cc_sent :: "server_message list"
  cc_relays :: "relay list"

definition client_conn_new :: client_conn where
  "client_conn_new =
     \<lparr>cc_active = None, cc_asr_cmds = \<lparr>net_closed = {}, net_log = []\<rparr>,
      cc_tts_cmds = \<lparr>net_closed = {}, net_log = []\<rparr>, cc_writer_gone = False, cc_sent = [],
      cc_relays = []\<rparr>"

record tts_service =
  tsv_descriptors :: "provider_descriptor list"
  tsv_list_voices :: "voice_list_request \<Rightarrow> bridge_error + voice_descriptor list"
  tsv_start :: "tts_stream_request \<Rightarrow> bridge_error + tts_handle"

record bridges =
  br_server_name :: string
  br_asr_descriptors :: "provider_descriptor list"
  br_asr_start :: "asr_stream_request \<Rightarrow> bridge_error + asr_handle"
  br_tts :: "tts_service option"

definition out_send :: "server_message \<Rightarrow> client_conn \<Rightarrow> client_conn option" where
  "out_send m c = (if cc_writer_gone c then None else Some (c\<lparr>cc_sent := cc_sent c @ [m]\<rparr>))"

definition out_post :: "server_message \<Rightarrow> client_conn \<Rightarrow> client_conn" where
  "out_post m c = (case out_send m c of Some c' \<Rightarrow> c' | None \<Rightarrow> c)"

text \<open>\<^verbatim>\<open>out_tx.send(...).await.map_err(|_| ServerError::Disconnected)\<close>, the end of most branches.\<close>

definition reply :: "server_message \<Rightarrow> client_conn \<Rightarrow> (server_error + unit) \<times> client_conn" where
  "reply m c = (case out_send m c of Some c' \<Rightarrow> (Ok (), c') | None \<Rightarrow> (Err ConnectionGone, c))"

definition send_error ::
  "request_id option \<Rightarrow> session_id option \<Rightarrow> server_error \<Rightarrow> client_conn \<Rightarrow> client_conn" where
  "send_error rid s e c = out_post (SError rid s (to_error_info e)) c"

definition spawn_relay :: "session_id \<Rightarrow> relay_state \<Rightarrow> client_conn \<Rightarrow> client_conn" where
  "spawn_relay s st c =
     c\<lparr>cc_relays := cc_relays c @ [\<lparr>rl_session = s, rl_start = st, rl_state = st, rl_consumed = [],
        rl_pending = [], rl_running = True, rl_failed = False\<rparr>]\<rparr>"

definition handle_discover :: "capability_domain list \<Rightarrow> bridges \<Rightarrow> provider_descriptor list" where
  "handle_discover requested br =
     (let want_asr = (requested = [] \<or> Asr \<in> set requested);
          want_tts = (requested = [] \<or> Tts \<in> set requested)
      in (if want_asr then br_asr_descriptors br else []) @
         (if want_tts then (case br_tts br of Some t \<Rightarrow> tsv_descriptors t | None \<Rightarrow> []) else []))"

fun expect_active_asr :: "active_session option \<Rightarrow> session_id \<Rightarrow> server_error + asr_handle" where
  "expect_active_asr (Some (ActiveAsr active h)) s =
     (if active = s then Ok h
      else Err (SessionNotFound ''session id does not match active session''))"
| "expect_active_asr (Some (ActiveTts _ _)) s =
     Err (Unsupported ''the active session is a TTS session, not ASR'')"
| "expect_active_asr None s = Err (SessionNotFound ''no active session'')"

fun expect_active_tts :: "active_session option \<Rightarrow> session_id \<Rightarrow> server_error + tts_handle" where
  "expect_active_tts (Some (ActiveTts active h)) s =
     (if active = s then Ok h
      else Err (SessionNotFound ''session id does not match active session''))"
| "expect_active_tts (Some (ActiveAsr _ _)) s =
     Err (Unsupported ''the active session is an ASR session, not TTS'')"
| "expect_active_tts None s = Err (SessionNotFound ''no active session'')"

text \<open>A handle operation on the connection's command channels; a closed one is a bridge error.\<close>

definition on_asr_cmds ::
  "(bridge_command net \<Rightarrow> bridge_error + bridge_command net) \<Rightarrow> client_conn
     \<Rightarrow> (server_error + unit) \<times> client_conn" where
  "on_asr_cmds op c =
     (case op (cc_asr_cmds c) of
        Inl e \<Rightarrow> (Err (BridgeFailure e), c)
      | Inr n \<Rightarrow> (Ok (), c\<lparr>cc_asr_cmds := n\<rparr>))"

definition on_tts_cmds ::
  "(bridge_tts_command net \<Rightarrow> bridge_error + bridge_tts_command net) \<Rightarrow> client_conn
     \<Rightarrow> (server_error + unit) \<times> client_conn" where
  "on_tts_cmds op c =
     (case op (cc_tts_cmds c) of
        Inl e \<Rightarrow> (Err (BridgeFailure e), c)
      | Inr n \<Rightarrow> (Ok (), c\<lparr>cc_tts_cmds := n\<rparr>))"

fun stop_active :: "active_session \<Rightarrow> client_conn \<Rightarrow> (server_error + unit) \<times> client_conn" where
  "stop_active (ActiveAsr _ h) c = on_asr_cmds (asr_stop h) c"
| "stop_active (ActiveTts _ h) c = on_tts_cmds (tts_stop h) c"

definition asr_started_message :: "request_id \<Rightarrow> asr_session \<Rightarrow> server_message" where
  "asr_started_message rid session =
     SSessionStarted (Some rid) (as_id session)
       \<lparr>ssp_domain = Asr, ssp_provider_id = as_provider_id session,
        ssp_accepted_input_format = Some (as_accepted_input_format session),
        ssp_accepted_output_format = None, ssp_input_mode = Some (as_input_mode session),
        ssp_output_mode = Some (as_output_mode session)\<rparr>"

definition tts_started_message :: "request_id \<Rightarrow> tts_session \<Rightarrow> server_message" where
  "tts_started_message rid session =
     SSessionStarted (Some rid) (ts_id session)
       \<lparr>ssp_domain = Tts, ssp_provider_id = ts_provider_id session,
        ssp_accepted_input_format = None,
        ssp_accepted_output_format = ts_accepted_output_format session,
        ssp_input_mode = Some (ts_input_mode session), ssp_output_mode = Some (ts_output_mode session)\<rparr>"

definition handle_asr_start ::
  "bridges \<Rightarrow> request_id \<Rightarrow> asr_stream_request \<Rightarrow> client_conn \<Rightarrow> (server_error + unit) \<times> client_conn" where
  "handle_asr_start br rid req c =
     (if cc_active c \<noteq> None then (Err (Unsupported ''one active session per connection''), c)
      else
        (case br_asr_start br req of
           Inl e \<Rightarrow> (Err (BridgeFailure e), c)
         | Inr h \<Rightarrow>
             (case asr_take_event_rx h of
                (None, _) \<Rightarrow> (Err (BridgeFailure (Disconnected ''missing event stream'')), c)
              | (Some _, h1) \<Rightarrow>
                  (let s = as_id (ah_session h);
                       c1 = spawn_relay s (AsrRelay asr_pump_new) c
                   in (case out_send (asr_started_message rid (ah_session h)) c1 of
                         None \<Rightarrow> (Err ConnectionGone, c1)
                       | Some c2 \<Rightarrow> (Ok (), c2\<lparr>cc_active := Some (ActiveAsr s h1)\<rparr>))))))"

definition handle_tts_start ::
  "bridges \<Rightarrow> request_id \<Rightarrow> tts_stream_request \<Rightarrow> client_conn \<Rightarrow> (server_error + unit) \<times> client_conn" where
  "handle_tts_start br rid req c =
     (if cc_active c \<noteq> None then (Err (Unsupported ''one active session per connection''), c)
      else
        (case br_tts br of
           None \<Rightarrow> (Err (Unsupported ''tts is not enabled in speechmeshd''), c)
         | Some t \<Rightarrow>
             (case tsv_start t req of
                Inl e \<Rightarrow> (Err (BridgeFailure e), c)
              | Inr h \<Rightarrow>
                  (case tts_take_event_rx h of
                     (None, _) \<Rightarrow> (Err (BridgeFailure (Disconnected ''missing TTS event stream'')), c)
                   | (Some _, h1) \<Rightarrow>
                       (let s = ts_id (th_session h);
                            c1 = spawn_relay s (TtsRelay (tts_pump_new (th_input_kind h))) c
                        in (case out_send (tts_started_message rid (th_session h)) c1 of
                              None \<Rightarrow> (Err ConnectionGone, c1)
                            | Some c2 \<Rightarrow> (Ok (), c2\<lparr>cc_active := Some (ActiveTts s h1)\<rparr>)))))))"

definition handle_session_stop :: "session_id \<Rightarrow> client_conn \<Rightarrow> (server_error + unit) \<times> client_conn" where
  "handle_session_stop s c =
     (case cc_active c of
        None \<Rightarrow> (Err (SessionNotFound ''no active session''), c)
      | Some current \<Rightarrow>
          (if active_session_id current \<noteq> s
           then (Err (SessionNotFound ''session id does not match active session''), c)
           else
             (case stop_active current c of
                (Inl e, c1) \<Rightarrow> (Err e, c1)
              | (Inr _, c1) \<Rightarrow> (Ok (), c1\<lparr>cc_active := None\<rparr>))))"

fun handle_client_message ::
  "bridges \<Rightarrow> client_message \<Rightarrow> client_conn \<Rightarrow> (server_error + unit) \<times> client_conn" where
  "handle_client_message br (CHello rid payload) c =
     reply (SHelloOk rid
       \<lparr>hr_protocol_version = hq_protocol_version payload, hr_server_name = br_server_name br,
        hr_one_session_per_connection = True\<rparr>) c"
| "handle_client_message br (CDiscover rid requested) c =
     reply (SDiscoverResult rid (handle_discover requested br)) c"
| "handle_client_message br (CAsrStart rid req) c = handle_asr_start br rid req c"
| "handle_client_message br (CAsrCommit s) c =
     (case expect_active_asr (cc_active c) s of
        Inl e \<Rightarrow> (Err e, c)
      | Inr h \<Rightarrow> on_asr_cmds (asr_commit h) c)"
| "handle_client_message br (CTtsVoices rid req) c =
     (case br_tts br of
        None \<Rightarrow> (Err (Unsupported ''tts is not enabled in speechmeshd''), c)
      | Some t \<Rightarrow>
          (case tsv_list_voices t req of
             Inl e \<Rightarrow> (Err (BridgeFailure e), c)
           | Inr voices \<Rightarrow> reply (STtsVoicesResult rid voices) c))"
| "handle_client_message br (CTtsStart rid req) c = handle_tts_start br rid req c"
| "handle_client_message br (CTtsInputAppend s delta) c =
     (case expect_active_tts (cc_active c) s of
        Inl e \<Rightarrow> (Err e, c)
      | Inr h \<Rightarrow> on_tts_cmds (tts_append_input h delta) c)"
| "handle_client_message br (CTtsCommit s) c =
     (case expect_active_tts (cc_active c) s of
        Inl e \<Rightarrow> (Err e, c)
      | Inr h \<Rightarrow> on_tts_cmds (tts_commit h) c)"
| "handle_client_message br (CSessionStop s) c = handle_session_stop s c"
| "handle_client_message br (CSessionCancel s) c = handle_session_stop s c"
| "handle_client_message br (CPing rid) c = reply (SPong rid) c"
| "handle_client_message br (CAsrTranscribe rid req) c =
     (Err (Unsupported ''asr.transcribe is not implemented in speechmeshd v0''), c)"

section \<open>The frame loop\<close>

text \<open>A frame that the loop survives gives the connection; \<open>Inl None\<close> is a close, \<open>Inl (Some e)\<close> a failed read.\<close>

definition binary_frame :: "bytes \<Rightarrow> client_conn \<Rightarrow> client_conn" where
  "binary_frame bs c =
     (case cc_active c of
        Some (ActiveAsr s h) \<Rightarrow>
          (case on_asr_cmds (asr_push_audio h bs) c of
             (Inl e, c1) \<Rightarrow> send_error None (Some s) e c1
           | (Inr _, c1) \<Rightarrow> c1)
      | Some (ActiveTts s _) \<Rightarrow>
          send_error None (Some s) (Unsupported ''binary frames are reserved for ASR audio input'') c
      | None \<Rightarrow> send_error None None (SessionNotFound ''no active ASR session'') c)"

fun client_frame :: "bridges \<Rightarrow> client_message frame \<Rightarrow> client_conn \<Rightarrow> string option + client_conn" where
  "client_frame br (ReadError e) c = Inl (Some (''read websocket frame failed: '' @ e))"
| "client_frame br (TextFrame (Inr m)) c =
     (case handle_client_message br m c of
        (Inl e, c1) \<Rightarrow> Inr (send_error None (map_option active_session_id (cc_active c1)) e c1)
      | (Inr _, c1) \<Rightarrow> Inr c1)"
| "client_frame br (TextFrame (Inl e)) c =
     Inr (send_error None (map_option active_session_id (cc_active c))
            (InvalidRequest (''invalid json frame: '' @ e)) c)"
| "client_frame br (BinaryFrame bs) c = Inr (binary_frame bs c)"
| "client_frame br CloseFrame c = Inl None"
| "client_frame br (PingFrame _) c = Inr (out_post (SPong None) c)"
| "client_frame br PongFrame c = Inr c"
| "client_frame br RawFrame c = Inr c"

text \<open>The end of the loop: an active session is told to stop; its answer is only logged.\<close>

definition close_client :: "client_conn \<Rightarrow> client_conn" where
  "close_client c =
     (case cc_active c of
        Some session \<Rightarrow> snd (stop_active session (c\<lparr>cc_active := None\<rparr>))
      | None \<Rightarrow> c)"

text \<open>
  The loop over the frames of a connection. \<open>others\<close> is what the relay tasks and the
  providers do to the connection before the frame. A failed read skips the end of the handler.
\<close>

fun handle_client_websocket ::
  "(bridges \<times> (client_conn \<Rightarrow> client_conn) \<times> client_message frame) list \<Rightarrow> client_conn
     \<Rightarrow> (string + unit) \<times> client_conn" where
  "handle_client_websocket [] c = (Ok (), close_client c)"
| "handle_client_websocket ((br, others, f) # fs) c =
     (case client_frame br f (others c) of
        Inl None \<Rightarrow> (Ok (), close_client (others c))
      | Inl (Some e) \<Rightarrow> (Err e, others c)
      | Inr c1 \<Rightarrow> handle_client_websocket fs c1)"

section \<open>Paths and transports\<close>

definition normalize_path :: "string \<Rightarrow> string" where
  "normalize_path path = (if path = [] \<or> path = ''/'' then ''/ws'' else path)"

datatype endpoint = AgentEndpoint | ControlEndpoint | ClientEndpoint | EndpointDisabled string

text \<open>Where \<^verbatim>\<open>handle_connection\<close> sends a socket; \<open>has_registry\<close>: the server was started with agents.\<close>

definition handle_connection :: "bool \<Rightarrow> string \<Rightarrow> endpoint" where
  "handle_connection has_registry raw_path =
     (let path = normalize_path raw_path
      in if path = ''/agent'' then
           (if has_registry then AgentEndpoint
            else EndpointDisabled ''agent endpoint is disabled for this bridge mode'')
         else if path = ''/control'' then
           (if has_registry then ControlEndpoint
            else EndpointDisabled ''control endpoint requires agent registry'')
         else ClientEndpoint)"

definition parse_transport_kind :: "string \<Rightarrow> transport_kind option" where
  "parse_transport_kind v =
     (if v = ''websocket'' \<or> v = ''ws'' then Some WebSocket
      else if v = ''http'' then Some Http else None)"

section \<open>Relay tasks as steps\<close>

fun relay_step ::
  "(bytes \<Rightarrow> string) \<Rightarrow> session_id \<Rightarrow> relay_event \<Rightarrow> relay_state
     \<Rightarrow> (server_message list \<times> bool \<times> relay_state) option" where
  "relay_step b64 s (AsrRelayEv e) (AsrRelay p) =
     (case asr_pump_step s e p of (ms, r, p1) \<Rightarrow> Some (ms, r, AsrRelay p1))"
| "relay_step b64 s (TtsRelayEv e) (TtsRelay p) =
     (case tts_pump_step b64 s e p of (ms, r, p1) \<Rightarrow> Some (ms, r, TtsRelay p1))"
| "relay_step b64 s _ _ = None"

text \<open>A relay takes the next event once the last one is dealt with, sends a message, or gives up.\<close>

definition relay_take :: "(bytes \<Rightarrow> string) \<Rightarrow> relay_event \<Rightarrow> relay \<Rightarrow> relay option" where
  "relay_take b64 e rl =
     (if rl_running rl \<and> rl_pending rl = [] then
        map_option (\<lambda>(ms, r, st). rl\<lparr>rl_state := st, rl_consumed := rl_consumed rl @ [e],
                                     rl_pending := ms, rl_running := r\<rparr>)
          (relay_step b64 (rl_session rl) e (rl_state rl))
      else None)"

definition relay_fail :: "relay \<Rightarrow> relay" where
  "relay_fail rl = rl\<lparr>rl_pending := [], rl_running := False, rl_failed := True\<rparr>"

definition session_ids :: "client_conn \<Rightarrow> session_id list" where
  "session_ids c = map rl_session (cc_relays c)"

text \<open>Session ids are fresh: the ids that the bridges draw are not in use on the connection.\<close>

definition fresh_bridges :: "bridges \<Rightarrow> client_conn \<Rightarrow> bool" where
  "fresh_bridges br c \<longleftrightarrow>
     (\<forall>req h. br_asr_start br req = Ok h \<longrightarrow> as_id (ah_session h) \<notin> set (session_ids c)) \<and>
     (\<forall>t req h. br_tts br = Some t \<and> tsv_start t req = Ok h \<longrightarrow> ts_id (th_session h) \<notin> set (session_ids c))"

inductive client_step :: "(bytes \<Rightarrow> string) \<Rightarrow> client_conn \<Rightarrow> client_conn \<Rightarrow> bool" for b64 where
  step_frame:
    "fresh_bridges br c \<Longrightarrow> client_frame br f c = Inr c' \<Longrightarrow> client_step b64 c c'"
| step_take:
    "i < length (cc_relays c) \<Longrightarrow> relay_take b64 e (cc_relays c ! i) = Some rl
       \<Longrightarrow> client_step b64 c (c\<lparr>cc_relays := (cc_relays c)[i := rl]\<rparr>)"
| step_send:
    "i < length (cc_relays c) \<Longrightarrow> rl_pending (cc_relays c ! i) = m # ms \<Longrightarrow> out_send m c = Some c1
       \<Longrightarrow> client_step b64 c (c1\<lparr>cc_relays := (cc_relays c)[i := (cc_relays c ! i)\<lparr>rl_pending := ms\<rparr>]\<rparr>)"
| step_send_fails:
    "i < length (cc_relays c) \<Longrightarrow> rl_pending (cc_relays c ! i) \<noteq> [] \<Longrightarrow> cc_writer_gone c
       \<Longrightarrow> client_step b64 c (c\<lparr>cc_relays := (cc_relays c)[i := relay_fail (cc_relays c ! i)]\<rparr>)"
| step_writer_gone: "client_step b64 c (c\<lparr>cc_writer_gone := True\<rparr>)"
| step_asr_provider_gone:
    "client_step b64 c (c\<lparr>cc_asr_cmds := net_close tx (cc_asr_cmds c)\<rparr>)"
| step_tts_provider_gone:
    "client_step b64 c (c\<lparr>cc_tts_cmds := net_close tx (cc_tts_cmds c)\<rparr>)"

inductive client_reachable :: "(bytes \<Rightarrow> string) \<Rightarrow> client_conn \<Rightarrow> bool" for b64 where
  reach_new: "client_reachable b64 client_conn_new"
| reach_step: "client_reachable b64 c \<Longrightarrow> client_step b64 c c' \<Longrightarrow> client_reachable b64 c'"

inductive_cases client_stepE: "client_step b64 c c'"

section \<open>Lemmas: the client's channel\<close>

interpretation client_channel: channel out_send cc_sent "\<lambda>c. \<not> cc_writer_gone c"
  by unfold_locales (auto simp: out_send_def split: if_splits)

text \<open>\<open>quiet\<close>: an operation of the main loop adds messages that belong to no session's stream.\<close>

fun stream_session :: "server_message \<Rightarrow> session_id option" where
  "stream_session (SAsrResult s _ _) = Some s"
| "stream_session (STtsAudioDelta s _ _) = Some s"
| "stream_session (STtsAudioDone s _ _) = Some s"
| "stream_session (SSessionEnded s _) = Some s"
| "stream_session _ = None"

definition stream_of :: "session_id \<Rightarrow> server_message list \<Rightarrow> server_message list" where
  "stream_of s ms = filter (\<lambda>m. stream_session m = Some s) ms"

lemma stream_of_simps [simp]:
  "stream_of s [] = []"
  "stream_of s (m # ms) = (if stream_session m = Some s then m # stream_of s ms else stream_of s ms)"
  "stream_of s (ms @ ns) = stream_of s ms @ stream_of s ns"
  by (simp_all add: stream_of_def)

text \<open>What the main loop may do: add such messages, spawn relays for fresh sessions, nothing else to them.\<close>

definition quiet :: "client_conn \<Rightarrow> client_conn \<Rightarrow> bool" where
  "quiet c c' \<longleftrightarrow>
     (\<exists>ms. cc_sent c' = cc_sent c @ ms \<and> (\<forall>m \<in> set ms. stream_session m = None \<and>
        (\<forall>rid s e. m = SError rid s e \<longrightarrow> rid = None)))"

lemma quiet_refl [simp]: "quiet c c"
  by (simp add: quiet_def)

lemma quiet_trans: "quiet a b \<Longrightarrow> quiet b c \<Longrightarrow> quiet a c"
  unfolding quiet_def by (metis append.assoc set_append Un_iff)

lemma quiet_same_sent: "cc_sent c' = cc_sent c \<Longrightarrow> quiet c c'"
  by (simp add: quiet_def)

lemma out_post_effect:
  "cc_relays (out_post m c) = cc_relays c"
  "cc_active (out_post m c) = cc_active c"
  "cc_asr_cmds (out_post m c) = cc_asr_cmds c"
  "cc_tts_cmds (out_post m c) = cc_tts_cmds c"
  "cc_sent (out_post m c) = cc_sent c @ (if cc_writer_gone c then [] else [m])"
  by (simp_all add: out_post_def out_send_def)

lemma out_send_effect:
  "out_send m c = Some c' \<Longrightarrow> cc_relays c' = cc_relays c \<and> cc_active c' = cc_active c \<and>
     cc_asr_cmds c' = cc_asr_cmds c \<and> cc_tts_cmds c' = cc_tts_cmds c \<and>
     cc_writer_gone c' = cc_writer_gone c \<and> cc_sent c' = cc_sent c @ [m]"
  by (auto simp: out_send_def split: if_splits)

lemma reply_cases:
  obtains "reply m c = (Err ConnectionGone, c)"
  | c' where "reply m c = (Ok (), c')" "out_send m c = Some c'"
  by (cases "out_send m c") (auto simp: reply_def)

lemma reply_frames [simp]:
  "cc_relays (snd (reply m c)) = cc_relays c"
  "cc_active (snd (reply m c)) = cc_active c"
  "cc_asr_cmds (snd (reply m c)) = cc_asr_cmds c"
  "cc_tts_cmds (snd (reply m c)) = cc_tts_cmds c"
  "cc_sent (snd (reply m c)) = cc_sent c @ (if cc_writer_gone c then [] else [m])"
  by (simp_all add: reply_def out_send_def)

lemma send_error_frames [simp]:
  "cc_relays (send_error rid s e c) = cc_relays c"
  "cc_active (send_error rid s e c) = cc_active c"
  "cc_asr_cmds (send_error rid s e c) = cc_asr_cmds c"
  "cc_tts_cmds (send_error rid s e c) = cc_tts_cmds c"
  by (simp_all add: send_error_def out_post_effect)

lemma quiet_send_error [simp]: "quiet c (send_error None s e c)"
  by (auto simp: quiet_def send_error_def out_post_effect)

lemma cmds_frames [simp]:
  "cc_relays (snd (on_asr_cmds op c)) = cc_relays c"
  "cc_sent (snd (on_asr_cmds op c)) = cc_sent c"
  "cc_active (snd (on_asr_cmds op c)) = cc_active c"
  "cc_writer_gone (snd (on_asr_cmds op c)) = cc_writer_gone c"
  "cc_relays (snd (on_tts_cmds op' c)) = cc_relays c"
  "cc_sent (snd (on_tts_cmds op' c)) = cc_sent c"
  "cc_active (snd (on_tts_cmds op' c)) = cc_active c"
  "cc_writer_gone (snd (on_tts_cmds op' c)) = cc_writer_gone c"
  by (simp_all add: on_asr_cmds_def on_tts_cmds_def split: sum.splits)

lemma stop_active_frames [simp]:
  "cc_relays (snd (stop_active a c)) = cc_relays c"
  "cc_sent (snd (stop_active a c)) = cc_sent c"
  "cc_active (snd (stop_active a c)) = cc_active c"
  by (cases a; simp)+

text \<open>What a message does to the relays: nothing, or one more of them, for a session of the bridges.\<close>

definition fresh_start :: "bridges \<Rightarrow> relay \<Rightarrow> bool" where
  "fresh_start br rl \<longleftrightarrow>
     (\<exists>s st. rl = \<lparr>rl_session = s, rl_start = st, rl_state = st, rl_consumed = [], rl_pending = [],
                   rl_running = True, rl_failed = False\<rparr> \<and>
        ((\<exists>req h. br_asr_start br req = Ok h \<and> s = as_id (ah_session h)) \<or>
         (\<exists>t req h. br_tts br = Some t \<and> tsv_start t req = Ok h \<and> s = ts_id (th_session h))))"

lemma handle_asr_start_effect:
  "quiet c (snd (handle_asr_start br rid req c)) \<and>
   (cc_relays (snd (handle_asr_start br rid req c)) = cc_relays c \<or>
    (\<exists>rl. cc_relays (snd (handle_asr_start br rid req c)) = cc_relays c @ [rl] \<and> fresh_start br rl))"
proof (cases "cc_active c \<noteq> None \<or> (\<exists>e. br_asr_start br req = Inl e)")
  case True
  then show ?thesis by (auto simp: handle_asr_start_def split: sum.split)
next
  case False
  then obtain h where h: "br_asr_start br req = Inr h" "cc_active c = None"
    by (cases "br_asr_start br req") auto
  show ?thesis
  proof (cases "ah_event_rx h")
    case None
    with h show ?thesis by (simp add: handle_asr_start_def asr_take_event_rx_def)
  next
    case (Some rx)
    with h show ?thesis
      by (auto simp: handle_asr_start_def asr_take_event_rx_def Let_def spawn_relay_def out_send_def
          quiet_def asr_started_message_def fresh_start_def)
  qed
qed

lemma handle_tts_start_effect:
  "quiet c (snd (handle_tts_start br rid req c)) \<and>
   (cc_relays (snd (handle_tts_start br rid req c)) = cc_relays c \<or>
    (\<exists>rl. cc_relays (snd (handle_tts_start br rid req c)) = cc_relays c @ [rl] \<and> fresh_start br rl))"
proof (cases "cc_active c \<noteq> None \<or> br_tts br = None")
  case True
  then show ?thesis by (auto simp: handle_tts_start_def)
next
  case False
  then obtain t where t: "br_tts br = Some t" "cc_active c = None" by auto
  show ?thesis
  proof (cases "tsv_start t req")
    case (Inl e)
    with t show ?thesis by (simp add: handle_tts_start_def)
  next
    case (Inr h)
    show ?thesis
    proof (cases "th_event_rx h")
      case None
      with t Inr show ?thesis by (simp add: handle_tts_start_def tts_take_event_rx_def)
    next
      case (Some rx)
      with t Inr show ?thesis
        by (auto simp: handle_tts_start_def tts_take_event_rx_def Let_def spawn_relay_def out_send_def
            quiet_def tts_started_message_def fresh_start_def)
    qed
  qed
qed

lemma quiet_reply:
  "stream_session m = None \<Longrightarrow> (\<forall>rid s e. m \<noteq> SError rid s e) \<Longrightarrow> quiet c (snd (reply m c))"
  by (auto simp: quiet_def)

lemma handle_session_stop_effect:
  "quiet c (snd (handle_session_stop s c)) \<and> cc_relays (snd (handle_session_stop s c)) = cc_relays c"
proof (cases "cc_active c")
  case None
  then show ?thesis by (simp add: handle_session_stop_def)
next
  case (Some a)
  obtain r c1 where r: "stop_active a c = (r, c1)" by fastforce
  then have "cc_relays c1 = cc_relays c" "cc_sent c1 = cc_sent c"
    using stop_active_frames [of a c] by simp_all
  with Some r show ?thesis
    by (cases r) (auto simp: handle_session_stop_def quiet_def)
qed

definition message_effect :: "bridges \<Rightarrow> client_conn \<Rightarrow> client_conn \<Rightarrow> bool" where
  "message_effect br c c' \<longleftrightarrow>
     quiet c c' \<and> (cc_relays c' = cc_relays c \<or> (\<exists>rl. cc_relays c' = cc_relays c @ [rl] \<and> fresh_start br rl))"

lemma message_effect_refl [simp]: "message_effect br c c"
  by (simp add: message_effect_def)

lemma message_effect_cmds:
  "message_effect br c (snd (on_asr_cmds op c))" "message_effect br c (snd (on_tts_cmds op' c))"
  by (simp_all add: message_effect_def quiet_same_sent)

lemma message_effect_reply:
  "stream_session m = None \<Longrightarrow> (\<forall>rid s e. m \<noteq> SError rid s e) \<Longrightarrow> message_effect br c (snd (reply m c))"
  by (simp add: message_effect_def quiet_reply)

lemma handle_client_message_effect: "message_effect br c (snd (handle_client_message br m c))"
  by (cases m)
    (auto intro!: message_effect_reply message_effect_cmds
      simp: handle_asr_start_effect handle_tts_start_effect handle_session_stop_effect
        message_effect_def [of br c "snd (handle_asr_start br _ _ c)"]
        message_effect_def [of br c "snd (handle_tts_start br _ _ c)"]
        message_effect_def [of br c "snd (handle_session_stop _ c)"]
      split: sum.split option.split)

lemma message_effect_then_error:
  "message_effect br c c' \<Longrightarrow> message_effect br c (send_error None s e c')"
  using quiet_trans quiet_send_error by (auto simp: message_effect_def)

lemma binary_frame_effect: "message_effect br c (binary_frame bs c)"
proof (cases "cc_active c")
  case None
  then show ?thesis by (simp add: binary_frame_def message_effect_then_error)
next
  case (Some a)
  show ?thesis
  proof (cases a)
    case (ActiveAsr s h)
    obtain r c1 where r: "on_asr_cmds (asr_push_audio h bs) c = (r, c1)" by fastforce
    then have "message_effect br c c1" using message_effect_cmds(1) [of br c "asr_push_audio h bs"] by simp
    with Some ActiveAsr r show ?thesis
      by (cases r) (simp_all add: binary_frame_def message_effect_then_error)
  next
    case (ActiveTts s h)
    with Some show ?thesis by (simp add: binary_frame_def message_effect_then_error)
  qed
qed

lemma client_frame_effect: "client_frame br f c = Inr c' \<Longrightarrow> message_effect br c c'"
proof (cases f)
  case (TextFrame r)
  assume step: "client_frame br f c = Inr c'"
  show ?thesis
  proof (cases r)
    case (Inl e)
    with TextFrame step show ?thesis by (auto simp: message_effect_then_error)
  next
    case (Inr m)
    obtain res c1 where res: "handle_client_message br m c = (res, c1)" by fastforce
    then have "message_effect br c c1" using handle_client_message_effect [of br c m] by simp
    with TextFrame Inr res step show ?thesis
      by (cases res) (auto simp: message_effect_then_error)
  qed
next
  case (BinaryFrame bs)
  assume "client_frame br f c = Inr c'"
  with BinaryFrame show ?thesis using binary_frame_effect [of br c bs] by simp
next
  case (PingFrame bs)
  assume "client_frame br f c = Inr c'"
  with PingFrame show ?thesis by (auto simp: message_effect_def quiet_def out_post_effect)
qed simp_all

section \<open>Lemmas: relays\<close>

lemma run_pump_snoc:
  "run_pump step st es = (ms, True, st1) \<Longrightarrow> step e st1 = (ns, r, st2)
     \<Longrightarrow> run_pump step st (es @ [e]) = (ms @ ns, r, st2)"
  by (induction es arbitrary: st ms) (auto split: prod.splits bool.splits)

text \<open>
  The contract of a relay's event handler: its messages belong to its session, and errors are
  addressed to no request.
\<close>

locale event_pump =
  fixes step :: "session_id \<Rightarrow> 'ev \<Rightarrow> 'st \<Rightarrow> server_message list \<times> bool \<times> 'st"
  assumes step_session: "step s e st = (ms, r, st') \<Longrightarrow> m \<in> set ms \<Longrightarrow>
      stream_session m = Some s \<or> (\<exists>x. m = SError None (Some s) x)"
begin

lemma run_pump_session:
  "run_pump (step s) st es = (ms, r, st') \<Longrightarrow> m \<in> set ms \<Longrightarrow>
     stream_session m = Some s \<or> (\<exists>x. m = SError None (Some s) x)"
proof (induction es arbitrary: st ms r st')
  case Nil
  then show ?case by simp
next
  case (Cons e es)
  obtain ns r1 st1 where step: "step s e st = (ns, r1, st1)" by (metis prod_cases3)
  show ?case
  proof (cases r1)
    case False
    with Cons.prems step step_session [OF step] show ?thesis by auto
  next
    case True
    obtain ks r2 st2 where rest: "run_pump (step s) st1 es = (ks, r2, st2)" by (metis prod_cases3)
    with Cons.prems step True have "m \<in> set ns \<or> m \<in> set ks" by auto
    with step_session [OF step] Cons.IH [OF rest] Cons.prems rest step True show ?thesis by auto
  qed
qed

end

interpretation asr_pump: event_pump asr_pump_step
proof
  fix s e p ms r p' m
  assume "asr_pump_step s e p = (ms, r, p')" "m \<in> set ms"
  then show "stream_session m = Some s \<or> (\<exists>x. m = SError None (Some s) x)"
    by (cases e) (auto simp: Let_def provider_error_message_def)
qed

interpretation tts_pump: event_pump "tts_pump_step b64" for b64
proof
  fix s e p ms r p' m
  assume "tts_pump_step b64 s e p = (ms, r, p')" "m \<in> set ms"
  then show "stream_session m = Some s \<or> (\<exists>x. m = SError None (Some s) x)"
    by (cases e) (auto simp: Let_def provider_error_message_def)
qed

text \<open>What a relay has to send for its events, by its kind; \<open>None\<close> for events of the other kind.\<close>

definition relay_output ::
  "(bytes \<Rightarrow> string) \<Rightarrow> session_id \<Rightarrow> relay_state \<Rightarrow> relay_event list
     \<Rightarrow> (server_message list \<times> bool \<times> relay_state) \<Rightarrow> bool" where
  "relay_output b64 s start evs out \<longleftrightarrow>
     (case start of
        AsrRelay p \<Rightarrow> (\<exists>es ms r p'. evs = map AsrRelayEv es \<and> run_pump (asr_pump_step s) p es = (ms, r, p') \<and>
                                     out = (ms, r, AsrRelay p'))
      | TtsRelay p \<Rightarrow> (\<exists>es ms r p'. evs = map TtsRelayEv es \<and> run_pump (tts_pump_step b64 s) p es = (ms, r, p') \<and>
                                     out = (ms, r, TtsRelay p')))"

lemma relay_outputI:
  "run_pump (asr_pump_step s) p es = (ms, r, p') \<Longrightarrow>
     relay_output b64 s (AsrRelay p) (map AsrRelayEv es) (ms, r, AsrRelay p')"
  "run_pump (tts_pump_step b64 s) q fs = (ns, r', q') \<Longrightarrow>
     relay_output b64 s (TtsRelay q) (map TtsRelayEv fs) (ns, r', TtsRelay q')"
  by (auto simp: relay_output_def)

lemma relay_output_Nil: "relay_output b64 s start [] ([], True, start)"
  by (auto simp: relay_output_def split: relay_state.split)

lemma relay_output_snoc:
  assumes "relay_output b64 s start evs (ms, True, st)" "relay_step b64 s e st = Some (ns, r, st')"
  shows "relay_output b64 s start (evs @ [e]) (ms @ ns, r, st')"
proof (cases start)
  case (AsrRelay p)
  then obtain es p' where es: "evs = map AsrRelayEv es" "run_pump (asr_pump_step s) p es = (ms, True, p')"
    "st = AsrRelay p'" using assms(1) by (auto simp: relay_output_def)
  with assms(2) obtain x p'' where x: "e = AsrRelayEv x" "asr_pump_step s x p' = (ns, r, p'')" "st' = AsrRelay p''"
    by (cases e) (auto split: prod.splits)
  have "run_pump (asr_pump_step s) p (es @ [x]) = (ms @ ns, r, p'')"
    by (rule run_pump_snoc [OF es(2) x(2)])
  from relay_outputI(1) [OF this] show ?thesis by (simp add: AsrRelay es(1) x(1,3))
next
  case (TtsRelay p)
  then obtain es p' where es: "evs = map TtsRelayEv es" "run_pump (tts_pump_step b64 s) p es = (ms, True, p')"
    "st = TtsRelay p'" using assms(1) by (auto simp: relay_output_def)
  with assms(2) obtain x p'' where x: "e = TtsRelayEv x" "tts_pump_step b64 s x p' = (ns, r, p'')" "st' = TtsRelay p''"
    by (cases e) (auto split: prod.splits)
  have "run_pump (tts_pump_step b64 s) p (es @ [x]) = (ms @ ns, r, p'')"
    by (rule run_pump_snoc [OF es(2) x(2)])
  from relay_outputI(2) [OF this] show ?thesis by (simp add: TtsRelay es(1) x(1,3))
qed

lemma relay_step_session:
  assumes "relay_step b64 s e st = Some (ms, r, st')" "m \<in> set ms"
  shows "stream_session m = Some s \<or> (\<exists>x. m = SError None (Some s) x)"
proof (cases e)
  case (AsrRelayEv x)
  with assms(1) obtain p p' where "st = AsrRelay p" "asr_pump_step s x p = (ms, r, p')"
    by (cases st) (auto split: prod.splits)
  then show ?thesis using asr_pump.step_session assms(2) by blast
next
  case (TtsRelayEv x)
  with assms(1) obtain p p' where "st = TtsRelay p" "tts_pump_step b64 s x p = (ms, r, p')"
    by (cases st) (auto split: prod.splits)
  then show ?thesis using tts_pump.step_session assms(2) by blast
qed

end
