(* ===== verification/GatewayInv.thy ===== *)
theory GatewayInv
  imports Gateway
begin

text \<open>
  What holds of a client connection of the gateway: the invariant of its reachable states, in
  which relay tasks, the frame loop and the providers interleave, and the behaviour of
  sessions, deltas, counters and errors.
\<close>

section \<open>The invariant of a connection\<close>

definition relay_ok :: "(bytes \<Rightarrow> string) \<Rightarrow> server_message list \<Rightarrow> relay \<Rightarrow> bool" where
  "relay_ok b64 sent rl \<longleftrightarrow>
     (\<forall>m \<in> set (rl_pending rl).
        stream_session m = Some (rl_session rl) \<or> (\<exists>x. m = SError None (Some (rl_session rl)) x)) \<and>
     (\<exists>ms r st. relay_output b64 (rl_session rl) (rl_start rl) (rl_consumed rl) (ms, r, st) \<and>
        (if rl_failed rl
         then rl_pending rl = [] \<and> \<not> rl_running rl \<and>
              prefix (stream_of (rl_session rl) sent) (stream_of (rl_session rl) ms)
         else r = rl_running rl \<and> st = rl_state rl \<and>
              stream_of (rl_session rl) sent @ stream_of (rl_session rl) (rl_pending rl) =
                stream_of (rl_session rl) ms))"

definition client_inv :: "(bytes \<Rightarrow> string) \<Rightarrow> client_conn \<Rightarrow> bool" where
  "client_inv b64 c \<longleftrightarrow>
     distinct (session_ids c) \<and>
     (\<forall>rl \<in> set (cc_relays c). relay_ok b64 (cc_sent c) rl) \<and>
     (\<forall>s. s \<notin> set (session_ids c) \<longrightarrow> stream_of s (cc_sent c) = []) \<and>
     (\<forall>m \<in> set (cc_sent c). \<forall>rid s e. m = SError rid s e \<longrightarrow> rid = None)"

lemma relay_ok_other_sent:
  "stream_of (rl_session rl) sent' = stream_of (rl_session rl) sent
     \<Longrightarrow> relay_ok b64 sent' rl = relay_ok b64 sent rl"
  by (simp add: relay_ok_def)

lemma relay_ok_fresh:
  "stream_of s sent = [] \<Longrightarrow>
     relay_ok b64 sent \<lparr>rl_session = s, rl_start = st, rl_state = st, rl_consumed = [], rl_pending = [],
                        rl_running = True, rl_failed = False\<rparr>"
  using relay_output_Nil [of b64 s st] by (fastforce simp: relay_ok_def)

lemma relay_ok_take:
  assumes ok: "relay_ok b64 sent rl" and take: "relay_take b64 e rl = Some rl'"
  shows "relay_ok b64 sent rl' \<and> rl_session rl' = rl_session rl"
proof -
  let ?s = "rl_session rl"
  obtain ns r1 st1 where run: "rl_running rl" "rl_pending rl = []"
    and step: "relay_step b64 ?s e (rl_state rl) = Some (ns, r1, st1)"
    and rl': "rl' = rl\<lparr>rl_state := st1, rl_consumed := rl_consumed rl @ [e], rl_pending := ns, rl_running := r1\<rparr>"
    using take by (auto simp: relay_take_def split: if_splits)
  have "\<not> rl_failed rl" using ok run(1) by (auto simp: relay_ok_def)
  with ok run obtain ms where out:
    "relay_output b64 ?s (rl_start rl) (rl_consumed rl) (ms, True, rl_state rl)"
    and sent: "stream_of ?s sent = stream_of ?s ms"
    by (auto simp: relay_ok_def)
  note out' = relay_output_snoc [OF out step]
  show ?thesis
    using out' sent \<open>\<not> rl_failed rl\<close> relay_step_session [OF step]
    unfolding relay_ok_def rl' by (auto intro!: exI [of _ "ms @ ns"])
qed

lemma relay_ok_send:
  assumes ok: "relay_ok b64 sent rl" and pend: "rl_pending rl = m # ms"
  shows "relay_ok b64 (sent @ [m]) (rl\<lparr>rl_pending := ms\<rparr>)"
proof -
  have "\<not> rl_failed rl" using ok pend by (auto simp: relay_ok_def)
  with ok pend show ?thesis
    unfolding relay_ok_def by (cases "stream_session m = Some (rl_session rl)") auto
qed

lemma relay_ok_fail:
  assumes "relay_ok b64 sent rl" "rl_pending rl \<noteq> []"
  shows "relay_ok b64 sent (relay_fail rl)"
proof -
  have "\<not> rl_failed rl" using assms by (auto simp: relay_ok_def)
  then obtain ms r st where out: "relay_output b64 (rl_session rl) (rl_start rl) (rl_consumed rl) (ms, r, st)"
    and eq: "stream_of (rl_session rl) sent @ stream_of (rl_session rl) (rl_pending rl) = stream_of (rl_session rl) ms"
    using assms(1) by (auto simp: relay_ok_def)
  have "prefix (stream_of (rl_session rl) sent) (stream_of (rl_session rl) ms)"
    using eq by (metis prefixI)
  with out show ?thesis by (auto simp: relay_ok_def relay_fail_def)
qed

text \<open>Replacing one relay by its successor.\<close>

lemma session_ids_update:
  "i < length (cc_relays c) \<Longrightarrow> rl_session rl = rl_session (cc_relays c ! i) \<Longrightarrow>
     session_ids (c\<lparr>cc_relays := (cc_relays c)[i := rl]\<rparr>) = session_ids c"
  by (simp add: session_ids_def map_update list_update_same_conv)

lemma client_inv_update:
  assumes inv: "client_inv b64 c" and i: "i < length (cc_relays c)"
    and ses: "rl_session rl = rl_session (cc_relays c ! i)"
    and ok: "relay_ok b64 (cc_sent c @ ms) rl"
    and ms: "\<And>m. m \<in> set ms \<Longrightarrow> stream_session m = Some (rl_session rl) \<or>
                    (\<exists>x. m = SError None (Some (rl_session rl)) x)"
    and c': "cc_sent c' = cc_sent c @ ms" "cc_relays c' = (cc_relays c)[i := rl]"
  shows "client_inv b64 c'"
proof -
  have ids: "session_ids c' = session_ids c"
    using session_ids_update [OF i ses] c'(2) by (simp add: session_ids_def)
  have other: "stream_of s ms = []" if "s \<noteq> rl_session rl" for s
    using ms that by (fastforce simp: stream_of_def filter_empty_conv)
  have "relay_ok b64 (cc_sent c') x" if x: "x \<in> set (cc_relays c')" for x
  proof -
    obtain j where j: "j < length (cc_relays c)" "x = (cc_relays c)[i := rl] ! j"
      using x c'(2) by (auto simp: in_set_conv_nth)
    show ?thesis
    proof (cases "j = i")
      case True
      with j i ok c' show ?thesis by simp
    next
      case False
      have "rl_session (cc_relays c ! j) \<noteq> rl_session (cc_relays c ! i)"
        using inv i j(1) False by (auto simp: client_inv_def session_ids_def distinct_conv_nth)
      with False j i inv ses c' other show ?thesis
        by (simp add: client_inv_def relay_ok_other_sent [of "cc_relays c ! j" "cc_sent c @ ms" "cc_sent c"])
    qed
  qed
  moreover have "rl_session rl \<in> set (session_ids c)"
    using i ses by (simp add: session_ids_def)
  moreover have "\<forall>m \<in> set (cc_sent c'). \<forall>rid s e. m = SError rid s e \<longrightarrow> rid = None"
    using inv ms c'(1) by (fastforce simp: client_inv_def)
  moreover have "stream_of s (cc_sent c') = []" if s: "s \<notin> set (session_ids c)" for s
  proof -
    have "s \<noteq> rl_session rl" using s \<open>rl_session rl \<in> set (session_ids c)\<close> by blast
    with inv s other c'(1) show ?thesis by (simp add: client_inv_def)
  qed
  ultimately show ?thesis
    using inv unfolding client_inv_def ids by blast
qed

lemma client_inv_frame:
  assumes inv: "client_inv b64 c" and fresh: "fresh_bridges br c" and eff: "message_effect br c c'"
  shows "client_inv b64 c'"
proof -
  obtain ms where ms: "cc_sent c' = cc_sent c @ ms"
    "\<And>m. m \<in> set ms \<Longrightarrow> stream_session m = None \<and> (\<forall>rid s e. m = SError rid s e \<longrightarrow> rid = None)"
    using eff by (auto simp: message_effect_def quiet_def)
  have "stream_of s ms = []" for s
    using ms(2) by (auto simp: stream_of_def filter_empty_conv)
  then have same: "stream_of s (cc_sent c') = stream_of s (cc_sent c)" for s
    by (simp add: ms(1))
  have errors: "\<forall>m \<in> set (cc_sent c'). \<forall>rid s e. m = SError rid s e \<longrightarrow> rid = None"
    using inv ms by (auto simp: client_inv_def)
  have old: "relay_ok b64 (cc_sent c') rl" if "rl \<in> set (cc_relays c)" for rl
    using that inv same by (simp add: client_inv_def relay_ok_other_sent [of rl "cc_sent c'" "cc_sent c"])
  consider (same) "cc_relays c' = cc_relays c"
    | (new) rl where "cc_relays c' = cc_relays c @ [rl]" "fresh_start br rl"
    using eff by (auto simp: message_effect_def)
  then show ?thesis
  proof cases
    case same
    with inv old errors \<open>\<And>s. stream_of s (cc_sent c') = _\<close> show ?thesis
      by (simp add: client_inv_def session_ids_def)
  next
    case new
    then obtain s st where rl: "rl = \<lparr>rl_session = s, rl_start = st, rl_state = st, rl_consumed = [],
        rl_pending = [], rl_running = True, rl_failed = False\<rparr>" and s: "s \<notin> set (session_ids c)"
      using fresh by (auto simp: fresh_start_def fresh_bridges_def)
    have "relay_ok b64 (cc_sent c') rl"
      unfolding rl using inv s same by (intro relay_ok_fresh) (simp add: client_inv_def)
    with new inv old errors s same show ?thesis
      by (auto simp: client_inv_def session_ids_def rl)
  qed
qed

lemma client_inv_same:
  "client_inv b64 c \<Longrightarrow> cc_sent c' = cc_sent c \<Longrightarrow> cc_relays c' = cc_relays c \<Longrightarrow> client_inv b64 c'"
  by (simp add: client_inv_def session_ids_def)

lemma client_step_inv:
  assumes inv: "client_inv b64 c" and step: "client_step b64 c c'"
  shows "client_inv b64 c'"
  using step
proof (cases rule: client_step.cases)
  case (step_frame br f)
  then show ?thesis using client_inv_frame [OF inv] client_frame_effect by blast
next
  case (step_take i e rl)
  have ok: "relay_ok b64 (cc_sent c) (cc_relays c ! i)"
    using inv step_take(2) by (simp add: client_inv_def)
  show ?thesis
    by (rule client_inv_update [OF inv step_take(2), of rl "[]"])
      (use relay_ok_take [OF ok step_take(3)] step_take(1) in simp_all)
next
  case (step_send i m ms c1)
  have ok: "relay_ok b64 (cc_sent c) (cc_relays c ! i)"
    using inv step_send(2) by (simp add: client_inv_def)
  have m: "stream_session m = Some (rl_session (cc_relays c ! i)) \<or>
      (\<exists>x. m = SError None (Some (rl_session (cc_relays c ! i))) x)"
    using ok step_send(3) by (simp add: relay_ok_def)
  show ?thesis
    by (rule client_inv_update [OF inv step_send(2), of "(cc_relays c ! i)\<lparr>rl_pending := ms\<rparr>" "[m]"])
      (use relay_ok_send [OF ok step_send(3)] m out_send_effect [OF step_send(4)] step_send(1) in auto)
next
  case (step_send_fails i)
  have ok: "relay_ok b64 (cc_sent c) (cc_relays c ! i)"
    using inv step_send_fails(2) by (simp add: client_inv_def)
  show ?thesis
    by (rule client_inv_update [OF inv step_send_fails(2), of "relay_fail (cc_relays c ! i)" "[]"])
      (use relay_ok_fail [OF ok step_send_fails(3)] step_send_fails(1) in \<open>simp_all add: relay_fail_def\<close>)
qed (use client_inv_same [OF inv] in simp_all)

lemma client_inv_new: "client_inv b64 client_conn_new"
  by (simp add: client_inv_def client_conn_new_def session_ids_def)

lemma client_reachable_inv: "client_reachable b64 c \<Longrightarrow> client_inv b64 c"
  by (induction rule: client_reachable.induct) (simp_all add: client_inv_new client_step_inv)

section \<open>The stream of a session\<close>

lemma relay_ok_stream:
  assumes "relay_ok b64 sent rl"
  shows "\<exists>ms r st. relay_output b64 (rl_session rl) (rl_start rl) (rl_consumed rl) (ms, r, st) \<and>
           prefix (stream_of (rl_session rl) sent) (stream_of (rl_session rl) ms) \<and>
           (\<not> rl_failed rl \<and> rl_pending rl = [] \<longrightarrow> stream_of (rl_session rl) sent = stream_of (rl_session rl) ms)"
proof (cases "rl_failed rl")
  case True
  with assms show ?thesis by (auto simp: relay_ok_def)
next
  case False
  with assms obtain ms r st where out:
    "relay_output b64 (rl_session rl) (rl_start rl) (rl_consumed rl) (ms, r, st)"
    and eq: "stream_of (rl_session rl) sent @ stream_of (rl_session rl) (rl_pending rl) = stream_of (rl_session rl) ms"
    by (auto simp: relay_ok_def)
  from eq have "prefix (stream_of (rl_session rl) sent) (stream_of (rl_session rl) ms)" by (metis prefixI)
  moreover have "rl_pending rl = [] \<Longrightarrow> stream_of (rl_session rl) sent = stream_of (rl_session rl) ms"
    using eq by simp
  ultimately show ?thesis using out by blast
qed

text \<open>C29: The client receives a session's stream as its provider produced it, whatever else the
  connection does: in every reachable state the messages sent for an ASR session are, in order, a
  prefix of what its relay makes of the events it has taken, and all of it once the relay has
  sent what it had pending and no send failed. The other messages of the connection do not disturb it.\<close>

theorem asr_stream_faithful:
  assumes "client_reachable b64 c" and "rl \<in> set (cc_relays c)" and "rl_start rl = AsrRelay p"
  shows "\<exists>es. rl_consumed rl = map AsrRelayEv es \<and>
           (let out = stream_of (rl_session rl) (fst (run_pump (asr_pump_step (rl_session rl)) p es))
            in prefix (stream_of (rl_session rl) (cc_sent c)) out \<and>
               (\<not> rl_failed rl \<and> rl_pending rl = [] \<longrightarrow> stream_of (rl_session rl) (cc_sent c) = out))"
proof -
  have "relay_ok b64 (cc_sent c) rl"
    using client_reachable_inv [OF assms(1)] assms(2) by (simp add: client_inv_def)
  from relay_ok_stream [OF this] obtain ms r st
    where out: "relay_output b64 (rl_session rl) (AsrRelay p) (rl_consumed rl) (ms, r, st)"
    and sent: "prefix (stream_of (rl_session rl) (cc_sent c)) (stream_of (rl_session rl) ms)"
      "\<not> rl_failed rl \<and> rl_pending rl = [] \<longrightarrow> stream_of (rl_session rl) (cc_sent c) = stream_of (rl_session rl) ms"
    by (auto simp: assms(3))
  from out obtain es where "rl_consumed rl = map AsrRelayEv es"
    "fst (run_pump (asr_pump_step (rl_session rl)) p es) = ms"
    by (auto simp: relay_output_def)
  with sent show ?thesis by (auto simp: Let_def)
qed

text \<open>C30: The same for a synthesis session: the messages sent for it are a prefix of what
  its relay makes of the provider's events, and all of it once nothing is pending and no send failed.\<close>

theorem tts_stream_faithful:
  assumes "client_reachable b64 c" and "rl \<in> set (cc_relays c)" and "rl_start rl = TtsRelay p"
  shows "\<exists>es. rl_consumed rl = map TtsRelayEv es \<and>
           (let out = stream_of (rl_session rl) (fst (run_pump (tts_pump_step b64 (rl_session rl)) p es))
            in prefix (stream_of (rl_session rl) (cc_sent c)) out \<and>
               (\<not> rl_failed rl \<and> rl_pending rl = [] \<longrightarrow> stream_of (rl_session rl) (cc_sent c) = out))"
proof -
  have "relay_ok b64 (cc_sent c) rl"
    using client_reachable_inv [OF assms(1)] assms(2) by (simp add: client_inv_def)
  from relay_ok_stream [OF this] obtain ms r st
    where out: "relay_output b64 (rl_session rl) (TtsRelay p) (rl_consumed rl) (ms, r, st)"
    and sent: "prefix (stream_of (rl_session rl) (cc_sent c)) (stream_of (rl_session rl) ms)"
      "\<not> rl_failed rl \<and> rl_pending rl = [] \<longrightarrow> stream_of (rl_session rl) (cc_sent c) = stream_of (rl_session rl) ms"
    by (auto simp: assms(3))
  from out obtain es where "rl_consumed rl = map TtsRelayEv es"
    "fst (run_pump (tts_pump_step b64 (rl_session rl)) p es) = ms"
    by (auto simp: relay_output_def)
  with sent show ?thesis by (auto simp: Let_def)
qed

section \<open>What a relay sends\<close>

text \<open>Audio chunks get consecutive numbers; the counters of the closing message are their sums.\<close>

definition delta_message :: "(bytes \<Rightarrow> string) \<Rightarrow> session_id \<Rightarrow> nat \<times> audio_chunk \<Rightarrow> server_message" where
  "delta_message b64 s p =
     STtsAudioDelta s (word_of_nat (fst p))
       \<lparr>tad_chunk_id = word_of_nat (fst p), tad_audio_base64 = b64 (ac_bytes (snd p)),
        tad_is_final = ac_is_final (snd p), tad_format = ac_format (snd p)\<rparr>"

fun audio_of :: "bridge_tts_event list \<Rightarrow> audio_chunk list" where
  "audio_of [] = []"
| "audio_of (TtsAudioEv chunk # es) = chunk # audio_of es"
| "audio_of (_ # es) = audio_of es"

lemma tts_pump_audio:
  assumes "\<forall>e \<in> set es. \<forall>r. e \<noteq> TtsEndedEv r"
    and "pt_sequence p = word_of_nat n" "pt_total_chunks p = word_of_nat n"
  shows "\<exists>ms p'. run_pump (tts_pump_step b64 s) p es = (ms, True, p') \<and>
           stream_of s ms = map (delta_message b64 s) (enumerate (Suc n) (audio_of es)) \<and>
           pt_sequence p' = word_of_nat (n + length (audio_of es)) \<and>
           pt_total_chunks p' = word_of_nat (n + length (audio_of es)) \<and>
           pt_total_bytes p' = pt_total_bytes p + word_of_nat (length (concat (map ac_bytes (audio_of es)))) \<and>
           pt_input_kind p' = pt_input_kind p"
  using assms
proof (induction es arbitrary: p n)
  case Nil
  then show ?case by simp
next
  case (Cons e es)
  show ?case
  proof (cases e)
    case (TtsAudioEv chunk)
    let ?p = "p\<lparr>pt_sequence := word_of_nat (Suc n), pt_total_chunks := word_of_nat (Suc n),
                 pt_total_bytes := pt_total_bytes p + word_of_nat (length (ac_bytes chunk))\<rparr>"
    have step: "tts_pump_step b64 s e p = ([delta_message b64 s (Suc n, chunk)], True, ?p)"
      using TtsAudioEv Cons.prems by (simp add: Let_def delta_message_def add.commute)
    have own: "stream_session (delta_message b64 s (Suc n, chunk)) = Some s"
      by (simp add: delta_message_def)
    have "\<forall>e \<in> set es. \<forall>r. e \<noteq> TtsEndedEv r" using Cons.prems(1) by simp
    from Cons.IH [OF this, of ?p "Suc n"] step own TtsAudioEv show ?thesis
      by (auto simp: add.assoc simp del: of_nat_Suc)
  next
    case (TtsEndedEv r)
    with Cons.prems(1) show ?thesis by simp
  next
    case (TtsErrorEv m)
    have "\<forall>e \<in> set es. \<forall>r. e \<noteq> TtsEndedEv r" using Cons.prems(1) by simp
    from Cons.IH [OF this Cons.prems(2,3)] TtsErrorEv show ?thesis
      by (auto simp: provider_error_message_def)
  qed
qed

lemma run_pump_append:
  "run_pump step st es = (ms, True, st1) \<Longrightarrow>
     run_pump step st (es @ fs) = (case run_pump step st1 fs of (ns, r, st2) \<Rightarrow> (ms @ ns, r, st2))"
  by (induction es arbitrary: st ms) (auto split: prod.splits bool.splits)

text \<open>A synthesis session that ends reports exactly what it delivered: the client gets the
  audio chunks numbered 1, 2, ..., with errors in between not counted, then one closing message with
  the next sequence number, the number of chunks and the sum of their bytes (as 64-bit words), then the
  end of the session with the provider's reason; whatever the provider emits afterwards is not relayed.\<close>

lemma tts_stream_totals:
  assumes "\<forall>e \<in> set es. \<forall>r. e \<noteq> TtsEndedEv r"
  shows "stream_of s (fst (run_pump (tts_pump_step b64 s) (tts_pump_new kind) (es @ TtsEndedEv reason # rest))) =
           map (delta_message b64 s) (enumerate 1 (audio_of es)) @
           [STtsAudioDone s (word_of_nat (Suc (length (audio_of es))))
              \<lparr>tdp_input_kind = kind, tdp_total_chunks = word_of_nat (length (audio_of es)),
               tdp_total_bytes = word_of_nat (length (concat (map ac_bytes (audio_of es))))\<rparr>,
            SSessionEnded s reason]"
proof -
  have "pt_sequence (tts_pump_new kind) = word_of_nat 0" "pt_total_chunks (tts_pump_new kind) = word_of_nat 0"
    by (simp_all add: tts_pump_new_def)
  from tts_pump_audio [OF assms this, of b64 s] obtain ms p' where
    run: "run_pump (tts_pump_step b64 s) (tts_pump_new kind) es = (ms, True, p')"
    and p': "stream_of s ms = map (delta_message b64 s) (enumerate 1 (audio_of es))"
      "pt_sequence p' = word_of_nat (length (audio_of es))"
      "pt_total_chunks p' = word_of_nat (length (audio_of es))"
      "pt_total_bytes p' = word_of_nat (length (concat (map ac_bytes (audio_of es))))"
      "pt_input_kind p' = kind"
    by (auto simp: tts_pump_new_def)
  show ?thesis
    by (simp add: run_pump_append [OF run] p' Let_def add.commute)
qed

fun event_text :: "bridge_asr_event \<Rightarrow> string option" where
  "event_text (AsrPartialEv t) = Some t"
| "event_text (AsrFinalEv tr) = Some (tr_text tr)"
| "event_text _ = None"

definition texts_of :: "bridge_asr_event list \<Rightarrow> string list" where
  "texts_of es = List.map_filter event_text es"

definition last_text :: "bridge_asr_event list \<Rightarrow> string" where
  "last_text es = (if texts_of es = [] then [] else last (texts_of es))"

lemma texts_of_simps [simp]:
  "texts_of [] = []"
  "texts_of (es @ [e]) = texts_of es @ (case event_text e of Some t \<Rightarrow> [t] | None \<Rightarrow> [])"
  by (simp_all add: texts_of_def List.map_filter_def split: option.split)

text \<open>The variables of an ASR relay are a function of the events before.\<close>

definition asr_pump_after :: "bridge_asr_event list \<Rightarrow> asr_pump" where
  "asr_pump_after es =
     \<lparr>pa_sequence = word_of_nat (length es), pa_revision = word_of_nat (length (texts_of es)),
      pa_previous = last_text es\<rparr>"

lemma asr_pump_after_step:
  "\<exists>m. asr_pump_step s e (asr_pump_after es) = ([m], True, asr_pump_after (es @ [e]))"
  by (cases e) (simp_all add: asr_pump_after_def Let_def last_text_def add.commute)

lemma asr_pump_runs:
  "\<exists>ms. run_pump (asr_pump_step s) asr_pump_new es = (ms, True, asr_pump_after es) \<and> length ms = length es \<and>
     (\<forall>i < length es. asr_pump_step s (es ! i) (asr_pump_after (take i es)) =
        ([ms ! i], True, asr_pump_after (take (Suc i) es)))"
proof (induction es rule: rev_induct)
  case Nil
  then show ?case by (simp add: asr_pump_after_def asr_pump_new_def last_text_def)
next
  case (snoc e es)
  then obtain ms where ms: "run_pump (asr_pump_step s) asr_pump_new es = (ms, True, asr_pump_after es)"
    "length ms = length es"
    "\<forall>i < length es. asr_pump_step s (es ! i) (asr_pump_after (take i es)) =
       ([ms ! i], True, asr_pump_after (take (Suc i) es))" by blast
  obtain m where m: "asr_pump_step s e (asr_pump_after es) = ([m], True, asr_pump_after (es @ [e]))"
    using asr_pump_after_step by blast
  have "asr_pump_step s ((es @ [e]) ! i) (asr_pump_after (take i (es @ [e]))) =
      ([(ms @ [m]) ! i], True, asr_pump_after (take (Suc i) (es @ [e])))" if "i < length (es @ [e])" for i
  proof (cases "i = length es")
    case True
    with m ms(2) show ?thesis by (simp add: nth_append)
  next
    case False
    with that have "i < length es" by simp
    with ms(2,3) show ?thesis by (simp add: nth_append)
  qed
  with run_pump_snoc [where step = "asr_pump_step s", OF ms(1) m] ms(2) show ?case by auto
qed

text \<open>An ASR relay answers each event with one message, in order. The message of a partial or
  final text carries the position of the event as its sequence number, the number of texts so far as its
  revision, the text itself, and the difference to the text before it; only a final transcript is marked final.\<close>

lemma asr_results_numbered:
  assumes "run_pump (asr_pump_step s) asr_pump_new es = (ms, r, p)"
  shows "length ms = length es \<and>
    (\<forall>i < length es. \<forall>t. event_text (es ! i) = Some t \<longrightarrow>
       (\<exists>a. ms ! i = SAsrResult s (word_of_nat (Suc i)) a \<and> arp_text a = t \<and>
            arp_revision a = word_of_nat (length (texts_of (take (Suc i) es))) \<and>
            arp_delta a = compute_delta (last_text (take i es)) t \<and>
            arp_is_final a = (\<exists>tr. es ! i = AsrFinalEv tr)))"
proof -
  obtain ms' where ms': "run_pump (asr_pump_step s) asr_pump_new es = (ms', True, asr_pump_after es)"
    "length ms' = length es"
    "\<forall>i < length es. asr_pump_step s (es ! i) (asr_pump_after (take i es)) =
       ([ms' ! i], True, asr_pump_after (take (Suc i) es))" using asr_pump_runs by blast
  have "\<exists>a. ms' ! i = SAsrResult s (word_of_nat (Suc i)) a \<and> arp_text a = t \<and>
            arp_revision a = word_of_nat (length (texts_of (take (Suc i) es))) \<and>
            arp_delta a = compute_delta (last_text (take i es)) t \<and>
            arp_is_final a = (\<exists>tr. es ! i = AsrFinalEv tr)"
    if i: "i < length es" and t: "event_text (es ! i) = Some t" for i t
  proof -
    have "ms' ! i = hd (fst (asr_pump_step s (es ! i) (asr_pump_after (take i es))))"
      using ms'(3) i by simp
    with t i show ?thesis
      by (cases "es ! i") (simp_all add: asr_pump_after_def Let_def take_Suc_conv_app_nth add.commute)
  qed
  with ms' assms show ?thesis by simp
qed

definition delta_of :: "server_message \<Rightarrow> string" where
  "delta_of m = (case m of SAsrResult _ _ a \<Rightarrow> unwrap_or (arp_delta a) [] | _ \<Rightarrow> [])"

lemma compute_delta_append:
  "prefix previous current \<Longrightarrow> previous @ unwrap_or (compute_delta previous current) [] = current"
  by (auto simp: compute_delta_def prefix_def)

lemma run_pump_prev:
  assumes "run_pump (asr_pump_step s) p es = (ms, r, p')"
    and "sorted_wrt prefix (pa_previous p # texts_of es)"
  shows "pa_previous p @ concat (map delta_of ms) = last (pa_previous p # texts_of es)"
  using assms
proof (induction es arbitrary: p ms r p')
  case Nil
  then show ?case by simp
next
  case (Cons e es)
  obtain m p1 where step: "asr_pump_step s e p = ([m], True, p1)"
    "pa_previous p1 = unwrap_or (event_text e) (pa_previous p)"
    "delta_of m = (case event_text e of Some t \<Rightarrow> unwrap_or (compute_delta (pa_previous p) t) [] | None \<Rightarrow> [])"
    by (cases e) (auto simp: Let_def delta_of_def provider_error_message_def)
  obtain ms1 r1 p2 where rest: "run_pump (asr_pump_step s) p1 es = (ms1, r1, p2)" by (metis prod_cases3)
  have ms: "ms = m # ms1" using Cons.prems(1) step(1) rest by simp
  have texts: "texts_of (e # es) = (case event_text e of Some t \<Rightarrow> t # texts_of es | None \<Rightarrow> texts_of es)"
    by (simp add: texts_of_def List.map_filter_def split: option.split)
  show ?case
  proof (cases "event_text e")
    case None
    with Cons.IH [OF rest] Cons.prems(2) step ms texts show ?thesis by simp
  next
    case (Some t)
    then have "prefix (pa_previous p) t" using Cons.prems(2) texts by simp
    from compute_delta_append [OF this] Some Cons.IH [OF rest] Cons.prems(2) step ms texts
    show ?thesis by (simp flip: append_assoc)
  qed
qed

text \<open>A client that appends deltas keeps the text of the session while texts only grow: if each
  text of a session extends the one before it, the deltas the relay sends, appended, are the last text.\<close>

lemma deltas_rebuild_text:
  assumes "run_pump (asr_pump_step s) asr_pump_new es = (ms, r, p)" and "sorted_wrt prefix (texts_of es)"
  shows "concat (map delta_of ms) = last_text es"
  using run_pump_prev [OF assms(1)] assms(2)
  by (auto simp: asr_pump_new_def last_text_def)

section \<open>The one active session\<close>

text \<open>C31: While a session is active, a second start is refused, and so is every message for another
  session id, both without any effect on the connection.\<close>

theorem session_guards:
  assumes "cc_active c = Some a"
  shows "handle_client_message br (CAsrStart rid req) c = (Err (Unsupported ''one active session per connection''), c) \<and>
         handle_client_message br (CTtsStart rid req') c = (Err (Unsupported ''one active session per connection''), c) \<and>
         (s \<noteq> active_session_id a \<longrightarrow>
            (\<forall>m \<in> {CAsrCommit s, CTtsInputAppend s delta, CTtsCommit s, CSessionStop s, CSessionCancel s}.
               \<exists>e. handle_client_message br m c = (Err e, c)))"
  using assms by (cases a; simp add: handle_asr_start_def handle_tts_start_def handle_session_stop_def)

definition demo_asr_session :: asr_session where
  "demo_asr_session =
     \<lparr>as_id = SessionId 7, as_provider_id = ''p'', as_accepted_input_format = audio_format_pcm_s16le 16000 1,
      as_input_mode = Streaming, as_output_mode = Streaming\<rparr>"

definition demo_asr_handle :: asr_handle where
  "demo_asr_handle = \<lparr>ah_session = demo_asr_session, ah_command_tx = 1, ah_event_rx = Some 2\<rparr>"

definition demo_tts_handle :: tts_handle where
  "demo_tts_handle =
     \<lparr>th_session = \<lparr>ts_id = SessionId 8, ts_provider_id = ''t'', ts_accepted_output_format = None,
        ts_input_mode = Buffered, ts_output_mode = Buffered\<rparr>,
      th_input_kind = TextInput, th_command_tx = 3, th_event_rx = Some 4\<rparr>"

definition demo_bridges :: bridges where
  "demo_bridges =
     \<lparr>br_server_name = ''gw'', br_asr_descriptors = [], br_asr_start = (\<lambda>_. Ok demo_asr_handle),
      br_tts = Some \<lparr>tsv_descriptors = [], tsv_list_voices = (\<lambda>_. Ok []), tsv_start = (\<lambda>_. Ok demo_tts_handle)\<rparr>\<rparr>"

definition demo_active :: client_conn where
  "demo_active = client_conn_new\<lparr>cc_active := Some (ActiveAsr (SessionId 7) demo_asr_handle)\<rparr>"

theorem session_guards_witness:
  "\<exists>e. handle_client_message demo_bridges (CSessionStop (SessionId 9)) demo_active = (Err e, demo_active)"
  using session_guards [of demo_active "ActiveAsr (SessionId 7) demo_asr_handle" demo_bridges
      "RequestId []" undefined undefined "SessionId 9" "[]"]
  by (simp add: demo_active_def)

text \<open>The provider of the active session no longer takes commands.\<close>

definition active_gone :: "client_conn \<Rightarrow> bool" where
  "active_gone c =
     (case cc_active c of
        Some (ActiveAsr _ h) \<Rightarrow> ah_command_tx h \<in> net_closed (cc_asr_cmds c)
      | Some (ActiveTts _ h) \<Rightarrow> th_command_tx h \<in> net_closed (cc_tts_cmds c)
      | None \<Rightarrow> False)"

definition net_closed_grow :: "client_conn \<Rightarrow> client_conn \<Rightarrow> bool" where
  "net_closed_grow c c' \<longleftrightarrow>
     net_closed (cc_asr_cmds c) \<subseteq> net_closed (cc_asr_cmds c') \<and>
     net_closed (cc_tts_cmds c) \<subseteq> net_closed (cc_tts_cmds c')"

lemma active_gone_stays:
  "active_gone c \<Longrightarrow> cc_active c' = cc_active c \<Longrightarrow> net_closed_grow c c' \<Longrightarrow> active_gone c'"
  by (auto simp: active_gone_def net_closed_grow_def split: option.splits active_session.splits)

lemma stop_gone:
  "active_gone c \<Longrightarrow> cc_active c = Some a \<Longrightarrow>
     stop_active a c = (Err (BridgeFailure command_channel_closed), c)"
  by (cases a) (auto simp: active_gone_def on_asr_cmds_def on_tts_cmds_def handle_ops
      split: sum.splits option.splits)

lemma cmds_grow: 
  "net_closed_grow c (snd (on_asr_cmds (asr_commit h) c))"
  "net_closed_grow c (snd (on_asr_cmds (asr_push_audio h bs) c))"
  "net_closed_grow c (snd (on_tts_cmds (tts_append_input th d) c))"
  "net_closed_grow c (snd (on_tts_cmds (tts_commit th) c))"
  by (auto simp: net_closed_grow_def on_asr_cmds_def on_tts_cmds_def handle_ops split: sum.splits
      dest!: net_send_Some)

lemma net_closed_grow_refl [simp]: "net_closed_grow c c"
  by (simp add: net_closed_grow_def)

lemma message_gone:
  assumes "active_gone c"
  shows "cc_active (snd (handle_client_message br m c)) = cc_active c \<and>
         net_closed_grow c (snd (handle_client_message br m c))"
proof -
  obtain a where a: "cc_active c = Some a" using assms by (auto simp: active_gone_def split: option.splits)
  note stop = stop_gone [OF assms a]
  have reply: "net_closed_grow c (snd (reply x c))" for x by (simp add: net_closed_grow_def)
  show ?thesis
    by (cases m) (auto simp: a stop reply cmds_grow handle_asr_start_def handle_tts_start_def
        handle_session_stop_def split: option.split sum.split)
qed

lemma frame_gone:
  assumes gone: "active_gone c" and step: "client_frame br f c = Inr c'"
  shows "cc_active c' = cc_active c \<and> net_closed_grow c c'"
proof -
  have err: "net_closed_grow x (send_error rid s e y) = net_closed_grow x y" for x rid s e y
    by (simp add: net_closed_grow_def)
  show ?thesis
  proof (cases f)
    case (TextFrame x)
    show ?thesis
    proof (cases x)
      case (Inl e)
      with TextFrame step show ?thesis by (auto simp: err)
    next
      case (Inr m)
      obtain r c1 where m: "handle_client_message br m c = (r, c1)" by fastforce
      with message_gone [OF gone, of br m] have "cc_active c1 = cc_active c" "net_closed_grow c c1" by simp_all
      with TextFrame Inr step m show ?thesis by (cases r) (auto simp: err)
    qed
  next
    case (BinaryFrame bs)
    then have c': "c' = binary_frame bs c" using step by simp
    obtain a where a: "cc_active c = Some a" using gone by (auto simp: active_gone_def split: option.splits)
    show ?thesis
    proof (cases a)
      case (ActiveAsr s h)
      obtain r c1 where r: "on_asr_cmds (asr_push_audio h bs) c = (r, c1)" by fastforce
      then have "cc_active c1 = cc_active c" "net_closed_grow c c1"
        using cmds_frames(3) [of "asr_push_audio h bs" c] cmds_grow(2) [of c h bs] by simp_all
      with a ActiveAsr r show ?thesis unfolding c' by (cases r) (simp_all add: binary_frame_def err)
    next
      case (ActiveTts s h)
      with a show ?thesis unfolding c' by (simp add: binary_frame_def err)
    qed
  next
    case (PingFrame bs)
    with step show ?thesis by (auto simp: out_post_effect net_closed_grow_def)
  qed (use step in auto)
qed

lemma step_gone:
  assumes "client_step b64 c c'" "active_gone c"
  shows "cc_active c' = cc_active c \<and> active_gone c'"
  using assms(1)
proof (cases rule: client_step.cases)
  case (step_frame br f)
  with frame_gone [OF assms(2)] active_gone_stays [OF assms(2)] show ?thesis by blast
next
  case (step_send i m ms c1)
  with out_send_effect [OF step_send(4)] assms(2) show ?thesis
    by (auto simp: active_gone_def split: option.splits active_session.splits)
qed (use assms(2) in \<open>auto simp: active_gone_def split: option.splits active_session.splits\<close>)

text \<open>A session whose provider is gone blocks its connection for good: once the command channel of
  the active session is closed, as it is after the provider has ended the session by itself, no later step
  changes the active session, a stop is answered with an error, and every start is refused.\<close>

lemma ended_session_blocks_connection:
  assumes "(client_step b64)\<^sup>*\<^sup>* c c'" and "active_gone c"
  shows "cc_active c' = cc_active c \<and>
         (\<exists>e. handle_client_message br (CSessionStop s) c' = (Err e, c')) \<and>
         (\<exists>e. handle_client_message br (CAsrStart rid req) c' = (Err e, c'))"
proof -
  have "cc_active c' = cc_active c \<and> active_gone c'"
    using assms by (induction rule: rtranclp_induct) (use step_gone in auto)
  then obtain a where a: "active_gone c'" "cc_active c' = Some a" "cc_active c = Some a"
    by (auto simp: active_gone_def split: option.splits)
  show ?thesis
    using stop_gone [OF a(1,2)] a(2,3) by (simp add: handle_session_stop_def handle_asr_start_def)
qed

section \<open>Disconnecting\<close>

definition stopped_by_close :: "client_conn \<Rightarrow> client_conn \<Rightarrow> bool" where
  "stopped_by_close c c' \<longleftrightarrow>
     (case cc_active c of
        Some (ActiveAsr _ h) \<Rightarrow> ah_command_tx h \<notin> net_closed (cc_asr_cmds c) \<longrightarrow>
          sent_on (ah_command_tx h) (cc_asr_cmds c') = sent_on (ah_command_tx h) (cc_asr_cmds c) @ [AsrStopCmd]
      | Some (ActiveTts _ h) \<Rightarrow> th_command_tx h \<notin> net_closed (cc_tts_cmds c) \<longrightarrow>
          sent_on (th_command_tx h) (cc_tts_cmds c') = sent_on (th_command_tx h) (cc_tts_cmds c) @ [TtsStopCmd]
      | None \<Rightarrow> c' = c)"

lemma close_client_stops: "cc_active (close_client c) = None \<and> stopped_by_close c (close_client c)"
proof (cases "cc_active c")
  case None
  then show ?thesis by (simp add: close_client_def stopped_by_close_def)
next
  case (Some a)
  then show ?thesis
    by (cases a) (auto simp: close_client_def stopped_by_close_def on_asr_cmds_def on_tts_cmds_def handle_ops
        net_send_def sent_on_def split: sum.splits option.splits)
qed

text \<open>The connection after a list of frames that the loop survives.\<close>

fun run_frames ::
  "(bridges \<times> (client_conn \<Rightarrow> client_conn) \<times> client_message frame) list \<Rightarrow> client_conn \<Rightarrow> client_conn option" where
  "run_frames [] c = Some c"
| "run_frames ((br, others, f) # fs) c =
     (case client_frame br f (others c) of Inl _ \<Rightarrow> None | Inr c1 \<Rightarrow> run_frames fs c1)"

lemma websocket_after_frames:
  "run_frames evs c = Some c1 \<Longrightarrow> handle_client_websocket (evs @ fs) c = handle_client_websocket fs c1"
  by (induction evs arbitrary: c) (auto split: sum.splits)

text \<open>A client connection that ends with a close frame or the end of the stream leaves no active
  session: the last thing it does is to send a stop to the session that was active, if the provider still
  takes commands. A failed read instead leaves the session as it was.\<close>

lemma disconnect_stops_session:
  assumes "run_frames evs c = Some c1"
  shows "(\<exists>c'. handle_client_websocket evs c = (Ok (), c') \<and> cc_active c' = None \<and> stopped_by_close c1 c') \<and>
         (\<exists>c'. handle_client_websocket (evs @ [(br, others, CloseFrame)]) c = (Ok (), c') \<and>
               cc_active c' = None \<and> stopped_by_close (others c1) c') \<and>
         (\<exists>e'. handle_client_websocket (evs @ [(br, others, ReadError e)]) c = (Err e', others c1))"
  using websocket_after_frames [OF assms, of "[]"] websocket_after_frames [OF assms] close_client_stops
  by simp

section \<open>A run of a connection\<close>

text \<open>A start, the events of its provider and the messages of its relay, for each kind of session.\<close>

definition demo_asr_request :: asr_stream_request where
  "demo_asr_request =
     \<lparr>asq_provider = selector_default, asq_input_format = audio_format_pcm_s16le 16000 1,
      asq_options = \<lparr>ro_language = None, ro_hints = [], ro_interim_results = True, ro_timestamps = False,
        ro_punctuation = False, ro_prefer_on_device = False, ro_provider_options = JNull\<rparr>\<rparr>"

definition demo_tts_request :: tts_stream_request where
  "demo_tts_request =
     \<lparr>tsq_provider = selector_default, tsq_input_kind = TextInput, tsq_output_format = None,
      tsq_options = \<lparr>so_language = None, so_voice = None, so_stream = False, so_rate = None, so_pitch = None,
        so_volume = None, so_provider_options = JNull\<rparr>\<rparr>"

definition demo_relay :: "session_id \<Rightarrow> relay_state \<Rightarrow> relay" where
  "demo_relay s st = \<lparr>rl_session = s, rl_start = st, rl_state = st, rl_consumed = [], rl_pending = [],
                      rl_running = True, rl_failed = False\<rparr>"

lemma fresh_new: "fresh_bridges br client_conn_new"
  by (simp add: fresh_bridges_def session_ids_def client_conn_new_def)

text \<open>One event of the only relay, taken and sent.\<close>

lemma reach_relay_event:
  assumes reach: "client_reachable b64 c" and one: "cc_relays c = [rl]"
    and idle: "rl_running rl" "rl_pending rl = []"
    and step: "relay_step b64 (rl_session rl) e (rl_state rl) = Some ([m], r, st)"
    and writer: "\<not> cc_writer_gone c"
  shows "client_reachable b64
           (c\<lparr>cc_sent := cc_sent c @ [m],
             cc_relays := [rl\<lparr>rl_state := st, rl_consumed := rl_consumed rl @ [e], rl_running := r, rl_pending := []\<rparr>]\<rparr>)"
proof -
  let ?rl = "rl\<lparr>rl_state := st, rl_consumed := rl_consumed rl @ [e], rl_pending := [m], rl_running := r\<rparr>"
  have take: "relay_take b64 e (cc_relays c ! 0) = Some ?rl"
    using one idle step by (simp add: relay_take_def)
  have c1: "client_reachable b64 (c\<lparr>cc_relays := [?rl]\<rparr>)" (is "client_reachable b64 ?c1")
    using reach_step [OF reach step_take [where i = 0, OF _ take]] one by simp
  have send: "out_send m ?c1 = Some (?c1\<lparr>cc_sent := cc_sent c @ [m]\<rparr>)"
    using writer by (simp add: out_send_def)
  have "0 < length (cc_relays ?c1)" "rl_pending (cc_relays ?c1 ! 0) = m # []" by simp_all
  from reach_step [OF c1 step_send [OF this send]] show ?thesis by simp
qed

lemma demo_asr_started:
  "\<exists>c. client_reachable b64 c \<and> cc_relays c = [demo_relay (SessionId 7) (AsrRelay asr_pump_new)] \<and>
       \<not> cc_writer_gone c"
proof -
  have "client_frame demo_bridges (TextFrame (Inr (CAsrStart (RequestId ''r'') demo_asr_request))) client_conn_new =
      Inr (snd (handle_client_message demo_bridges (CAsrStart (RequestId ''r'') demo_asr_request) client_conn_new))"
    by (simp add: handle_asr_start_def client_conn_new_def demo_bridges_def demo_asr_handle_def
        asr_take_event_rx_def Let_def out_send_def spawn_relay_def)
  from reach_step [OF reach_new step_frame [OF fresh_new this]] show ?thesis
    by (intro exI conjI, assumption)
      (simp_all add: handle_asr_start_def client_conn_new_def demo_bridges_def demo_asr_handle_def
        asr_take_event_rx_def Let_def out_send_def spawn_relay_def demo_relay_def demo_asr_session_def)
qed

lemma demo_tts_started:
  "\<exists>c. client_reachable b64 c \<and> cc_relays c = [demo_relay (SessionId 8) (TtsRelay (tts_pump_new TextInput))] \<and>
       \<not> cc_writer_gone c"
proof -
  have "client_frame demo_bridges (TextFrame (Inr (CTtsStart (RequestId ''r'') demo_tts_request))) client_conn_new =
      Inr (snd (handle_client_message demo_bridges (CTtsStart (RequestId ''r'') demo_tts_request) client_conn_new))"
    by (simp add: handle_tts_start_def client_conn_new_def demo_bridges_def demo_tts_handle_def
        tts_take_event_rx_def Let_def out_send_def spawn_relay_def)
  from reach_step [OF reach_new step_frame [OF fresh_new this]] show ?thesis
    by (intro exI conjI, assumption)
      (simp_all add: handle_tts_start_def client_conn_new_def demo_bridges_def demo_tts_handle_def
        tts_take_event_rx_def Let_def out_send_def spawn_relay_def demo_relay_def)
qed

theorem asr_stream_faithful_witness:
  "\<exists>c rl es. client_reachable (\<lambda>_. []) c \<and> rl \<in> set (cc_relays c) \<and> rl_consumed rl = map AsrRelayEv es \<and> es \<noteq> [] \<and>
     stream_of (SessionId 7) (cc_sent c) =
       stream_of (SessionId 7) (fst (run_pump (asr_pump_step (SessionId 7)) asr_pump_new es))"
proof -
  let ?rl0 = "demo_relay (SessionId 7) (AsrRelay asr_pump_new)"
  obtain c where c: "client_reachable (\<lambda>_. []) c" "cc_relays c = [?rl0]" "\<not> cc_writer_gone c"
    using demo_asr_started by blast
  have "\<exists>m st. relay_step (\<lambda>_. []) (rl_session ?rl0) (AsrRelayEv (AsrPartialEv ''a'')) (rl_state ?rl0) = Some ([m], True, st)"
    by (simp add: demo_relay_def Let_def)
  then obtain m st where
    "relay_step (\<lambda>_. []) (rl_session ?rl0) (AsrRelayEv (AsrPartialEv ''a'')) (rl_state ?rl0) = Some ([m], True, st)" by blast
  note reach = reach_relay_event [OF c(1,2) _ _ this c(3)]
  let ?rl = "?rl0\<lparr>rl_state := st, rl_consumed := rl_consumed ?rl0 @ [AsrRelayEv (AsrPartialEv ''a'')], rl_running := True, rl_pending := []\<rparr>"
  obtain c' where c': "client_reachable (\<lambda>_. []) c'" "cc_relays c' = [?rl]"
    using reach by (simp add: demo_relay_def)
  have "?rl \<in> set (cc_relays c')" "rl_start ?rl = AsrRelay asr_pump_new" using c'(2) by (simp_all add: demo_relay_def)
  note faithful = asr_stream_faithful [OF c'(1) this, unfolded Let_def]
  then obtain es where es: "rl_consumed ?rl = map AsrRelayEv es"
    "\<not> rl_failed ?rl \<and> rl_pending ?rl = [] \<longrightarrow> stream_of (rl_session ?rl) (cc_sent c') =
       stream_of (rl_session ?rl) (fst (run_pump (asr_pump_step (rl_session ?rl)) asr_pump_new es))" by blast
  have "es \<noteq> []" using es(1) by auto
  moreover have "\<not> rl_failed ?rl" "rl_pending ?rl = []" "rl_session ?rl = SessionId 7"
    by (simp_all add: demo_relay_def)
  ultimately show ?thesis
    using c' es by (intro exI [of _ c'] exI [of _ ?rl] exI [of _ es]) simp
qed

theorem tts_stream_faithful_witness:
  "\<exists>c rl es. client_reachable (\<lambda>_. []) c \<and> rl \<in> set (cc_relays c) \<and> rl_consumed rl = map TtsRelayEv es \<and> es \<noteq> [] \<and>
     stream_of (SessionId 8) (cc_sent c) =
       stream_of (SessionId 8) (fst (run_pump (tts_pump_step (\<lambda>_. []) (SessionId 8)) (tts_pump_new TextInput) es))"
proof -
  let ?rl0 = "demo_relay (SessionId 8) (TtsRelay (tts_pump_new TextInput))"
  obtain c where c: "client_reachable (\<lambda>_. []) c" "cc_relays c = [?rl0]" "\<not> cc_writer_gone c"
    using demo_tts_started by blast
  have "\<exists>m st. relay_step (\<lambda>_. []) (rl_session ?rl0) (TtsRelayEv (TtsErrorEv ''a'')) (rl_state ?rl0) = Some ([m], True, st)"
    by (simp add: demo_relay_def Let_def)
  then obtain m st where
    "relay_step (\<lambda>_. []) (rl_session ?rl0) (TtsRelayEv (TtsErrorEv ''a'')) (rl_state ?rl0) = Some ([m], True, st)" by blast
  note reach = reach_relay_event [OF c(1,2) _ _ this c(3)]
  let ?rl = "?rl0\<lparr>rl_state := st, rl_consumed := rl_consumed ?rl0 @ [TtsRelayEv (TtsErrorEv ''a'')], rl_running := True, rl_pending := []\<rparr>"
  obtain c' where c': "client_reachable (\<lambda>_. []) c'" "cc_relays c' = [?rl]"
    using reach by (simp add: demo_relay_def)
  have "?rl \<in> set (cc_relays c')" "rl_start ?rl = TtsRelay (tts_pump_new TextInput)" using c'(2) by (simp_all add: demo_relay_def)
  note faithful = tts_stream_faithful [OF c'(1) this, unfolded Let_def]
  then obtain es where es: "rl_consumed ?rl = map TtsRelayEv es"
    "\<not> rl_failed ?rl \<and> rl_pending ?rl = [] \<longrightarrow> stream_of (rl_session ?rl) (cc_sent c') =
       stream_of (rl_session ?rl) (fst (run_pump (tts_pump_step (\<lambda>_. []) (rl_session ?rl)) (tts_pump_new TextInput) es))" by blast
  have "es \<noteq> []" using es(1) by auto
  moreover have "\<not> rl_failed ?rl" "rl_pending ?rl = []" "rl_session ?rl = SessionId 8"
    by (simp_all add: demo_relay_def)
  ultimately show ?thesis
    using c' es by (intro exI [of _ c'] exI [of _ ?rl] exI [of _ es]) simp
qed

end
