(* ===== verification/Control.thy ===== *)
theory Control
  imports AgentHubInv
begin

text \<open>
  The control endpoint of the gateway, \<^verbatim>\<open>speechmeshd/src/server.rs\<close>: play-audio requests, the
  device list, the status of an agent and the frame loop of \<^verbatim>\<open>/control\<close>. A request runs over the
  agent hub; before each use of it, and between the locks of the call that starts a task, other tasks may use it, which
  is the parameter \<open>others\<close> of the request, indexed by the order of these points: 0 and 1 before the subscription
  and the start, 2 to 4 within the start, 5 before the clean-up of a failed start or the first chunk, and so on.
\<close>

section \<open>Definitions\<close>

text \<open>The task counter is a process-wide atomic; \<^verbatim>\<open>fetch_add\<close> wraps.\<close>

definition next_control_task_id :: "u64 \<Rightarrow> string \<times> u64" where
  "next_control_task_id counter = (''play-audio-'' @ show_nat (unat counter), counter + 1)"

definition control_task_id :: "string option \<Rightarrow> u64 \<Rightarrow> string \<times> u64" where
  "control_task_id requested counter =
     (case opt_filter (\<lambda>v. v \<noteq> []) (map_option trim requested) of
        Some t \<Rightarrow> (t, counter)
      | None \<Rightarrow> next_control_task_id counter)"

definition control_chunk_size :: "nat option \<Rightarrow> nat" where
  "control_chunk_size requested = unwrap_or (opt_filter (\<lambda>v. v > 0) requested) (16 * 1024)"

text \<open>How the wait of at most 30 seconds for the task's outcome ends.\<close>

datatype wait_outcome = TaskAnswered task_wait_result | WaiterDropped | WaitTimeout

record play_env =
  pe_orders :: hash_orders
  pe_waiter :: nat
  pe_others :: "nat \<Rightarrow> hub \<Rightarrow> hub"
  pe_wait :: "hub \<Rightarrow> wait_outcome \<times> hub"

fun play_chunks ::
  "(bytes \<Rightarrow> string) \<Rightarrow> (nat \<Rightarrow> hub \<Rightarrow> hub) \<Rightarrow> string \<Rightarrow> nat \<Rightarrow> bytes list \<Rightarrow> hub
     \<Rightarrow> (bridge_error + unit) \<times> hub" where
  "play_chunks b64 others t k [] h = (Ok (), h)"
| "play_chunks b64 others t k (c # cs) h =
     (case route_play_audio_chunk t (b64 c) (others k h) of
        (Inl e, h1) \<Rightarrow> (Err e, h1)
      | (Inr _, h1) \<Rightarrow> play_chunks b64 others t (Suc k) cs h1)"

definition play_request :: "string \<Rightarrow> control_play_audio \<Rightarrow> play_audio_route_request" where
  "play_request t payload =
     \<lparr>par_task_id = t, par_device_id = cpa_device_id payload,
      par_output_target = cpa_output_target payload, par_agent_id = cpa_agent_id payload,
      par_format = cpa_format payload\<rparr>"

text \<open>From the subscription to the finish.\<close>

definition play_audio_transfer ::
  "(bytes \<Rightarrow> string) \<Rightarrow> play_env \<Rightarrow> string \<Rightarrow> control_play_audio \<Rightarrow> bytes \<Rightarrow> hub
     \<Rightarrow> (bridge_error + string) \<times> hub" where
  "play_audio_transfer b64 env t payload bytes h =
     (let h1 = subscribe_task_waiter t (pe_waiter env) (pe_others env 0 h)
      in (case route_play_audio_start (pe_orders env) (\<lambda>k. pe_others env (2 + k)) (play_request t payload)
               (pe_others env 1 h1) of
            (Inl e, h2) \<Rightarrow> (Err e, remove_task_waiter t (pe_others env 5 h2))
          | (Inr aid, h2) \<Rightarrow>
              (let parts = chunks (control_chunk_size (cpa_chunk_size_bytes payload)) bytes
               in (case play_chunks b64 (pe_others env) t 5 parts h2 of
                     (Inl e, h3) \<Rightarrow> (Err e, h3)
                   | (Inr _, h3) \<Rightarrow>
                       (case route_play_audio_finish t (pe_others env (5 + length parts) h3) of
                          (Inl e, h4) \<Rightarrow> (Err e, h4)
                        | (Inr _, h4) \<Rightarrow> (Ok aid, h4))))))"

definition play_audio_outcome :: "string \<Rightarrow> wait_outcome \<Rightarrow> hub \<Rightarrow> (bridge_error + unit) \<times> hub" where
  "play_audio_outcome t outcome h =
     (case outcome of
        TaskAnswered (Inr _) \<Rightarrow> (Ok (), h)
      | TaskAnswered (Inl e) \<Rightarrow> (Err e, h)
      | WaiterDropped \<Rightarrow>
          (Err (Disconnected (''task waiter dropped before playback completed: '' @ t)), h)
      | WaitTimeout \<Rightarrow>
          (Err (Unavailable (''timed out waiting for playback completion: '' @ t)), remove_task_waiter t h))"

text \<open>The answer for the client, without the write to its socket. The second result is the counter.\<close>

definition handle_control_play_audio ::
  "(bytes \<Rightarrow> string) \<Rightarrow> (string \<Rightarrow> string + bytes) \<Rightarrow> play_env \<Rightarrow> control_play_audio \<Rightarrow> u64 \<Rightarrow> hub
     \<Rightarrow> (bridge_error + control_play_audio_accepted) \<times> u64 \<times> hub" where
  "handle_control_play_audio b64 b64d env payload counter h =
     (let (t, counter1) = control_task_id (cpa_task_id payload) counter
      in (case b64d (cpa_audio_base64 payload) of
            Inl e \<Rightarrow> (Err (ProtocolError (''invalid audio_base64 payload: '' @ e)), counter1, h)
          | Inr bytes \<Rightarrow>
              (if bytes = [] then (Err (ProtocolError ''play_audio payload is empty''), counter1, h)
               else
                 (case play_audio_transfer b64 env t payload bytes h of
                    (Inl e, h1) \<Rightarrow> (Err e, counter1, h1)
                  | (Inr aid, h1) \<Rightarrow>
                      (case pe_wait env h1 of
                         (outcome, h2) \<Rightarrow>
                           (case play_audio_outcome t outcome h2 of
                              (Inl e, h3) \<Rightarrow> (Err e, counter1, h3)
                            | (Inr _, h3) \<Rightarrow>
                                (Ok \<lparr>cac_task_id = t, cac_routed_agent_id = aid,
                                     cac_chunk_count = word_of_nat (length
                                       (chunks (control_chunk_size (cpa_chunk_size_bytes payload)) bytes)),
                                     cac_total_bytes = word_of_nat (length bytes)\<rparr>,
                                 counter1, h3)))))))"

definition handle_control_devices_list :: "hash_orders \<Rightarrow> hub \<Rightarrow> agent_snapshot list" where
  "handle_control_devices_list ords h = hub_snapshot ords snapshot_filter_default h"

text \<open>\<^verbatim>\<open>snapshot.pop()\<close>: the last one.\<close>

definition handle_control_agent_status ::
  "hash_orders \<Rightarrow> control_agent_status \<Rightarrow> hub \<Rightarrow> agent_snapshot option" where
  "handle_control_agent_status ords payload h =
     (let snapshot = hub_snapshot ords
            \<lparr>sf_agent_id = cas_agent_id payload, sf_device_id = cas_device_id payload\<rparr> h
      in (if snapshot = [] then None else Some (last snapshot)))"

section \<open>The frame loop\<close>

record control_state =
  cs_hub :: hub
  cs_counter :: u64
  cs_sent :: "control_response list"
  cs_broken :: "string option"

definition send_control :: "control_response \<Rightarrow> control_state \<Rightarrow> (bridge_error + unit) \<times> control_state" where
  "send_control m c =
     (case cs_broken c of
        Some e \<Rightarrow> (Err (IoError (''control write failed: '' @ e)), c)
      | None \<Rightarrow> (Ok (), c\<lparr>cs_sent := cs_sent c @ [m]\<rparr>))"

text \<open>\<^verbatim>\<open>if let Err(error) = ... { send_control_error(..).await?; }\<close>\<close>

definition or_report :: "(bridge_error + unit) \<times> control_state \<Rightarrow> (bridge_error + unit) \<times> control_state" where
  "or_report r =
     (case r of
        (Inl e, c) \<Rightarrow> send_control (ControlError (bridge_error_text e)) c
      | (Inr _, c) \<Rightarrow> (Ok (), c))"

definition control_play ::
  "(bytes \<Rightarrow> string) \<Rightarrow> (string \<Rightarrow> string + bytes) \<Rightarrow> play_env \<Rightarrow> control_play_audio \<Rightarrow> control_state
     \<Rightarrow> (bridge_error + unit) \<times> control_state" where
  "control_play b64 b64d env payload c =
     (case handle_control_play_audio b64 b64d env payload (cs_counter c) (cs_hub c) of
        (Inl e, counter, h) \<Rightarrow> (Err e, c\<lparr>cs_hub := h, cs_counter := counter\<rparr>)
      | (Inr accepted, counter, h) \<Rightarrow>
          send_control (PlayAudioAccepted accepted) (c\<lparr>cs_hub := h, cs_counter := counter\<rparr>))"

fun control_frame ::
  "(bytes \<Rightarrow> string) \<Rightarrow> (string \<Rightarrow> string + bytes) \<Rightarrow> play_env \<Rightarrow> control_request frame \<Rightarrow> control_state
     \<Rightarrow> (bridge_error option + unit) \<times> control_state" where
  "control_frame b64 b64d env CloseFrame c = (Inl None, c)"
| "control_frame b64 b64d env (ReadError e) c = (Inl (Some (IoError (''control read failed: '' @ e))), c)"
| "control_frame b64 b64d env (TextFrame (Inr (PlayAudio payload))) c =
     (case or_report (control_play b64 b64d env payload c) of
        (Inl e, c1) \<Rightarrow> (Inl (Some e), c1) | (Inr _, c1) \<Rightarrow> (Inr (), c1))"
| "control_frame b64 b64d env (TextFrame (Inr DevicesList)) c =
     (case or_report (send_control (DevicesListed (handle_control_devices_list (pe_orders env) (cs_hub c))) c) of
        (Inl e, c1) \<Rightarrow> (Inl (Some e), c1) | (Inr _, c1) \<Rightarrow> (Inr (), c1))"
| "control_frame b64 b64d env (TextFrame (Inr (AgentStatus payload))) c =
     (case or_report (send_control (AgentStatusResult
             (handle_control_agent_status (pe_orders env) payload (cs_hub c))) c) of
        (Inl e, c1) \<Rightarrow> (Inl (Some e), c1) | (Inr _, c1) \<Rightarrow> (Inr (), c1))"
| "control_frame b64 b64d env (TextFrame (Inl e)) c =
     (case send_control (ControlError (''invalid control payload: '' @ e)) c of
        (Inl err, c1) \<Rightarrow> (Inl (Some err), c1) | (Inr _, c1) \<Rightarrow> (Inr (), c1))"
| "control_frame b64 b64d env (PingFrame _) c =
     (case send_control ControlPong c of
        (Inl err, c1) \<Rightarrow> (Inl (Some err), c1) | (Inr _, c1) \<Rightarrow> (Inr (), c1))"
| "control_frame b64 b64d env (BinaryFrame _) c =
     (case send_control (ControlError ''binary frames are unsupported on /control'') c of
        (Inl err, c1) \<Rightarrow> (Inl (Some err), c1) | (Inr _, c1) \<Rightarrow> (Inr (), c1))"
| "control_frame b64 b64d env PongFrame c = (Inr (), c)"
| "control_frame b64 b64d env RawFrame c = (Inr (), c)"

fun handle_control_websocket ::
  "(bytes \<Rightarrow> string) \<Rightarrow> (string \<Rightarrow> string + bytes) \<Rightarrow> (play_env \<times> control_request frame) list
     \<Rightarrow> control_state \<Rightarrow> (bridge_error + unit) \<times> control_state" where
  "handle_control_websocket b64 b64d [] c = (Ok (), c)"
| "handle_control_websocket b64 b64d ((env, f) # fs) c =
     (case control_frame b64 b64d env f c of
        (Inl None, c1) \<Rightarrow> (Ok (), c1)
      | (Inl (Some e), c1) \<Rightarrow> (Err e, c1)
      | (Inr _, c1) \<Rightarrow> handle_control_websocket b64 b64d fs c1)"

section \<open>Lemmas\<close>

lemma graphic_show_nat: "list_all is_graphic (show_nat n)"
proof (induction n rule: show_nat.induct)
  case (1 n)
  have "is_graphic (digit_char d)" if "d < 10" for d
    using that by (auto simp: is_graphic_def digit_char_def Let_def)
  with 1 show ?case by (auto simp: show_nat.simps [of n])
qed

lemma control_task_id_trimmed: "trim (fst (control_task_id requested counter)) = fst (control_task_id requested counter)"
proof (cases "opt_filter (\<lambda>v. v \<noteq> []) (map_option trim requested)")
  case None
  have "list_all is_graphic (''play-audio-'' @ show_nat (unat counter))"
    using graphic_show_nat by (simp add: is_graphic_def Let_def)
  from trim_graphic [OF this] None show ?thesis
    by (simp only: control_task_id_def next_control_task_id_def option.case fst_conv)
next
  case (Some t)
  then have "\<exists>r. t = trim r" by (cases requested) (auto split: if_splits)
  with Some show ?thesis by (auto simp: control_task_id_def)
qed

definition task_log :: "string \<Rightarrow> nat \<Rightarrow> hub \<Rightarrow> gateway_to_agent list" where
  "task_log t tx h = filter (about_task t) (sent_on tx (hub_cmds h))"

definition task_routed :: "string \<Rightarrow> string \<Rightarrow> nat \<Rightarrow> hub \<Rightarrow> bool" where
  "task_routed t aid tx h \<longleftrightarrow>
     hub_task_agent_id t h = Some aid \<and> reg_agent_command_tx aid (hub_registry h) = Some tx"

text \<open>What others do to the task: they may end it or remove its agent, but neither move it to
  another channel nor send anything about it.\<close>

definition leaves_task :: "string \<Rightarrow> string \<Rightarrow> nat \<Rightarrow> (hub \<Rightarrow> hub) \<Rightarrow> bool" where
  "leaves_task t aid tx f \<longleftrightarrow>
     (\<forall>h. task_log t tx (f h) = task_log t tx h \<and>
          (task_routed t aid tx h \<longrightarrow>
             task_routed t aid tx (f h) \<or> (\<nexists>aid' tx'. task_routed t aid' tx' (f h))))"

lemma task_send:
  assumes "send_command tx m h = Some h'" "about_task t m"
  shows "task_log t tx h' = task_log t tx h @ [m]"
    and "task_routed t aid tx' h' = task_routed t aid tx' h"
  using send_command_frames [OF assms(1)] assms(2)
  by (simp_all add: task_log_def task_routed_def hub_task_agent_id_def)

lemma route_Ok_routed:
  "route_play_audio_chunk t d h = (Inr u, h') \<Longrightarrow> \<exists>aid tx. task_routed t aid tx h"
  "route_play_audio_finish t h = (Inr u, h') \<Longrightarrow> \<exists>aid tx. task_routed t aid tx h"
  by (auto simp: route_play_audio_chunk_def route_play_audio_finish_def task_routed_def abandon_task_def
      split: option.splits)

lemma route_chunk_Ok:
  assumes "task_routed t aid tx h" "route_play_audio_chunk t d h = (Inr u, h')"
  shows "task_log t tx h' = task_log t tx h @ [GTaskPlayAudioChunk t d] \<and> task_routed t aid tx h'"
  using assms task_send [where t = t and m = "GTaskPlayAudioChunk t d"]
  by (auto simp: route_play_audio_chunk_def task_routed_def abandon_task_def split: option.splits)

lemma route_finish_Ok:
  assumes "task_routed t aid tx h" "route_play_audio_finish t h = (Inr u, h')"
  shows "task_log t tx h' = task_log t tx h @ [GTaskPlayAudioFinish t]"
  using assms task_send(1) [where t = t and m = "GTaskPlayAudioFinish t"]
  by (auto simp: route_play_audio_finish_def task_routed_def abandon_task_def split: option.splits)

lemma select_speaker_registered:
  "reg_select_speaker_agent ord did aid r = Some a \<Longrightarrow> registry_wf r \<Longrightarrow> reg_agents r (ra_agent_id a) = Some a"
  using select_speaker_matches(1) [of ord did aid r a] by (auto simp: registry_wf_def ran_def)

lemma route_start_Ok:
  assumes "route_play_audio_start ords others req h = (Inr aid, h')" "trim (par_task_id req) = par_task_id req"
    and wf: "registry_wf (hub_registry h)"
    and tx: "reg_agent_command_tx aid (hub_registry h) = Some tx" "reg_agent_command_tx aid (hub_registry (others 0 h)) = Some tx"
    and quiet: "\<And>k g. task_log (par_task_id req) tx (others k g) = task_log (par_task_id req) tx g"
    and kept: "\<And>g. task_routed (par_task_id req) aid tx g \<Longrightarrow> task_routed (par_task_id req) aid tx (others 1 g)"
  shows "task_routed (par_task_id req) aid tx h' \<and>
         task_log (par_task_id req) tx h' =
           task_log (par_task_id req) tx h @ [GTaskPlayAudioStart (par_task_id req) (par_format req)]"
proof -
  let ?t = "par_task_id req"
  obtain agent h1 where
    sel: "reg_select_speaker_agent (ord_agents ords) (par_device_id req) (par_agent_id req) (hub_registry h) = Some agent"
    and task: "hub_register_task ?t (ra_agent_id agent) (others 0 h) = Inr h1"
    and send: "send_command (ra_command_tx agent) (GTaskPlayAudioStart ?t (par_format req)) (others 1 h1) = Some h'"
    and aid: "aid = ra_agent_id agent"
    using assms(1,2) by (auto simp: route_play_audio_start_def Let_def split: if_splits option.splits sum.splits)
  have h1: "h1 = (others 0 h)\<lparr>hub_registry := put_task ?t \<lparr>tkr_agent_id = aid\<rparr> (hub_registry (others 0 h))\<rparr>"
    using task aid by (auto simp: hub_register_task_def reg_register_task_def split: sum.splits if_splits)
  have "reg_agents (hub_registry h) aid = Some agent"
    using select_speaker_registered [OF sel wf] aid by simp
  then have send': "send_command tx (GTaskPlayAudioStart ?t (par_format req)) (others 1 h1) = Some h'"
    using send tx(1) by (simp add: reg_agent_command_tx_def)
  have "task_routed ?t aid tx h1"
    using tx(2) by (simp add: h1 task_routed_def hub_task_agent_id_def reg_task_agent_id_def reg_agent_command_tx_def
        task_table.lookup_put)
  moreover have "task_log ?t tx h1 = task_log ?t tx h"
    using quiet [of 0 h] by (simp add: h1 task_log_def)
  ultimately show ?thesis
    using task_send [OF send'] kept quiet [of 1 h1] by simp
qed

lemma play_chunks_Ok:
  assumes "play_chunks b64 others t k parts h = (Inr u, h')" "task_routed t aid tx h"
    and "\<And>k. leaves_task t aid tx (others k)"
  shows "task_routed t aid tx h' \<and>
         task_log t tx h' = task_log t tx h @ map (\<lambda>c. GTaskPlayAudioChunk t (b64 c)) parts"
  using assms(1,2)
proof (induction parts arbitrary: k h)
  case Nil
  then show ?case by simp
next
  case (Cons c cs)
  then obtain h1 where h1: "route_play_audio_chunk t (b64 c) (others k h) = (Inr (), h1)"
    and rest: "play_chunks b64 others t (Suc k) cs h1 = (Inr u, h')"
    by (auto split: prod.splits sum.splits)
  have "task_routed t aid tx (others k h)" "task_log t tx (others k h) = task_log t tx h"
    using assms(3) [of k] Cons.prems(2) route_Ok_routed(1) [OF h1] by (auto simp: leaves_task_def)
  with Cons.IH [OF rest] route_chunk_Ok [OF _ h1] show ?case by auto
qed

lemma transfer_log:
  assumes "play_audio_transfer b64 env t payload bytes h = (Ok aid, h')"
    and "h1 = pe_others env 1 (subscribe_task_waiter t (pe_waiter env) (pe_others env 0 h))"
    and "registry_wf (hub_registry h1)" and "t = fst (control_task_id (cpa_task_id payload) counter)"
    and "\<And>tx k. leaves_task t aid tx (pe_others env k)"
    and "reg_agent_command_tx aid (hub_registry h1) = Some tx"
    and "reg_agent_command_tx aid (hub_registry (pe_others env 2 h1)) = Some tx"
    and "\<And>g. task_routed t aid tx g \<Longrightarrow> task_routed t aid tx (pe_others env 3 g)"
  shows "task_log t tx h' = task_log t tx h1 @ [GTaskPlayAudioStart t (cpa_format payload)] @
           map (\<lambda>c. GTaskPlayAudioChunk t (b64 c)) (chunks (control_chunk_size (cpa_chunk_size_bytes payload)) bytes) @
           [GTaskPlayAudioFinish t]"
proof -
  let ?size = "control_chunk_size (cpa_chunk_size_bytes payload)"
  let ?parts = "chunks ?size bytes"
  let ?others = "\<lambda>k. pe_others env (2 + k)"
  have trimmed: "trim t = t" unfolding assms(4) by (rule control_task_id_trimmed)
  have req: "par_task_id (play_request t payload) = t" "par_format (play_request t payload) = cpa_format payload"
    by (simp_all add: play_request_def)
  obtain h2 h3 where
    start: "route_play_audio_start (pe_orders env) ?others (play_request t payload) h1 = (Inr aid, h2)"
    and mid: "play_chunks b64 (pe_others env) t 5 ?parts h2 = (Inr (), h3)"
    and fin: "route_play_audio_finish t (pe_others env (5 + length ?parts) h3) = (Inr (), h')"
    using assms(1) unfolding assms(2)
    by (simp add: play_audio_transfer_def Let_def split: prod.splits sum.splits)
  have quiet: "task_log t tx (pe_others env k g) = task_log t tx g" for k g
    using assms(5) by (simp add: leaves_task_def)
  have h2: "task_routed t aid tx h2"
    "task_log t tx h2 = task_log t tx h1 @ [GTaskPlayAudioStart t (cpa_format payload)]"
    using route_start_Ok [OF start _ assms(3,6), unfolded req] trimmed assms(7,8) quiet
    by (simp_all add: numeral_3_eq_3 numeral_2_eq_2)
  have h3: "task_routed t aid tx h3"
    "task_log t tx h3 = task_log t tx h2 @ map (\<lambda>c. GTaskPlayAudioChunk t (b64 c)) ?parts"
    using play_chunks_Ok [OF mid h2(1) assms(5)] by simp_all
  have "task_routed t aid tx (pe_others env (5 + length ?parts) h3)"
    using assms(5) [of tx "5 + length ?parts"] h3(1) route_Ok_routed(2) [OF fin] by (auto simp: leaves_task_def)
  from route_finish_Ok [OF this fin] show ?thesis by (simp add: quiet h3(2) h2(2))
qed

section \<open>Properties\<close>

definition demo_speaker :: registered_agent where
  "demo_speaker =
     \<lparr>ra_agent_id = ''d'', ra_agent_name = ''D'', ra_provider_id = None, ra_capabilities = [''speaker''],
      ra_capability_domains = [Tts], ra_agent_kind = RDevice, ra_client_version = None,
      ra_update_status = None, ra_device = None, ra_device_info = None, ra_command_tx = 5\<rparr>"

definition demo_speaker_hub :: hub where
  "demo_speaker_hub =
     (hub_new None)\<lparr>hub_registry := \<lparr>reg_secret = None, reg_agents = [''d'' \<mapsto> demo_speaker], reg_tasks = Map.empty\<rparr>\<rparr>"

definition demo_play :: control_play_audio where
  "demo_play = \<lparr>cpa_task_id = Some '' t1 '', cpa_device_id = None, cpa_output_target = None, cpa_agent_id = None,
                cpa_format = None, cpa_audio_base64 = ''AQID'', cpa_chunk_size_bytes = Some 2\<rparr>"

definition demo_play_env :: play_env where
  "demo_play_env =
     \<lparr>pe_orders = \<lparr>ord_agents = [''d''], ord_tasks = [], ord_sessions = []\<rparr>, pe_waiter = 8,
      pe_others = (\<lambda>_ h. h), pe_wait = (\<lambda>h. (WaitTimeout, h))\<rparr>"

lemma demo_play_transfer:
  "\<exists>h'. play_audio_transfer (\<lambda>_. []) demo_play_env ''t1'' demo_play [1, 2, 3] demo_speaker_hub = (Ok ''d'', h')"
proof -
  have "fst (play_audio_transfer (\<lambda>_. []) demo_play_env ''t1'' demo_play [1, 2, 3] demo_speaker_hub) = Ok ''d''"
    by code_simp
  then show ?thesis by (metis prod.collapse)
qed

lemma demo_play_task_id: "fst (control_task_id (cpa_task_id demo_play) 1) = ''t1''"
  by code_simp

lemma leaves_task_refl: "leaves_task t aid tx (\<lambda>h. h)"
  by (simp add: leaves_task_def)

section \<open>The waiter of a request\<close>

text \<open>
  What other requests and connections may do meanwhile: any steps of the hub, other starts of the same task
  included, except the one that takes the task back because its start could not be delivered.
\<close>

inductive others_run :: "(session_id \<Rightarrow> string) \<Rightarrow> string \<Rightarrow> hub \<Rightarrow> hub \<Rightarrow> bool" for dbg t where
  others_refl: "others_run dbg t g g"
| others_next: "others_run dbg t g g1 \<Longrightarrow> hub_step dbg l g1 g2 \<Longrightarrow> l \<noteq> TaskUndelivered t \<Longrightarrow> others_run dbg t g g2"

text \<open>The channel of the request is at its task or nowhere, and with its task it goes.\<close>

definition waiter_at :: "string \<Rightarrow> nat \<Rightarrow> hub \<Rightarrow> bool" where
  "waiter_at t w h \<longleftrightarrow>
     hub_inv h \<and> w \<in> issued (hub_waiters h) (hub_waits h) \<and> (\<forall>k. hub_waiters h k = Some w \<longrightarrow> k = t)"

definition waiter_with_task :: "string \<Rightarrow> nat \<Rightarrow> hub \<Rightarrow> bool" where
  "waiter_with_task t w h \<longleftrightarrow>
     waiter_at t w h \<and> (hub_waiters h t = Some w \<longrightarrow> reg_tasks (hub_registry h) t \<noteq> None)"

lemma waiter_at_step: "waiter_at t w h \<Longrightarrow> hub_step dbg l h h' \<Longrightarrow> waiter_at t w h'"
  using hub_step_waits [of dbg l h h'] hub_inv_step [of dbg l h h']
  unfolding waiter_at_def waits_advance_def by blast

lemma waiter_with_task_step:
  assumes "waiter_with_task t w h" "hub_step dbg l h h'" "l \<noteq> TaskUndelivered t"
  shows "waiter_with_task t w h'"
proof -
  have at: "waiter_at t w h" using assms(1) by (simp add: waiter_with_task_def)
  have "reg_tasks (hub_registry h') t \<noteq> None" if "hub_waiters h' t = Some w"
  proof -
    have "hub_waiters h t = Some w"
      using hub_step_waits [OF assms(2)] that at unfolding waits_advance_def waiter_at_def by blast
    with assms(1) have "reg_tasks (hub_registry h) t \<noteq> None" by (simp add: waiter_with_task_def)
    then show ?thesis
      using hub_step_waits [OF assms(2)] assms(3) that unfolding waits_advance_def by (metis option.distinct(1))
  qed
  with waiter_at_step [OF at assms(2)] show ?thesis by (simp add: waiter_with_task_def)
qed

lemma waiter_at_others: "others_run dbg t g g' \<Longrightarrow> waiter_at t w g \<Longrightarrow> waiter_at t w g'"
  by (induction rule: others_run.induct) (blast intro: waiter_at_step)+

lemma waiter_with_task_others: "others_run dbg t g g' \<Longrightarrow> waiter_with_task t w g \<Longrightarrow> waiter_with_task t w g'"
  by (induction rule: others_run.induct) (blast intro: waiter_with_task_step)+

lemma others_inv: "others_run dbg t g g' \<Longrightarrow> hub_inv g \<Longrightarrow> hub_inv g'"
  by (induction rule: others_run.induct) (blast intro: hub_inv_step)+

lemma waiter_gone [simp]: "hub_waiters (remove_task_waiter t h) t = None"
  by (auto simp: remove_task_waiter_def waiter_table.lookup_del split: option.split)

text \<open>The calls of the request: the waiter goes with a call that fails, and stays with its task otherwise.\<close>

lemma waiter_removed_at: "waiter_at t w h \<Longrightarrow> w \<notin> ran (hub_waiters (remove_task_waiter t h))"
  using waiter_removed.settle_pending [of t h] unfolding waiter_at_def by (auto simp: ran_def split: if_splits)

lemma subscribe_waiter_at:
  assumes "hub_inv h" "w \<notin> issued (hub_waiters h) (hub_waits h)"
  shows "waiter_at t w (subscribe_task_waiter t w h)"
proof -
  have "hub_waiters (subscribe_task_waiter t w h) = (hub_waiters h)(t \<mapsto> w)"
    by (simp add: subscribe_task_waiter_def split: option.split)
  then show ?thesis
    using hub_inv_subscribe [OF assms] assms(2) unfolding waiter_at_def issued_def by (auto simp: ran_def)
qed

lemma abandon_waiter: "waiter_at t w h \<Longrightarrow> w \<notin> ran (hub_waiters (snd (abandon_task t m h)))"
  using waiter_resolved.settle_pending [of "(t, r)" "hub_remove_task t h" for r]
  unfolding waiter_at_def by (auto simp: abandon_task_def ran_def split: if_splits)

lemma no_task_no_waiter: "waiter_with_task t w h \<Longrightarrow> hub_task_agent_id t h = None \<Longrightarrow> w \<notin> ran (hub_waiters h)"
  by (auto simp: waiter_with_task_def waiter_at_def hub_task_agent_id_def reg_task_agent_id_def ran_def)

lemma route_failed_waiter:
  assumes "waiter_with_task t w h"
  shows "route_play_audio_chunk t d h = (Inl e, h') \<Longrightarrow> w \<notin> ran (hub_waiters h')"
    and "route_play_audio_finish t h = (Inl e, h') \<Longrightarrow> w \<notin> ran (hub_waiters h')"
  using assms no_task_no_waiter [OF assms] abandon_waiter [of t w h]
  by (auto simp: route_play_audio_chunk_def route_play_audio_finish_def waiter_with_task_def prod_eq_iff
      split: option.splits)

lemma play_chunks_waiter:
  assumes others: "\<And>k g. others_run dbg t g (others k g)"
    and "waiter_with_task t w h" "play_chunks b64 others t k parts h = (r, h')"
  shows "case r of Inl _ \<Rightarrow> w \<notin> ran (hub_waiters h') | Inr _ \<Rightarrow> waiter_with_task t w h'"
  using assms(2,3)
proof (induction parts arbitrary: k h)
  case Nil
  then show ?case by auto
next
  case (Cons c cs)
  obtain r1 h1 where c: "route_play_audio_chunk t (b64 c) (others k h) = (r1, h1)" by fastforce
  have w: "waiter_with_task t w (others k h)" by (rule waiter_with_task_others [OF others Cons.prems(1)])
  have "waiter_with_task t w h1"
    using waiter_with_task_step [OF w step_play_chunk [where dbg = dbg and t = t and d = "b64 c"]] c by simp
  with Cons.IH [of h1 "Suc k"] Cons.prems(2) c route_failed_waiter(1) [OF w] show ?case
    by (cases r1) auto
qed

lemma route_start_waiter:
  assumes others: "\<And>k g. others_run dbg t g (others k g)"
    and "waiter_at t w h" "par_task_id req = t" "trim t = t"
    and "route_play_audio_start ords others req h = (r, h')"
  shows "case r of Inl _ \<Rightarrow> waiter_at t w h' | Inr _ \<Rightarrow> waiter_with_task t w h'"
proof (cases "t = [] \<or> reg_select_speaker_agent (ord_agents ords) (par_device_id req) (par_agent_id req) (hub_registry h) = None")
  case True
  then show ?thesis using assms(2-5) by (auto simp: route_play_audio_start_def Let_def split: if_splits)
next
  case False
  then obtain a where a: "reg_select_speaker_agent (ord_agents ords) (par_device_id req) (par_agent_id req) (hub_registry h) = Some a"
    by blast
  have g: "waiter_at t w (others 0 h)" by (rule waiter_at_others [OF others assms(2)])
  show ?thesis
  proof (cases "hub_register_task t (ra_agent_id a) (others 0 h)")
    case (Inl e)
    then show ?thesis using assms(3-5) False a g by (auto simp: route_play_audio_start_def Let_def)
  next
    case (Inr h1)
    have "reg_tasks (hub_registry h1) t \<noteq> None"
      using Inr by (auto simp: hub_register_task_def reg_register_task_def task_table.lookup_put split: if_splits)
    then have h1: "waiter_with_task t w h1"
      using waiter_at_step [OF g step_task [OF Inr, where dbg = dbg]] by (simp add: waiter_with_task_def)
    note h2 = waiter_with_task_others [OF others h1, of 1]
    show ?thesis
    proof (cases "send_command (ra_command_tx a) (GTaskPlayAudioStart t (par_format req)) (others 1 h1)")
      case None
      have "waiter_at t w (others 2 (others 1 h1))"
        using waiter_at_others [OF others] h2 by (simp add: waiter_with_task_def)
      from waiter_at_step [OF this step_undelivered [where dbg = dbg and t = t]]
      have "waiter_at t w (hub_remove_task t (others 2 (others 1 h1)))" .
      then show ?thesis using assms(3-5) False a Inr None by (auto simp: route_play_audio_start_def Let_def)
    next
      case (Some h3)
      have "waiter_with_task t w h3" by (rule waiter_with_task_step [OF h2 step_send [OF Some, where dbg = dbg]]) simp
      then show ?thesis using assms(3-5) False a Inr Some by (auto simp: route_play_audio_start_def Let_def)
    qed
  qed
qed

lemma transfer_waiter:
  assumes others: "\<And>k g. others_run dbg t g (pe_others env k g)"
    and "hub_inv (pe_others env 0 h)"
    and "pe_waiter env \<notin> issued (hub_waiters (pe_others env 0 h)) (hub_waits (pe_others env 0 h))"
    and "trim t = t" and "play_audio_transfer b64 env t payload bytes h = (r, h')"
  shows "case r of Inl _ \<Rightarrow> pe_waiter env \<notin> ran (hub_waiters h') | Inr _ \<Rightarrow> waiter_at t (pe_waiter env) h'"
proof -
  let ?w = "pe_waiter env" and ?parts = "chunks (control_chunk_size (cpa_chunk_size_bytes payload)) bytes"
  define h1 where "h1 = pe_others env 1 (subscribe_task_waiter t ?w (pe_others env 0 h))"
  have h1: "waiter_at t ?w h1"
    unfolding h1_def by (rule waiter_at_others [OF others subscribe_waiter_at [OF assms(2,3)]])
  obtain r2 h2 where start: "route_play_audio_start (pe_orders env) (\<lambda>k. pe_others env (2 + k)) (play_request t payload) h1 = (r2, h2)"
    by fastforce
  note w2 = route_start_waiter [OF others h1 _ assms(4) start]
  note tr = assms(5) [unfolded play_audio_transfer_def Let_def, folded h1_def, unfolded start]
  show ?thesis
  proof (cases r2)
    case (Inl e2)
    with w2 have "waiter_at t ?w h2" by (simp add: play_request_def)
    from waiter_removed_at [OF waiter_at_others [OF others this]] tr Inl show ?thesis by auto
  next
    case (Inr aid)
    with w2 have "waiter_with_task t ?w h2" by (simp add: play_request_def)
    moreover obtain r3 h3 where mid: "play_chunks b64 (pe_others env) t 5 ?parts h2 = (r3, h3)" by fastforce
    ultimately have w3: "case r3 of Inl _ \<Rightarrow> ?w \<notin> ran (hub_waiters h3) | Inr _ \<Rightarrow> waiter_with_task t ?w h3"
      using play_chunks_waiter [where others = "pe_others env", OF others] by blast
    show ?thesis
    proof (cases r3)
      case (Inl e3)
      with w3 tr Inr mid show ?thesis by auto
    next
      case (Inr u)
      let ?h = "pe_others env (5 + length ?parts) h3"
      have w: "waiter_with_task t ?w ?h" using waiter_with_task_others [OF others] w3 Inr by simp
      obtain r4 h4 where fin: "route_play_audio_finish t ?h = (r4, h4)" by fastforce
      have "waiter_with_task t ?w h4"
        using waiter_with_task_step [OF w step_play_finish [where dbg = dbg and t = t]] fin by simp
      then show ?thesis
        using route_failed_waiter(2) [OF w] tr \<open>r2 = Inr aid\<close> mid Inr fin
        by (cases r4) (auto simp: waiter_with_task_def)
    qed
  qed
qed

text \<open>How the wait ends is what the log says of the channel, unless the time is up.\<close>

definition outcome_logged :: "nat \<Rightarrow> wait_outcome \<Rightarrow> hub \<Rightarrow> bool" where
  "outcome_logged w outcome h \<longleftrightarrow>
     (case outcome of
        TaskAnswered r \<Rightarrow> (w, Delivered r) \<in> set (hub_waits h)
      | WaiterDropped \<Rightarrow> (w, SenderDropped) \<in> set (hub_waits h)
      | WaitTimeout \<Rightarrow> True)"

lemma logged_not_waiting: "hub_inv h \<Longrightarrow> (w, f) \<in> set (hub_waits h) \<Longrightarrow> w \<notin> ran (hub_waiters h)"
  unfolding hub_inv_def waits_inv_def promise_inv_def ran_def by force

lemma outcome_waiter:
  assumes "waiter_at t w h" "outcome_logged w outcome h" "play_audio_outcome t outcome h = (r, h')"
  shows "w \<notin> ran (hub_waiters h')"
  using assms(2,3) waiter_removed_at [OF assms(1)] logged_not_waiting [of h w] assms(1)
  by (cases outcome)
    (auto simp: outcome_logged_def play_audio_outcome_def waiter_at_def split: sum.splits)

text \<open>C32: A play-audio request leaves no waiter behind. Whatever steps of the hub other requests and
  connections make before, between and after its calls and while it waits, with the one exception that another start of the
  same task id fails to be delivered and takes the task back, the channel that the request subscribed is in the
  table of waiters no more when the request is over, whether it was refused, failed half way, timed out, was
  answered or lost its sender.\<close>

theorem play_audio_leaves_no_waiter:
  assumes "hub_reachable dbg secret h"
    and "handle_control_play_audio b64 b64d env payload counter h = (res, counter', h')"
    and "t = fst (control_task_id (cpa_task_id payload) counter)"
    and "b64d (cpa_audio_base64 payload) = Ok bytes" and "bytes \<noteq> []"
    and "\<And>k g. others_run dbg t g (pe_others env k g)"
    and "pe_waiter env \<notin> issued (hub_waiters (pe_others env 0 h)) (hub_waits (pe_others env 0 h))"
    and "\<And>g outcome g'. pe_wait env g = (outcome, g') \<Longrightarrow>
           others_run dbg t g g' \<and> outcome_logged (pe_waiter env) outcome g'"
  shows "pe_waiter env \<notin> ran (hub_waiters h')"
proof -
  have trimmed: "trim t = t" unfolding assms(3) by (rule control_task_id_trimmed)
  obtain counter1 where t: "control_task_id (cpa_task_id payload) counter = (t, counter1)"
    using assms(3) by (metis prod.collapse)
  obtain r1 h1 where tr: "play_audio_transfer b64 env t payload bytes h = (r1, h1)" by fastforce
  have inv: "hub_inv (pe_others env 0 h)"
    by (rule others_inv [OF assms(6) hub_reachable_inv [OF assms(1)]])
  note w1 = transfer_waiter [OF assms(6) inv assms(7) trimmed tr]
  show ?thesis
  proof (cases r1)
    case (Inl e)
    with w1 tr t assms(2,4,5) show ?thesis by (auto simp: handle_control_play_audio_def)
  next
    case (Inr aid)
    obtain outcome h2 where wait: "pe_wait env h1 = (outcome, h2)" by fastforce
    obtain r3 h3 where out: "play_audio_outcome t outcome h2 = (r3, h3)" by fastforce
    have "waiter_at t (pe_waiter env) h2"
      using waiter_at_others [OF conjunct1 [OF assms(8) [OF wait]]] w1 Inr by simp
    from outcome_waiter [OF this conjunct2 [OF assms(8) [OF wait]] out]
    have "pe_waiter env \<notin> ran (hub_waiters h3)" .
    moreover have "h' = h3"
      using assms(2,4,5) t tr Inr wait out by (cases r3) (auto simp: handle_control_play_audio_def)
    ultimately show ?thesis by simp
  qed
qed

text \<open>
  A request that is answered: while it runs, the status of another task arrives again and again, and during its
  wait the agent reports its task as finished.
\<close>

definition demo_done :: agent_task_status where
  "demo_done = \<lparr>tst_state = TaskFinished, tst_message = None\<rparr>"

definition demo_answered_env :: play_env where
  "demo_answered_env =
     \<lparr>pe_orders = \<lparr>ord_agents = [''a1''], ord_tasks = [], ord_sessions = []\<rparr>, pe_waiter = 8,
      pe_others = (\<lambda>_. handle_agent_message (ATaskStatus ''t2'' demo_done)),
      pe_wait = (\<lambda>h. if hub_waiters h ''t1'' = Some 8 \<and> hub_task_agent_id ''t1'' h \<noteq> None
         then (TaskAnswered (Ok demo_done), handle_agent_message (ATaskStatus ''t1'' demo_done) h)
         else (WaitTimeout, h))\<rparr>"

lemma demo_answered:
  "fst (handle_control_play_audio (\<lambda>_. []) (\<lambda>_. Ok [1, 2, 3]) demo_answered_env demo_play 1 demo_connected) =
     Ok \<lparr>cac_task_id = ''t1'', cac_routed_agent_id = ''a1'', cac_chunk_count = 2, cac_total_bytes = 3\<rparr>"
  by code_simp

lemma demo_message_run: "others_run dbg t g (handle_agent_message m g)"
  by (rule others_next [OF others_refl step_message]) simp

theorem play_audio_leaves_no_waiter_witness:
  "8 \<notin> ran (hub_waiters (snd (snd (handle_control_play_audio (\<lambda>_. []) (\<lambda>_. Ok [1, 2, 3]) demo_answered_env
       demo_play 1 demo_connected)))) \<and>
   fst (handle_control_play_audio (\<lambda>_. []) (\<lambda>_. Ok [1, 2, 3]) demo_answered_env demo_play 1 demo_connected) =
     Ok \<lparr>cac_task_id = ''t1'', cac_routed_agent_id = ''a1'', cac_chunk_count = 2, cac_total_bytes = 3\<rparr>"
proof -
  let ?env = demo_answered_env
  obtain res counter' h' where run:
    "handle_control_play_audio (\<lambda>_. []) (\<lambda>_. Ok [1, 2, 3]) ?env demo_play 1 demo_connected = (res, counter', h')"
    by (metis prod_cases3)
  have others: "others_run dbg ''t1'' g (pe_others ?env k g)" for dbg k g
    by (simp add: demo_answered_env_def demo_message_run del: handle_agent_message.simps)
  have wait: "others_run dbg ''t1'' g g' \<and> outcome_logged (pe_waiter ?env) outcome g'"
    if "pe_wait ?env g = (outcome, g')" for dbg g outcome g'
    using that demo_message_run [of dbg "''t1''" g "ATaskStatus ''t1'' demo_done"]
    by (auto simp: demo_answered_env_def outcome_logged_def handle_task_status_def demo_done_def
        resolve_task_waiter_def others_refl split: if_splits)
  have "pe_others ?env 0 demo_connected = demo_connected"
    by (simp add: demo_answered_env_def handle_task_status_def hub_task_agent_id_def reg_task_agent_id_def
        demo_connected_def registry_new_def)
  then have fresh: "pe_waiter ?env \<notin> issued (hub_waiters (pe_others ?env 0 demo_connected)) (hub_waits (pe_others ?env 0 demo_connected))"
    by (simp add: demo_connected_tables issued_def)
  have "pe_waiter ?env \<notin> ran (hub_waiters h')"
    by (rule play_audio_leaves_no_waiter [OF demo_connected_reachable run demo_play_task_id [symmetric] refl _ others fresh wait])
      simp_all
  with run demo_answered show ?thesis by (simp add: demo_answered_env_def)
qed

text \<open>C33: A second request for a task that is still running is refused, and takes the first one's waiter
  with it: the sender of the first waiter is dropped, so the first caller is told that its waiter was lost,
  and no waiter is left to be resolved when the task finishes.\<close>

theorem duplicate_task_loses_waiter:
  assumes "hub_waiters h t = Some w" and "hub_task_agent_id t h \<noteq> None" and "trim t = t"
    and "pe_others env = (\<lambda>_ h. h)"
  shows "\<exists>e h'. play_audio_transfer b64 env t payload bytes h = (Err e, h') \<and>
           hub_waiters h' t = None \<and> (w, SenderDropped) \<in> set (hub_waits h')"
proof -
  let ?h1 = "subscribe_task_waiter t (pe_waiter env) h"
  have h1: "hub_task_agent_id t ?h1 \<noteq> None" "(w, SenderDropped) \<in> set (hub_waits ?h1)"
    using assms(1,2) by (simp_all add: subscribe_task_waiter_def hub_task_agent_id_def)
  have "\<exists>e. route_play_audio_start (pe_orders env) (\<lambda>k. pe_others env (2 + k)) (play_request t payload) ?h1 = (Inl e, ?h1)"
    using h1(1) assms(3,4)
    by (auto simp: route_play_audio_start_def Let_def play_request_def hub_register_task_def reg_register_task_def
        hub_task_agent_id_def reg_task_agent_id_def split: option.split)
  then obtain e where start: "route_play_audio_start (pe_orders env) (\<lambda>k. pe_others env (2 + k)) (play_request t payload) ?h1 = (Inl e, ?h1)" by blast
  have "(w, SenderDropped) \<in> set (hub_waits (remove_task_waiter t ?h1))"
    using h1(2) by (auto simp: remove_task_waiter_def split: option.split)
  with start assms(4) show ?thesis by (simp add: play_audio_transfer_def Let_def)
qed

definition demo_busy_hub :: hub where
  "demo_busy_hub = put_waiter ''t1'' 8
     (demo_speaker_hub\<lparr>hub_registry := put_task ''t1'' \<lparr>tkr_agent_id = ''d''\<rparr> (hub_registry demo_speaker_hub)\<rparr>)"

theorem duplicate_task_loses_waiter_witness:
  "\<exists>e h'. play_audio_transfer (\<lambda>_. []) demo_play_env ''t1'' demo_play [1] demo_busy_hub = (Err e, h') \<and>
     hub_waiters h' ''t1'' = None \<and> (8, SenderDropped) \<in> set (hub_waits h')"
proof (rule duplicate_task_loses_waiter)
  show "hub_waiters demo_busy_hub ''t1'' = Some 8" "hub_task_agent_id ''t1'' demo_busy_hub \<noteq> None"
    by (simp_all add: demo_busy_hub_def hub_task_agent_id_def reg_task_agent_id_def put_waiter_def put_task_def)
  show "trim ''t1'' = ''t1''" by (rule trim_graphic) code_simp
  show "pe_others demo_play_env = (\<lambda>_ h. h)" by (simp add: demo_play_env_def)
qed

text \<open>Asking for the status of an agent by its id answers with exactly that agent's data, and
  with nothing if it is not registered, in whatever order the agents are kept.\<close>

lemma agent_status_exact:
  assumes "enumerates (ord_agents ords) (reg_agents (hub_registry h))" and "registry_wf (hub_registry h)"
  shows "handle_control_agent_status ords \<lparr>cas_agent_id = Some aid, cas_device_id = None\<rparr> h =
           map_option (\<lambda>a. to_transport_snapshot (snapshot_from_agent a)) (reg_agents (hub_registry h) aid)"
proof -
  let ?f = "\<lparr>sf_agent_id = Some aid, sf_device_id = None\<rparr>"
  let ?snap = "hub_snapshot ords ?f h"
  have set: "set ?snap = (\<lambda>a. to_transport_snapshot (snapshot_from_agent a)) `
      {a \<in> ran (reg_agents (hub_registry h)). ra_agent_id a = aid}"
    using set_reg_snapshot [OF assms(1), of ?f]
    by (simp add: hub_snapshot_def filter_matches_iff image_image)
  have agents: "{a \<in> ran (reg_agents (hub_registry h)). ra_agent_id a = aid} = set_option (reg_agents (hub_registry h) aid)"
    using assms(2) by (auto simp: registry_wf_def ran_def) 
  show ?thesis
  proof (cases "reg_agents (hub_registry h) aid")
    case None
    with set agents have "?snap = []" by simp
    with None show ?thesis by (simp add: handle_control_agent_status_def)
  next
    case (Some a)
    with set agents have "set ?snap = {to_transport_snapshot (snapshot_from_agent a)}" by simp
    moreover from this have "?snap \<noteq> []" by auto
    ultimately have "last ?snap = to_transport_snapshot (snapshot_from_agent a)"
      using last_in_set [of ?snap] by auto
    with Some \<open>?snap \<noteq> []\<close> show ?thesis by (simp add: handle_control_agent_status_def)
  qed
qed

end
