(* ===== verification/AsrProviders.thy ===== *)
theory AsrProviders
  imports BridgeCommon
begin

text \<open>
  The recognition providers of \<^verbatim>\<open>bridges/src/asr\<close>: \<^verbatim>\<open>mock.rs\<close>, the process bridge \<^verbatim>\<open>stdio.rs\<close> with the
  writer and reader that \<^verbatim>\<open>tcp.rs\<close> shares, and \<^verbatim>\<open>minimax_http.rs\<close>. Processes, sockets and HTTP are
  parameters: what spawning, reading or a request returns. JSON text is rendered and parsed by parameters.
\<close>

section \<open>The session task\<close>

text \<open>
  A session task handles one command after the other. Its step gives the events to send, in
  order, whether the loop goes on, and its variables. Sending stops the task when it fails.
\<close>

fun send_asr_events :: "nat \<Rightarrow> bridge_asr_event list \<Rightarrow> bridge_asr_event net \<Rightarrow> bool \<times> bridge_asr_event net" where
  "send_asr_events tx [] n = (True, n)"
| "send_asr_events tx (e # es) n =
     (case net_send tx e n of
        None \<Rightarrow> (False, n)
      | Some n' \<Rightarrow> send_asr_events tx es n')"

fun asr_session_loop ::
  "(bridge_command \<Rightarrow> 'st \<Rightarrow> bridge_asr_event list \<times> bool \<times> 'st) \<Rightarrow> nat \<Rightarrow> 'st \<Rightarrow> bridge_command list
     \<Rightarrow> bridge_asr_event net \<Rightarrow> bridge_asr_event net" where
  "asr_session_loop step tx st [] n = n"
| "asr_session_loop step tx st (c # cs) n =
     (case step c st of (es, go, st1) \<Rightarrow>
        (case send_asr_events tx es n of
           (True, n1) \<Rightarrow> (if go then asr_session_loop step tx st1 cs n1 else n1)
         | (False, n1) \<Rightarrow> n1))"

section \<open>The mock provider\<close>

definition mock_asr_descriptors :: "string \<Rightarrow> string option \<Rightarrow> provider_descriptor list" where
  "mock_asr_descriptors pid name =
     [with_capability
        (asr_descriptor_with_io_modes
          (provider_descriptor_new pid (unwrap_or name ''Mock ASR Bridge'') Asr LocalDaemon) True)
        (capability_on ''interim-results'')]"

text \<open>The session of every provider takes the requested modes and input format.\<close>

definition requested_asr_session :: "string \<Rightarrow> session_id \<Rightarrow> asr_stream_request \<Rightarrow> asr_session" where
  "requested_asr_session pid s req =
     \<lparr>as_id = s, as_provider_id = pid, as_accepted_input_format = asq_input_format req,
      as_input_mode = requested_asr_input_mode req, as_output_mode = requested_asr_output_mode req\<rparr>"

fun mock_asr_step ::
  "stream_mode \<Rightarrow> bridge_command \<Rightarrow> nat \<Rightarrow> bridge_asr_event list \<times> bool \<times> nat" where
  "mock_asr_step output (PushAudio chunk) buffered =
     (let total = buffered + length chunk
      in (if output = Streaming then [AsrPartialEv (''mock partial bytes='' @ show_nat total)] else [],
          True, total))"
| "mock_asr_step output AsrCommitCmd buffered =
     ([AsrFinalEv \<lparr>tr_text = ''mock transcript bytes='' @ show_nat buffered, tr_language = Some ''en-US'',
                   tr_segments = []\<rparr>, AsrEndedEv None], False, buffered)"
| "mock_asr_step output AsrStopCmd buffered = ([AsrEndedEv (Some ''stopped'')], False, buffered)"

section \<open>Bridges over a process or a socket\<close>

definition stdio_descriptors :: "string \<Rightarrow> string option \<Rightarrow> provider_descriptor list" where
  "stdio_descriptors pid name =
     [with_capability
        (asr_descriptor_with_io_modes
          (provider_descriptor_new pid (unwrap_or name ''Stdio ASR Bridge'') Asr LocalDaemon) True)
        (capability_on ''bridge-stdio'')]"

definition tcp_descriptors :: "string \<Rightarrow> string option \<Rightarrow> provider_descriptor list" where
  "tcp_descriptors pid name =
     [with_capability
        (asr_descriptor_with_io_modes
          (provider_descriptor_new pid (unwrap_or name ''TCP ASR Bridge'') Asr RemoteGateway) True)
        (capability_on ''bridge-tcp'')]"

text \<open>The spawned child: whether its pipes could be taken, as the standard library reports.\<close>

record spawned_child =
  ch_stdin :: bool
  ch_stdout :: bool

definition stdio_start ::
  "string \<Rightarrow> string \<Rightarrow> string + spawned_child \<Rightarrow> session_id \<Rightarrow> asr_stream_request \<Rightarrow> bridge_error + asr_session" where
  "stdio_start pid command spawned s req =
     (case spawned of
        Inl e \<Rightarrow> Err (Unavailable (''failed to spawn bridge process '' @ command @ '': '' @ e))
      | Inr child \<Rightarrow>
          (if \<not> ch_stdin child then Err (IoError ''bridge stdin unavailable'')
           else if \<not> ch_stdout child then Err (IoError ''bridge stdout unavailable'')
           else Ok (requested_asr_session pid s req)))"

definition tcp_start ::
  "string \<Rightarrow> string \<Rightarrow> string + unit \<Rightarrow> session_id \<Rightarrow> asr_stream_request \<Rightarrow> bridge_error + asr_session" where
  "tcp_start pid address connected s req =
     (case connected of
        Inl e \<Rightarrow> Err (Unavailable (''failed to connect to remote bridge '' @ address @ '': '' @ e))
      | Inr _ \<Rightarrow> Ok (requested_asr_session pid s req))"

text \<open>Frames to the bridge process; every frame has \<^verbatim>\<open>request_id: None\<close> and the session's id.\<close>

record bridge_start_payload =
  bsp_locale :: "string option"
  bsp_should_report_partials :: bool
  bsp_requires_on_device :: bool
  bsp_input_format :: audio_format

datatype bridge_frame =
    BridgeStartFrame session_id bridge_start_payload
  | BridgeAudioFrame session_id string
  | BridgeCommitFrame session_id
  | BridgeStopFrame session_id

fun bridge_frame_type :: "bridge_frame \<Rightarrow> string" where
  "bridge_frame_type (BridgeStartFrame _ _) = ''asr.start''"
| "bridge_frame_type (BridgeAudioFrame _ _) = ''asr.audio''"
| "bridge_frame_type (BridgeCommitFrame _) = ''asr.commit''"
| "bridge_frame_type (BridgeStopFrame _) = ''asr.stop''"

definition bridge_start_frame :: "session_id \<Rightarrow> asr_stream_request \<Rightarrow> bridge_frame" where
  "bridge_start_frame s req =
     BridgeStartFrame s
       \<lparr>bsp_locale = ro_language (asq_options req),
        bsp_should_report_partials = (requested_asr_output_mode req = Streaming),
        bsp_requires_on_device = ro_prefer_on_device (asq_options req),
        bsp_input_format = asq_input_format req\<rparr>"

fun bridge_command_frame :: "(bytes \<Rightarrow> string) \<Rightarrow> session_id \<Rightarrow> bridge_command \<Rightarrow> bridge_frame" where
  "bridge_command_frame b64 s (PushAudio chunk) = BridgeAudioFrame s (b64 chunk)"
| "bridge_command_frame b64 s AsrCommitCmd = BridgeCommitFrame s"
| "bridge_command_frame b64 s AsrStopCmd = BridgeStopFrame s"

text \<open>One line per frame on channel \<open>w\<close>; \<open>enc\<close> is the JSON encoder, which cannot fail on these types.\<close>

definition write_encoded_frame :: "nat \<Rightarrow> string \<Rightarrow> string net \<Rightarrow> string net option" where
  "write_encoded_frame w encoded n = net_send w (encoded @ [CHR 0x0A]) n"

fun bridge_writer_loop ::
  "(bridge_frame \<Rightarrow> string) \<Rightarrow> (bytes \<Rightarrow> string) \<Rightarrow> session_id \<Rightarrow> nat \<Rightarrow> bridge_command list
     \<Rightarrow> string net \<Rightarrow> string net" where
  "bridge_writer_loop enc b64 s w [] n = n"
| "bridge_writer_loop enc b64 s w (c # cs) n =
     (case write_encoded_frame w (enc (bridge_command_frame b64 s c)) n of
        None \<Rightarrow> n
      | Some n' \<Rightarrow> bridge_writer_loop enc b64 s w cs n')"

definition run_bridge_writer ::
  "(bridge_frame \<Rightarrow> string) \<Rightarrow> (bytes \<Rightarrow> string) \<Rightarrow> session_id \<Rightarrow> asr_stream_request \<Rightarrow> nat
     \<Rightarrow> bridge_command list \<Rightarrow> string net \<Rightarrow> string net" where
  "run_bridge_writer enc b64 s req w cs n =
     (case write_encoded_frame w (enc (bridge_start_frame s req)) n of
        None \<Rightarrow> n
      | Some n' \<Rightarrow> bridge_writer_loop enc b64 s w cs n')"

text \<open>What the reader makes of a frame of the process; \<open>ms\<close> as in \<open>extract_final_transcript\<close>.\<close>

definition map_bridge_frame :: "(string \<Rightarrow> u64) \<Rightarrow> json \<Rightarrow> bridge_asr_event option" where
  "map_bridge_frame ms frame =
     (case json_get_str frame ''type'' of
        None \<Rightarrow> None
      | Some frame_type \<Rightarrow>
          (let payload = unwrap_or (json_get frame ''payload'') JNull
           in if frame_type = ''asr.partial'' then map_option AsrPartialEv (json_get_str payload ''text'')
              else if frame_type = ''asr.final'' then map_option AsrFinalEv (extract_final_transcript ms payload)
              else if frame_type = ''asr.ended'' then Some (AsrEndedEv (json_get_str payload ''reason''))
              else if frame_type = ''error'' then
                Some (AsrErrorEv (unwrap_or (json_get_str payload ''message'') ''bridge error''))
              else None))"

text \<open>The lines of the process: a line, or a failed read. The end of the list is the end of the output.\<close>

fun run_bridge_reader ::
  "(string \<Rightarrow> string + json) \<Rightarrow> (string \<Rightarrow> u64) \<Rightarrow> nat \<Rightarrow> (string + string) list
     \<Rightarrow> bridge_asr_event net \<Rightarrow> bridge_asr_event net" where
  "run_bridge_reader parse ms tx [] n = n"
| "run_bridge_reader parse ms tx (Inl e # ls) n = n"
| "run_bridge_reader parse ms tx (Inr line # ls) n =
     (case (case parse line of Inl _ \<Rightarrow> None | Inr frame \<Rightarrow> map_bridge_frame ms frame) of
        None \<Rightarrow> run_bridge_reader parse ms tx ls n
      | Some ev \<Rightarrow>
          (case net_send tx ev n of
             None \<Rightarrow> n
           | Some n' \<Rightarrow> run_bridge_reader parse ms tx ls n'))"

section \<open>MiniMax recognition\<close>

record minimax_asr_config =
  mac_provider_id :: string
  mac_display_name :: "string option"
  mac_base_url :: string
  mac_default_model :: string
  mac_partial_min_bytes :: nat

text \<open>The response as decoded; a time is the bit pattern of its \<^verbatim>\<open>f64\<close>.\<close>

type_synonym f64_bits = "64 word"

record minimax_asr_segment =
  mas_text :: "string option"
  mas_start :: "f64_bits option"
  mas_end :: "f64_bits option"

record minimax_asr_word =
  maw_word :: "string option"
  maw_text :: "string option"
  maw_start :: "f64_bits option"
  maw_end :: "f64_bits option"

record minimax_asr_response =
  mar_text :: "string option"
  mar_language :: "string option"
  mar_segments :: "minimax_asr_segment list option"
  mar_words :: "minimax_asr_word list option"
  mar_error :: "string option option"

definition minimax_asr_descriptors :: "minimax_asr_config \<Rightarrow> provider_descriptor list" where
  "minimax_asr_descriptors cfg =
     [asr_descriptor_with_io_modes
        (with_capability
          (provider_descriptor_new (mac_provider_id cfg) (unwrap_or (mac_display_name cfg) ''MiniMax ASR'') Asr
            RemoteGateway)
          (capability_on ''cloud-provider''))
        False]"

definition minimax_asr_form :: "(json \<Rightarrow> string) \<Rightarrow> minimax_asr_config \<Rightarrow> asr_stream_request \<Rightarrow> (string \<times> string) list" where
  "minimax_asr_form render cfg req =
     (let po = ro_provider_options (asq_options req);
          extra = filter_reserved_provider_options po [''model'', ''response_format'', ''filename'']
      in [(''model'', unwrap_or (json_get_str po ''model'') (mac_default_model cfg)),
          (''response_format'', unwrap_or (json_get_str po ''response_format'') ''verbose_json'')] @
         (case ro_language (asq_options req) of Some l \<Rightarrow> [(''language'', l)] | None \<Rightarrow> []) @
         (if ro_timestamps (asq_options req) then [(''timestamp_granularities[]'', ''word'')] else []) @
         (case json_as_object extra of
            Some kvs \<Rightarrow> map (\<lambda>(k, v). (k, provider_option_to_form_value render v)) kvs
          | None \<Rightarrow> []))"

definition segment_of_word :: "(f64_bits \<Rightarrow> u64) \<Rightarrow> minimax_asr_word \<Rightarrow> transcript_segment option" where
  "segment_of_word ms w =
     map_option (\<lambda>text. \<lparr>seg_text = text, seg_is_final = True, seg_start_ms = map_option ms (maw_start w),
                         seg_end_ms = map_option ms (maw_end w)\<rparr>)
       (or_else (maw_word w) (maw_text w))"

definition segment_of_segment :: "(f64_bits \<Rightarrow> u64) \<Rightarrow> minimax_asr_segment \<Rightarrow> transcript_segment option" where
  "segment_of_segment ms g =
     map_option (\<lambda>text. \<lparr>seg_text = text, seg_is_final = True, seg_start_ms = map_option ms (mas_start g),
                         seg_end_ms = map_option ms (mas_end g)\<rparr>)
       (mas_text g)"

definition minimax_asr_text :: "minimax_asr_response \<Rightarrow> string option" where
  "minimax_asr_text r =
     opt_filter (\<lambda>t. trim t \<noteq> [])
       (or_else (mar_text r) (map_option (\<lambda>gs. concat (List.map_filter mas_text gs)) (mar_segments r)))"

definition minimax_transcript :: "(f64_bits \<Rightarrow> u64) \<Rightarrow> minimax_asr_response \<Rightarrow> bridge_error + transcript" where
  "minimax_transcript ms r =
     (case Option.bind (mar_error r) id of
        Some e \<Rightarrow> Err (Unavailable (''MiniMax ASR failed: '' @ e))
      | None \<Rightarrow>
          (case minimax_asr_text r of
             None \<Rightarrow> Err (ProtocolError ''MiniMax ASR response missing text'')
           | Some text \<Rightarrow>
               (let from_words = List.map_filter (segment_of_word ms) (unwrap_or (mar_words r) []);
                    from_segments = List.map_filter (segment_of_segment ms) (unwrap_or (mar_segments r) [])
                in Ok \<lparr>tr_text = text, tr_language = mar_language r,
                       tr_segments = (if from_words = [] then from_segments else from_words)\<rparr>)))"

text \<open>One exchange: \<open>boundary\<close> is drawn from the clock; \<open>http\<close> gets the URL, the boundary and the body.\<close>

definition transcribe_minimax ::
  "(json \<Rightarrow> string) \<Rightarrow> (f64_bits \<Rightarrow> u64) \<Rightarrow> string
     \<Rightarrow> (string \<Rightarrow> string \<Rightarrow> bytes \<Rightarrow> minimax_asr_response http_reply)
     \<Rightarrow> minimax_asr_config \<Rightarrow> asr_stream_request \<Rightarrow> bytes \<Rightarrow> bridge_error + transcript" where
  "transcribe_minimax render ms boundary http cfg req audio =
     (if audio = [] then Err (ProtocolError ''MiniMax ASR commit received without any buffered audio'')
      else
        (let filename = unwrap_or (json_get_str (ro_provider_options (asq_options req)) ''filename'')
               (default_audio_filename (asq_input_format req));
             url = trim_end_slashes (mac_base_url cfg) @ ''/audio/transcriptions''
         in and_then (audio_mime_type (asq_input_format req)) (\<lambda>mime.
            and_then (encode_minimax_upload_audio (asq_input_format req) audio) (\<lambda>file.
              (case http url boundary
                      (build_multipart_form_body boundary (minimax_asr_form render cfg req) filename mime file) of
                 SendFailed e \<Rightarrow> Err (Unavailable (''failed to call MiniMax ASR endpoint '' @ url @ '': '' @ e))
               | BadStatus status text \<Rightarrow>
                   Err (Unavailable (''MiniMax ASR endpoint '' @ url @ '' returned status '' @ status @ '': '' @ text))
               | Replied (Inl e) \<Rightarrow> Err (ProtocolError (''failed to decode MiniMax ASR response: '' @ e))
               | Replied (Inr payload) \<Rightarrow> minimax_transcript ms payload)))))"

record minimax_asr_state =
  mst_audio :: bytes
  mst_last_bytes :: nat
  mst_last_text :: "string option"

definition minimax_asr_state_new :: minimax_asr_state where
  "minimax_asr_state_new = \<lparr>mst_audio = [], mst_last_bytes = 0, mst_last_text = None\<rparr>"

text \<open>\<open>transcribe\<close> is the exchange for the whole buffered audio, \<open>trigger\<close> the growth that asks for a partial.\<close>

fun minimax_asr_step ::
  "(bytes \<Rightarrow> bridge_error + transcript) \<Rightarrow> stream_mode \<Rightarrow> nat \<Rightarrow> bridge_command \<Rightarrow> minimax_asr_state
     \<Rightarrow> bridge_asr_event list \<times> bool \<times> minimax_asr_state" where
  "minimax_asr_step transcribe output trigger (PushAudio chunk) st =
     (let audio = mst_audio st @ chunk; st1 = st\<lparr>mst_audio := audio\<rparr>
      in if output = Streaming \<and> trigger \<le> length audio - mst_last_bytes st then
           (case transcribe audio of
              Inl e \<Rightarrow> ([AsrErrorEv (bridge_error_text e)], False, st1)
            | Inr tr \<Rightarrow>
                (let text = trim (tr_text tr)
                 in if text \<noteq> [] \<and> mst_last_text st \<noteq> Some text then
                      ([AsrPartialEv text], True,
                       st1\<lparr>mst_last_bytes := length audio, mst_last_text := Some text\<rparr>)
                    else ([], True, st1)))
         else ([], True, st1))"
| "minimax_asr_step transcribe output trigger AsrCommitCmd st =
     (case transcribe (mst_audio st) of
        Inl e \<Rightarrow> ([AsrErrorEv (bridge_error_text e)], False, st)
      | Inr tr \<Rightarrow> ([AsrFinalEv tr, AsrEndedEv None], False, st))"
| "minimax_asr_step transcribe output trigger AsrStopCmd st = ([AsrEndedEv (Some ''stopped'')], False, st)"

section \<open>Lemmas: session tasks\<close>

lemma send_asr_events_open:
  assumes "tx \<notin> net_closed n"
  shows "\<exists>n'. send_asr_events tx es n = (True, n') \<and> sent_on tx n' = sent_on tx n @ es \<and> net_closed n' = net_closed n"
  using assms
proof (induction es arbitrary: n)
  case Nil
  then show ?case by simp
next
  case (Cons e es)
  obtain n1 where n1: "net_send tx e n = Some n1" using net.push_open [OF Cons.prems] by blast
  have "net_closed n1 = net_closed n" using net_send_Some [OF n1] by simp
  with Cons.IH [of n1] Cons.prems n1 net.push_contents [OF n1] show ?case by simp
qed

text \<open>The events of a whole task whose channel stays open.\<close>

fun task_events ::
  "(bridge_command \<Rightarrow> 'st \<Rightarrow> bridge_asr_event list \<times> bool \<times> 'st) \<Rightarrow> 'st \<Rightarrow> bridge_command list
     \<Rightarrow> bridge_asr_event list" where
  "task_events step st [] = []"
| "task_events step st (c # cs) =
     (case step c st of (es, go, st1) \<Rightarrow> if go then es @ task_events step st1 cs else es)"

lemma asr_loop_events:
  "tx \<notin> net_closed n \<Longrightarrow> sent_on tx (asr_session_loop step tx st cs n) = sent_on tx n @ task_events step st cs"
proof (induction cs arbitrary: st n)
  case Nil
  then show ?case by simp
next
  case (Cons c cs)
  obtain es go st1 where step: "step c st = (es, go, st1)" by (metis prod_cases3)
  obtain n1 where "send_asr_events tx es n = (True, n1)" "sent_on tx n1 = sent_on tx n @ es"
    "net_closed n1 = net_closed n" using send_asr_events_open [OF Cons.prems] by blast
  with Cons.IH [of n1 st1] Cons.prems step show ?case by simp
qed

text \<open>
  What a recognition task promises: while it goes on it sends no end, a commit or a stop makes
  it return, and what it sends when it returns closes: the last event is an end or an error, and no
  event before it is one.
\<close>

definition is_closing :: "bridge_asr_event \<Rightarrow> bool" where
  "is_closing e \<longleftrightarrow> is_ended e \<or> (\<exists>m. e = AsrErrorEv m)"

definition closes :: "bridge_asr_event list \<Rightarrow> bool" where
  "closes es \<longleftrightarrow> (\<exists>pre e. es = pre @ [e] \<and> (\<forall>x \<in> set pre. \<not> is_closing x) \<and> is_closing e)"

lemma is_closing_simps [simp]:
  "is_closing (AsrEndedEv r)" "is_closing (AsrErrorEv m)" "\<not> is_closing (AsrFinalEv tr)" "\<not> is_closing (AsrPartialEv t)"
  by (simp_all add: is_closing_def is_ended_def)

locale recognition_task =
  fixes step :: "bridge_command \<Rightarrow> 'st \<Rightarrow> bridge_asr_event list \<times> bool \<times> 'st"
  assumes going: "step c st = (es, True, st') \<Longrightarrow> e \<in> set es \<Longrightarrow> \<not> is_closing e"
    and returning: "step c st = (es, False, st') \<Longrightarrow> closes es"
    and final: "step c st = (es, True, st') \<Longrightarrow> c \<noteq> AsrCommitCmd \<and> c \<noteq> AsrStopCmd"
begin

lemma closes_append: "(\<And>e. e \<in> set es \<Longrightarrow> \<not> is_closing e) \<Longrightarrow> closes fs \<Longrightarrow> closes (es @ fs)"
  unfolding closes_def by (metis Un_iff append.assoc set_append)

lemma task_closes:
  "AsrCommitCmd \<in> set cs \<or> AsrStopCmd \<in> set cs \<Longrightarrow> closes (task_events step st cs)"
proof (induction cs arbitrary: st)
  case Nil
  then show ?case by simp
next
  case (Cons c cs)
  obtain es go st1 where step: "step c st = (es, go, st1)" by (metis prod_cases3)
  show ?case
  proof (cases go)
    case True
    with final [of c st es st1] step Cons.prems have "AsrCommitCmd \<in> set cs \<or> AsrStopCmd \<in> set cs" by auto
    with Cons.IH [of st1] closes_append going [of c st es st1] step True show ?thesis by simp
  next
    case False
    with returning [of c st es st1] step show ?thesis by simp
  qed
qed

end

lemma closesI: "(\<And>x. x \<in> set pre \<Longrightarrow> \<not> is_closing x) \<Longrightarrow> is_closing e \<Longrightarrow> closes (pre @ [e])"
  unfolding closes_def by blast

lemma closes_simps [simp]:
  "closes [AsrEndedEv r]" "closes [AsrErrorEv m]" "closes [AsrFinalEv tr, AsrEndedEv r]"
  using closesI [of "[]" "AsrEndedEv r"] closesI [of "[]" "AsrErrorEv m"]
    closesI [of "[AsrFinalEv tr]" "AsrEndedEv r"] by simp_all

lemma task_events_step: "e \<in> set (task_events step st cs) \<Longrightarrow> \<exists>c st'. e \<in> set (fst (step c st'))"
proof (induction cs arbitrary: st)
  case Nil
  then show ?case by simp
next
  case (Cons c cs)
  obtain es ret st1 where step: "step c st = (es, ret, st1)" by (cases "step c st")
  show ?case
  proof (cases "e \<in> set es")
    case True
    with step show ?thesis by (intro exI [of _ c] exI [of _ st]) simp
  next
    case False
    with Cons.prems step have "e \<in> set (task_events step st1 cs)" by (simp split: if_splits)
    then show ?thesis by (rule Cons.IH)
  qed
qed

interpretation mock_asr: recognition_task "mock_asr_step out_mode" for out_mode
proof
  fix c st es st' e assume "mock_asr_step out_mode c st = (es, True, st')" "e \<in> set es"
  then show "\<not> is_closing e" by (cases c) (auto simp: Let_def split: if_splits)
next
  fix c st es st' assume "mock_asr_step out_mode c st = (es, False, st')"
  then show "closes es" by (cases c) (auto simp: Let_def)
next
  fix c st es st' assume "mock_asr_step out_mode c st = (es, True, st')"
  then show "c \<noteq> AsrCommitCmd \<and> c \<noteq> AsrStopCmd" by (cases c) auto
qed

interpretation minimax_asr: recognition_task "minimax_asr_step transcribe out_mode trigger"
  for transcribe out_mode trigger
proof
  fix c st es st' e assume "minimax_asr_step transcribe out_mode trigger c st = (es, True, st')" "e \<in> set es"
  then show "\<not> is_closing e"
    by (cases c) (auto simp: Let_def split: if_splits sum.splits)
next
  fix c st es st' assume "minimax_asr_step transcribe out_mode trigger c st = (es, False, st')"
  then show "closes es" by (cases c) (auto simp: Let_def split: if_splits sum.splits)
next
  fix c st es st' assume "minimax_asr_step transcribe out_mode trigger c st = (es, True, st')"
  then show "c \<noteq> AsrCommitCmd \<and> c \<noteq> AsrStopCmd" by (cases c) (auto split: sum.splits)
qed

section \<open>Lemmas: MiniMax\<close>

text \<open>The partial results of a run of pushes: the audio they are about, by its length, and the text.\<close>

fun minimax_partials ::
  "(bytes \<Rightarrow> bridge_error + transcript) \<Rightarrow> nat \<Rightarrow> bytes list \<Rightarrow> minimax_asr_state \<Rightarrow> (nat \<times> string) list" where
  "minimax_partials transcribe trigger [] st = []"
| "minimax_partials transcribe trigger (c # cs) st =
     (case minimax_asr_step transcribe Streaming trigger (PushAudio c) st of
        (es, False, st1) \<Rightarrow> []
      | (es, True, st1) \<Rightarrow>
          map (\<lambda>e. (length (mst_audio st1), case e of AsrPartialEv t \<Rightarrow> t | _ \<Rightarrow> [])) es @
          minimax_partials transcribe trigger cs st1)"

fun spaced :: "nat \<Rightarrow> nat \<Rightarrow> string option \<Rightarrow> (nat \<times> string) list \<Rightarrow> bool" where
  "spaced trigger len text [] = True"
| "spaced trigger len text ((l, t) # ps) =
     (len + trigger \<le> l \<and> text \<noteq> Some t \<and> t \<noteq> [] \<and> spaced trigger l (Some t) ps)"

lemma minimax_push_cases:
  assumes "mst_last_bytes st \<le> length (mst_audio st)"
  obtains (error) m st1 where "minimax_asr_step transcribe Streaming trigger (PushAudio c) st = ([AsrErrorEv m], False, st1)"
  | (silent) "minimax_asr_step transcribe Streaming trigger (PushAudio c) st = ([], True, st\<lparr>mst_audio := mst_audio st @ c\<rparr>)"
  | (partial) tr where "transcribe (mst_audio st @ c) = Ok tr" "trim (tr_text tr) \<noteq> []"
      "mst_last_text st \<noteq> Some (trim (tr_text tr))" "mst_last_bytes st + trigger \<le> length (mst_audio st @ c)"
      "minimax_asr_step transcribe Streaming trigger (PushAudio c) st =
         ([AsrPartialEv (trim (tr_text tr))], True,
          st\<lparr>mst_audio := mst_audio st @ c, mst_last_bytes := length (mst_audio st @ c),
             mst_last_text := Some (trim (tr_text tr))\<rparr>)"
proof (cases "trigger \<le> length (mst_audio st @ c) - mst_last_bytes st")
  case False
  then show ?thesis using silent by (simp add: Let_def)
next
  case True
  show ?thesis
  proof (cases "transcribe (mst_audio st @ c)")
    case (Inl e)
    with True show ?thesis using error by (simp add: Let_def)
  next
    case (Inr tr)
    show ?thesis
    proof (cases "trim (tr_text tr) \<noteq> [] \<and> mst_last_text st \<noteq> Some (trim (tr_text tr))")
      case False
      with True Inr show ?thesis using silent by (simp add: Let_def)
    next
      case ok: True
      have "mst_last_bytes st + trigger \<le> length (mst_audio st @ c)" using True assms by simp
      with True Inr ok show ?thesis using partial [of tr] by (simp add: Let_def)
    qed
  qed
qed

lemma minimax_partials_spaced:
  assumes "mst_last_bytes st \<le> length (mst_audio st)"
  shows "spaced trigger (mst_last_bytes st) (mst_last_text st) (minimax_partials transcribe trigger cs st) \<and>
         (\<forall>(l, t) \<in> set (minimax_partials transcribe trigger cs st).
            \<exists>tr. transcribe (take l (mst_audio st @ concat cs)) = Ok tr \<and> t = trim (tr_text tr))"
  using assms
proof (induction cs arbitrary: st)
  case Nil
  then show ?case by simp
next
  case (Cons c cs)
  show ?case
    using Cons.prems
  proof (cases rule: minimax_push_cases [where transcribe = transcribe and trigger = trigger and c = c])
    case (error m st1)
    then show ?thesis by simp
  next
    case silent
    with Cons.IH [of "st\<lparr>mst_audio := mst_audio st @ c\<rparr>"] Cons.prems show ?thesis by simp
  next
    case (partial tr)
    let ?st = "st\<lparr>mst_audio := mst_audio st @ c, mst_last_bytes := length (mst_audio st @ c),
                  mst_last_text := Some (trim (tr_text tr))\<rparr>"
    have "take (length (mst_audio st @ c)) (mst_audio st @ concat (c # cs)) = mst_audio st @ c" by simp
    with partial Cons.IH [of ?st] show ?thesis by simp
  qed
qed

lemma minimax_push_events:
  "mst_last_bytes st \<le> length (mst_audio st) \<Longrightarrow>
     \<exists>err. task_events (minimax_asr_step transcribe Streaming trigger) st (map PushAudio cs) =
             map (\<lambda>p. AsrPartialEv (snd p)) (minimax_partials transcribe trigger cs st) @ err \<and>
           (err = [] \<or> (\<exists>m. err = [AsrErrorEv m]))"
proof (induction cs arbitrary: st)
  case Nil
  then show ?case by simp
next
  case (Cons c cs)
  show ?case
    using Cons.prems
  proof (cases rule: minimax_push_cases [where transcribe = transcribe and trigger = trigger and c = c])
    case (error m st1)
    then show ?thesis by simp
  next
    case silent
    with Cons.IH [of "st\<lparr>mst_audio := mst_audio st @ c\<rparr>"] Cons.prems show ?thesis by simp
  next
    case (partial tr)
    let ?st = "st\<lparr>mst_audio := mst_audio st @ c, mst_last_bytes := length (mst_audio st @ c),
                  mst_last_text := Some (trim (tr_text tr))\<rparr>"
    from Cons.IH [of ?st] partial(5) show ?thesis by simp
  qed
qed

section \<open>Lemmas: the process bridge\<close>

lemma bridge_writer_sent:
  "w \<notin> net_closed n \<Longrightarrow>
     sent_on w (bridge_writer_loop enc b64 s w cs n) =
       sent_on w n @ map (\<lambda>c. enc (bridge_command_frame b64 s c) @ [CHR 0x0A]) cs"
proof (induction cs arbitrary: n)
  case Nil
  then show ?case by simp
next
  case (Cons c cs)
  obtain n1 where n1: "net_send w (enc (bridge_command_frame b64 s c) @ [CHR 0x0A]) n = Some n1"
    using net.push_open [OF Cons.prems] by blast
  have "net_closed n1 = net_closed n" using net_send_Some [OF n1] by simp
  with Cons.IH [of n1] Cons.prems n1 net.push_contents [OF n1] show ?case
    by (simp add: write_encoded_frame_def)
qed

text \<open>The process receives the start frame of the request and then every command, one line each, in order.\<close>

lemma run_bridge_writer_sent:
  assumes "w \<notin> net_closed n"
  shows "sent_on w (run_bridge_writer enc b64 s req w cs n) =
           sent_on w n @ map (\<lambda>f. enc f @ [CHR 0x0A]) (bridge_start_frame s req # map (bridge_command_frame b64 s) cs)"
proof -
  obtain n1 where n1: "net_send w (enc (bridge_start_frame s req) @ [CHR 0x0A]) n = Some n1"
    using net.push_open [OF assms] by blast
  have "w \<notin> net_closed n1" using net_send_Some [OF n1] assms by simp
  then show ?thesis
    using bridge_writer_sent [of w n1 enc b64 s cs] n1 net.push_contents [OF n1]
    by (simp add: run_bridge_writer_def write_encoded_frame_def comp_def)
qed

definition bridge_line_event :: "(string \<Rightarrow> string + json) \<Rightarrow> (string \<Rightarrow> u64) \<Rightarrow> string + string \<Rightarrow> bridge_asr_event option" where
  "bridge_line_event parse ms l =
     (case l of Inl _ \<Rightarrow> None
      | Inr line \<Rightarrow> (case parse line of Inl _ \<Rightarrow> None | Inr frame \<Rightarrow> map_bridge_frame ms frame))"

lemma run_bridge_reader_sent:
  "tx \<notin> net_closed n \<Longrightarrow>
     sent_on tx (run_bridge_reader parse ms tx ls n) =
       sent_on tx n @ List.map_filter (bridge_line_event parse ms) (takeWhile (\<lambda>l. \<not> isl l) ls)"
proof (induction ls arbitrary: n)
  case Nil
  then show ?case by (simp add: List.map_filter_simps)
next
  case (Cons l ls)
  show ?case
  proof (cases l)
    case (Inl e)
    then show ?thesis by (simp add: List.map_filter_simps)
  next
    case (Inr line)
    show ?thesis
    proof (cases "bridge_line_event parse ms l")
      case None
      with Inr Cons show ?thesis by (simp add: bridge_line_event_def List.map_filter_simps)
    next
      case (Some ev)
      obtain n1 where n1: "net_send tx ev n = Some n1" using net.push_open [OF Cons.prems] by blast
      have "tx \<notin> net_closed n1" using net_send_Some [OF n1] Cons.prems by simp
      with Some Inr Cons.IH [of n1] n1 net.push_contents [OF n1] show ?thesis
        by (simp add: bridge_line_event_def List.map_filter_simps)
    qed
  qed
qed

section \<open>Properties\<close>

text \<open>The closing events of the two providers: the mock ends, MiniMax reports an error only for an exchange that failed.\<close>

lemma mock_no_error: "AsrErrorEv m \<notin> set (task_events (mock_asr_step out_mode) st cs)"
proof
  assume "AsrErrorEv m \<in> set (task_events (mock_asr_step out_mode) st cs)"
  from task_events_step [OF this] obtain c st' where "AsrErrorEv m \<in> set (fst (mock_asr_step out_mode c st'))" by blast
  then show False by (cases c) (simp_all add: Let_def split: if_splits)
qed

lemma minimax_error_reported:
  assumes "AsrErrorEv m \<in> set (task_events (minimax_asr_step transcribe out_mode trigger) st cs)"
  shows "\<exists>audio e. transcribe audio = Inl e \<and> m = bridge_error_text e"
proof -
  obtain c st' where "AsrErrorEv m \<in> set (fst (minimax_asr_step transcribe out_mode trigger c st'))"
    using task_events_step [OF assms] by blast
  then show ?thesis by (cases c) (auto simp: Let_def split: if_splits sum.splits)
qed

text \<open>C34: A recognition session of the mock and of the MiniMax provider that gets a commit or a stop
  sends a closing event, and it is the last: no event before it ends the session or reports an error. The mock always
  closes with an end; MiniMax closes with an end, too, or with the error of an exchange that
  failed, which no end follows.\<close>

theorem asr_sessions_close:
  assumes "AsrCommitCmd \<in> set cs \<or> AsrStopCmd \<in> set cs" and "tx \<notin> net_closed n"
  shows "(\<exists>pre r. sent_on tx (asr_session_loop (mock_asr_step out_mode) tx 0 cs n) = sent_on tx n @ pre @ [AsrEndedEv r] \<and>
           (\<forall>r m. AsrEndedEv r \<notin> set pre \<and> AsrErrorEv m \<notin> set pre)) \<and>
         (\<exists>pre e. sent_on tx (asr_session_loop (minimax_asr_step transcribe out_mode trigger) tx minimax_asr_state_new cs n) =
             sent_on tx n @ pre @ [e] \<and>
           ((\<exists>r. e = AsrEndedEv r) \<or> (\<exists>audio err. transcribe audio = Inl err \<and> e = AsrErrorEv (bridge_error_text err))) \<and>
           (\<forall>r m. AsrEndedEv r \<notin> set pre \<and> AsrErrorEv m \<notin> set pre))"
proof -
  let ?mock = "task_events (mock_asr_step out_mode) 0 cs"
  let ?minimax = "task_events (minimax_asr_step transcribe out_mode trigger) minimax_asr_state_new cs"
  have closing: "(\<exists>r. e = AsrEndedEv r) \<or> (\<exists>m. e = AsrErrorEv m)" if "is_closing e" for e
    using that by (cases e) (auto simp: is_closing_def is_ended_def)
  obtain pre e where mock: "?mock = pre @ [e]" "\<And>x. x \<in> set pre \<Longrightarrow> \<not> is_closing x" "is_closing e"
    using mock_asr.task_closes [OF assms(1)] unfolding closes_def by blast
  obtain pre' e' where minimax: "?minimax = pre' @ [e']" "\<And>x. x \<in> set pre' \<Longrightarrow> \<not> is_closing x" "is_closing e'"
    using minimax_asr.task_closes [OF assms(1)] unfolding closes_def by blast
  obtain r where "e = AsrEndedEv r"
    using closing [OF mock(3)] mock(1) mock_no_error [of _ out_mode 0 cs] by auto
  moreover have "(\<exists>r. e' = AsrEndedEv r) \<or> (\<exists>audio err. transcribe audio = Inl err \<and> e' = AsrErrorEv (bridge_error_text err))"
    using closing [OF minimax(3)] minimax(1) minimax_error_reported [of _ transcribe out_mode trigger minimax_asr_state_new cs]
    by auto
  moreover have "\<forall>r m. AsrEndedEv r \<notin> set pre \<and> AsrErrorEv m \<notin> set pre"
    "\<forall>r m. AsrEndedEv r \<notin> set pre' \<and> AsrErrorEv m \<notin> set pre'"
    using mock(2) minimax(2) is_closing_simps(1,2) by blast+
  ultimately show ?thesis using asr_loop_events [OF assms(2)] mock(1) minimax(1) by metis
qed

theorem asr_sessions_close_witness:
  "\<exists>pre. sent_on 1 (asr_session_loop (minimax_asr_step (\<lambda>_. Inl (IoError ''down'')) Streaming 1) 1 minimax_asr_state_new
       [PushAudio [1], PushAudio [2], AsrStopCmd] \<lparr>net_closed = {}, net_log = []\<rparr>) =
     pre @ [AsrErrorEv (bridge_error_text (IoError ''down''))] \<and> (\<nexists>r. AsrEndedEv r \<in> set pre)"
proof -
  let ?n = "\<lparr>net_closed = {}, net_log = []\<rparr> :: bridge_asr_event net"
  let ?cs = "[PushAudio [1], PushAudio [2], AsrStopCmd]"
  let ?run = "asr_session_loop (minimax_asr_step (\<lambda>_. Inl (IoError ''down'')) Streaming 1) 1 minimax_asr_state_new ?cs ?n"
  have "AsrCommitCmd \<in> set ?cs \<or> AsrStopCmd \<in> set ?cs" "1 \<notin> net_closed ?n" by simp_all
  from conjunct2 [OF asr_sessions_close [OF this, of Streaming "\<lambda>_. Inl (IoError ''down'')" 1]] obtain pre e where
    run: "sent_on 1 ?run = sent_on 1 ?n @ pre @ [e]" "\<forall>r m. AsrEndedEv r \<notin> set pre \<and> AsrErrorEv m \<notin> set pre"
    by blast
  have "sent_on 1 ?run = [AsrErrorEv (bridge_error_text (IoError ''down''))]"
    using asr_loop_events [of 1 ?n "minimax_asr_step (\<lambda>_. Inl (IoError ''down'')) Streaming 1" minimax_asr_state_new ?cs]
    by (simp add: minimax_asr_state_new_def Let_def sent_on_def)
  with run have "e = AsrErrorEv (bridge_error_text (IoError ''down''))" by (simp add: sent_on_def)
  with run show ?thesis by (intro exI [of _ pre]) (simp add: sent_on_def)
qed

text \<open>The partial results of a MiniMax session are spaced and truthful: each is about a prefix of the
  pushed audio, whose transcription it is, with spaces trimmed; two successive ones are at least the trigger
  of audio apart and have different texts; and besides them the session sends at most one error, as its last event.\<close>

lemma minimax_partials_spaced_truthful:
  assumes "tx \<notin> net_closed n"
  shows "\<exists>ps err.
           sent_on tx (asr_session_loop (minimax_asr_step transcribe Streaming trigger) tx minimax_asr_state_new
                        (map PushAudio cs) n) =
             sent_on tx n @ map (\<lambda>p. AsrPartialEv (snd p)) ps @ err \<and>
           (err = [] \<or> (\<exists>m. err = [AsrErrorEv m])) \<and> spaced trigger 0 None ps \<and>
           (\<forall>(l, t) \<in> set ps. \<exists>tr. transcribe (take l (concat cs)) = Ok tr \<and> t = trim (tr_text tr))"
proof -
  have start: "mst_last_bytes minimax_asr_state_new \<le> length (mst_audio minimax_asr_state_new)"
    by (simp add: minimax_asr_state_new_def)
  obtain err where err: "task_events (minimax_asr_step transcribe Streaming trigger) minimax_asr_state_new (map PushAudio cs) =
      map (\<lambda>p. AsrPartialEv (snd p)) (minimax_partials transcribe trigger cs minimax_asr_state_new) @ err"
    "err = [] \<or> (\<exists>m. err = [AsrErrorEv m])"
    using minimax_push_events [OF start, of transcribe trigger cs] by blast
  have "spaced trigger 0 None (minimax_partials transcribe trigger cs minimax_asr_state_new)"
    "\<forall>(l, t) \<in> set (minimax_partials transcribe trigger cs minimax_asr_state_new).
       \<exists>tr. transcribe (take l (concat cs)) = Ok tr \<and> t = trim (tr_text tr)"
    using minimax_partials_spaced [OF start, of trigger transcribe cs] by (simp_all add: minimax_asr_state_new_def)
  with err asr_loop_events [OF assms, of "minimax_asr_step transcribe Streaming trigger" minimax_asr_state_new
      "map PushAudio cs"]
  show ?thesis
    by (intro exI [of _ "minimax_partials transcribe trigger cs minimax_asr_state_new"] exI [of _ err] conjI)
      (simp_all only: append.assoc)
qed

end
