(* ===== verification/MinimaxWs.thy ===== *)
theory MinimaxWs
  imports TtsProviders Protocol
begin

text \<open>
  The streaming synthesis session of \<^verbatim>\<open>bridges/src/tts/minimax_http.rs\<close>: a task between the commands of a
  client and the websocket of the service. It waits for either; an input is what one wait returns. Connecting
  is a parameter; the socket's writing half is a log that fails once it is broken.
\<close>

section \<open>Requests to the service\<close>

definition minimax_ws_url :: "string \<Rightarrow> string \<Rightarrow> string" where
  "minimax_ws_url base_url group_id =
     (let trimmed = trim_end_slashes base_url;
          ws_base = (case strip_prefix ''https://'' trimmed of
                       Some rest \<Rightarrow> ''wss://'' @ rest
                     | None \<Rightarrow> (case strip_prefix ''http://'' trimmed of
                                  Some rest \<Rightarrow> ''ws://'' @ rest
                                | None \<Rightarrow> trimmed))
      in ws_base @ ''/ws/v1/t2a_v2'')"

record minimax_ws_settings =
  wst_voice :: json
  wst_audio :: json
  wst_extra :: json
  wst_model :: string

definition build_minimax_ws_settings ::
  "(f32_bits \<Rightarrow> json) \<Rightarrow> minimax_config \<Rightarrow> synthesis_options \<Rightarrow> string \<Rightarrow> minimax_ws_settings" where
  "build_minimax_ws_settings f32_json cfg opts encoding =
     (let po = so_provider_options opts
      in \<lparr>wst_voice = minimax_voice_setting f32_json cfg opts,
          wst_audio = minimax_audio_setting cfg encoding,
          wst_extra = filter_reserved_provider_options po
            [''route'', ''voice_id'', ''model'', ''format'', ''emotion'', ''emotion_tag'',
             ''input_mode'', ''output_mode''],
          wst_model = unwrap_or (json_get_str po ''model'') (mm_default_model cfg)\<rparr>)"

text \<open>\<^verbatim>\<open>Map::insert\<close> replaces the value of a key that is there.\<close>

fun obj_insert :: "string \<Rightarrow> json \<Rightarrow> (string \<times> json) list \<Rightarrow> (string \<times> json) list" where
  "obj_insert k v [] = [(k, v)]"
| "obj_insert k v ((j, w) # kvs) = (if j = k then (k, v) # kvs else (j, w) # obj_insert k v kvs)"

definition task_start_message :: "minimax_ws_settings \<Rightarrow> string option \<Rightarrow> json" where
  "task_start_message st text =
     JObject (fold (\<lambda>(k, v). obj_insert k v) (unwrap_or (json_as_object (wst_extra st)) [])
       ([(''event'', JString ''task_start''), (''model'', JString (wst_model st)), (''stream'', JBool True),
         (''voice_setting'', wst_voice st), (''audio_setting'', wst_audio st)] @
        opt_field ''text'' (map_option JString text)))"

definition task_continue_message :: "string \<Rightarrow> json" where
  "task_continue_message text = JObject [(''event'', JString ''task_continue''), (''text'', JString text)]"

definition task_finish_message :: json where
  "task_finish_message = JObject [(''event'', JString ''task_finish'')]"

section \<open>State\<close>

record minimax_ws_event =
  mwe_event :: "string option"
  mwe_is_final :: "bool option"
  mwe_data :: "minimax_audio_data option"
  mwe_base_resp :: "minimax_status option"

record ws_session =
  ws_started :: bool
  ws_start_sent :: bool
  ws_committed :: bool
  ws_buffered :: string
  ws_pending :: "string list"
  ws_sequence :: u64
  ws_sent :: "json list"
  ws_pongs :: "bytes list"
  ws_broken :: "string option"
  ws_events :: "bridge_tts_event net"

definition ws_session_new :: "bridge_tts_event net \<Rightarrow> ws_session" where
  "ws_session_new n =
     \<lparr>ws_started = False, ws_start_sent = False, ws_committed = False, ws_buffered = [], ws_pending = [],
      ws_sequence = 0, ws_sent = [], ws_pongs = [], ws_broken = None, ws_events = n\<rparr>"

datatype ws_input =
    FromService "minimax_ws_event frame option"
  | FromClient "bridge_tts_command option"
  | SinkBreaks string

datatype ws_status = WsGo | WsReturn "bridge_error + string option"

text \<open>One message to the service; several stop at the first that fails. \<open>ws_then\<close> is the \<^verbatim>\<open>?\<close> after it.\<close>

definition ws_send :: "json \<Rightarrow> ws_session \<Rightarrow> (bridge_error + unit) \<times> ws_session" where
  "ws_send m w =
     (case ws_broken w of
        Some e \<Rightarrow> (Err (Disconnected (''MiniMax websocket write failed: '' @ e)), w)
      | None \<Rightarrow> (Ok (), w\<lparr>ws_sent := ws_sent w @ [m]\<rparr>))"

fun ws_send_all :: "json list \<Rightarrow> ws_session \<Rightarrow> (bridge_error + unit) \<times> ws_session" where
  "ws_send_all [] w = (Ok (), w)"
| "ws_send_all (m # ms) w =
     (case ws_send m w of
        (Inl e, w1) \<Rightarrow> (Err e, w1)
      | (Inr _, w1) \<Rightarrow> ws_send_all ms w1)"

definition ws_then ::
  "(bridge_error + unit) \<times> ws_session \<Rightarrow> (ws_session \<Rightarrow> ws_status \<times> ws_session) \<Rightarrow> ws_status \<times> ws_session" where
  "ws_then r k = (case r of (Inl e, w) \<Rightarrow> (WsReturn (Err e), w) | (Inr _, w) \<Rightarrow> k w)"

section \<open>Inputs from the service\<close>

definition ws_emit_audio ::
  "nat \<Rightarrow> audio_format option \<Rightarrow> bytes \<Rightarrow> ws_session \<Rightarrow> ws_status \<times> ws_session" where
  "ws_emit_audio tx fmt bytes w =
     (let chunk = \<lparr>ac_bytes = bytes, ac_sequence = ws_sequence w, ac_is_final = False,
                   ac_format = (if ws_sequence w = 1 then fmt else None)\<rparr>
      in (case net_send tx (TtsAudioEv chunk) (ws_events w) of
            None \<Rightarrow> (WsReturn (Err event_channel_closed), w)
          | Some n \<Rightarrow> (WsGo, w\<lparr>ws_events := n\<rparr>)))"

definition ws_task_started :: "ws_session \<Rightarrow> (bridge_error + unit) \<times> ws_session" where
  "ws_task_started w =
     ws_send_all (map task_continue_message (ws_pending w) @ (if ws_committed w then [task_finish_message] else []))
       (w\<lparr>ws_started := True, ws_pending := []\<rparr>)"

definition ws_final_or_continue :: "minimax_ws_event \<Rightarrow> ws_session \<Rightarrow> ws_status \<times> ws_session" where
  "ws_final_or_continue ev w = ((if mwe_is_final ev = Some True then WsReturn (Ok None) else WsGo), w)"

definition ws_audio_data ::
  "(string \<Rightarrow> string + bytes) \<Rightarrow> nat \<Rightarrow> audio_format option \<Rightarrow> minimax_ws_event \<Rightarrow> ws_session
     \<Rightarrow> ws_status \<times> ws_session" where
  "ws_audio_data b64d tx fmt ev w =
     (case Option.bind (mwe_data ev) (\<lambda>d. or_else (md_audio d) (md_audio_base64 d)) of
        None \<Rightarrow> (WsGo, w)
      | Some raw \<Rightarrow>
          (let audio = trim raw
           in if audio = [] then ws_final_or_continue ev w
              else
                (let w1 = w\<lparr>ws_sequence := ws_sequence w + 1\<rparr>
                 in (case decode_minimax_audio b64d audio of
                       Inl e \<Rightarrow> (WsReturn (Err e), w1)
                     | Inr bytes \<Rightarrow>
                         (if bytes = [] then ws_final_or_continue ev w1
                          else ws_emit_audio tx fmt bytes w1)))))"

definition ws_service_event ::
  "(string \<Rightarrow> string + bytes) \<Rightarrow> nat \<Rightarrow> audio_format option \<Rightarrow> minimax_ws_event \<Rightarrow> ws_session
     \<Rightarrow> ws_status \<times> ws_session" where
  "ws_service_event b64d tx fmt ev w =
     (if (case mwe_base_resp ev of Some s \<Rightarrow> unwrap_or (ms_code s) 0 \<noteq> 0 | None \<Rightarrow> False)
      then (WsReturn (Err (Unavailable (unwrap_or (Option.bind (mwe_base_resp ev) ms_msg)
              ''MiniMax websocket provider error''))), w)
      else if mwe_event ev = Some ''task_started'' then
        ws_then (ws_task_started w) (ws_audio_data b64d tx fmt ev)
      else if mwe_event ev = Some ''task_finished'' then (WsReturn (Ok None), w)
      else if mwe_event ev = Some ''task_failed'' then
        (WsReturn (Err (Unavailable ''MiniMax websocket task failed'')), w)
      else ws_audio_data b64d tx fmt ev w)"

definition ws_closed :: "string \<Rightarrow> ws_session \<Rightarrow> ws_status \<times> ws_session" where
  "ws_closed message w =
     ((if ws_committed w then WsReturn (Ok None) else WsReturn (Err (Disconnected message))), w)"

fun ws_service_frame ::
  "(string \<Rightarrow> string + bytes) \<Rightarrow> nat \<Rightarrow> audio_format option \<Rightarrow> minimax_ws_event frame option \<Rightarrow> ws_session
     \<Rightarrow> ws_status \<times> ws_session" where
  "ws_service_frame b64d tx fmt None w = ws_closed ''MiniMax websocket closed before synthesis completed'' w"
| "ws_service_frame b64d tx fmt (Some (ReadError e)) w =
     (WsReturn (Err (Disconnected (''MiniMax websocket read failed: '' @ e))), w)"
| "ws_service_frame b64d tx fmt (Some (TextFrame (Inl e))) w =
     (WsReturn (Err (ProtocolError (''failed to decode MiniMax websocket event: '' @ e))), w)"
| "ws_service_frame b64d tx fmt (Some (TextFrame (Inr ev))) w = ws_service_event b64d tx fmt ev w"
| "ws_service_frame b64d tx fmt (Some (BinaryFrame bytes)) w =
     ws_emit_audio tx fmt bytes (w\<lparr>ws_sequence := ws_sequence w + 1\<rparr>)"
| "ws_service_frame b64d tx fmt (Some (PingFrame payload)) w =
     (case ws_broken w of
        Some e \<Rightarrow> (WsReturn (Err (Disconnected (''MiniMax websocket pong failed: '' @ e))), w)
      | None \<Rightarrow> (WsGo, w\<lparr>ws_pongs := ws_pongs w @ [payload]\<rparr>))"
| "ws_service_frame b64d tx fmt (Some CloseFrame) w = ws_closed ''MiniMax websocket closed early'' w"
| "ws_service_frame b64d tx fmt (Some PongFrame) w = (WsGo, w)"
| "ws_service_frame b64d tx fmt (Some RawFrame) w = (WsGo, w)"

section \<open>Inputs from the client\<close>

definition ws_append :: "minimax_ws_settings \<Rightarrow> stream_mode \<Rightarrow> string \<Rightarrow> ws_session \<Rightarrow> ws_status \<times> ws_session" where
  "ws_append st mode delta w =
     (if delta = [] then (WsGo, w)
      else if mode = Buffered then (WsGo, w\<lparr>ws_buffered := ws_buffered w @ delta\<rparr>)
      else if ws_started w then ws_then (ws_send (task_continue_message delta) w) (\<lambda>w. (WsGo, w))
      else if \<not> ws_start_sent w then
        ws_then (ws_send (task_start_message st (Some delta)) w) (\<lambda>w. (WsGo, w\<lparr>ws_start_sent := True\<rparr>))
      else (WsGo, w\<lparr>ws_pending := ws_pending w @ [delta]\<rparr>))"

definition ws_commit :: "minimax_ws_settings \<Rightarrow> stream_mode \<Rightarrow> ws_session \<Rightarrow> ws_status \<times> ws_session" where
  "ws_commit st mode w0 =
     (let w = w0\<lparr>ws_committed := True\<rparr>
      in if mode = Buffered then
           (let text = trim (ws_buffered w)
            in if text = [] then (WsReturn (Err (Unavailable ''TTS input buffer is empty'')), w)
               else if ws_started w then
                 ws_then (ws_send_all [task_continue_message text, task_finish_message] w) (\<lambda>w. (WsGo, w))
               else if \<not> ws_start_sent w then
                 ws_then (ws_send (task_start_message st (Some text)) w) (\<lambda>w. (WsGo, w\<lparr>ws_start_sent := True\<rparr>))
               else (WsGo, w\<lparr>ws_pending := ws_pending w @ [text]\<rparr>))
         else if ws_started w then ws_then (ws_send task_finish_message w) (\<lambda>w. (WsGo, w))
         else (WsGo, w))"

fun ws_command ::
  "minimax_ws_settings \<Rightarrow> stream_mode \<Rightarrow> bridge_tts_command option \<Rightarrow> ws_session \<Rightarrow> ws_status \<times> ws_session" where
  "ws_command st mode None w = (WsReturn (Ok (Some ''stopped'')), w)"
| "ws_command st mode (Some (AppendInput delta)) w = ws_append st mode delta w"
| "ws_command st mode (Some TtsCommitCmd) w = ws_commit st mode w"
| "ws_command st mode (Some TtsStopCmd) w =
     (WsReturn (Ok (Some ''stopped'')), snd (ws_send task_finish_message w))"

section \<open>The session\<close>

fun ws_step ::
  "(string \<Rightarrow> string + bytes) \<Rightarrow> nat \<Rightarrow> audio_format option \<Rightarrow> minimax_ws_settings \<Rightarrow> stream_mode
     \<Rightarrow> ws_input \<Rightarrow> ws_session \<Rightarrow> ws_status \<times> ws_session" where
  "ws_step b64d tx fmt st mode (FromService f) w = ws_service_frame b64d tx fmt f w"
| "ws_step b64d tx fmt st mode (FromClient c) w = ws_command st mode c w"
| "ws_step b64d tx fmt st mode (SinkBreaks e) w = (WsGo, w\<lparr>ws_broken := Some e\<rparr>)"

fun ws_loop ::
  "(string \<Rightarrow> string + bytes) \<Rightarrow> nat \<Rightarrow> audio_format option \<Rightarrow> minimax_ws_settings \<Rightarrow> stream_mode
     \<Rightarrow> ws_input list \<Rightarrow> ws_session \<Rightarrow> ws_status \<times> ws_session" where
  "ws_loop b64d tx fmt st mode [] w = (WsGo, w)"
| "ws_loop b64d tx fmt st mode (i # inputs) w =
     (case ws_step b64d tx fmt st mode i w of
        (WsGo, w1) \<Rightarrow> ws_loop b64d tx fmt st mode inputs w1
      | (WsReturn r, w1) \<Rightarrow> (WsReturn r, w1))"

text \<open>\<open>connect\<close> builds the request with its header and opens the socket.\<close>

definition run_minimax_ws_session ::
  "(f32_bits \<Rightarrow> json) \<Rightarrow> (string \<Rightarrow> string + bytes) \<Rightarrow> (string \<Rightarrow> bridge_error + unit) \<Rightarrow> minimax_config
     \<Rightarrow> synthesis_options \<Rightarrow> stream_mode \<Rightarrow> string \<Rightarrow> audio_format option \<Rightarrow> nat \<Rightarrow> ws_input list
     \<Rightarrow> bridge_tts_event net \<Rightarrow> ws_status \<times> ws_session" where
  "run_minimax_ws_session f32_json b64d connect cfg opts mode encoding fmt tx inputs n =
     (let w = ws_session_new n
      in (case connect (minimax_ws_url (mm_base_url cfg) (mm_group_id cfg)) of
            Inl e \<Rightarrow> (WsReturn (Err e), w)
          | Inr _ \<Rightarrow>
              (let st = build_minimax_ws_settings f32_json cfg opts encoding
               in if mode = Buffered then
                    ws_then (ws_send (task_start_message st None) w)
                      (\<lambda>w. ws_loop b64d tx fmt st mode inputs (w\<lparr>ws_start_sent := True\<rparr>))
                  else ws_loop b64d tx fmt st mode inputs w)))"

text \<open>What the spawned task does with the result; a task that has not returned sends nothing more yet.\<close>

definition minimax_ws_task_end :: "nat \<Rightarrow> ws_status \<times> ws_session \<Rightarrow> bridge_tts_event net" where
  "minimax_ws_task_end tx r =
     (case r of
        (WsGo, w) \<Rightarrow> ws_events w
      | (WsReturn (Inr reason), w) \<Rightarrow> net_post tx (TtsEndedEv reason) (ws_events w)
      | (WsReturn (Inl e), w) \<Rightarrow> post_tts_error tx (bridge_error_text e) ''provider_error'' (ws_events w))"

section \<open>Lemmas\<close>

lemma map_of_obj_insert [simp]: "map_of (obj_insert k v kvs) j = (if j = k then Some v else map_of kvs j)"
  by (induction k v kvs rule: obj_insert.induct) auto

lemma map_of_fold_insert:
  "j \<notin> fst ` set xs \<Longrightarrow> map_of (fold (\<lambda>(k, v). obj_insert k v) xs kvs) j = map_of kvs j"
  by (induction xs arbitrary: kvs) (auto split: prod.splits)

text \<open>The extra options of a request replace neither its event nor its text.\<close>

definition extra_harmless :: "minimax_ws_settings \<Rightarrow> bool" where
  "extra_harmless st \<longleftrightarrow> json_get (wst_extra st) ''event'' = None \<and> json_get (wst_extra st) ''text'' = None"

lemma extra_harmless_keys:
  "extra_harmless st \<Longrightarrow> ''event'' \<notin> fst ` set (unwrap_or (json_as_object (wst_extra st)) []) \<and>
     ''text'' \<notin> fst ` set (unwrap_or (json_as_object (wst_extra st)) [])"
  by (cases "wst_extra st") (simp_all add: extra_harmless_def map_of_eq_None_iff)

text \<open>The text a message gives the service to speak.\<close>

definition spoken_text :: "json \<Rightarrow> string" where
  "spoken_text m =
     (if json_get_str m ''event'' = Some ''task_start'' \<or> json_get_str m ''event'' = Some ''task_continue''
      then unwrap_or (json_get_str m ''text'') [] else [])"

definition spoken :: "json list \<Rightarrow> string" where
  "spoken ms = concat (map spoken_text ms)"

lemma spoken_simps [simp]: "spoken [] = []" "spoken (ms @ ns) = spoken ms @ spoken ns"
  "spoken (m # ms) = spoken_text m @ spoken ms"
  by (simp_all add: spoken_def)

lemma spoken_continue [simp]: "spoken_text (task_continue_message t) = t"
  by (simp add: spoken_text_def task_continue_message_def json_get_str_def)

lemma spoken_finish [simp]: "spoken_text task_finish_message = []"
  by (simp add: spoken_text_def task_finish_message_def json_get_str_def)

lemma spoken_start:
  assumes "extra_harmless st"
  shows "spoken_text (task_start_message st t) = unwrap_or t []"
    and "task_start_message st t \<noteq> task_finish_message"
proof -
  have ev: "json_get_str (task_start_message st t) ''event'' = Some ''task_start''"
    and tx: "json_get_str (task_start_message st t) ''text'' = t"
    using extra_harmless_keys [OF assms]
    by (cases t; simp add: task_start_message_def json_get_str_def map_of_fold_insert opt_field_def)+
  then show "spoken_text (task_start_message st t) = unwrap_or t []" by (simp add: spoken_text_def)
  have "json_get_str task_finish_message ''event'' = Some ''task_finish''"
    by (simp add: task_finish_message_def json_get_str_def)
  with ev show "task_start_message st t \<noteq> task_finish_message" by auto
qed

lemma continue_not_finish [simp]: "task_continue_message t \<noteq> task_finish_message"
  by (simp add: task_continue_message_def task_finish_message_def)

lemma spoken_continues [simp]: "spoken (map task_continue_message ts) = concat ts"
  by (induction ts) simp_all

lemma ws_send_Ok: "ws_send m w = (Inr u, w') \<Longrightarrow> w' = w\<lparr>ws_sent := ws_sent w @ [m]\<rparr>"
  by (auto simp: ws_send_def split: option.splits)

lemma ws_send_all_Ok: "ws_send_all ms w = (Inr u, w') \<Longrightarrow> w' = w\<lparr>ws_sent := ws_sent w @ ms\<rparr>"
proof (induction ms arbitrary: w)
  case Nil
  then show ?case by simp
next
  case (Cons m ms)
  then obtain w1 where "ws_send m w = (Inr (), w1)" "ws_send_all ms w1 = (Inr u, w')"
    by (auto split: prod.splits sum.splits)
  with Cons.IH [of w1] ws_send_Ok show ?case by fastforce
qed

lemma ws_then_Go: "ws_then r k = (WsGo, w') \<Longrightarrow> \<exists>w1. r = (Inr (), w1) \<and> k w1 = (WsGo, w')"
  by (auto simp: ws_then_def split: prod.splits sum.splits)

text \<open>Handling audio leaves what concerns the text alone.\<close>

definition same_text_state :: "ws_session \<Rightarrow> ws_session \<Rightarrow> bool" where
  "same_text_state w w' \<longleftrightarrow>
     ws_sent w' = ws_sent w \<and> ws_pending w' = ws_pending w \<and> ws_started w' = ws_started w \<and>
     ws_start_sent w' = ws_start_sent w \<and> ws_committed w' = ws_committed w"

lemma ws_audio_same_text:
  "same_text_state w (snd (ws_emit_audio tx fmt bytes w))"
  "same_text_state w (snd (ws_audio_data b64d tx fmt ev w))"
  by (auto simp: same_text_state_def ws_emit_audio_def ws_audio_data_def ws_final_or_continue_def Let_def
      split: option.splits sum.splits)

text \<open>The text invariant of a session with streaming input.\<close>

definition text_inv :: "string \<Rightarrow> ws_session \<Rightarrow> bool" where
  "text_inv appended w \<longleftrightarrow>
     spoken (ws_sent w) @ concat (ws_pending w) = appended \<and> (ws_started w \<longrightarrow> ws_pending w = []) \<and>
     (task_finish_message \<in> set (ws_sent w) \<longrightarrow> ws_started w) \<and>
     (\<not> ws_start_sent w \<longrightarrow> ws_pending w = [])"

lemma text_inv_same: "same_text_state w w' \<Longrightarrow> text_inv a w' = text_inv a w"
  by (simp add: text_inv_def same_text_state_def)

fun appended_by :: "ws_input \<Rightarrow> string" where
  "appended_by (FromClient (Some (AppendInput d))) = d"
| "appended_by _ = []"

lemma text_inv_started:
  assumes "text_inv a w" "ws_task_started w = (Inr u, w')"
  shows "text_inv a w'"
  using ws_send_all_Ok [OF assms(2) [unfolded ws_task_started_def]] assms(1)
  by (auto simp: text_inv_def)

lemma text_inv_service:
  assumes inv: "text_inv a w" and step: "ws_service_event b64d tx fmt ev w = (WsGo, w')"
  shows "text_inv a w'"
proof (cases "mwe_event ev = Some ''task_started''")
  case True
  then obtain w1 where w1: "ws_task_started w = (Inr (), w1)" "ws_audio_data b64d tx fmt ev w1 = (WsGo, w')"
    using step ws_then_Go by (fastforce simp: ws_service_event_def split: if_splits)
  with text_inv_started [OF inv w1(1)] text_inv_same [OF ws_audio_same_text(2) [of w1 b64d tx fmt ev]]
  show ?thesis by simp
next
  case False
  then have "ws_audio_data b64d tx fmt ev w = (WsGo, w')"
    using step by (auto simp: ws_service_event_def split: if_splits)
  with inv text_inv_same [OF ws_audio_same_text(2) [of w b64d tx fmt ev]] show ?thesis by simp
qed

lemma text_inv_step:
  assumes inv: "text_inv a w" and ok: "extra_harmless st"
    and step: "ws_step b64d tx fmt st Streaming i w = (WsGo, w')"
  shows "text_inv (a @ appended_by i) w'"
proof (cases i)
  case (FromService f)
  have "text_inv a w'"
  proof (cases "(b64d, tx, fmt, f, w)" rule: ws_service_frame.cases)
    case (4 b tx' fmt' ev w'')
    with FromService step text_inv_service [OF inv] show ?thesis by auto
  next
    case (5 b tx' fmt' bytes w'')
    with FromService step have "w' = snd (ws_emit_audio tx fmt bytes (w\<lparr>ws_sequence := ws_sequence w + 1\<rparr>))"
      by auto
    then show ?thesis
      using text_inv_same [OF ws_audio_same_text(1)] inv by (auto simp: text_inv_def)
  qed (use FromService step inv in \<open>auto simp: ws_closed_def text_inv_def split: option.splits if_splits\<close>)
  with FromService show ?thesis by simp
next
  case (FromClient c)
  show ?thesis
  proof (cases "(st, Streaming, c, w)" rule: ws_command.cases)
    case (2 st' mode d w'')
    with FromClient step inv ok spoken_start [OF ok] spoken_start(2) [OF ok, symmetric] show ?thesis
      by (auto simp: ws_append_def text_inv_def split: if_splits dest!: ws_then_Go ws_send_Ok)
  next
    case (3 st' mode w'')
    with FromClient step inv show ?thesis
      by (auto simp: ws_commit_def Let_def text_inv_def split: if_splits dest!: ws_then_Go ws_send_Ok)
  qed (use FromClient step in auto)
next
  case (SinkBreaks e)
  with step inv show ?thesis by (auto simp: text_inv_def)
qed

lemma text_inv_new: "text_inv [] (ws_session_new n)"
  by (simp add: text_inv_def ws_session_new_def)

text \<open>
  Where the message that finishes the task stands among the others: when it is sent, the client has committed, and
  everything appended by then has been sent before it; and it has been sent once the client has committed and the
  service has started the task.
\<close>

abbreviation commit_input :: ws_input where
  "commit_input \<equiv> FromClient (Some TtsCommitCmd)"

definition finish_inv :: "ws_input list \<Rightarrow> ws_session \<Rightarrow> bool" where
  "finish_inv ins w \<longleftrightarrow>
     text_inv (concat (map appended_by ins)) w \<and> (ws_committed w \<longleftrightarrow> commit_input \<in> set ins) \<and>
     (ws_started w \<and> ws_committed w \<longrightarrow> task_finish_message \<in> set (ws_sent w)) \<and>
     (\<forall>pre post. ws_sent w = pre @ task_finish_message # post \<longrightarrow>
        (\<exists>ins1 ins2. ins = ins1 @ ins2 \<and> commit_input \<in> set ins1 \<and> spoken pre = concat (map appended_by ins1)))"

lemma split_at_append:
  assumes "xs @ ys = pre @ m # post"
  obtains post' where "xs = pre @ m # post'" | pre' where "pre = xs @ pre'" "ys = pre' @ m # post"
proof -
  from assms consider us where "xs = pre @ us" "us @ ys = m # post" | us where "xs @ us = pre" "ys = us @ m # post"
    by (auto simp: append_eq_append_conv2)
  then show thesis
  proof cases
    case (1 us)
    with that show thesis by (cases us) auto
  next
    case (2 us)
    with that(2) show thesis by blast
  qed
qed

lemma finish_inv_sends:
  assumes "finish_inv ins w" and "text_inv (concat (map appended_by (ins @ [i]))) w'"
    and "ws_sent w' = ws_sent w @ ms" and "ws_committed w' \<longleftrightarrow> commit_input \<in> set (ins @ [i])"
    and "ws_started w' \<Longrightarrow> ws_committed w' \<Longrightarrow> task_finish_message \<in> set (ws_sent w) \<union> set ms"
    and "\<And>pre post. ms = pre @ task_finish_message # post \<Longrightarrow>
       commit_input \<in> set (ins @ [i]) \<and> spoken (ws_sent w) @ spoken pre = concat (map appended_by (ins @ [i]))"
  shows "finish_inv (ins @ [i]) w'"
  unfolding finish_inv_def
proof (intro conjI allI impI)
  fix pre post assume "ws_sent w' = pre @ task_finish_message # post"
  then have "ws_sent w @ ms = pre @ task_finish_message # post" by (simp add: assms(3))
  then show "\<exists>ins1 ins2. ins @ [i] = ins1 @ ins2 \<and> commit_input \<in> set ins1 \<and> spoken pre = concat (map appended_by ins1)"
  proof (cases rule: split_at_append)
    case (1 post')
    with assms(1) obtain ins1 ins2 where "ins = ins1 @ ins2" "commit_input \<in> set ins1"
      "spoken pre = concat (map appended_by ins1)" unfolding finish_inv_def by blast
    then show ?thesis by (intro exI [of _ ins1] exI [of _ "ins2 @ [i]"]) simp
  next
    case (2 pre')
    with assms(6) [of pre' post] show ?thesis by (intro exI [of _ "ins @ [i]"] exI [of _ "[]"]) simp
  qed
qed (use assms(2-5) in auto)

text \<open>What one step sends to the service.\<close>

lemma ws_service_sends:
  assumes "ws_service_frame b64d tx fmt f w = (WsGo, w')"
  shows "ws_committed w' = ws_committed w \<and>
    (ws_sent w' = ws_sent w \<and> ws_started w' = ws_started w \<or>
     ws_sent w' = ws_sent w @ map task_continue_message (ws_pending w) @ (if ws_committed w then [task_finish_message] else []))"
proof (cases "(b64d, tx, fmt, f, w)" rule: ws_service_frame.cases)
  case (4 b tx' fmt' ev w'')
  with assms have step: "ws_service_event b64d tx fmt ev w = (WsGo, w')" by simp
  show ?thesis
  proof (cases "mwe_event ev = Some ''task_started''")
    case True
    then obtain w1 where w1: "ws_task_started w = (Inr (), w1)" "ws_audio_data b64d tx fmt ev w1 = (WsGo, w')"
      using step ws_then_Go by (fastforce simp: ws_service_event_def split: if_splits)
    then have "same_text_state w1 w'" using ws_audio_same_text(2) [of w1 b64d tx fmt ev] by simp
    with ws_send_all_Ok [OF w1(1) [unfolded ws_task_started_def]] show ?thesis by (simp add: same_text_state_def)
  next
    case False
    then have "ws_audio_data b64d tx fmt ev w = (WsGo, w')"
      using step by (auto simp: ws_service_event_def split: if_splits)
    then show ?thesis using ws_audio_same_text(2) [of w b64d tx fmt ev] by (simp add: same_text_state_def)
  qed
next
  case (5 b tx' fmt' bytes w'')
  with assms have "w' = snd (ws_emit_audio tx fmt bytes (w\<lparr>ws_sequence := ws_sequence w + 1\<rparr>))" by auto
  then show ?thesis
    using ws_audio_same_text(1) [of "w\<lparr>ws_sequence := ws_sequence w + 1\<rparr>" tx fmt bytes] by (simp add: same_text_state_def)
qed (use assms in \<open>auto simp: ws_closed_def split: option.splits if_splits\<close>)

lemma finish_after_continues:
  assumes "map task_continue_message ts @ (if c then [task_finish_message] else []) = pre @ task_finish_message # post"
  shows "c \<and> pre = map task_continue_message ts"
proof -
  have no: "task_finish_message \<notin> set (map task_continue_message ts)" using continue_not_finish by (auto dest: sym)
  from assms show ?thesis
  proof (cases rule: split_at_append)
    case (1 post')
    with no show ?thesis by (metis in_set_conv_decomp)
  next
    case (2 pre')
    then show ?thesis by (cases c; cases pre') auto
  qed
qed

lemma ws_client_sends:
  assumes "ws_command st Streaming c w = (WsGo, w')" and "extra_harmless st"
  shows "\<exists>ms. ws_sent w' = ws_sent w @ ms \<and> ws_started w' = ws_started w \<and>
    (ws_committed w' \<longleftrightarrow> ws_committed w \<or> c = Some TtsCommitCmd) \<and>
    (c = Some TtsCommitCmd \<and> ws_started w \<longrightarrow> task_finish_message \<in> set ms) \<and>
    (task_finish_message \<in> set ms \<longrightarrow> ms = [task_finish_message] \<and> c = Some TtsCommitCmd \<and> ws_started w)"
proof (cases "(st, Streaming, c, w)" rule: ws_command.cases)
  case (2 st' mode d w'')
  with assms(1) spoken_start(2) [OF assms(2), symmetric] continue_not_finish [symmetric] show ?thesis
    by (auto simp: ws_append_def split: if_splits dest!: ws_then_Go ws_send_Ok)
next
  case (3 st' mode w'')
  with assms(1) show ?thesis
    by (auto simp: ws_commit_def Let_def split: if_splits dest!: ws_then_Go ws_send_Ok)
qed (use assms(1) in auto)

lemma finish_inv_step:
  assumes inv: "finish_inv ins w" and ok: "extra_harmless st"
    and step: "ws_step b64d tx fmt st Streaming i w = (WsGo, w')"
  shows "finish_inv (ins @ [i]) w'"
proof -
  have old: "text_inv (concat (map appended_by ins)) w" and c: "ws_committed w \<longleftrightarrow> commit_input \<in> set ins"
    and sent: "ws_started w \<Longrightarrow> ws_committed w \<Longrightarrow> task_finish_message \<in> set (ws_sent w)"
    using inv by (simp_all add: finish_inv_def)
  have new: "text_inv (concat (map appended_by (ins @ [i]))) w'" using text_inv_step [OF old ok step] by simp
  note sends = finish_inv_sends [OF inv new]
  show ?thesis
  proof (cases i)
    case (FromService f)
    then have s: "ws_committed w' = ws_committed w"
      "ws_sent w' = ws_sent w \<and> ws_started w' = ws_started w \<or>
       ws_sent w' = ws_sent w @ map task_continue_message (ws_pending w) @ (if ws_committed w then [task_finish_message] else [])"
      using step ws_service_sends [of b64d tx fmt f w w'] by simp_all
    from s(2) show ?thesis
    proof
      assume "ws_sent w' = ws_sent w \<and> ws_started w' = ws_started w"
      with s(1) c sent FromService show ?thesis by (intro sends [of "[]"]) auto
    next
      assume "ws_sent w' = ws_sent w @ map task_continue_message (ws_pending w) @ (if ws_committed w then [task_finish_message] else [])"
      then show ?thesis
      proof (rule sends)
        fix pre post
        assume "map task_continue_message (ws_pending w) @ (if ws_committed w then [task_finish_message] else []) =
          pre @ task_finish_message # post"
        from finish_after_continues [OF this] c old FromService
        show "commit_input \<in> set (ins @ [i]) \<and> spoken (ws_sent w) @ spoken pre = concat (map appended_by (ins @ [i]))"
          by (simp add: text_inv_def)
      next
        show "ws_committed w' \<longleftrightarrow> commit_input \<in> set (ins @ [i])" using s(1) c FromService by auto
      next
        assume "ws_committed w'"
        with s(1) show "task_finish_message \<in> set (ws_sent w) \<union>
            set (map task_continue_message (ws_pending w) @ (if ws_committed w then [task_finish_message] else []))" by simp
      qed
    qed
  next
    case (FromClient cmd)
    then have "ws_command st Streaming cmd w = (WsGo, w')" using step by simp
    from ws_client_sends [OF this ok]
    obtain ms where ms: "ws_sent w' = ws_sent w @ ms" "ws_committed w' \<longleftrightarrow> ws_committed w \<or> cmd = Some TtsCommitCmd"
      "task_finish_message \<in> set ms \<longrightarrow> ms = [task_finish_message] \<and> cmd = Some TtsCommitCmd \<and> ws_started w"
      "ws_started w' = ws_started w" "cmd = Some TtsCommitCmd \<and> ws_started w \<longrightarrow> task_finish_message \<in> set ms"
      by blast
    show ?thesis
    proof (rule sends [OF ms(1)])
      fix pre post assume "ms = pre @ task_finish_message # post"
      with ms(3) have "pre = []" "cmd = Some TtsCommitCmd" "ws_started w" by (cases pre; auto)+
      then show "commit_input \<in> set (ins @ [i]) \<and> spoken (ws_sent w) @ spoken pre = concat (map appended_by (ins @ [i]))"
        using old FromClient by (auto simp: text_inv_def)
    next
      show "ws_committed w' \<longleftrightarrow> commit_input \<in> set (ins @ [i])" using ms(2) c FromClient by auto
    next
      assume "ws_started w'" "ws_committed w'"
      with ms(2,4,5) sent show "task_finish_message \<in> set (ws_sent w) \<union> set ms" by blast
    qed
  next
    case (SinkBreaks e)
    with step c sent show ?thesis by (intro sends [of "[]"]) auto
  qed
qed

lemma finish_inv_loop:
  "ws_loop b64d tx fmt st Streaming inputs w = (WsGo, w') \<Longrightarrow> finish_inv ins w \<Longrightarrow> extra_harmless st \<Longrightarrow>
     finish_inv (ins @ inputs) w'"
proof (induction inputs arbitrary: w ins)
  case Nil
  then show ?case by simp
next
  case (Cons i inputs)
  then obtain w1 where "ws_step b64d tx fmt st Streaming i w = (WsGo, w1)"
    "ws_loop b64d tx fmt st Streaming inputs w1 = (WsGo, w')"
    by (auto split: prod.splits ws_status.splits)
  with Cons.IH [of w1 "ins @ [i]"] finish_inv_step Cons.prems(2,3) show ?case by simp
qed

lemma finish_inv_new: "finish_inv [] (ws_session_new n)"
  using text_inv_new [of n] by (simp add: finish_inv_def ws_session_new_def)

section \<open>Properties\<close>


definition demo_ws_settings :: minimax_ws_settings where
  "demo_ws_settings = \<lparr>wst_voice = JNull, wst_audio = JNull, wst_extra = JObject [(''speed'', JNull)],
     wst_model = ''speech''\<rparr>"

definition demo_ws_inputs :: "ws_input list" where
  "demo_ws_inputs =
     [FromClient (Some (AppendInput ''ab'')), FromClient (Some (AppendInput ''cd'')), FromClient (Some TtsCommitCmd),
      FromService (Some (TextFrame (Inr \<lparr>mwe_event = Some ''task_started'', mwe_is_final = None, mwe_data = None,
        mwe_base_resp = None\<rparr>)))]"


end
