(* ===== verification/SdkClient.thy ===== *)
theory SdkClient
  imports GatewayInv
begin

text \<open>
  The Rust SDK, \<^verbatim>\<open>sdks/rust/src/lib.rs\<close>: a client of \<^verbatim>\<open>/ws\<close> which numbers its requests, waits for
  their replies and follows its one session. What its socket delivers is a list of inputs, and a call
  gives either its result with the inputs it has left, or \<open>Waiting\<close> when the inputs do not end it.
\<close>

section \<open>State\<close>

datatype client_error =
    ConnectError string
  | TransportError string
  | ClientProtocolError string
  | ServerReported "request_id option" "session_id option" error_info
  | NoActiveSession
  | ConnectionClosed

record client_config =
  ccf_url :: string
  ccf_protocol_version :: string
  ccf_client_name :: string

definition client_config_new :: "string \<Rightarrow> client_config" where
  "client_config_new url =
     \<lparr>ccf_url = url, ccf_protocol_version = ''v1'', ccf_client_name = ''speechmesh-rust-sdk''\<rparr>"

record session_started =
  sst_request_id :: "request_id option"
  sst_session_id :: session_id
  sst_payload :: session_started_payload

text \<open>The log of what was written, and the error every later write gets once the socket is broken.\<close>

datatype sdk_out = OutMessage client_message | OutAudio bytes | OutPong bytes | OutClose

record sdk_client =
  sdk_config :: client_config
  sdk_next_request :: u64
  sdk_session :: "session_id option"
  sdk_domain :: "capability_domain option"
  sdk_sent :: "sdk_out list"
  sdk_broken :: "string option"

datatype sdk_input = Arrives "server_message frame option" | WriteBreaks string

datatype 'a wait = Waiting | Got 'a

section \<open>Sending\<close>

definition sdk_write :: "sdk_out \<Rightarrow> sdk_client \<Rightarrow> (client_error + unit) \<times> sdk_client" where
  "sdk_write out k =
     (case sdk_broken k of
        Some e \<Rightarrow> (Err (TransportError e), k)
      | None \<Rightarrow> (Ok (), k\<lparr>sdk_sent := sdk_sent k @ [out]\<rparr>))"

definition send_json :: "client_message \<Rightarrow> sdk_client \<Rightarrow> (client_error + unit) \<times> sdk_client" where
  "send_json m k = sdk_write (OutMessage m) k"

text \<open>The counter is a \<^verbatim>\<open>u64\<close> and wraps in a release build.\<close>

definition next_request_id :: "sdk_client \<Rightarrow> request_id \<times> sdk_client" where
  "next_request_id k =
     (let n = sdk_next_request k + 1
      in (RequestId (''req_'' @ show_nat (unat n)), k\<lparr>sdk_next_request := n\<rparr>))"

section \<open>Receiving\<close>

fun observe_message :: "server_message \<Rightarrow> sdk_client \<Rightarrow> sdk_client" where
  "observe_message (SSessionStarted rid s payload) k =
     k\<lparr>sdk_session := Some s, sdk_domain := Some (ssp_domain payload)\<rparr>"
| "observe_message (SSessionEnded s reason) k =
     (if sdk_session k = Some s then k\<lparr>sdk_session := None, sdk_domain := None\<rparr> else k)"
| "observe_message _ k = k"

fun sdk_recv ::
  "sdk_input list \<Rightarrow> sdk_client \<Rightarrow> (client_error + server_message) wait \<times> sdk_input list \<times> sdk_client" where
  "sdk_recv [] k = (Waiting, [], k)"
| "sdk_recv (WriteBreaks e # ins) k = sdk_recv ins (k\<lparr>sdk_broken := Some e\<rparr>)"
| "sdk_recv (Arrives None # ins) k = (Got (Err ConnectionClosed), ins, k)"
| "sdk_recv (Arrives (Some (ReadError e)) # ins) k = (Got (Err (TransportError e)), ins, k)"
| "sdk_recv (Arrives (Some (TextFrame (Inl e))) # ins) k = (Got (Err (ClientProtocolError e)), ins, k)"
| "sdk_recv (Arrives (Some (TextFrame (Inr m))) # ins) k = (Got (Ok m), ins, observe_message m k)"
| "sdk_recv (Arrives (Some CloseFrame) # ins) k = (Got (Err ConnectionClosed), ins, k)"
| "sdk_recv (Arrives (Some (PingFrame payload)) # ins) k =
     (case sdk_write (OutPong payload) k of
        (Inl e, k1) \<Rightarrow> (Got (Err e), ins, k1)
      | (Inr _, k1) \<Rightarrow> sdk_recv ins k1)"
| "sdk_recv (Arrives (Some PongFrame) # ins) k = sdk_recv ins k"
| "sdk_recv (Arrives (Some (BinaryFrame bytes)) # ins) k =
     (Got (Err (ClientProtocolError ''unexpected non-text frame from server'')), ins, k)"
| "sdk_recv (Arrives (Some RawFrame) # ins) k =
     (Got (Err (ClientProtocolError ''unexpected non-text frame from server'')), ins, k)"

lemma sdk_recv_shorter: "sdk_recv ins k = (Got r, ins', k') \<Longrightarrow> length ins' < length ins"
  by (induction ins k rule: sdk_recv.induct) (force split: prod.splits sum.splits)+

text \<open>The loop of every call that waits: \<open>sel\<close> says which message ends the call, and how.\<close>

function (sequential) sdk_await ::
  "(server_message \<Rightarrow> (client_error + 'a) option) \<Rightarrow> sdk_input list \<Rightarrow> sdk_client
     \<Rightarrow> (client_error + 'a) wait \<times> sdk_input list \<times> sdk_client" where
  "sdk_await sel ins k =
     (case sdk_recv ins k of
        (Waiting, ins1, k1) \<Rightarrow> (Waiting, ins1, k1)
      | (Got (Inl e), ins1, k1) \<Rightarrow> (Got (Err e), ins1, k1)
      | (Got (Inr m), ins1, k1) \<Rightarrow>
          (case sel m of
             Some r \<Rightarrow> (Got r, ins1, k1)
           | None \<Rightarrow> sdk_await sel ins1 k1))"
  by pat_completeness auto
termination
  by (relation "measure (\<lambda>(sel, ins, k). length ins)") (auto dest: sdk_recv_shorter [OF sym])

declare sdk_await.simps [simp del]

text \<open>The selectors: the reply to the request, or an error that names the request.\<close>

fun error_for :: "request_id \<Rightarrow> server_message \<Rightarrow> (client_error + 'a) option" where
  "error_for rid (SError r s e) = (if r = Some rid then Some (Err (ServerReported r s e)) else None)"
| "error_for rid _ = None"

fun discover_reply :: "request_id \<Rightarrow> server_message \<Rightarrow> (client_error + provider_descriptor list) option" where
  "discover_reply rid (SDiscoverResult r payload) = (if r = rid then Some (Ok payload) else None)"
| "discover_reply rid m = error_for rid m"

fun voices_reply :: "request_id \<Rightarrow> server_message \<Rightarrow> (client_error + voice_descriptor list) option" where
  "voices_reply rid (STtsVoicesResult r payload) = (if r = rid then Some (Ok payload) else None)"
| "voices_reply rid m = error_for rid m"

fun started_reply :: "request_id \<Rightarrow> server_message \<Rightarrow> (client_error + session_started) option" where
  "started_reply rid (SSessionStarted r s payload) =
     (if r = Some rid then Some (Ok \<lparr>sst_request_id = r, sst_session_id = s, sst_payload = payload\<rparr>) else None)"
| "started_reply rid m = error_for rid m"

fun hello_reply :: "server_message \<Rightarrow> (client_error + unit) option" where
  "hello_reply (SHelloOk r h) = Some (Ok ())"
| "hello_reply (SError r s e) = Some (Err (ServerReported r s e))"
| "hello_reply _ = None"

text \<open>A request: its number, its message, the wait.\<close>

definition sdk_request ::
  "(request_id \<Rightarrow> client_message) \<Rightarrow> (request_id \<Rightarrow> server_message \<Rightarrow> (client_error + 'a) option)
     \<Rightarrow> sdk_input list \<Rightarrow> sdk_client \<Rightarrow> (client_error + 'a) wait \<times> sdk_input list \<times> sdk_client" where
  "sdk_request msg reply_of ins k =
     (case next_request_id k of
        (rid, k1) \<Rightarrow>
          (case send_json (msg rid) k1 of
             (Inl e, k2) \<Rightarrow> (Got (Err e), ins, k2)
           | (Inr _, k2) \<Rightarrow> sdk_await (reply_of rid) ins k2))"

section \<open>Calls that wait\<close>

definition sdk_discover ::
  "capability_domain list \<Rightarrow> sdk_input list \<Rightarrow> sdk_client
     \<Rightarrow> (client_error + provider_descriptor list) wait \<times> sdk_input list \<times> sdk_client" where
  "sdk_discover domains = sdk_request (\<lambda>rid. CDiscover rid domains) discover_reply"

definition discover_asr ::
  "sdk_input list \<Rightarrow> sdk_client \<Rightarrow> (client_error + provider_descriptor list) wait \<times> sdk_input list \<times> sdk_client" where
  "discover_asr = sdk_discover [Asr]"

definition discover_tts ::
  "sdk_input list \<Rightarrow> sdk_client \<Rightarrow> (client_error + provider_descriptor list) wait \<times> sdk_input list \<times> sdk_client" where
  "discover_tts = sdk_discover [Tts]"

definition list_tts_voices ::
  "provider_selector \<Rightarrow> string option \<Rightarrow> sdk_input list \<Rightarrow> sdk_client
     \<Rightarrow> (client_error + voice_descriptor list) wait \<times> sdk_input list \<times> sdk_client" where
  "list_tts_voices provider language =
     sdk_request (\<lambda>rid. CTtsVoices rid \<lparr>vlq_provider = provider, vlq_language = language\<rparr>) voices_reply"

definition one_session_only :: client_error where
  "one_session_only = ClientProtocolError ''speechmesh server allows only one active session per connection''"

text \<open>A successful start records the session a second time; \<open>start_tts\<close> records the domain too.\<close>

definition start_asr ::
  "asr_stream_request \<Rightarrow> sdk_input list \<Rightarrow> sdk_client
     \<Rightarrow> (client_error + session_started) wait \<times> sdk_input list \<times> sdk_client" where
  "start_asr req ins k =
     (if sdk_session k \<noteq> None then (Got (Err one_session_only), ins, k)
      else (case sdk_request (\<lambda>rid. CAsrStart rid req) started_reply ins k of
              (Got (Inr st), ins1, k1) \<Rightarrow> (Got (Ok st), ins1, k1\<lparr>sdk_session := Some (sst_session_id st)\<rparr>)
            | r \<Rightarrow> r))"

definition start_tts ::
  "tts_stream_request \<Rightarrow> sdk_input list \<Rightarrow> sdk_client
     \<Rightarrow> (client_error + session_started) wait \<times> sdk_input list \<times> sdk_client" where
  "start_tts req ins k =
     (if sdk_session k \<noteq> None then (Got (Err one_session_only), ins, k)
      else (case sdk_request (\<lambda>rid. CTtsStart rid req) started_reply ins k of
              (Got (Inr st), ins1, k1) \<Rightarrow>
                (Got (Ok st), ins1,
                 k1\<lparr>sdk_session := Some (sst_session_id st), sdk_domain := Some (ssp_domain (sst_payload st))\<rparr>)
            | r \<Rightarrow> r))"

definition handshake ::
  "sdk_input list \<Rightarrow> sdk_client \<Rightarrow> (client_error + unit) wait \<times> sdk_input list \<times> sdk_client" where
  "handshake ins k =
     (case send_json (CHello None \<lparr>hq_protocol_version = ccf_protocol_version (sdk_config k),
                                   hq_client_name = Some (ccf_client_name (sdk_config k))\<rparr>) k of
        (Inl e, k1) \<Rightarrow> (Got (Err e), ins, k1)
      | (Inr _, k1) \<Rightarrow> sdk_await hello_reply ins k1)"

definition sdk_client_new :: "client_config \<Rightarrow> sdk_client" where
  "sdk_client_new cfg =
     \<lparr>sdk_config = cfg, sdk_next_request = 0, sdk_session = None, sdk_domain = None, sdk_sent = [], sdk_broken = None\<rparr>"

text \<open>\<open>connected\<close> is the outcome of \<^verbatim>\<open>connect_async\<close>; a connected client is ready when its greeting is answered.\<close>

definition sdk_connect ::
  "client_config \<Rightarrow> string + unit \<Rightarrow> sdk_input list
     \<Rightarrow> (client_error + sdk_client) wait \<times> sdk_input list" where
  "sdk_connect cfg connected ins =
     (case connected of
        Inl e \<Rightarrow> (Got (Err (ConnectError e)), ins)
      | Inr _ \<Rightarrow>
          (case handshake ins (sdk_client_new cfg) of
             (Waiting, ins1, k1) \<Rightarrow> (Waiting, ins1)
           | (Got (Inl e), ins1, k1) \<Rightarrow> (Got (Err e), ins1)
           | (Got (Inr _), ins1, k1) \<Rightarrow> (Got (Ok k1), ins1)))"

section \<open>Calls on the session\<close>

fun domain_debug :: "capability_domain \<Rightarrow> string" where
  "domain_debug Asr = ''Asr''"
| "domain_debug Tts = ''Tts''"
| "domain_debug Transport = ''Transport''"

definition ensure_active_session_domain :: "capability_domain \<Rightarrow> sdk_client \<Rightarrow> client_error + unit" where
  "ensure_active_session_domain expected k =
     (case sdk_domain k of
        Some actual \<Rightarrow>
          (if actual = expected then Ok ()
           else Err (ClientProtocolError (''active session domain mismatch: expected '' @ domain_debug expected @
                                          '', got '' @ domain_debug actual)))
      | None \<Rightarrow> Err NoActiveSession)"

definition send_audio :: "bytes \<Rightarrow> sdk_client \<Rightarrow> (client_error + unit) \<times> sdk_client" where
  "send_audio chunk k =
     (case ensure_active_session_domain Asr k of
        Inl e \<Rightarrow> (Err e, k)
      | Inr _ \<Rightarrow> sdk_write (OutAudio chunk) k)"

definition sdk_commit :: "sdk_client \<Rightarrow> (client_error + unit) \<times> sdk_client" where
  "sdk_commit k =
     (case sdk_session k of
        None \<Rightarrow> (Err NoActiveSession, k)
      | Some s \<Rightarrow>
          (case sdk_domain k of
             Some Asr \<Rightarrow> send_json (CAsrCommit s) k
           | Some Tts \<Rightarrow> send_json (CTtsCommit s) k
           | Some domain \<Rightarrow>
               (Err (ClientProtocolError (''commit is unsupported for active session domain '' @ domain_debug domain)), k)
           | None \<Rightarrow> (Err NoActiveSession, k)))"

definition append_tts_input :: "string \<Rightarrow> sdk_client \<Rightarrow> (client_error + unit) \<times> sdk_client" where
  "append_tts_input delta k =
     (case ensure_active_session_domain Tts k of
        Inl e \<Rightarrow> (Err e, k)
      | Inr _ \<Rightarrow>
          (case sdk_session k of
             None \<Rightarrow> (Err NoActiveSession, k)
           | Some s \<Rightarrow> send_json (CTtsInputAppend s delta) k))"

definition sdk_stop :: "sdk_client \<Rightarrow> (client_error + unit) \<times> sdk_client" where
  "sdk_stop k =
     (case sdk_session k of
        None \<Rightarrow> (Err NoActiveSession, k)
      | Some s \<Rightarrow> send_json (CSessionStop s) k)"

definition sdk_close :: "sdk_client \<Rightarrow> (client_error + unit) \<times> sdk_client" where
  "sdk_close k = sdk_write OutClose k"

section \<open>Sequences of calls\<close>

text \<open>A caller may drop a call that waits; what it did to the client stays.\<close>

datatype sdk_call =
    CallDiscover "capability_domain list"
  | CallVoices provider_selector "string option"
  | CallStartAsr asr_stream_request
  | CallStartTts tts_stream_request
  | CallSendAudio bytes
  | CallCommit
  | CallAppend string
  | CallStop
  | CallRecv
  | CallClose

fun sdk_call_effect :: "sdk_call \<Rightarrow> sdk_input list \<Rightarrow> sdk_client \<Rightarrow> sdk_client" where
  "sdk_call_effect (CallDiscover domains) ins k = snd (snd (sdk_discover domains ins k))"
| "sdk_call_effect (CallVoices provider language) ins k = snd (snd (list_tts_voices provider language ins k))"
| "sdk_call_effect (CallStartAsr req) ins k = snd (snd (start_asr req ins k))"
| "sdk_call_effect (CallStartTts req) ins k = snd (snd (start_tts req ins k))"
| "sdk_call_effect (CallSendAudio chunk) ins k = snd (send_audio chunk k)"
| "sdk_call_effect CallCommit ins k = snd (sdk_commit k)"
| "sdk_call_effect (CallAppend delta) ins k = snd (append_tts_input delta k)"
| "sdk_call_effect CallStop ins k = snd (sdk_stop k)"
| "sdk_call_effect CallRecv ins k = snd (snd (sdk_recv ins k))"
| "sdk_call_effect CallClose ins k = snd (sdk_close k)"

fun sdk_run :: "(sdk_call \<times> sdk_input list) list \<Rightarrow> sdk_client \<Rightarrow> sdk_client" where
  "sdk_run [] k = k"
| "sdk_run ((call, ins) # calls) k = sdk_run calls (sdk_call_effect call ins k)"

section \<open>Lemmas: waiting\<close>

definition arrives :: "server_message list \<Rightarrow> sdk_input list" where
  "arrives ms = map (\<lambda>m. Arrives (Some (TextFrame (Inr m)))) ms"

text \<open>A call whose selector takes none of the messages waits, after seeing them all.\<close>

lemma sdk_await_waits:
  "(\<And>m. m \<in> set ms \<Longrightarrow> sel m = None) \<Longrightarrow>
     sdk_await sel (arrives ms) k = (Waiting, [], fold observe_message ms k)"
proof (induction ms arbitrary: k)
  case Nil
  then show ?case by (simp add: arrives_def sdk_await.simps)
next
  case (Cons m ms)
  have "sdk_await sel (arrives (m # ms)) k = sdk_await sel (arrives ms) (observe_message m k)"
    using Cons.prems by (subst sdk_await.simps) (simp add: arrives_def)
  with Cons show ?case by simp
qed

text \<open>The messages that answer a request to start, with its session or with an error that names it.\<close>

fun answers_start :: "request_id \<Rightarrow> server_message \<Rightarrow> bool" where
  "answers_start rid (SSessionStarted r _ _) = (r = Some rid)"
| "answers_start rid (SError r _ _) = (r = Some rid)"
| "answers_start rid _ = False"

lemma unanswered_start: "\<not> answers_start rid m \<Longrightarrow> started_reply rid m = None"
  by (cases m) auto

lemma sdk_request_waits:
  assumes "sdk_broken k = None" and "\<And>m. m \<in> set ms \<Longrightarrow> reply_of (fst (next_request_id k)) m = None"
  shows "fst (sdk_request msg reply_of (arrives ms) k) = Waiting"
  using assms by (auto simp: sdk_request_def next_request_id_def Let_def send_json_def sdk_write_def sdk_await_waits)

lemma starts_wait:
  assumes "sdk_broken k = None" "sdk_session k = None"
    and "\<And>m. m \<in> set ms \<Longrightarrow> \<not> answers_start (fst (next_request_id k)) m"
  shows "fst (start_asr req (arrives ms) k) = Waiting" "fst (start_tts req' (arrives ms) k) = Waiting"
proof -
  have w: "fst (sdk_request msg started_reply (arrives ms) k) = Waiting" for msg
    using assms(1,3) by (intro sdk_request_waits unanswered_start)
  from w [of "\<lambda>rid. CAsrStart rid req"] assms(2) show "fst (start_asr req (arrives ms) k) = Waiting"
    by (auto simp: start_asr_def split: prod.split wait.split sum.split)
  from w [of "\<lambda>rid. CTtsStart rid req'"] assms(2) show "fst (start_tts req' (arrives ms) k) = Waiting"
    by (auto simp: start_tts_def split: prod.split wait.split sum.split)
qed

section \<open>Lemmas: the client and its gateway\<close>

text \<open>A connection whose active session has lost its provider starts no session any more.\<close>

lemma message_gone_starts:
  assumes "active_gone c" and "SSessionStarted r s p \<in> set (cc_sent (snd (handle_client_message br m c)))"
  shows "SSessionStarted r s p \<in> set (cc_sent c)"
proof -
  obtain a where a: "cc_active c = Some a" using assms(1) by (auto simp: active_gone_def split: option.splits)
  note stop = stop_gone [OF assms(1) a]
  show ?thesis
    using assms(2)
    by (cases m) (auto simp: a stop handle_asr_start_def handle_tts_start_def handle_session_stop_def
        split: option.splits sum.splits if_splits)
qed

lemma frame_gone_starts:
  assumes gone: "active_gone c" and step: "client_frame br f c = Inr c'"
    and new: "SSessionStarted r s p \<in> set (cc_sent c')"
  shows "SSessionStarted r s p \<in> set (cc_sent c)"
proof -
  have err: "SSessionStarted r s p \<in> set (cc_sent (send_error rid s1 e y)) \<Longrightarrow> SSessionStarted r s p \<in> set (cc_sent y)"
    for rid s1 e y by (auto simp: send_error_def out_post_effect split: if_splits)
  show ?thesis
  proof (cases f)
    case (TextFrame x)
    show ?thesis
    proof (cases x)
      case (Inl e)
      with TextFrame step new err show ?thesis by auto
    next
      case (Inr m)
      obtain q c1 where m: "handle_client_message br m c = (q, c1)" by fastforce
      with TextFrame Inr step new err have "SSessionStarted r s p \<in> set (cc_sent c1)" by (cases q) auto
      with message_gone_starts [OF gone, of r s p br m] m show ?thesis by simp
    qed
  next
    case (BinaryFrame bs)
    then have c': "c' = binary_frame bs c" using step by simp
    from new have "SSessionStarted r s p \<in> set (cc_sent (binary_frame bs c))" unfolding c' .
    moreover obtain a where a: "cc_active c = Some a" using gone by (auto simp: active_gone_def split: option.splits)
    ultimately show ?thesis
    proof (cases a)
      case (ActiveAsr s h)
      obtain q c1 where q: "on_asr_cmds (asr_push_audio h bs) c = (q, c1)" by fastforce
      then have "cc_sent c1 = cc_sent c" using cmds_frames(2) [of "asr_push_audio h bs" c] by simp
      with a ActiveAsr q new show ?thesis unfolding c' by (cases q) (auto simp: binary_frame_def dest!: err)
    next
      case (ActiveTts s h)
      with a new show ?thesis unfolding c' by (auto simp: binary_frame_def dest!: err)
    qed
  next
    case (PingFrame bs)
    with step new show ?thesis by (auto simp: out_post_effect split: if_splits)
  qed (use step new in auto)
qed

lemma step_gone_starts:
  assumes inv: "client_inv b64 c" and gone: "active_gone c" and step: "client_step b64 c c'"
    and new: "SSessionStarted r s p \<in> set (cc_sent c')"
  shows "SSessionStarted r s p \<in> set (cc_sent c)"
  using step
proof (cases rule: client_step.cases)
  case (step_frame br f)
  with frame_gone_starts [OF gone _ new] show ?thesis by blast
next
  case (step_send i m ms c1)
  have "relay_ok b64 (cc_sent c) (cc_relays c ! i)"
    using inv step_send(2) by (simp add: client_inv_def)
  then have "stream_session m \<noteq> None \<or> (\<exists>rid s e. m = SError rid s e)"
    using step_send(3) by (auto simp: relay_ok_def)
  with step_send new out_send_effect [OF step_send(4)] show ?thesis by auto
qed (use new in auto)

lemma gone_starts:
  assumes "(client_step b64)\<^sup>*\<^sup>* c c'" "client_inv b64 c" "active_gone c"
  shows "client_inv b64 c' \<and> active_gone c' \<and>
    (\<forall>r s p. SSessionStarted r s p \<in> set (cc_sent c') \<longrightarrow> SSessionStarted r s p \<in> set (cc_sent c))"
  using assms
proof (induction rule: rtranclp_induct)
  case base
  then show ?case by simp
next
  case (step y z)
  then have y: "client_inv b64 y" "active_gone y"
    "\<forall>r s p. SSessionStarted r s p \<in> set (cc_sent y) \<longrightarrow> SSessionStarted r s p \<in> set (cc_sent c)" by simp_all
  have "SSessionStarted r s p \<in> set (cc_sent z) \<Longrightarrow> SSessionStarted r s p \<in> set (cc_sent y)" for r s p
    using step_gone_starts [OF y(1,2) step.hyps(2)] .
  with y client_step_inv [OF _ step.hyps(2)] step_gone [OF step.hyps(2)] show ?case by blast
qed

section \<open>What receiving keeps\<close>

text \<open>
  A call that waits changes the client by observing messages, answering pings and losing its socket. A property
  of the client that these keep is kept by every wait.
\<close>

locale kept_while_waiting =
  fixes P :: "sdk_client \<Rightarrow> bool"
  assumes observing: "P k \<Longrightarrow> P (observe_message m k)"
    and ponging: "P k \<Longrightarrow> P (k\<lparr>sdk_sent := sdk_sent k @ [OutPong payload]\<rparr>)"
    and breaking: "P k \<Longrightarrow> P (k\<lparr>sdk_broken := b\<rparr>)"

context kept_while_waiting begin

lemma pong_keeps: "P k \<Longrightarrow> sdk_write (OutPong payload) k = (r, k') \<Longrightarrow> P k'"
  by (auto simp: sdk_write_def ponging split: option.splits)

lemma recv_keeps: "P k \<Longrightarrow> P (snd (snd (sdk_recv ins k)))"
  by (induction ins k rule: sdk_recv.induct)
    (auto simp: observing breaking split: prod.split sum.split dest: pong_keeps)

lemma await_keeps: "P k \<Longrightarrow> P (snd (snd (sdk_await sel ins k)))"
proof (induction sel ins k rule: sdk_await.induct)
  case (1 sel ins k)
  with recv_keeps [of k ins] show ?case
    by (subst sdk_await.simps) (auto split: prod.split wait.split sum.split option.split)
qed

end

text \<open>A client knows a session exactly when it knows its domain.\<close>

definition session_known :: "sdk_client \<Rightarrow> bool" where
  "session_known k \<longleftrightarrow> (sdk_session k = None) = (sdk_domain k = None)"

interpretation known: kept_while_waiting session_known
proof unfold_locales
  show "session_known (observe_message m k)" if "session_known k" for k m
    using that by (cases m) (auto simp: session_known_def)
qed (simp_all add: session_known_def)

text \<open>The requests a client has written, and their numbers.\<close>

fun request_of :: "sdk_out \<Rightarrow> request_id option" where
  "request_of (OutMessage (CDiscover rid _)) = Some rid"
| "request_of (OutMessage (CTtsVoices rid _)) = Some rid"
| "request_of (OutMessage (CAsrStart rid _)) = Some rid"
| "request_of (OutMessage (CTtsStart rid _)) = Some rid"
| "request_of _ = None"

definition requests :: "sdk_client \<Rightarrow> request_id list" where
  "requests k = List.map_filter request_of (sdk_sent k)"

definition numbered_id :: "nat \<Rightarrow> request_id" where
  "numbered_id n = RequestId (''req_'' @ show_nat n)"

definition numbered :: "nat \<Rightarrow> sdk_client \<Rightarrow> bool" where
  "numbered c k \<longleftrightarrow> unat (sdk_next_request k) \<le> c \<and>
     (\<exists>ns. sorted_wrt (<) ns \<and> (\<forall>n \<in> set ns. n \<le> unat (sdk_next_request k)) \<and> requests k = map numbered_id ns)"

lemma requests_pong [simp]: "requests (k\<lparr>sdk_sent := sdk_sent k @ [OutPong p]\<rparr>) = requests k"
  by (simp add: requests_def List.map_filter_def)

lemma observe_frames [simp]:
  "requests (observe_message m k) = requests k"
  "sdk_next_request (observe_message m k) = sdk_next_request k"
  "sdk_sent (observe_message m k) = sdk_sent k"
  by (cases m; simp add: requests_def)+

interpretation same_requests: kept_while_waiting "\<lambda>k. requests k = rs" for rs
  by unfold_locales (simp_all, simp add: requests_def)

interpretation numbers: kept_while_waiting "numbered c" for c
proof unfold_locales
  show "numbered c (k\<lparr>sdk_sent := sdk_sent k @ [OutPong p]\<rparr>)" if "numbered c k" for k p
    using that by (simp add: numbered_def)
  show "numbered c (k\<lparr>sdk_broken := b\<rparr>)" if "numbered c k" for k b
    using that by (simp add: numbered_def requests_def)
qed (simp add: numbered_def)

text \<open>A request takes the client from \<open>P\<close> to \<open>Q\<close> when writing it does, since waiting keeps \<open>Q\<close>.\<close>

locale kept_by_request = kept_while_waiting Q for Q :: "sdk_client \<Rightarrow> bool" +
  fixes P :: "sdk_client \<Rightarrow> bool"
  assumes requesting: "P k \<Longrightarrow> next_request_id k = (rid, k1) \<Longrightarrow> request_of (OutMessage m) = Some rid
      \<Longrightarrow> Q (snd (send_json m k1))"

context kept_by_request begin

lemma request_keeps:
  assumes "P k" and msg: "\<And>rid. request_of (OutMessage (msg rid)) = Some rid"
  shows "Q (snd (snd (sdk_request msg reply_of ins k)))"
proof -
  obtain rid k1 where n: "next_request_id k = (rid, k1)" by fastforce
  obtain r k2 where s: "send_json (msg rid) k1 = (r, k2)" by fastforce
  have "Q k2" using requesting [OF assms(1) n msg] s by simp
  then show ?thesis
    using await_keeps [of k2 "reply_of rid" ins] by (cases r) (simp_all add: sdk_request_def n s)
qed

end

interpretation known_request: kept_by_request session_known session_known
  by unfold_locales
    (auto simp: session_known_def next_request_id_def Let_def send_json_def sdk_write_def split: option.split)

lemma numbered_next:
  assumes k: "numbered c k" and c: "Suc c < 2 ^ 64"
  shows "unat (sdk_next_request k + 1) = Suc (unat (sdk_next_request k))"
proof -
  have "unat (sdk_next_request k) \<le> c" using k by (simp add: numbered_def)
  with c show ?thesis by (simp add: unat_word_ariths)
qed

lemma numbered_Suc:
  assumes k: "numbered c k" and c: "Suc c < 2 ^ 64" and n: "next_request_id k = (rid, k1)"
    and m: "request_of (OutMessage m) = Some rid"
  shows "numbered (Suc c) (snd (send_json m k1))"
proof -
  let ?n = "Suc (unat (sdk_next_request k))"
  note nx = numbered_next [OF k c]
  obtain ns where ns: "sorted_wrt (<) ns" "\<forall>n \<in> set ns. n \<le> unat (sdk_next_request k)"
    "requests k = map numbered_id ns" "?n \<le> Suc c"
    using k by (auto simp: numbered_def)
  have rid: "rid = numbered_id ?n" and k1: "k1 = k\<lparr>sdk_next_request := sdk_next_request k + 1\<rparr>"
    using n nx by (auto simp: next_request_id_def Let_def numbered_id_def)
  have r1: "requests k1 = requests k" by (simp add: k1 requests_def)
  have n1: "unat (sdk_next_request k1) = ?n" using nx by (simp add: k1)
  show ?thesis
  proof (cases "sdk_broken k1")
    case None
    then have "requests (snd (send_json m k1)) = map numbered_id (ns @ [?n])"
      using m r1 ns(3) rid by (simp add: send_json_def sdk_write_def requests_def List.map_filter_def)
    moreover have "sorted_wrt (<) (ns @ [?n])" using ns(1,2) by (fastforce simp: sorted_wrt_append)
    ultimately show ?thesis
      using ns(2,4) n1 None unfolding numbered_def
      by (intro conjI exI [of _ "ns @ [?n]"]) (auto simp: send_json_def sdk_write_def)
  next
    case (Some e)
    then show ?thesis
      using ns n1 r1 unfolding numbered_def
      by (intro conjI exI [of _ ns]) (auto simp: send_json_def sdk_write_def)
  qed
qed

lemma numbered_distinct: "numbered c k \<Longrightarrow> distinct (requests k)"
  by (auto simp: numbered_def distinct_map strict_sorted_iff numbered_id_def inj_on_def)

lemma numbered_fresh:
  assumes "numbered c k" "Suc c < 2 ^ 64"
  shows "fst (next_request_id k) \<notin> set (requests k)"
proof -
  have "fst (next_request_id k) = numbered_id (Suc (unat (sdk_next_request k)))"
    using numbered_next [OF assms] by (simp add: next_request_id_def Let_def numbered_id_def)
  with assms(1) show ?thesis by (fastforce simp: numbered_def numbered_id_def)
qed

section \<open>What a wait returns\<close>

text \<open>The messages of the inputs.\<close>

definition delivered :: "sdk_input list \<Rightarrow> server_message set" where
  "delivered ins = {m. Arrives (Some (TextFrame (Inr m))) \<in> set ins}"

lemma delivered_simps [simp]:
  "delivered [] = {}"
  "delivered (Arrives (Some (TextFrame (Inr m))) # ins) = insert m (delivered ins)"
  "delivered (i # ins) \<supseteq> delivered ins"
  by (auto simp: delivered_def)

lemma sdk_recv_got:
  "sdk_recv ins k = (Got (Inr m), ins', k') \<Longrightarrow>
     m \<in> delivered ins \<and> delivered ins' \<subseteq> delivered ins \<and> (\<exists>k0. k' = observe_message m k0)"
  by (induction ins k rule: sdk_recv.induct) (auto simp: delivered_def split: prod.splits sum.splits)

lemma sdk_await_got:
  "sdk_await sel ins k = (Got (Inr x), ins', k') \<Longrightarrow>
     \<exists>m k0. m \<in> delivered ins \<and> sel m = Some (Inr x) \<and> k' = observe_message m k0"
proof (induction sel ins k rule: sdk_await.induct)
  case (1 sel ins k)
  note res = 1(2)
  obtain w ins1 k1 where r: "sdk_recv ins k = (w, ins1, k1)" using prod_cases3 by blast
  then obtain m where w: "w = Got (Inr m)"
    using res by (cases w rule: wait.exhaust) (auto simp: sdk_await.simps [of sel ins k] split: sum.splits)
  note got = sdk_recv_got [OF r [unfolded w]]
  show ?case
  proof (cases "sel m")
    case None
    then have "sdk_await sel ins1 k1 = (Got (Inr x), ins', k')"
      using res r w by (simp add: sdk_await.simps [of sel ins k])
    from 1(1) [OF r [symmetric] w refl refl None this] got show ?thesis by blast
  next
    case (Some y)
    with res r w got show ?thesis by (auto simp: sdk_await.simps [of sel ins k])
  qed
qed

lemma sdk_request_got:
  assumes "sdk_request msg reply_of ins k = (Got (Inr x), ins', k')"
  shows "\<exists>m k0. m \<in> delivered ins \<and> reply_of (fst (next_request_id k)) m = Some (Inr x) \<and> k' = observe_message m k0"
  using assms by (auto simp: sdk_request_def split: prod.splits sum.splits dest!: sdk_await_got)

lemma started_reply_Inr:
  "started_reply rid m = Some (Inr st) \<Longrightarrow> m = SSessionStarted (Some rid) (sst_session_id st) (sst_payload st)"
  by (cases m) (auto split: if_splits)

text \<open>A request that succeeds has been written, and nothing after it was a request.\<close>

lemma sdk_request_written:
  assumes "sdk_request msg reply_of ins k = (Got (Inr x), ins', k')"
    and msg: "\<And>rid. request_of (OutMessage (msg rid)) = Some rid"
  shows "requests k' = requests k @ [fst (next_request_id k)]"
proof -
  obtain rid k1 where n: "next_request_id k = (rid, k1)" by fastforce
  obtain r k2 where s: "send_json (msg rid) k1 = (r, k2)" by fastforce
  have aw: "sdk_await (reply_of rid) ins k2 = (Got (Inr x), ins', k')" and r: "r = Inr ()"
    using assms(1) by (auto simp: sdk_request_def n s split: sum.splits)
  have "requests k1 = requests k" using n by (auto simp: next_request_id_def Let_def requests_def)
  then have "requests k2 = requests k @ [rid]"
    using s r msg [of rid] by (auto simp: send_json_def sdk_write_def requests_def List.map_filter_def split: option.splits)
  with same_requests.await_keeps [of k2 "requests k @ [rid]" "reply_of rid" ins] aw n show ?thesis by simp
qed

section \<open>Lemmas: sequences of calls\<close>

lemma write_known [simp]: "session_known (snd (sdk_write out k)) = session_known k"
  by (auto simp: session_known_def sdk_write_def split: option.split)

lemma start_asr_known:
  assumes "session_known k"
  shows "session_known (snd (snd (start_asr req ins k)))"
proof (cases "sdk_session k")
  case None
  obtain w ins1 k1 where r: "sdk_request (\<lambda>rid. CAsrStart rid req) started_reply ins k = (w, ins1, k1)"
    using prod_cases3 by blast
  have k1: "session_known k1"
    using known_request.request_keeps [OF assms, of "\<lambda>rid. CAsrStart rid req" started_reply ins] r by simp
  show ?thesis
  proof (cases "\<exists>st. w = Got (Inr st)")
    case True
    then obtain st where w: "w = Got (Inr st)" by blast
    from sdk_request_got [OF r [unfolded w]] obtain k0 where "k1 = observe_message
        (SSessionStarted (Some (fst (next_request_id k))) (sst_session_id st) (sst_payload st)) k0"
      using started_reply_Inr by blast
    then show ?thesis using None r w by (simp add: start_asr_def session_known_def)
  next
    case False
    with k1 None r show ?thesis by (auto simp: start_asr_def split: wait.split sum.split)
  qed
qed (use assms in \<open>simp add: start_asr_def\<close>)

lemma start_tts_known:
  assumes "session_known k"
  shows "session_known (snd (snd (start_tts req ins k)))"
  using known_request.request_keeps [OF assms, of "\<lambda>rid. CTtsStart rid req" started_reply ins] assms
  by (auto simp: start_tts_def session_known_def split: prod.split wait.split sum.split)

lemma call_known: "session_known k \<Longrightarrow> session_known (sdk_call_effect call ins k)"
  by (cases call)
    (auto simp: known.recv_keeps known_request.request_keeps start_asr_known start_tts_known sdk_discover_def
      list_tts_voices_def send_audio_def sdk_commit_def append_tts_input_def sdk_stop_def sdk_close_def send_json_def
      split: sum.split option.split capability_domain.split)

lemma run_known: "session_known k \<Longrightarrow> session_known (sdk_run calls k)"
  by (induction calls k rule: sdk_run.induct) (simp_all add: call_known)

lemma numbered_mono: "numbered c k \<Longrightarrow> numbered (Suc c) k"
  by (auto simp: numbered_def)

lemma write_numbered: "numbered c k \<Longrightarrow> request_of out = None \<Longrightarrow> numbered c (snd (sdk_write out k))"
  by (auto simp: numbered_def sdk_write_def requests_def List.map_filter_def split: option.split)

interpretation numbered_request: kept_by_request "numbered (Suc c)" "\<lambda>k. numbered c k \<and> Suc c < 2 ^ 64" for c
  by unfold_locales (use numbered_Suc in blast)

lemmas request_numbered = numbered_request.request_keeps [OF conjI]

lemma start_frames:
  "numbered c (snd (snd (start_asr req ins k))) =
     numbered c (if sdk_session k = None then snd (snd (sdk_request (\<lambda>rid. CAsrStart rid req) started_reply ins k)) else k)"
  "numbered c (snd (snd (start_tts req' ins k))) =
     numbered c (if sdk_session k = None then snd (snd (sdk_request (\<lambda>rid. CTtsStart rid req') started_reply ins k)) else k)"
  by (auto simp: start_asr_def start_tts_def numbered_def requests_def split: prod.split wait.split sum.split)

lemma call_numbered:
  assumes k: "numbered c k" and c: "Suc c < 2 ^ 64"
  shows "numbered (Suc c) (sdk_call_effect call ins k)"
proof -
  note req = request_numbered [OF k c] and keep = numbered_mono [OF k]
  have out: "numbered (Suc c) (snd (sdk_write out k))" if "request_of out = None" for out
    using write_numbered [OF keep that] .
  show ?thesis
    by (cases call)
      (auto simp: req keep out numbers.recv_keeps [OF keep] start_frames sdk_discover_def
        list_tts_voices_def send_audio_def sdk_commit_def append_tts_input_def sdk_stop_def sdk_close_def send_json_def
        split: sum.split option.split capability_domain.split)
qed

lemma run_numbered:
  "numbered c k \<Longrightarrow> c + length calls < 2 ^ 64 \<Longrightarrow> numbered (c + length calls) (sdk_run calls k)"
proof (induction calls k arbitrary: c rule: sdk_run.induct)
  case (1 k)
  then show ?case by simp
next
  case (2 call ins calls k)
  then have "numbered (Suc c) (sdk_call_effect call ins k)" "Suc c + length calls < 2 ^ 64"
    using call_numbered [of c k call ins] by simp_all
  from "2.IH" [OF this] show ?case by simp
qed

lemma sdk_client_new_invs [simp]: "session_known (sdk_client_new cfg)" "numbered 0 (sdk_client_new cfg)"
  by (simp_all add: session_known_def numbered_def sdk_client_new_def requests_def List.map_filter_simps)

section \<open>Properties\<close>

text \<open>C37: However its calls and the gateway's messages follow each other, the client knows a session exactly when it
  knows the session's domain: no call leaves it with a session that it can neither feed nor commit.\<close>

theorem sdk_session_has_domain:
  "(sdk_session (sdk_run calls (sdk_client_new cfg)) = None) = (sdk_domain (sdk_run calls (sdk_client_new cfg)) = None)"
  using run_known [OF sdk_client_new_invs(1)] unfolding session_known_def .

text \<open>C38: A start that succeeds answers its own request: the gateway's message for it has arrived with the id that
  this call has drawn and written as its last request, no earlier request of the client has had this id, and
  the session it names is the client's session from then on. The ids do not repeat before the counter wraps.\<close>

theorem start_answers_own_request:
  assumes "length calls < 2 ^ 64 - 1" and "k = sdk_run calls (sdk_client_new cfg)"
    and "start_asr req ins k = (Got (Ok st), ins', k')"
  shows "\<exists>rid. SSessionStarted (Some rid) (sst_session_id st) (sst_payload st) \<in> delivered ins \<and>
           requests k' = requests k @ [rid] \<and> distinct (requests k @ [rid]) \<and>
           sdk_session k' = Some (sst_session_id st) \<and> sdk_domain k' = Some (ssp_domain (sst_payload st))"
proof -
  have c: "length calls < 2 ^ 64" "Suc (length calls) < 2 ^ 64" using assms(1) by simp_all
  have num: "numbered (length calls) k" using run_numbered [of 0 "sdk_client_new cfg" calls] c(1) assms(2) by simp
  let ?rid = "fst (next_request_id k)"
  obtain k1 where r: "sdk_request (\<lambda>rid. CAsrStart rid req) started_reply ins k = (Got (Ok st), ins', k1)"
    and k': "k' = k1\<lparr>sdk_session := Some (sst_session_id st)\<rparr>"
    using assms(3) by (auto simp: start_asr_def split: if_splits prod.splits wait.splits sum.splits)
  obtain m k0 where m: "m \<in> delivered ins" "started_reply ?rid m = Some (Inr st)" "k1 = observe_message m k0"
    using sdk_request_got [OF r] by blast
  have "requests k1 = requests k @ [?rid]" using sdk_request_written [OF r] by simp
  then have "requests k' = requests k @ [?rid]" by (simp add: k' requests_def)
  moreover have "distinct (requests k @ [?rid])"
    using numbered_distinct [OF num] numbered_fresh [OF num c(2)] by simp
  ultimately show ?thesis
    using m started_reply_Inr [OF m(2)] k' by (intro exI [of _ ?rid]) auto
qed

definition demo_started :: session_started_payload where
  "demo_started = \<lparr>ssp_domain = Asr, ssp_provider_id = ''p'', ssp_accepted_input_format = None,
     ssp_accepted_output_format = None, ssp_input_mode = None, ssp_output_mode = None\<rparr>"

definition demo_asr_request :: asr_stream_request where
  "demo_asr_request = \<lparr>asq_provider = selector_default, asq_input_format = audio_format_pcm_s16le 16000 1,
     asq_options = undefined\<rparr>"

theorem start_answers_own_request_witness:
  "\<exists>k'. start_asr demo_asr_request (arrives [SSessionStarted (Some (numbered_id 1)) (SessionId 7) demo_started])
          (sdk_client_new (client_config_new ''ws://gw'')) =
        (Got (Ok \<lparr>sst_request_id = Some (numbered_id 1), sst_session_id = SessionId 7, sst_payload = demo_started\<rparr>),
         [], k') \<and> sdk_session k' = Some (SessionId 7)"
proof -
  let ?st = "\<lparr>sst_request_id = Some (numbered_id 1), sst_session_id = SessionId 7, sst_payload = demo_started\<rparr>"
  define k' where "k' = snd (snd (start_asr demo_asr_request
    (arrives [SSessionStarted (Some (numbered_id 1)) (SessionId 7) demo_started]) (sdk_client_new (client_config_new ''ws://gw''))))"
  have run: "start_asr demo_asr_request (arrives [SSessionStarted (Some (numbered_id 1)) (SessionId 7) demo_started])
      (sdk_client_new (client_config_new ''ws://gw'')) = (Got (Ok ?st), [], k')"
    by (simp add: k'_def start_asr_def sdk_request_def next_request_id_def sdk_client_new_def send_json_def sdk_write_def
        arrives_def sdk_await.simps numbered_id_def)
  have "length ([] :: (sdk_call \<times> sdk_input list) list) < 2 ^ 64 - 1" by simp
  from start_answers_own_request [OF this _ run] run show ?thesis by auto
qed

text \<open>C36: A client whose session was ended by its provider cannot start another on the same connection, and never
  learns it: once the gateway's active session has lost its provider, whatever the connection does afterwards,
  nothing it sends answers a new request to start, not even an error, because its errors name no request. The
  client, which has forgotten the session with the message that ended it, waits for ever.\<close>

theorem restart_after_end_never_returns:
  assumes "client_reachable b64 c" and "active_gone c" and "(client_step b64)\<^sup>*\<^sup>* c c'"
    and "set ms \<subseteq> set (cc_sent c')"
    and "\<forall>s p. SSessionStarted (Some (fst (next_request_id k))) s p \<notin> set (cc_sent c)"
    and "sdk_session k = None" and "sdk_broken k = None"
  shows "fst (start_asr req (arrives ms) k) = Waiting \<and> fst (start_tts req' (arrives ms) k) = Waiting"
proof -
  note gs = gone_starts [OF assms(3) client_reachable_inv [OF assms(1)] assms(2)]
  have err: "rid = None" if "SError rid s e \<in> set (cc_sent c')" for rid s e
    using gs that unfolding client_inv_def by blast
  have "\<not> answers_start (fst (next_request_id k)) m" if "m \<in> set ms" for m
  proof -
    have sent: "m \<in> set (cc_sent c')" using that assms(4) by blast
    show ?thesis
    proof (cases m)
      case (SSessionStarted r s p)
      have "SSessionStarted r s p \<in> set (cc_sent c)" using sent gs unfolding SSessionStarted by blast
      with assms(5) SSessionStarted show ?thesis by (cases "r = Some (fst (next_request_id k))") auto
    next
      case (SError r s e)
      with err [of r s e] sent show ?thesis by simp
    qed simp_all
  qed
  with starts_wait [OF assms(7,6)] show ?thesis by blast
qed

text \<open>A session is started, its provider goes, and the second start is refused.\<close>

definition demo_frame :: "bridges \<Rightarrow> nat \<Rightarrow> client_conn \<Rightarrow> client_conn" where
  "demo_frame br n c = projr (client_frame br (TextFrame (Inr (CAsrStart (numbered_id n) demo_asr_request))) c)"

definition demo_gone :: client_conn where
  "demo_gone = (let c = demo_frame demo_bridges 1 client_conn_new in c\<lparr>cc_asr_cmds := net_close 1 (cc_asr_cmds c)\<rparr>)"

definition demo_no_bridges :: bridges where
  "demo_no_bridges = \<lparr>br_server_name = ''gw'', br_asr_descriptors = [],
     br_asr_start = (\<lambda>_. Err (IoError ''none'')), br_tts = None\<rparr>"

lemmas demo_frame_defs = demo_frame_def handle_asr_start_def client_conn_new_def demo_bridges_def demo_asr_handle_def
  demo_asr_session_def asr_take_event_rx_def reply_def out_send_def asr_started_message_def spawn_relay_def Let_def

theorem restart_after_end_never_returns_witness:
  "\<exists>c'. (client_step (\<lambda>_. []))\<^sup>*\<^sup>* demo_gone c' \<and> length (cc_sent c') = 2 \<and>
     fst (start_asr demo_asr_request (arrives (cc_sent c')) ((sdk_client_new (client_config_new ''gw''))\<lparr>sdk_next_request := 1\<rparr>))
       = Waiting"
proof -
  let ?c1 = "demo_frame demo_bridges 1 client_conn_new"
  let ?c' = "demo_frame demo_no_bridges 2 demo_gone"
  let ?k = "(sdk_client_new (client_config_new ''gw''))\<lparr>sdk_next_request := 1\<rparr>"
  have "client_frame demo_bridges (TextFrame (Inr (CAsrStart (numbered_id 1) demo_asr_request))) client_conn_new = Inr ?c1"
    "fresh_bridges demo_bridges client_conn_new"
    by (simp_all add: demo_frame_defs fresh_bridges_def session_ids_def)
  then have "client_step (\<lambda>_. []) client_conn_new ?c1" by (blast intro: step_frame)
  from reach_step [OF reach_step [OF reach_new this] step_asr_provider_gone [of _ _ 1]]
  have r: "client_reachable (\<lambda>_. []) demo_gone" unfolding demo_gone_def Let_def .
  have sent: "map server_message_tag (cc_sent ?c') = [''session.started'', ''error'']"
    and s1: "\<forall>r s p. SSessionStarted r s p \<in> set (cc_sent demo_gone) \<longrightarrow> r = Some (numbered_id 1)"
    and g: "active_gone demo_gone"
    and f: "client_frame demo_no_bridges (TextFrame (Inr (CAsrStart (numbered_id 2) demo_asr_request))) demo_gone = Inr ?c'"
    by (simp_all add: demo_gone_def active_gone_def demo_frame_defs send_error_def out_post_def)
  have "fresh_bridges demo_no_bridges demo_gone" by (simp add: fresh_bridges_def demo_no_bridges_def)
  with f have st: "(client_step (\<lambda>_. []))\<^sup>*\<^sup>* demo_gone ?c'" by (blast intro: step_frame)
  have "fst (next_request_id ?k) \<noteq> numbered_id 1" by (simp add: next_request_id_def numbered_id_def)
  with s1 have "\<forall>s p. SSessionStarted (Some (fst (next_request_id ?k))) s p \<notin> set (cc_sent demo_gone)" by auto
  from restart_after_end_never_returns [OF r g st subset_refl this] sent st show ?thesis
    by (intro exI [of _ ?c']) (simp add: sdk_client_new_def flip: length_map [of server_message_tag])
qed

end
