(* ===== verification/AgentRuntime.thy ===== *)
theory AgentRuntime
  imports Protocol
begin

text \<open>
  The device agent, \<^verbatim>\<open>speechmeshd/src/bin/speechmesh_agent/runtime.rs\<close>: it greets the gateway, plays the audio
  of play-audio tasks with a player process each, and reports their states. What the operating system answers
  (files, variables, spawning, writing, waiting) is given with each message; the decoder of the \<^verbatim>\<open>base64\<close>
  crate is a parameter.
\<close>

section \<open>Choosing the player\<close>

datatype playback_launcher = ShellCommand string | Ffplay string | Mpv string

record launch_env =
  lev_macos :: bool
  lev_exists :: "string \<Rightarrow> bool"
  lev_path :: "string list option"
  lev_pad_cmd :: "string option"
  lev_playback_cmd :: "string option"

definition resolve_ffplay_path :: "launch_env \<Rightarrow> string" where
  "resolve_ffplay_path env =
     (if lev_macos env then
        unwrap_or (find (lev_exists env) [''/opt/homebrew/bin/ffplay'', ''/usr/local/bin/ffplay'']) ''ffplay''
      else ''ffplay'')"

definition resolve_command_path :: "launch_env \<Rightarrow> string \<Rightarrow> string option" where
  "resolve_command_path env command =
     (if CHR ''/'' \<in> set command then (if lev_exists env command then Some command else None)
      else (case lev_path env of
              None \<Rightarrow> None
            | Some bases \<Rightarrow> find (lev_exists env) (map (\<lambda>base. path_join base command) bases)))"

definition set_command :: "string option \<Rightarrow> string option" where
  "set_command raw = opt_filter (\<lambda>v. v \<noteq> []) (map_option trim raw)"

definition resolve_playback_launcher :: "launch_env \<Rightarrow> playback_launcher" where
  "resolve_playback_launcher env =
     (case or_else (set_command (lev_pad_cmd env)) (set_command (lev_playback_cmd env)) of
        Some cmd \<Rightarrow> ShellCommand cmd
      | None \<Rightarrow>
          (case resolve_command_path env (resolve_ffplay_path env) of
             Some path \<Rightarrow> Ffplay path
           | None \<Rightarrow>
               (case resolve_command_path env ''mpv'' of
                  Some path \<Rightarrow> Mpv path
                | None \<Rightarrow> Ffplay (resolve_ffplay_path env))))"

fun encoding_debug :: "audio_encoding \<Rightarrow> string" where
  "encoding_debug PcmS16Le = ''PcmS16Le''"
| "encoding_debug PcmF32Le = ''PcmF32Le''"
| "encoding_debug Opus = ''Opus''"
| "encoding_debug Mp3 = ''Mp3''"
| "encoding_debug Aac = ''Aac''"
| "encoding_debug Flac = ''Flac''"
| "encoding_debug Wav = ''Wav''"

definition ffplay_input_format :: "audio_format option \<Rightarrow> string + string option" where
  "ffplay_input_format format =
     (case format of
        None \<Rightarrow> Ok None
      | Some f \<Rightarrow>
          (case af_encoding f of
             Mp3 \<Rightarrow> Ok (Some ''mp3'')
           | Wav \<Rightarrow> Ok (Some ''wav'')
           | Flac \<Rightarrow> Ok (Some ''flac'')
           | other \<Rightarrow> Err (''unsupported play_audio encoding for local player: '' @ encoding_debug other)))"

definition playback_argv :: "playback_launcher \<Rightarrow> audio_format option \<Rightarrow> string + string list" where
  "playback_argv launcher format =
     (case launcher of
        ShellCommand cmd \<Rightarrow> Ok [''sh'', ''-lc'', cmd]
      | Ffplay path \<Rightarrow>
          and_then (ffplay_input_format format) (\<lambda>expected.
            Ok ([path, ''-nodisp'', ''-autoexit'', ''-loglevel'', ''error''] @
                (case expected of Some f \<Rightarrow> [''-f'', f] | None \<Rightarrow> []) @ [''-i'', ''pipe:0'']))
      | Mpv path \<Rightarrow>
          Ok [path, ''--no-config'', ''--no-terminal'', ''--really-quiet'', ''--no-video'', ''--'', ''-''])"

section \<open>The text of a failed player\<close>

text \<open>
  \<^verbatim>\<open>String::from_utf8_lossy\<close>: a well-formed sequence is kept, and the longest start of one that breaks
  off becomes the replacement character. \<open>utf8_head\<close> gives the length of what is at the head, and
  whether it is whole.
\<close>

definition is_cont :: "nat \<Rightarrow> bool" where
  "is_cont b \<longleftrightarrow> 128 \<le> b \<and> b < 192"

definition second_ok :: "nat \<Rightarrow> nat \<Rightarrow> bool" where
  "second_ok b c \<longleftrightarrow>
     is_cont c \<and> (b = 224 \<longrightarrow> 160 \<le> c) \<and> (b = 237 \<longrightarrow> c < 160) \<and> (b = 240 \<longrightarrow> 144 \<le> c) \<and> (b = 244 \<longrightarrow> c < 144)"

definition utf8_width :: "nat \<Rightarrow> nat" where
  "utf8_width b =
     (if b < 128 then 1 else if 194 \<le> b \<and> b < 224 then 2 else if 224 \<le> b \<and> b < 240 then 3
      else if 240 \<le> b \<and> b < 245 then 4 else 0)"

definition utf8_head :: "nat \<Rightarrow> nat list \<Rightarrow> bool \<times> nat" where
  "utf8_head b bs =
     (let w = utf8_width b
      in if w \<le> 1 then (w = 1, 1)
         else (case bs of
                 [] \<Rightarrow> (False, 1)
               | c # cs \<Rightarrow>
                   (if \<not> second_ok b c then (False, 1)
                    else let k = length (takeWhile is_cont (take (w - 2) cs))
                         in (k = w - 2, 2 + k))))"

lemma utf8_head_pos: "0 < snd (utf8_head b bs)"
  by (simp add: utf8_head_def Let_def split: list.split)

lemma utf8_head_pos': "(whole, n) = utf8_head b bs \<Longrightarrow> 0 < n"
  by (metis snd_conv utf8_head_pos)

function from_utf8_lossy :: "bytes \<Rightarrow> string" where
  "from_utf8_lossy [] = []"
| "from_utf8_lossy (b # bs) =
     (case utf8_head (unat b) (map unat bs) of
        (whole, n) \<Rightarrow>
          (if whole then map (\<lambda>w. char_of (unat w)) (take n (b # bs)) else [CHR 0xEF, CHR 0xBF, CHR 0xBD]) @
          from_utf8_lossy (drop n (b # bs)))"
  by pat_completeness auto
termination
  by (relation "measure length") (auto dest!: utf8_head_pos')

text \<open>\<^verbatim>\<open>split_whitespace\<close> joined by single spaces: \<open>acc\<close> is the word being read, reversed.\<close>

function words_of :: "string \<Rightarrow> string \<Rightarrow> string list" where
  "words_of acc [] = (if acc = [] then [] else [rev acc])"
| "words_of acc (c # cs) =
     (case strip_any whitespace_encodings (c # cs) of
        Some r \<Rightarrow> (if acc = [] then words_of [] r else rev acc # words_of [] r)
      | None \<Rightarrow> words_of (c # acc) cs)"
  by pat_completeness auto
termination
  by (relation "measure (\<lambda>(acc, s). length s)") (auto dest: strip_any_length)

fun join_words :: "string list \<Rightarrow> string" where
  "join_words [] = []"
| "join_words [w] = w"
| "join_words (w # ws) = w @ '' '' @ join_words ws"

text \<open>The slice at byte 240 panics unless a character starts there: \<open>None\<close> is the panic.\<close>

definition summarize_stderr :: "bytes \<Rightarrow> string option" where
  "summarize_stderr bytes =
     (if bytes = [] then Some ''(empty)''
      else let normalized = join_words (words_of [] (from_utf8_lossy bytes))
           in if normalized = [] then Some ''(empty)''
              else if 240 < length normalized then
                (if is_cont (of_char (normalized ! 240)) then None else Some (take 240 normalized @ ''...''))
              else Some normalized)"

datatype stderr_read = StderrBytes bytes | StderrFailed string | StderrTimeout

definition collect_child_stderr :: "stderr_read option \<Rightarrow> string option" where
  "collect_child_stderr stderr =
     (case stderr of
        None \<Rightarrow> Some ''stderr unavailable''
      | Some (StderrBytes bytes) \<Rightarrow> summarize_stderr bytes
      | Some (StderrFailed e) \<Rightarrow> Some (''failed to read stderr: '' @ e)
      | Some StderrTimeout \<Rightarrow> Some ''stderr read timed out'')"

section \<open>State\<close>

text \<open>A player process with what reached its standard input. Processes are numbered in the order they are spawned.\<close>

record player =
  pl_argv :: "string list"
  pl_input :: bytes
  pl_eof :: bool
  pl_killed :: bool

record playback_task =
  pt_player :: nat
  pt_chunk_count :: nat
  pt_byte_count :: nat

record runtime =
  rt_tasks :: "string \<rightharpoonup> playback_task"
  rt_failed_starts :: "string set"
  rt_players :: "player list"
  rt_out :: "agent_to_gateway net"

definition runtime_new :: "agent_to_gateway net \<Rightarrow> runtime" where
  "runtime_new n = \<lparr>rt_tasks = Map.empty, rt_failed_starts = {}, rt_players = [], rt_out = n\<rparr>"

text \<open>
  What the system answers while a message is handled: the launcher's environment, a failed spawn, a missing
  pipe, a failed write with what was taken before, and how the player ends.
\<close>

datatype player_exit = ExitSuccess | ExitFailure string | WaitFailed string | WaitTimedOut

record play_io =
  io_env :: launch_env
  io_spawn_fails :: bool
  io_no_stdin :: bool
  io_write_fails :: "(nat \<times> string) option"
  io_exit :: player_exit
  io_stderr :: "stderr_read option"

definition on_player :: "nat \<Rightarrow> (player \<Rightarrow> player) \<Rightarrow> runtime \<Rightarrow> runtime" where
  "on_player i f rt = rt\<lparr>rt_players := (rt_players rt)[i := f (rt_players rt ! i)]\<rparr>"

definition rt_put_task :: "string \<Rightarrow> playback_task \<Rightarrow> runtime \<Rightarrow> runtime" where
  "rt_put_task t task rt = rt\<lparr>rt_tasks := (rt_tasks rt)(t \<mapsto> task)\<rparr>"

definition rt_del_task :: "string \<Rightarrow> runtime \<Rightarrow> runtime" where
  "rt_del_task t rt = rt\<lparr>rt_tasks := (rt_tasks rt)(t := None)\<rparr>"

definition end_input :: "player \<Rightarrow> player" where
  "end_input p = p\<lparr>pl_eof := True\<rparr>"

definition kill_player :: "player \<Rightarrow> player" where
  "kill_player p = p\<lparr>pl_eof := True, pl_killed := True\<rparr>"

definition feed_player :: "bytes \<Rightarrow> player \<Rightarrow> player" where
  "feed_player bs p = p\<lparr>pl_input := pl_input p @ bs\<rparr>"

section \<open>Operations\<close>

text \<open>The error of a handler is the context it returns with.\<close>

definition rt_send :: "nat \<Rightarrow> string \<Rightarrow> agent_to_gateway \<Rightarrow> runtime \<Rightarrow> (string + unit) \<times> runtime" where
  "rt_send tx context_text m rt =
     (case net_send tx m (rt_out rt) of
        None \<Rightarrow> (Err context_text, rt)
      | Some n \<Rightarrow> (Ok (), rt\<lparr>rt_out := n\<rparr>))"

definition task_status :: "string \<Rightarrow> agent_task_state \<Rightarrow> string \<Rightarrow> agent_to_gateway" where
  "task_status t state message = ATaskStatus t \<lparr>tst_state = state, tst_message = Some message\<rparr>"

text \<open>A spawned child without a pipe is dropped: it is not killed, and its input was never open.\<close>

definition start_playback_task ::
  "play_io \<Rightarrow> audio_format option \<Rightarrow> runtime \<Rightarrow> (string + playback_task) \<times> runtime" where
  "start_playback_task io format rt =
     (case playback_argv (resolve_playback_launcher (io_env io)) format of
        Inl e \<Rightarrow> (Err e, rt)
      | Inr argv \<Rightarrow>
          (if io_spawn_fails io then
             (Err ''failed to spawn local playback command; set SPEECHMESH_PLAYBACK_CMD or install ffplay/mpv'', rt)
           else
             (let i = length (rt_players rt);
                  rt1 = rt\<lparr>rt_players := rt_players rt @
                    [\<lparr>pl_argv = argv, pl_input = [], pl_eof = io_no_stdin io, pl_killed = False\<rparr>]\<rparr>
              in (if io_no_stdin io then (Err ''playback process stdin unavailable after spawn'', rt1)
                  else (Ok \<lparr>pt_player = i, pt_chunk_count = 0, pt_byte_count = 0\<rparr>, rt1)))))"

definition finish_failed_task :: "nat \<Rightarrow> string \<Rightarrow> string \<Rightarrow> runtime \<Rightarrow> (string + unit) \<times> runtime" where
  "finish_failed_task tx t reason rt =
     rt_send tx ''agent writer channel closed while reporting play_audio failure'' (task_status t TaskFailed reason)
       (case rt_tasks rt t of
          Some task \<Rightarrow> on_player (pt_player task) kill_player (rt_del_task t rt)
        | None \<Rightarrow> rt)"

definition play_start ::
  "nat \<Rightarrow> play_io \<Rightarrow> string \<Rightarrow> audio_format option \<Rightarrow> runtime \<Rightarrow> (string + unit) \<times> runtime" where
  "play_start tx io t format rt =
     (if rt_tasks rt t \<noteq> None then
        rt_send tx ''agent writer channel closed while reporting duplicate task.start''
          (task_status t TaskFailed ''duplicate play_audio task.start'') rt
      else
        (case start_playback_task io format rt of
           (Inr task, rt1) \<Rightarrow>
             rt_send tx ''agent writer channel closed while sending task started''
               (task_status t TaskStarted ''play_audio started with local default output'')
               (rt_put_task t task (rt1\<lparr>rt_failed_starts := rt_failed_starts rt1 - {t}\<rparr>))
         | (Inl e, rt1) \<Rightarrow>
             rt_send tx ''agent writer channel closed while reporting task start failure''
               (task_status t TaskFailed (''failed to start local playback: '' @ e))
               (rt1\<lparr>rt_failed_starts := insert t (rt_failed_starts rt1)\<rparr>)))"

definition play_chunk ::
  "(string \<Rightarrow> string + bytes) \<Rightarrow> nat \<Rightarrow> play_io \<Rightarrow> string \<Rightarrow> string \<Rightarrow> runtime \<Rightarrow> (string + unit) \<times> runtime" where
  "play_chunk b64d tx io t data rt =
     (case rt_tasks rt t of
        Some task \<Rightarrow>
          (case b64d data of
             Inl e \<Rightarrow> finish_failed_task tx t (''invalid play_audio chunk base64: '' @ e) rt
           | Inr bytes \<Rightarrow>
               (case io_write_fails io of
                  Some (n, e) \<Rightarrow>
                    finish_failed_task tx t (''failed writing audio chunk to player stdin: '' @ e)
                      (on_player (pt_player task) (feed_player (take n bytes)) rt)
                | None \<Rightarrow>
                    (Ok (), rt_put_task t (task\<lparr>pt_chunk_count := pt_chunk_count task + 1,
                                              pt_byte_count := pt_byte_count task + length bytes\<rparr>)
                              (on_player (pt_player task) (feed_player bytes) rt))))
      | None \<Rightarrow>
          (if t \<in> rt_failed_starts rt then (Ok (), rt)
           else rt_send tx ''agent writer channel closed while reporting out-of-order chunk''
                  (task_status t TaskFailed ''chunk received before task.start'') rt))"

text \<open>The report of a finished player; \<open>None\<close> is a panic. A player that outlives the wait is killed.\<close>

definition finish_report :: "play_io \<Rightarrow> playback_task \<Rightarrow> (agent_task_state \<times> string) option" where
  "finish_report io task =
     (let failed = (\<lambda>text. map_option (\<lambda>err. (TaskFailed, text @ ''; stderr: '' @ err)) (collect_child_stderr (io_stderr io)))
      in (case io_exit io of
            ExitSuccess \<Rightarrow>
              Some (TaskFinished, ''play_audio finished (chunks='' @ show_nat (pt_chunk_count task) @
                      '', bytes='' @ show_nat (pt_byte_count task) @ '')'')
          | ExitFailure status \<Rightarrow> failed (''local playback process exited with status '' @ status)
          | WaitFailed e \<Rightarrow> failed (''failed waiting for local playback process: '' @ e)
          | WaitTimedOut \<Rightarrow> failed ''local playback timed out after 20s''))"

definition play_finish :: "nat \<Rightarrow> play_io \<Rightarrow> string \<Rightarrow> runtime \<Rightarrow> (string + unit) option \<times> runtime" where
  "play_finish tx io t rt0 =
     (let was_failed = t \<in> rt_failed_starts rt0;
          rt = rt_del_task t (rt0\<lparr>rt_failed_starts := rt_failed_starts rt0 - {t}\<rparr>);
          report = (\<lambda>state message rt1. map_prod Some id
            (rt_send tx ''agent writer channel closed while sending task finish status'' (task_status t state message) rt1))
      in (case rt_tasks rt0 t of
            Some task \<Rightarrow>
              (let rt1 = on_player (pt_player task)
                           (if io_exit io = WaitTimedOut then kill_player else end_input) rt
               in (case finish_report io task of
                     None \<Rightarrow> (None, rt1)
                   | Some (state, message) \<Rightarrow> report state message rt1))
          | None \<Rightarrow>
              (if was_failed then (Some (Ok ()), rt)
               else report TaskFailed ''finish received before task.start'' rt)))"

text \<open>\<open>None\<close> is a panic, which ends the process.\<close>

definition no_panic :: "(string + unit) \<times> runtime \<Rightarrow> (string + unit) option \<times> runtime" where
  "no_panic r = (Some (fst r), snd r)"

definition session_unsupported :: "session_id \<Rightarrow> agent_to_gateway" where
  "session_unsupported s = AError (Some s) ''session command unsupported by runtime skeleton''"

fun runtime_message ::
  "(string \<Rightarrow> string + bytes) \<Rightarrow> nat \<Rightarrow> play_io \<Rightarrow> gateway_to_agent \<Rightarrow> runtime
     \<Rightarrow> (string + unit) option \<times> runtime" where
  "runtime_message b64d tx io (GHelloOk _) rt = (Some (Ok ()), rt)"
| "runtime_message b64d tx io GPing rt =
     no_panic (rt_send tx ''agent writer channel closed while replying ping'' APong rt)"
| "runtime_message b64d tx io (GSessionStart s _) rt =
     no_panic
       (case rt_send tx ''agent writer channel closed while sending stub error''
               (AError (Some s) ''device task handling is not implemented yet'') rt of
          (Inl e, rt1) \<Rightarrow> (Err e, rt1)
        | (Inr _, rt1) \<Rightarrow>
            rt_send tx ''agent writer channel closed while sending session.ended''
              (ASessionEnded s (Some ''not_implemented'')) rt1)"
| "runtime_message b64d tx io (GSessionAudio s _) rt =
     no_panic (rt_send tx ''agent writer channel closed while sending unsupported-session error'' (session_unsupported s) rt)"
| "runtime_message b64d tx io (GSessionCommit s) rt =
     no_panic (rt_send tx ''agent writer channel closed while sending unsupported-session error'' (session_unsupported s) rt)"
| "runtime_message b64d tx io (GSessionStop s) rt =
     no_panic (rt_send tx ''agent writer channel closed while sending unsupported-session error'' (session_unsupported s) rt)"
| "runtime_message b64d tx io (GTaskPlayAudioStart t format) rt = no_panic (play_start tx io t format rt)"
| "runtime_message b64d tx io (GTaskPlayAudioChunk t data) rt = no_panic (play_chunk b64d tx io t data rt)"
| "runtime_message b64d tx io (GTaskPlayAudioFinish t) rt = play_finish tx io t rt"

section \<open>The connection\<close>

record runtime_config =
  rcf_gateway_url :: string
  rcf_agent_id :: string
  rcf_agent_name :: string
  rcf_device_id :: string
  rcf_provider_id :: string
  rcf_shared_secret :: "string option"
  rcf_capabilities :: "string list"

record auto_update_state =
  aup_unix_time_secs :: "u64 option"
  aup_status :: "string option"
  aup_current_version :: "string option"
  aup_target_version :: "string option"
  aup_applied :: "bool option"
  aup_restart_performed :: "bool option"
  aup_error :: "string option"

datatype target_os = MacOs | Linux | OtherOs string

definition default_update_status_path :: "target_os \<Rightarrow> string option \<Rightarrow> string option" where
  "default_update_status_path os home =
     (case home of
        None \<Rightarrow> None
      | Some h \<Rightarrow>
          (case os of
             MacOs \<Rightarrow> Some (path_join h ''Library/Application Support/SpeechMesh/device-agent-update.json'')
           | Linux \<Rightarrow> Some (path_join h ''.local/state/speechmesh/device-agent-update.json'')
           | OtherOs _ \<Rightarrow> None))"

text \<open>\<open>read_state\<close> reads and decodes the file; whatever fails gives no status.\<close>

definition load_update_status ::
  "target_os \<Rightarrow> string option \<Rightarrow> (string \<Rightarrow> auto_update_state option) \<Rightarrow> agent_update_status option" where
  "load_update_status os home read_state =
     map_option (\<lambda>st. \<lparr>aus_state = aup_status st, aus_current_version = aup_current_version st,
                       aus_target_version = aup_target_version st, aus_checked_at_unix_secs = aup_unix_time_secs st,
                       aus_applied = aup_applied st, aus_restart_performed = aup_restart_performed st,
                       aus_error = aup_error st\<rparr>)
       (Option.bind (default_update_status_path os home) read_state)"

fun os_name :: "target_os \<Rightarrow> string" where
  "os_name MacOs = ''macos''"
| "os_name Linux = ''linux''"
| "os_name (OtherOs n) = n"

definition runtime_hello ::
  "runtime_config \<Rightarrow> string option \<Rightarrow> target_os \<Rightarrow> string \<Rightarrow> agent_update_status option \<Rightarrow> agent_hello_payload" where
  "runtime_hello cfg hostname os version status =
     \<lparr>hel_agent_id = rcf_agent_id cfg, hel_agent_name = rcf_agent_name cfg,
      hel_provider_id = Some (rcf_provider_id cfg), hel_capabilities = rcf_capabilities cfg,
      hel_capability_domains = [Tts], hel_agent_kind = DeviceAgent,
      hel_device = Some \<lparr>adi_device_id = rcf_device_id cfg,
                         adi_hostname = Some (unwrap_or hostname ''unknown-host''),
                         adi_platform = Some (os_name os)\<rparr>,
      hel_client_version = Some version, hel_update_status = status,
      hel_shared_secret = rcf_shared_secret cfg\<rparr>"

fun wait_hello_ok :: "gateway_to_agent frame list \<Rightarrow> string + gateway_to_agent frame list" where
  "wait_hello_ok [] = Err ''gateway closed before hello.ok''"
| "wait_hello_ok (ReadError _ # fs) = Err ''failed reading handshake frame''"
| "wait_hello_ok (TextFrame (Inl _) # fs) = Err ''invalid handshake payload from gateway''"
| "wait_hello_ok (TextFrame (Inr (GHelloOk _)) # fs) = Ok fs"
| "wait_hello_ok (CloseFrame # fs) = Err ''gateway closed during hello handshake''"
| "wait_hello_ok (f # fs) = wait_hello_ok fs"

text \<open>
  What one turn of the loop takes: a frame with its time and the system's answers, the end of the stream, or a
  tick of the heartbeat with its time; times are in nanoseconds.
\<close>

datatype runtime_input =
    RtFrame nat play_io "gateway_to_agent frame"
  | RtEnd
  | RtTick nat

datatype runtime_stop = Break | Failed string | Panicked

definition heartbeat_timeout_ns :: nat where
  "heartbeat_timeout_ns = 90 * 1000000000"

definition runtime_turn ::
  "(string + unit) option \<times> runtime \<Rightarrow> runtime_stop option \<times> runtime" where
  "runtime_turn r =
     (case r of
        (None, rt) \<Rightarrow> (Some Panicked, rt)
      | (Some (Inl e), rt) \<Rightarrow> (Some (Failed e), rt)
      | (Some (Inr _), rt) \<Rightarrow> (None, rt))"

fun runtime_step ::
  "(string \<Rightarrow> string + bytes) \<Rightarrow> nat \<Rightarrow> runtime_input \<Rightarrow> nat \<Rightarrow> runtime \<Rightarrow> runtime_stop option \<times> nat \<times> runtime" where
  "runtime_step b64d tx RtEnd seen rt = (Some Break, seen, rt)"
| "runtime_step b64d tx (RtFrame now io (ReadError _)) seen rt = (Some (Failed ''failed reading gateway frame''), seen, rt)"
| "runtime_step b64d tx (RtFrame now io (TextFrame (Inl _))) seen rt =
     (Some (Failed ''invalid gateway /agent payload''), now, rt)"
| "runtime_step b64d tx (RtFrame now io (TextFrame (Inr m))) seen rt =
     (case runtime_turn (runtime_message b64d tx io m rt) of (stop, rt1) \<Rightarrow> (stop, now, rt1))"
| "runtime_step b64d tx (RtFrame now io (PingFrame _)) seen rt =
     (case runtime_turn (no_panic (rt_send tx ''agent writer channel closed while sending pong'' APong rt)) of
        (stop, rt1) \<Rightarrow> (stop, now, rt1))"
| "runtime_step b64d tx (RtFrame now io CloseFrame) seen rt = (Some Break, now, rt)"
| "runtime_step b64d tx (RtFrame now io (BinaryFrame _)) seen rt = (None, now, rt)"
| "runtime_step b64d tx (RtFrame now io PongFrame) seen rt = (None, now, rt)"
| "runtime_step b64d tx (RtFrame now io RawFrame) seen rt = (None, now, rt)"
| "runtime_step b64d tx (RtTick now) seen rt =
     (if heartbeat_timeout_ns < now - seen then (Some Break, seen, rt)
      else (case rt_send tx [] APong rt of
              (Inl _, rt1) \<Rightarrow> (Some Break, seen, rt1)
            | (Inr _, rt1) \<Rightarrow> (None, seen, rt1)))"

fun runtime_loop ::
  "(string \<Rightarrow> string + bytes) \<Rightarrow> nat \<Rightarrow> runtime_input list \<Rightarrow> nat \<Rightarrow> runtime \<Rightarrow> runtime_stop option \<times> runtime" where
  "runtime_loop b64d tx [] seen rt = (None, rt)"
| "runtime_loop b64d tx (i # ins) seen rt =
     (case runtime_step b64d tx i seen rt of
        (None, seen1, rt1) \<Rightarrow> runtime_loop b64d tx ins seen1 rt1
      | (Some stop, seen1, rt1) \<Rightarrow> (Some stop, rt1))"

text \<open>Ending: a break kills the players of the running tasks; any other end drops their pipes, which ends their input.\<close>

definition end_tasks :: "(player \<Rightarrow> player) \<Rightarrow> runtime \<Rightarrow> runtime" where
  "end_tasks f rt =
     rt\<lparr>rt_tasks := Map.empty,
        rt_players := map (\<lambda>(i, p). if i \<in> pt_player ` ran (rt_tasks rt) then f p else p)
                        (enumerate 0 (rt_players rt))\<rparr>"

definition abort_all_playback_tasks :: "runtime \<Rightarrow> runtime" where
  "abort_all_playback_tasks rt = end_tasks kill_player rt"

definition runtime_exit :: "runtime_stop option \<times> runtime \<Rightarrow> (string + unit) option \<times> runtime" where
  "runtime_exit r =
     (case r of
        (None, rt) \<Rightarrow> (None, rt)
      | (Some Break, rt) \<Rightarrow> (Some (Ok ()), abort_all_playback_tasks rt)
      | (Some (Failed e), rt) \<Rightarrow> (Some (Err e), end_tasks end_input rt)
      | (Some Panicked, rt) \<Rightarrow> (None, end_tasks end_input rt))"

definition agent_run_once ::
  "(string \<Rightarrow> string + bytes) \<Rightarrow> nat \<Rightarrow> runtime_config \<Rightarrow> agent_hello_payload \<Rightarrow> bool \<Rightarrow> gateway_to_agent frame list \<Rightarrow> nat
     \<Rightarrow> runtime_input list \<Rightarrow> agent_to_gateway net \<Rightarrow> (string + unit) option \<times> runtime" where
  "agent_run_once b64d tx cfg hello connected greeting now inputs n =
     (let rt = runtime_new n
      in if \<not> connected then (Some (Err (''failed to connect to gateway '' @ rcf_gateway_url cfg)), rt)
         else
           (case rt_send tx ''agent writer channel closed before hello'' (AHello hello) rt of
              (Inl e, rt1) \<Rightarrow> (Some (Err e), rt1)
            | (Inr _, rt1) \<Rightarrow>
                (case wait_hello_ok greeting of
                   Inl e \<Rightarrow> (Some (Err e), rt1)
                 | Inr _ \<Rightarrow> runtime_exit (runtime_loop b64d tx inputs now rt1))))"

section \<open>The specification of one task\<close>

text \<open>
  What the agent promises for one task, whatever else it does: a task is idle, has failed to start, or plays
  with so many chunks taken and so many bytes given to its player.
\<close>

datatype task_phase = Idle | FailedStart | Playing nat bytes

definition can_start :: "play_io \<Rightarrow> audio_format option \<Rightarrow> bool" where
  "can_start io format \<longleftrightarrow>
     (\<exists>argv. playback_argv (resolve_playback_launcher (io_env io)) format = Ok argv) \<and>
     \<not> io_spawn_fails io \<and> \<not> io_no_stdin io"

fun spec_start :: "play_io \<Rightarrow> audio_format option \<Rightarrow> task_phase \<Rightarrow> task_phase \<times> agent_task_state list" where
  "spec_start io format (Playing k bs) = (Playing k bs, [TaskFailed])"
| "spec_start io format _ = (if can_start io format then (Playing 0 [], [TaskStarted]) else (FailedStart, [TaskFailed]))"

fun spec_chunk :: "(string \<Rightarrow> string + bytes) \<Rightarrow> play_io \<Rightarrow> string \<Rightarrow> task_phase \<Rightarrow> task_phase \<times> agent_task_state list" where
  "spec_chunk b64d io data (Playing k bs) =
     (case b64d data of
        Inl e \<Rightarrow> (Idle, [TaskFailed])
      | Inr bytes \<Rightarrow> (if io_write_fails io = None then (Playing (k + 1) (bs @ bytes), []) else (Idle, [TaskFailed])))"
| "spec_chunk b64d io data FailedStart = (FailedStart, [])"
| "spec_chunk b64d io data Idle = (Idle, [TaskFailed])"

fun spec_finish :: "play_io \<Rightarrow> task_phase \<Rightarrow> task_phase \<times> agent_task_state list" where
  "spec_finish io (Playing k bs) = (Idle, [if io_exit io = ExitSuccess then TaskFinished else TaskFailed])"
| "spec_finish io FailedStart = (Idle, [])"
| "spec_finish io Idle = (Idle, [TaskFailed])"

fun spec_message ::
  "(string \<Rightarrow> string + bytes) \<Rightarrow> string \<Rightarrow> play_io \<Rightarrow> gateway_to_agent \<Rightarrow> task_phase
     \<Rightarrow> task_phase \<times> agent_task_state list" where
  "spec_message b64d t io (GTaskPlayAudioStart t' format) ph = (if t' = t then spec_start io format ph else (ph, []))"
| "spec_message b64d t io (GTaskPlayAudioChunk t' data) ph = (if t' = t then spec_chunk b64d io data ph else (ph, []))"
| "spec_message b64d t io (GTaskPlayAudioFinish t') ph = (if t' = t then spec_finish io ph else (ph, []))"
| "spec_message b64d t io _ ph = (ph, [])"

fun spec_run ::
  "(string \<Rightarrow> string + bytes) \<Rightarrow> string \<Rightarrow> (play_io \<times> gateway_to_agent) list \<Rightarrow> task_phase
     \<Rightarrow> task_phase \<times> agent_task_state list" where
  "spec_run b64d t [] ph = (ph, [])"
| "spec_run b64d t ((io, m) # ms) ph =
     (case spec_message b64d t io m ph of (ph1, out) \<Rightarrow>
        (case spec_run b64d t ms ph1 of (ph2, out2) \<Rightarrow> (ph2, out @ out2)))"

text \<open>The phase of a task in the agent, and the states it has reported for it.\<close>

definition phase :: "string \<Rightarrow> runtime \<Rightarrow> task_phase" where
  "phase t rt =
     (case rt_tasks rt t of
        Some task \<Rightarrow> Playing (pt_chunk_count task) (pl_input (rt_players rt ! pt_player task))
      | None \<Rightarrow> (if t \<in> rt_failed_starts rt then FailedStart else Idle))"

fun status_of :: "string \<Rightarrow> agent_to_gateway \<Rightarrow> agent_task_state option" where
  "status_of t (ATaskStatus t' st) = (if t' = t then Some (tst_state st) else None)"
| "status_of t _ = None"

definition reported :: "nat \<Rightarrow> string \<Rightarrow> runtime \<Rightarrow> agent_task_state list" where
  "reported tx t rt = List.map_filter (status_of t) (sent_on tx (rt_out rt))"

section \<open>Lemmas: the invariant of the agent\<close>

text \<open>
  Running tasks have players of their own, whose input is open and has the counted length; every player whose
  input is open is one of these.
\<close>

definition open_player :: "runtime \<Rightarrow> nat \<Rightarrow> bool" where
  "open_player rt i \<longleftrightarrow> i < length (rt_players rt) \<and> \<not> pl_eof (rt_players rt ! i) \<and> \<not> pl_killed (rt_players rt ! i)"

definition runtime_wf :: "runtime \<Rightarrow> bool" where
  "runtime_wf rt \<longleftrightarrow>
     (\<forall>t task. rt_tasks rt t = Some task \<longrightarrow>
        open_player rt (pt_player task) \<and> pt_byte_count task = length (pl_input (rt_players rt ! pt_player task)) \<and>
        t \<notin> rt_failed_starts rt) \<and>
     (\<forall>t t' a b. rt_tasks rt t = Some a \<and> rt_tasks rt t' = Some b \<and> pt_player a = pt_player b \<longrightarrow> t = t') \<and>
     (\<forall>i < length (rt_players rt). \<not> pl_eof (rt_players rt ! i) \<longrightarrow> (\<exists>t task. rt_tasks rt t = Some task \<and> pt_player task = i))"

lemma on_player_frames [simp]:
  "rt_tasks (on_player i f rt) = rt_tasks rt"
  "rt_failed_starts (on_player i f rt) = rt_failed_starts rt"
  "rt_out (on_player i f rt) = rt_out rt"
  "length (rt_players (on_player i f rt)) = length (rt_players rt)"
  by (simp_all add: on_player_def)

lemma on_player_nth:
  "j < length (rt_players rt) \<Longrightarrow>
     rt_players (on_player i f rt) ! j = (if i = j then f (rt_players rt ! j) else rt_players rt ! j)"
  by (auto simp: on_player_def nth_list_update)

lemma task_table_frames [simp]:
  "rt_tasks (rt_put_task t task rt) = (rt_tasks rt)(t \<mapsto> task)"
  "rt_tasks (rt_del_task t rt) = (rt_tasks rt)(t := None)"
  "rt_players (rt_put_task t task rt) = rt_players rt" "rt_players (rt_del_task t rt) = rt_players rt"
  "rt_failed_starts (rt_put_task t task rt) = rt_failed_starts rt" "rt_failed_starts (rt_del_task t rt) = rt_failed_starts rt"
  "rt_out (rt_put_task t task rt) = rt_out rt" "rt_out (rt_del_task t rt) = rt_out rt"
  by (simp_all add: rt_put_task_def rt_del_task_def)

lemma out_frames [simp]:
  "phase t (rt\<lparr>rt_out := n\<rparr>) = phase t rt" "runtime_wf (rt\<lparr>rt_out := n\<rparr>) = runtime_wf rt"
  by (auto simp: phase_def runtime_wf_def open_player_def split: option.split)

lemma rt_send_core:
  "phase t (snd (rt_send tx e m rt)) = phase t rt" "runtime_wf (snd (rt_send tx e m rt)) = runtime_wf rt"
  "rt_players (snd (rt_send tx e m rt)) = rt_players rt"
  by (auto simp: rt_send_def split: option.split)

lemma rt_send_reported:
  assumes "rt_send tx e m rt = (Inr u, rt')"
  shows "reported tx t rt' = reported tx t rt @ (case status_of t m of Some st \<Rightarrow> [st] | None \<Rightarrow> [])"
proof -
  obtain n where n: "net_send tx m (rt_out rt) = Some n" "rt' = rt\<lparr>rt_out := n\<rparr>"
    using assms by (auto simp: rt_send_def split: option.splits)
  with net.push_contents [OF n(1)] show ?thesis
    by (auto simp: reported_def List.map_filter_def split: option.split)
qed

text \<open>The four ways a handler changes the table: a new player for a task, none for it, its input fed, its end.\<close>

lemma wf_players_inj:
  "runtime_wf rt \<Longrightarrow> rt_tasks rt t = Some a \<Longrightarrow> rt_tasks rt t' = Some b \<Longrightarrow> t' \<noteq> t \<Longrightarrow> pt_player b \<noteq> pt_player a"
  unfolding runtime_wf_def by metis

lemma wf_task_open:
  "runtime_wf rt \<Longrightarrow> rt_tasks rt t = Some task \<Longrightarrow> pt_player task < length (rt_players rt)"
  by (auto simp: runtime_wf_def open_player_def)

lemma wf_taskD:
  "runtime_wf rt \<Longrightarrow> rt_tasks rt t = Some b \<Longrightarrow>
     open_player rt (pt_player b) \<and> pt_byte_count b = length (pl_input (rt_players rt ! pt_player b)) \<and> t \<notin> rt_failed_starts rt"
  by (simp add: runtime_wf_def)

lemma end_task_core:
  assumes wf: "runtime_wf rt" and task: "rt_tasks rt t = Some task" and f: "\<And>p. pl_eof (f p)"
  shows "runtime_wf (on_player (pt_player task) f (rt_del_task t rt)) \<and>
         (\<forall>t'. phase t' (on_player (pt_player task) f (rt_del_task t rt)) = (if t' = t then Idle else phase t' rt))"
proof -
  let ?rt = "on_player (pt_player task) f (rt_del_task t rt)"
  have bound: "pt_player b < length (rt_players rt)" if "rt_tasks rt t' = Some b" for t' b
    using wf_task_open [OF wf that] .
  have nth: "j < length (rt_players rt) \<Longrightarrow>
      rt_players ?rt ! j = (if pt_player task = j then f (rt_players rt ! j) else rt_players rt ! j)" for j
    using on_player_nth [of j "rt_del_task t rt" "pt_player task" f] by simp
  note other = wf_players_inj [OF wf task]
  have "runtime_wf ?rt"
    unfolding runtime_wf_def open_player_def
    using wf f bound nth other task by (auto simp: runtime_wf_def open_player_def split: if_splits) (metis option.inject)+
  moreover have "t \<notin> rt_failed_starts rt" using wf task by (auto simp: runtime_wf_def)
  then have "phase t' ?rt = (if t' = t then Idle else phase t' rt)" for t'
  proof (cases "rt_tasks rt t'")
    case (Some b)
    with bound nth other [OF Some] \<open>t \<notin> rt_failed_starts rt\<close> show ?thesis by (auto simp: phase_def)
  qed (use task \<open>t \<notin> rt_failed_starts rt\<close> in \<open>auto simp: phase_def\<close>)
  ultimately show ?thesis by blast
qed

lemma feed_task_core:
  fixes bs
  assumes wf: "runtime_wf rt" and task: "rt_tasks rt t = Some task"
  defines "rt' \<equiv> rt_put_task t (task\<lparr>pt_chunk_count := pt_chunk_count task + 1, pt_byte_count := pt_byte_count task + length bs\<rparr>)
      (on_player (pt_player task) (feed_player bs) rt)"
  shows "runtime_wf rt'"
    and "phase t rt' = Playing (pt_chunk_count task + 1) (pl_input (rt_players rt ! pt_player task) @ bs)"
    and "t' \<noteq> t \<Longrightarrow> phase t' rt' = phase t' rt"
proof -
  have bound: "pt_player b < length (rt_players rt)" if "rt_tasks rt t'' = Some b" for t'' b
    using wf_task_open [OF wf that] .
  have nth: "j < length (rt_players rt) \<Longrightarrow>
      rt_players rt' ! j = (if pt_player task = j then feed_player bs (rt_players rt ! j) else rt_players rt ! j)" for j
    using on_player_nth [of j rt "pt_player task" "feed_player bs"] by (simp add: rt'_def)
  have len: "length (rt_players rt') = length (rt_players rt)"
    and fails: "rt_failed_starts rt' = rt_failed_starts rt"
    and tasks: "rt_tasks rt' = (rt_tasks rt)(t \<mapsto> task\<lparr>pt_chunk_count := pt_chunk_count task + 1,
        pt_byte_count := pt_byte_count task + length bs\<rparr>)" by (simp_all add: rt'_def)
  note other = wf_players_inj [OF wf task]
  show "phase t rt' = Playing (pt_chunk_count task + 1) (pl_input (rt_players rt ! pt_player task) @ bs)"
    using bound [OF task] by (simp add: phase_def tasks nth feed_player_def)
  show "t' \<noteq> t \<Longrightarrow> phase t' rt' = phase t' rt"
  proof (cases "rt_tasks rt t'")
    case (Some b)
    assume "t' \<noteq> t"
    with bound [OF Some] nth other [OF Some] Some show ?thesis by (simp add: phase_def tasks)
  qed (simp add: phase_def tasks fails)
  show "runtime_wf rt'"
    unfolding runtime_wf_def
  proof (intro conjI allI impI)
    fix t1 b assume b: "rt_tasks rt' t1 = Some b"
    show "open_player rt' (pt_player b)" "t1 \<notin> rt_failed_starts rt'"
      "pt_byte_count b = length (pl_input (rt_players rt' ! pt_player b))"
      using b wf task bound other
      by (auto simp: tasks fails len nth open_player_def feed_player_def runtime_wf_def split: if_splits)
  next
    fix t1 t2 a b
    assume "rt_tasks rt' t1 = Some a \<and> rt_tasks rt' t2 = Some b \<and> pt_player a = pt_player b"
    then show "t1 = t2"
      using wf task other by (auto simp: tasks runtime_wf_def split: if_splits; metis)
  next
    fix i assume i: "i < length (rt_players rt')" "\<not> pl_eof (rt_players rt' ! i)"
    then have "\<not> pl_eof (rt_players rt ! i)" by (auto simp: len nth feed_player_def split: if_splits)
    then obtain t1 b where "rt_tasks rt t1 = Some b" "pt_player b = i"
      using i wf by (auto simp: len runtime_wf_def)
    with task show "\<exists>t task. rt_tasks rt' t = Some task \<and> pt_player task = i"
      by (cases "t1 = t") (auto simp: tasks)
  qed
qed

lemma failed_start_core:
  assumes wf: "runtime_wf rt" and idle: "rt_tasks rt t = None" and ps: "\<forall>p \<in> set ps. pl_eof p"
  defines "rt' \<equiv> rt\<lparr>rt_players := rt_players rt @ ps, rt_failed_starts := insert t (rt_failed_starts rt)\<rparr>"
  shows "runtime_wf rt'" and "phase t' rt' = (if t' = t then FailedStart else phase t' rt)"
proof -
  have nth: "rt_players rt' ! pt_player b = rt_players rt ! pt_player b"
    and bound: "pt_player b < length (rt_players rt)" if "rt_tasks rt t1 = Some b" for t1 b
    using wf_task_open [OF wf that] by (simp_all add: rt'_def nth_append)
  show "phase t' rt' = (if t' = t then FailedStart else phase t' rt)"
    using idle nth by (auto simp: phase_def rt'_def split: option.split)
  show "runtime_wf rt'"
    unfolding runtime_wf_def
  proof (intro conjI allI impI)
    fix t1 b assume "rt_tasks rt' t1 = Some b"
    then have b: "rt_tasks rt t1 = Some b" by (simp add: rt'_def)
    show "open_player rt' (pt_player b)" "pt_byte_count b = length (pl_input (rt_players rt' ! pt_player b))"
      "t1 \<notin> rt_failed_starts rt'"
      using wf_taskD [OF wf b] b idle nth [OF b] bound [OF b] by (auto simp: open_player_def rt'_def)
  next
    fix i assume "i < length (rt_players rt')" "\<not> pl_eof (rt_players rt' ! i)"
    then have "i < length (rt_players rt)" "\<not> pl_eof (rt_players rt ! i)"
      using ps by (auto simp: rt'_def nth_append split: if_splits)
    with wf show "\<exists>t task. rt_tasks rt' t = Some task \<and> pt_player task = i"
      by (auto simp: runtime_wf_def rt'_def)
  next
    fix t1 t2 a b
    assume "rt_tasks rt' t1 = Some a \<and> rt_tasks rt' t2 = Some b \<and> pt_player a = pt_player b"
    with wf show "t1 = t2" by (auto simp: runtime_wf_def rt'_def)
  qed
qed

lemma new_task_core:
  fixes argv
  assumes wf: "runtime_wf rt" and idle: "rt_tasks rt t = None"
  defines "rt' \<equiv> rt\<lparr>rt_players := rt_players rt @ [\<lparr>pl_argv = argv, pl_input = [], pl_eof = False, pl_killed = False\<rparr>],
      rt_failed_starts := rt_failed_starts rt - {t},
      rt_tasks := (rt_tasks rt)(t \<mapsto> \<lparr>pt_player = length (rt_players rt), pt_chunk_count = 0, pt_byte_count = 0\<rparr>)\<rparr>"
  shows "runtime_wf rt'" and "phase t' rt' = (if t' = t then Playing 0 [] else phase t' rt)"
proof -
  have nth: "rt_players rt' ! pt_player b = rt_players rt ! pt_player b"
    and bound: "pt_player b < length (rt_players rt)" if "rt_tasks rt t1 = Some b" for t1 b
    using wf_task_open [OF wf that] by (simp_all add: rt'_def nth_append)
  show "phase t' rt' = (if t' = t then Playing 0 [] else phase t' rt)"
    using nth by (auto simp: phase_def rt'_def split: option.split)
  show "runtime_wf rt'"
    unfolding runtime_wf_def
  proof (intro conjI allI impI)
    fix t1 b assume b: "rt_tasks rt' t1 = Some b"
    {
      have "open_player rt' (pt_player b) \<and> pt_byte_count b = length (pl_input (rt_players rt' ! pt_player b)) \<and>
          t1 \<notin> rt_failed_starts rt'"
      proof (cases "t1 = t")
        case True
        with b show ?thesis by (auto simp: open_player_def rt'_def)
      next
        case False
        with b have b': "rt_tasks rt t1 = Some b" by (simp add: rt'_def)
        with wf_taskD [OF wf b'] nth [OF b'] bound [OF b'] show ?thesis by (auto simp: open_player_def rt'_def)
      qed
      then show "open_player rt' (pt_player b)" "pt_byte_count b = length (pl_input (rt_players rt' ! pt_player b))"
        "t1 \<notin> rt_failed_starts rt'" by simp_all
    }
  next
    fix i assume i: "i < length (rt_players rt')" "\<not> pl_eof (rt_players rt' ! i)"
    show "\<exists>t task. rt_tasks rt' t = Some task \<and> pt_player task = i"
    proof (cases "i = length (rt_players rt)")
      case False
      with i have "i < length (rt_players rt)" "\<not> pl_eof (rt_players rt ! i)"
        by (auto simp: rt'_def nth_append split: if_splits)
      with wf obtain t1 b where "rt_tasks rt t1 = Some b" "pt_player b = i" by (auto simp: runtime_wf_def)
      with idle show ?thesis by (intro exI [of _ t1] exI [of _ b]) (auto simp: rt'_def)
    qed (auto simp: rt'_def)
  next
    fix t1 t2 a b
    assume "rt_tasks rt' t1 = Some a \<and> rt_tasks rt' t2 = Some b \<and> pt_player a = pt_player b"
    then show "t1 = t2"
      using bound [of t1 a] bound [of t2 b] wf_players_inj [OF wf, of t1 a t2 b]
      by (auto simp: rt'_def split: if_splits)
  qed
qed

text \<open>Which message reports what: the shape of every handler's success.\<close>

definition handled :: "nat \<Rightarrow> (string \<Rightarrow> task_phase \<times> agent_task_state list) \<Rightarrow> runtime \<Rightarrow> runtime \<Rightarrow> bool" where
  "handled tx spec rt rt' \<longleftrightarrow>
     runtime_wf rt' \<and> (\<forall>t. (phase t rt', reported tx t rt') = map_prod id (\<lambda>out. reported tx t rt @ out) (spec t))"

lemma handled_send:
  assumes "rt_send tx e m rt1 = (Inr u, rt')" and "runtime_wf rt1" and "rt_out rt1 = rt_out rt"
    and "\<And>t. spec t = (phase t rt1, case status_of t m of Some st \<Rightarrow> [st] | None \<Rightarrow> [])"
  shows "handled tx spec rt rt'"
  using rt_send_core(1) [of _ tx e m rt1] rt_send_core(2) [of tx e m rt1] rt_send_reported [OF assms(1)] assms
  by (auto simp: handled_def reported_def)

lemma handled_same: "runtime_wf rt \<Longrightarrow> (\<And>t. spec t = (phase t rt, [])) \<Longrightarrow> handled tx spec rt rt"
  by (simp add: handled_def)

lemma start_handled:
  assumes wf: "runtime_wf rt" and ok: "play_start tx io t format rt = (Inr u, rt')"
  shows "handled tx (\<lambda>t'. spec_message b64d t' io (GTaskPlayAudioStart t format) (phase t' rt)) rt rt'"
proof (cases "rt_tasks rt t")
  case (Some task)
  have ph: "phase t rt = Playing (pt_chunk_count task) (pl_input (rt_players rt ! pt_player task))"
    using Some by (simp add: phase_def)
  from Some ok have "rt_send tx ''agent writer channel closed while reporting duplicate task.start''
      (task_status t TaskFailed ''duplicate play_audio task.start'') rt = (Inr u, rt')" by (simp add: play_start_def)
  then show ?thesis by (rule handled_send [OF _ wf refl]) (auto simp: ph task_status_def)
next
  case None
  have ph: "spec_start io format (phase t rt) =
      (if can_start io format then (Playing 0 [], [TaskStarted]) else (FailedStart, [TaskFailed]))"
    using None by (simp add: phase_def)
  obtain r rt1 where r: "start_playback_task io format rt = (r, rt1)" by fastforce
  show ?thesis
  proof (cases r)
    case (Inr task)
    then have can: "can_start io format" and
      rt1: "\<exists>argv. rt_put_task t task (rt1\<lparr>rt_failed_starts := rt_failed_starts rt1 - {t}\<rparr>) =
        rt\<lparr>rt_players := rt_players rt @ [\<lparr>pl_argv = argv, pl_input = [], pl_eof = False, pl_killed = False\<rparr>],
           rt_failed_starts := rt_failed_starts rt - {t},
           rt_tasks := (rt_tasks rt)(t \<mapsto> \<lparr>pt_player = length (rt_players rt), pt_chunk_count = 0, pt_byte_count = 0\<rparr>)\<rparr>"
      using r by (auto simp: start_playback_task_def can_start_def rt_put_task_def Let_def split: sum.splits if_splits)
    from rt1 obtain argv where e: "rt_put_task t task (rt1\<lparr>rt_failed_starts := rt_failed_starts rt1 - {t}\<rparr>) =
        rt\<lparr>rt_players := rt_players rt @ [\<lparr>pl_argv = argv, pl_input = [], pl_eof = False, pl_killed = False\<rparr>],
           rt_failed_starts := rt_failed_starts rt - {t},
           rt_tasks := (rt_tasks rt)(t \<mapsto> \<lparr>pt_player = length (rt_players rt), pt_chunk_count = 0, pt_byte_count = 0\<rparr>)\<rparr>" ..
    note core = new_task_core [OF wf None, where argv = argv, folded e]
    from None ok r Inr have "rt_send tx ''agent writer channel closed while sending task started''
        (task_status t TaskStarted ''play_audio started with local default output'')
        (rt_put_task t task (rt1\<lparr>rt_failed_starts := rt_failed_starts rt1 - {t}\<rparr>)) = (Inr u, rt')"
      by (simp add: play_start_def)
    then show ?thesis
      by (rule handled_send [OF _ core(1)]) (auto simp: e core(2) [unfolded e] can ph task_status_def)
  next
    case (Inl err)
    then have cannot: "\<not> can_start io format" and
      rt1: "\<exists>ps. (\<forall>p \<in> set ps. pl_eof p) \<and> rt1 = rt\<lparr>rt_players := rt_players rt @ ps\<rparr>"
      using r by (auto simp: start_playback_task_def can_start_def Let_def split: sum.splits if_splits
          intro!: exI [of _ "drop (length (rt_players rt)) (rt_players rt1)"])
    then obtain ps where ps: "\<forall>p \<in> set ps. pl_eof p" "rt1 = rt\<lparr>rt_players := rt_players rt @ ps\<rparr>" by blast
    then have e: "rt1\<lparr>rt_failed_starts := insert t (rt_failed_starts rt1)\<rparr> =
        rt\<lparr>rt_players := rt_players rt @ ps, rt_failed_starts := insert t (rt_failed_starts rt)\<rparr>" by simp
    note core = failed_start_core [OF wf None ps(1), folded e]
    from None ok r Inl have "rt_send tx ''agent writer channel closed while reporting task start failure''
        (task_status t TaskFailed (''failed to start local playback: '' @ err))
        (rt1\<lparr>rt_failed_starts := insert t (rt_failed_starts rt1)\<rparr>) = (Inr u, rt')"
      by (simp only: play_start_def) simp
    then show ?thesis
      by (rule handled_send [OF _ core(1)]) (auto simp: e core(2) [unfolded e] cannot ph task_status_def)
  qed
qed

lemma failed_task_handled:
  assumes wf: "runtime_wf rt" and task: "rt_tasks rt t = Some task" and f: "\<And>p. pl_eof (f p)"
    and ok: "rt_send tx e (task_status t state msg) (on_player (pt_player task) f (rt_del_task t rt)) = (Inr u, rt')"
  shows "handled tx (\<lambda>t'. if t' = t then (Idle, [state]) else (phase t' rt, [])) rt rt'"
  using end_task_core [OF wf task, of f] f by (intro handled_send [OF ok]) (auto simp: task_status_def)

lemma chunk_handled:
  assumes wf: "runtime_wf rt" and ok: "play_chunk b64d tx io t data rt = (Inr u, rt')"
  shows "handled tx (\<lambda>t'. spec_message b64d t' io (GTaskPlayAudioChunk t data) (phase t' rt)) rt rt'"
proof (cases "rt_tasks rt t")
  case None
  show ?thesis
  proof (cases "t \<in> rt_failed_starts rt")
    case True
    with None ok have "rt' = rt" by (simp add: play_chunk_def)
    with True None show ?thesis
      by (auto intro!: handled_same [OF wf] simp: phase_def)
  next
    case False
    with None ok have "rt_send tx ''agent writer channel closed while reporting out-of-order chunk''
        (task_status t TaskFailed ''chunk received before task.start'') rt = (Inr u, rt')" by (simp add: play_chunk_def)
    then show ?thesis
      using None False by (intro handled_send [OF _ wf refl]) (auto simp: task_status_def phase_def)
  qed
next
  case (Some task)
  have ph: "phase t rt = Playing (pt_chunk_count task) (pl_input (rt_players rt ! pt_player task))"
    using Some by (simp add: phase_def)
  have failing: ?thesis
    if e: "rt_send tx e0 (task_status t TaskFailed msg)
        (on_player (pt_player task) f (rt_del_task t rt)) = (Inr u, rt')" and f: "\<And>p. pl_eof (f p)"
      and s: "spec_chunk b64d io data (phase t rt) = (Idle, [TaskFailed])" for e0 msg f
    using failed_task_handled [OF wf Some f e] s by (auto simp: handled_def)
  have kill: "pl_eof (kill_player p)" for p by (simp add: kill_player_def)
  show ?thesis
  proof (cases "b64d data")
    case (Inl e)
    with Some ok show ?thesis
      by (intro failing [where f = kill_player]) (auto simp: play_chunk_def finish_failed_task_def kill ph)
  next
    case (Inr bs)
    show ?thesis
    proof (cases "io_write_fails io")
      case None
      with Inr Some ok have rt': "rt' = rt_put_task t (task\<lparr>pt_chunk_count := pt_chunk_count task + 1,
          pt_byte_count := pt_byte_count task + length bs\<rparr>) (on_player (pt_player task) (feed_player bs) rt)"
        by (simp add: play_chunk_def)
      have "reported tx t' rt' = reported tx t' rt" for t' by (simp add: reported_def rt')
      with feed_task_core [OF wf Some, where bs = bs] None Inr show ?thesis
        by (auto simp: handled_def ph rt')
    next
      case (Some w)
      obtain n e where w: "w = (n, e)" by fastforce
      have two: "on_player i kill_player (rt_del_task t (on_player i (feed_player (take n bs)) rt)) =
          on_player i (\<lambda>p. kill_player (feed_player (take n bs) p)) (rt_del_task t rt)" if "i < length (rt_players rt)" for i
        using that by (simp add: on_player_def rt_del_task_def)
      have "rt_send tx ''agent writer channel closed while reporting play_audio failure''
          (task_status t TaskFailed (''failed writing audio chunk to player stdin: '' @ e))
          (on_player (pt_player task) (\<lambda>p. kill_player (feed_player (take n bs) p)) (rt_del_task t rt)) = (Inr u, rt')"
        using ok Some Inr w \<open>rt_tasks rt t = Some task\<close> two [OF wf_task_open [OF wf \<open>rt_tasks rt t = Some task\<close>]]
        by (simp only: play_chunk_def finish_failed_task_def option.case sum.case prod.case on_player_frames)
      then show ?thesis by (rule failing) (simp_all add: kill ph Some Inr)
    qed
  qed
qed

lemma finish_handled:
  assumes wf: "runtime_wf rt" and ok: "play_finish tx io t rt = (Some (Inr u), rt')"
  shows "handled tx (\<lambda>t'. spec_message b64d t' io (GTaskPlayAudioFinish t) (phase t' rt)) rt rt'"
proof (cases "rt_tasks rt t")
  case None
  let ?rt1 = "rt_del_task t (rt\<lparr>rt_failed_starts := rt_failed_starts rt - {t}\<rparr>)"
  have ph: "phase t' ?rt1 = (if t' = t then Idle else phase t' rt)" for t'
    using None by (auto simp: phase_def split: option.split)
  have "rt_tasks ?rt1 = rt_tasks rt" using None by (simp add: fun_upd_idem)
  with wf have wf1: "runtime_wf ?rt1" by (simp add: runtime_wf_def open_player_def del: fun_upd_apply)
  show ?thesis
  proof (cases "t \<in> rt_failed_starts rt")
    case True
    with None ok have "rt' = ?rt1" by (simp add: play_finish_def Let_def)
    with True None wf1 ph show ?thesis by (auto simp: handled_def phase_def reported_def)
  next
    case False
    with None ok have "rt_send tx ''agent writer channel closed while sending task finish status''
        (task_status t TaskFailed ''finish received before task.start'') ?rt1 = (Inr u, rt')"
      by (cases "rt_send tx ''agent writer channel closed while sending task finish status''
        (task_status t TaskFailed ''finish received before task.start'') ?rt1") (simp add: play_finish_def Let_def)
    then show ?thesis
      using None False ph by (intro handled_send [OF _ wf1]) (auto simp: task_status_def phase_def)
  qed
next
  case (Some task)
  have t: "t \<notin> rt_failed_starts rt" using wf_taskD [OF wf Some] by simp
  then have same: "rt\<lparr>rt_failed_starts := rt_failed_starts rt - {t}\<rparr> = rt" by simp
  let ?f = "if io_exit io = WaitTimedOut then kill_player else end_input"
  obtain state msg where rep: "finish_report io task = Some (state, msg)"
    using ok Some same by (auto simp: play_finish_def Let_def split: option.splits)
  have send: "rt_send tx ''agent writer channel closed while sending task finish status'' (task_status t state msg)
      (on_player (pt_player task) ?f (rt_del_task t rt)) = (Inr u, rt')"
    using ok Some same rep
    by (cases "rt_send tx ''agent writer channel closed while sending task finish status'' (task_status t state msg)
      (on_player (pt_player task) ?f (rt_del_task t rt))") (simp add: play_finish_def Let_def)
  have "state = (if io_exit io = ExitSuccess then TaskFinished else TaskFailed)"
    using rep by (auto simp: finish_report_def Let_def split: player_exit.splits)
  moreover have "phase t rt = Playing (pt_chunk_count task) (pl_input (rt_players rt ! pt_player task))"
    using Some by (simp add: phase_def)
  ultimately show ?thesis
    using failed_task_handled [OF wf Some _ send] by (auto simp: handled_def kill_player_def end_input_def)
qed

lemma message_handled:
  assumes "runtime_wf rt" and "runtime_message b64d tx io m rt = (Some (Inr u), rt')"
  shows "handled tx (\<lambda>t. spec_message b64d t io m (phase t rt)) rt rt'"
proof (cases m)
  case (GTaskPlayAudioStart t format)
  with assms start_handled show ?thesis by (auto simp: no_panic_def prod_eq_iff)
next
  case (GTaskPlayAudioChunk t data)
  with assms chunk_handled [OF assms(1)] show ?thesis by (auto simp: no_panic_def prod_eq_iff)
next
  case (GTaskPlayAudioFinish t)
  with assms finish_handled [OF assms(1)] show ?thesis by simp
next
  case (GSessionStart s req)
  obtain r1 rt1 where one0: "rt_send tx ''agent writer channel closed while sending stub error''
      (AError (Some s) ''device task handling is not implemented yet'') rt = (r1, rt1)" by fastforce
  obtain r2 rt2 where two0: "rt_send tx ''agent writer channel closed while sending session.ended''
      (ASessionEnded s (Some ''not_implemented'')) rt1 = (r2, rt2)" by fastforce
  have "r1 = Inr ()" "r2 = Inr ()" "rt2 = rt'"
    using assms(2) GSessionStart one0 two0 by (cases r1; auto simp: no_panic_def)+
  note one = one0 [unfolded this] and two = two0 [unfolded this]
  have "reported tx t rt' = reported tx t rt" for t
    using rt_send_reported [OF one] rt_send_reported [OF two] by simp
  moreover have "runtime_wf rt'" "phase t rt' = phase t rt" for t
    using rt_send_core(1) [of t] rt_send_core(2) one two assms(1) by (metis snd_conv)+
  ultimately show ?thesis using GSessionStart by (simp add: handled_def)
qed (use assms in \<open>auto intro: handled_same handled_send [OF _ assms(1) refl] simp: no_panic_def session_unsupported_def prod_eq_iff\<close>)

text \<open>Whatever a message comes to, the invariant stays, and a player whose input has ended is not touched.\<close>

definition kept :: "runtime \<Rightarrow> runtime \<Rightarrow> bool" where
  "kept rt rt' \<longleftrightarrow> runtime_wf rt' \<and> length (rt_players rt) \<le> length (rt_players rt') \<and>
     (\<forall>i < length (rt_players rt). pl_eof (rt_players rt ! i) \<longrightarrow> rt_players rt' ! i = rt_players rt ! i)"

lemma kept_refl: "runtime_wf rt \<Longrightarrow> kept rt rt"
  by (simp add: kept_def)

lemma kept_trans: "kept rt rt1 \<Longrightarrow> kept rt1 rt2 \<Longrightarrow> kept rt rt2"
  by (auto simp: kept_def)

lemma kept_send [simp]: "kept rt (snd (rt_send tx e m rt1)) = kept rt rt1"
  using rt_send_core(2,3) [of tx e m rt1] by (simp add: kept_def)

lemma kept_end:
  assumes wf: "runtime_wf rt" and task: "rt_tasks rt t = Some task" and f: "\<And>p. pl_eof (f p)"
  shows "kept rt (on_player (pt_player task) f (rt_del_task t rt))"
proof -
  have "\<not> pl_eof (rt_players rt ! pt_player task)" using wf_taskD [OF wf task] by (simp add: open_player_def)
  with end_task_core [OF wf task f] on_player_nth [of _ "rt_del_task t rt" "pt_player task" f] show ?thesis
    by (auto simp: kept_def)
qed

lemma start_kept: "runtime_wf rt \<Longrightarrow> kept rt (snd (play_start tx io t format rt))"
proof (cases "rt_tasks rt t")
  case None
  assume wf: "runtime_wf rt"
  have ended: "kept rt (rt\<lparr>rt_players := rt_players rt @ ps, rt_failed_starts := insert t (rt_failed_starts rt)\<rparr>)"
    if "\<forall>p \<in> set ps. pl_eof p" for ps
    using failed_start_core(1) [OF wf None that] by (simp add: kept_def nth_append)
  have new: "kept rt (rt\<lparr>rt_players := rt_players rt @ [\<lparr>pl_argv = argv, pl_input = [], pl_eof = False, pl_killed = False\<rparr>],
      rt_failed_starts := rt_failed_starts rt - {t},
      rt_tasks := (rt_tasks rt)(t \<mapsto> \<lparr>pt_player = length (rt_players rt), pt_chunk_count = 0, pt_byte_count = 0\<rparr>)\<rparr>)"
    for argv
    using new_task_core(1) [OF wf None, where argv = argv] by (simp add: kept_def nth_append)
  have same: "kept rt (rt\<lparr>rt_failed_starts := insert t (rt_failed_starts rt)\<rparr>)"
    using ended [of "[]"] by simp
  show ?thesis
    using None ended new same
    by (auto simp: play_start_def start_playback_task_def rt_put_task_def Let_def split: sum.split)
qed (simp add: play_start_def kept_refl)

lemma feed_kept:
  fixes bs
  assumes wf: "runtime_wf rt" and task: "rt_tasks rt t = Some task"
  shows "kept rt (rt_put_task t (task\<lparr>pt_chunk_count := pt_chunk_count task + 1,
      pt_byte_count := pt_byte_count task + length bs\<rparr>) (on_player (pt_player task) (feed_player bs) rt))"
proof -
  have "\<not> pl_eof (rt_players rt ! pt_player task)" using wf_taskD [OF wf task] by (simp add: open_player_def)
  with feed_task_core(1) [OF wf task, where bs = bs] on_player_nth [of _ rt "pt_player task" "feed_player bs"]
  show ?thesis by (auto simp: kept_def)
qed

lemma chunk_kept:
  assumes wf: "runtime_wf rt"
  shows "kept rt (snd (play_chunk b64d tx io t data rt))"
proof (cases "rt_tasks rt t")
  case (Some task)
  have two: "on_player (pt_player task) kill_player (rt_del_task t (on_player (pt_player task) (feed_player bs) rt)) =
      on_player (pt_player task) (\<lambda>p. kill_player (feed_player bs p)) (rt_del_task t rt)" for bs
    using wf_task_open [OF wf Some] by (simp add: on_player_def rt_del_task_def)
  have "kept rt (on_player (pt_player task) (\<lambda>p. kill_player (feed_player bs p)) (rt_del_task t rt))"
    "kept rt (on_player (pt_player task) kill_player (rt_del_task t rt))" for bs
    by (rule kept_end [OF wf Some]; simp add: kill_player_def)+
  with two feed_kept [OF wf Some] Some show ?thesis
    by (auto simp: play_chunk_def finish_failed_task_def split: sum.split option.split)
qed (simp add: play_chunk_def kept_refl wf)

lemma finish_kept:
  assumes wf: "runtime_wf rt"
  shows "kept rt (snd (play_finish tx io t rt))"
proof (cases "rt_tasks rt t")
  case None
  let ?rt1 = "rt_del_task t (rt\<lparr>rt_failed_starts := rt_failed_starts rt - {t}\<rparr>)"
  have "rt_tasks ?rt1 = rt_tasks rt" using None by (simp add: fun_upd_idem)
  with wf have "kept rt ?rt1" by (simp add: kept_def runtime_wf_def open_player_def del: fun_upd_apply)
  moreover from this have "t \<notin> rt_failed_starts rt \<longrightarrow> kept rt (rt_del_task t rt)" by auto
  ultimately show ?thesis using None by (simp add: play_finish_def Let_def split: prod.split)
next
  case (Some task)
  have "t \<notin> rt_failed_starts rt" using wf_taskD [OF wf Some] by simp
  then have same: "rt\<lparr>rt_failed_starts := rt_failed_starts rt - {t}\<rparr> = rt" by simp
  have "kept rt (on_player (pt_player task) kill_player (rt_del_task t rt))"
    "kept rt (on_player (pt_player task) end_input (rt_del_task t rt))"
    by (rule kept_end [OF wf Some]; simp add: kill_player_def end_input_def)+
  with Some same show ?thesis by (simp add: play_finish_def Let_def split: option.split prod.split)
qed

lemma message_kept:
  assumes wf: "runtime_wf rt"
  shows "kept rt (snd (runtime_message b64d tx io m rt))"
proof (cases m)
  case (GSessionStart s req)
  obtain r rt1 where r: "rt_send tx ''agent writer channel closed while sending stub error''
      (AError (Some s) ''device task handling is not implemented yet'') rt = (r, rt1)" by fastforce
  then have "kept rt rt1" using kept_send [of rt tx _ _ rt] kept_refl [OF wf] by (metis snd_conv)
  with GSessionStart r show ?thesis by (cases r) (auto simp: no_panic_def)
qed (simp_all add: no_panic_def kept_refl wf start_kept chunk_kept finish_kept)

section \<open>Lemmas: a whole connection\<close>

fun message_of :: "runtime_input \<Rightarrow> (play_io \<times> gateway_to_agent) option" where
  "message_of (RtFrame now io (TextFrame (Inr m))) = Some (io, m)"
| "message_of _ = None"

definition messages_of :: "runtime_input list \<Rightarrow> (play_io \<times> gateway_to_agent) list" where
  "messages_of ins = List.map_filter message_of ins"

lemma runtime_step_kept:
  assumes wf: "runtime_wf rt" and step: "runtime_step b64d tx i seen rt = (stop, seen', rt')"
  shows "kept rt rt'"
proof (cases "(b64d, tx, i, seen, rt)" rule: runtime_step.cases)
  case (4 b tx' now io m s r)
  with step message_kept [OF wf, of b64d tx io m] show ?thesis
    by (cases "runtime_message b64d tx io m rt") (auto simp: runtime_turn_def split: option.splits sum.splits)
next
  case (5 b tx' now io p s r)
  with step kept_send [of rt tx _ APong rt] kept_refl [OF wf] show ?thesis
    by (auto simp: runtime_turn_def no_panic_def split: prod.splits option.splits sum.splits)
next
  case (10 b tx' now s r)
  have "kept rt rt2" if "rt_send tx [] APong rt = (q, rt2)" for q rt2
    using that kept_send [of rt tx "[]" APong rt] kept_refl [OF wf] by simp
  with 10 step kept_refl [OF wf] show ?thesis
    by (cases "rt_send tx [] APong rt") (auto split: if_splits sum.splits)
qed (use step kept_refl [OF wf] in simp_all)

lemma runtime_loop_kept:
  "runtime_wf rt \<Longrightarrow> runtime_loop b64d tx ins seen rt = (stop, rt') \<Longrightarrow> kept rt rt'"
proof (induction b64d tx ins seen rt rule: runtime_loop.induct)
  case (1 b64d tx seen rt)
  then show ?case by (simp add: kept_refl)
next
  case (2 b64d tx i ins seen rt)
  obtain s1 seen1 rt1 where st: "runtime_step b64d tx i seen rt = (s1, seen1, rt1)" using prod_cases3 by blast
  note k = runtime_step_kept [OF "2.prems"(1) st]
  show ?case
  proof (cases s1)
    case None
    have "kept rt1 rt'"
      using "2.IH" [OF st [symmetric] None refl] "2.prems" st None k by (simp add: kept_def)
    with k show ?thesis by (rule kept_trans)
  next
    case (Some x)
    with st "2.prems"(2) k show ?thesis by simp
  qed
qed

lemma runtime_step_handled:
  assumes wf: "runtime_wf rt" and step: "runtime_step b64d tx i seen rt = (None, seen', rt')"
  shows "handled tx (\<lambda>t. case message_of i of Some (io, m) \<Rightarrow> spec_message b64d t io m (phase t rt) | None \<Rightarrow> (phase t rt, [])) rt rt'"
proof (cases "(b64d, tx, i, seen, rt)" rule: runtime_step.cases)
  case (4 b tx' now io m s r)
  with step have "runtime_message b64d tx io m rt = (Some (Inr ()), rt')"
    by (cases "runtime_message b64d tx io m rt") (auto simp: runtime_turn_def split: option.splits sum.splits)
  from message_handled [OF wf this] 4 show ?thesis by simp
next
  case (5 b tx' now io p s r)
  with step have "rt_send tx ''agent writer channel closed while sending pong'' APong rt = (Inr (), rt')"
    by (cases "rt_send tx ''agent writer channel closed while sending pong'' APong rt")
      (auto simp: runtime_turn_def no_panic_def split: sum.splits)
  from handled_send [OF this wf refl] 5 show ?thesis by simp
next
  case (10 b tx' now s r)
  with step have "rt_send tx [] APong rt = (Inr (), rt')"
    by (auto split: if_splits prod.splits sum.splits)
  from handled_send [OF this wf refl] 10 show ?thesis by simp
qed (use step handled_same [OF wf] in auto)

lemma runtime_loop_spec:
  "runtime_wf rt \<Longrightarrow> runtime_loop b64d tx ins seen rt = (None, rt') \<Longrightarrow>
     phase t rt' = fst (spec_run b64d t (messages_of ins) (phase t rt)) \<and>
     reported tx t rt' = reported tx t rt @ snd (spec_run b64d t (messages_of ins) (phase t rt))"
proof (induction b64d tx ins seen rt rule: runtime_loop.induct)
  case (1 b64d tx seen rt)
  then show ?case by (simp add: messages_of_def List.map_filter_simps)
next
  case (2 b64d tx i ins seen rt)
  obtain s1 seen1 rt1 where st: "runtime_step b64d tx i seen rt = (s1, seen1, rt1)" using prod_cases3 by blast
  with "2.prems"(2) have s1: "s1 = None" and rest: "runtime_loop b64d tx ins seen1 rt1 = (None, rt')"
    by (simp_all split: option.splits)
  note h = runtime_step_handled [OF "2.prems"(1) st [unfolded s1]]
  then have wf1: "runtime_wf rt1" by (simp add: handled_def)
  note IH = "2.IH" [OF st [symmetric] s1 refl wf1 rest]
  show ?case
    using IH h
    by (cases "message_of i")
      (auto simp: handled_def messages_of_def List.map_filter_simps prod_eq_iff split: prod.splits)
qed

lemma runtime_wf_new [simp]: "runtime_wf (runtime_new n)"
  by (simp add: runtime_wf_def runtime_new_def)

lemma phase_new [simp]: "phase t (runtime_new n) = Idle"
  by (simp add: phase_def runtime_new_def)

lemma end_tasks_players:
  assumes wf: "runtime_wf rt" and i: "i < length (rt_players rt)"
  shows "rt_players (end_tasks f rt) ! i =
    (if pl_eof (rt_players rt ! i) then rt_players rt ! i else f (rt_players rt ! i))"
proof -
  have "i \<in> pt_player ` ran (rt_tasks rt) \<longleftrightarrow> \<not> pl_eof (rt_players rt ! i)"
    using wf i by (fastforce simp: runtime_wf_def open_player_def ran_def image_iff)
  with i show ?thesis by (simp add: end_tasks_def nth_enumerate_eq)
qed

text \<open>A run of messages about one task in the specification: a start, chunks that arrive, a finish.\<close>

lemma spec_run_append:
  "spec_run b64d t (ms @ ns) ph =
     (fst (spec_run b64d t ns (fst (spec_run b64d t ms ph))),
      snd (spec_run b64d t ms ph) @ snd (spec_run b64d t ns (fst (spec_run b64d t ms ph))))"
  by (induction b64d t ms ph rule: spec_run.induct) (auto split: prod.split)

text \<open>Messages about other tasks do not matter.\<close>

lemma spec_run_filter: "spec_run b64d t ms ph = spec_run b64d t (filter (\<lambda>p. about_task t (snd p)) ms) ph"
proof (induction b64d t ms ph rule: spec_run.induct)
  case (2 b64d t io m ms ph)
  then show ?case by (cases m) (auto split: prod.split)
qed simp

lemma spec_run_chunks:
  "\<forall>p \<in> set ps. io_write_fails (fst p) = None \<and> (\<exists>d. snd p = GTaskPlayAudioChunk t d \<and> b64d d = Inr (part p)) \<Longrightarrow>
     spec_run b64d t ps (Playing k bs) = (Playing (k + length ps) (bs @ concat (map part ps)), [])"
proof (induction ps arbitrary: k bs)
  case (Cons p ps)
  obtain io m where p: "p = (io, m)" by fastforce
  from Cons.prems obtain d where "m = GTaskPlayAudioChunk t d" "b64d d = Inr (part p)" "io_write_fails io = None"
    by (auto simp: p)
  with Cons.IH [of "k + 1" "bs @ part p"] Cons.prems p show ?case by simp
qed simp

section \<open>Properties\<close>

text \<open>C8: The agent keeps its promise for each task: as long as its connection runs, whatever frames, heartbeats
  and other tasks come in between, the phase of a task (with the chunks counted and the bytes its player
  has been given) and the states reported for it are those of the specification of that task alone, run on its messages.\<close>

theorem runtime_refines_task_spec:
  assumes "runtime_loop b64d tx inputs seen (runtime_new n) = (None, rt)"
  shows "(phase t rt, reported tx t rt) =
    map_prod id (\<lambda>out. reported tx t (runtime_new n) @ out)
      (spec_run b64d t (filter (\<lambda>p. about_task t (snd p)) (messages_of inputs)) Idle)"
  using runtime_loop_spec [OF runtime_wf_new assms, of t]
  unfolding spec_run_filter [of b64d t "messages_of inputs"] by (simp add: prod_eq_iff)

text \<open>The inputs after which the loop is left by a break: the stream ends, the gateway closes, or a heartbeat fails.\<close>

fun breaks_loop :: "runtime_input \<Rightarrow> bool" where
  "breaks_loop RtEnd = True"
| "breaks_loop (RtFrame now io f) = (f = CloseFrame)"
| "breaks_loop (RtTick now) = True"

lemma runtime_step_break:
  "runtime_step b64d tx i seen rt = (Some stop, seen', rt') \<Longrightarrow> stop = Break \<longleftrightarrow> breaks_loop i"
  by (cases "(b64d, tx, i, seen, rt)" rule: runtime_step.cases)
    (auto simp: runtime_turn_def split: prod.splits option.splits sum.splits if_splits)

lemma runtime_loop_stop:
  "runtime_loop b64d tx ins seen rt = (Some stop, rt') \<Longrightarrow>
     \<exists>pre i post. ins = pre @ i # post \<and> fst (runtime_loop b64d tx pre seen rt) = None \<and>
       (stop = Break \<longleftrightarrow> breaks_loop i)"
proof (induction ins arbitrary: seen rt)
  case Nil
  then show ?case by simp
next
  case (Cons i ins)
  obtain s1 seen1 rt1 where st: "runtime_step b64d tx i seen rt = (s1, seen1, rt1)" using prod_cases3 by blast
  show ?case
  proof (cases s1)
    case None
    with Cons.prems st have "runtime_loop b64d tx ins seen1 rt1 = (Some stop, rt')" by simp
    from Cons.IH [OF this] obtain pre j post where "ins = pre @ j # post"
      "fst (runtime_loop b64d tx pre seen1 rt1) = None" "stop = Break \<longleftrightarrow> breaks_loop j" by blast
    with st None show ?thesis by (intro exI [of _ "i # pre"] exI [of _ j] exI [of _ post]) simp
  next
    case (Some x)
    with Cons.prems st runtime_step_break [of b64d tx i seen rt stop] show ?thesis
      by (intro exI [of _ "[]"] exI [of _ i] exI [of _ ins]) auto
  qed
qed


definition demo_io :: play_io where
  "demo_io = \<lparr>io_env = \<lparr>lev_macos = False, lev_exists = (\<lambda>_. False), lev_path = None, lev_pad_cmd = Some ''play'',
       lev_playback_cmd = None\<rparr>, io_spawn_fails = False, io_no_stdin = False, io_write_fails = None,
     io_exit = ExitSuccess, io_stderr = None\<rparr>"

definition demo_runtime_inputs :: "runtime_input list" where
  "demo_runtime_inputs =
     [RtFrame 1 demo_io (TextFrame (Inr (GTaskPlayAudioStart ''a'' None))),
      RtFrame 2 demo_io (TextFrame (Inr (GTaskPlayAudioChunk ''b'' ''x''))),
      RtFrame 3 demo_io (TextFrame (Inr (GTaskPlayAudioChunk ''a'' ''x'')))]"

definition demo_out :: "agent_to_gateway net" where
  "demo_out = \<lparr>net_closed = {}, net_log = []\<rparr>"

lemma demo_launcher: "resolve_playback_launcher (io_env demo_io) = ShellCommand ''play''"
  by (simp add: resolve_playback_launcher_def set_command_def demo_io_def) code_simp

lemma demo_io_simps:
  "io_spawn_fails demo_io = False" "io_no_stdin demo_io = False" "io_write_fails demo_io = None" "io_exit demo_io = ExitSuccess"
  by (simp_all add: demo_io_def)

lemma demo_loop: "fst (runtime_loop (\<lambda>_. Inr [7]) 0 demo_runtime_inputs 0 (runtime_new demo_out)) = None"
  by (simp add: demo_runtime_inputs_def play_start_def play_chunk_def start_playback_task_def playback_argv_def
      demo_launcher runtime_new_def rt_send_def net_send_def demo_out_def runtime_turn_def no_panic_def Let_def
      rt_put_task_def on_player_def task_status_def) (simp add: demo_io_def)

theorem runtime_refines_task_spec_witness:
  "\<exists>rt. runtime_loop (\<lambda>_. Inr [7]) 0 demo_runtime_inputs 0 (runtime_new demo_out) = (None, rt) \<and>
     phase ''a'' rt = Playing 1 [7] \<and> phase ''b'' rt = Idle"
proof -
  obtain rt where rt: "runtime_loop (\<lambda>_. Inr [7]) 0 demo_runtime_inputs 0 (runtime_new demo_out) = (None, rt)"
    using demo_loop by (metis prod.collapse)
  have "can_start demo_io None" by (simp add: can_start_def demo_launcher playback_argv_def) (simp add: demo_io_def)
  moreover have "io_write_fails demo_io = None" by (simp add: demo_io_def)
  ultimately show ?thesis
    using rt runtime_refines_task_spec [OF rt, of "''a''"] runtime_refines_task_spec [OF rt, of "''b''"]
    by (auto simp: demo_runtime_inputs_def messages_of_def List.map_filter_simps prod_eq_iff)
qed


end
