(* ===== verification/PlayAudio.thy ===== *)
theory PlayAudio
  imports Control AgentRuntime
begin

text \<open>
  Play-audio from end to end: a request at the control endpoint, the agent hub, the command channel of the chosen
  agent, the device agent at its other end and the player it starts.
\<close>

section \<open>Lemmas\<close>

lemma messages_of_split:
  "messages_of ins = ms @ p # ns \<Longrightarrow>
     \<exists>pre i post. ins = pre @ i # post \<and> messages_of pre = ms \<and> message_of i = Some p"
proof (induction ins arbitrary: ms)
  case Nil
  then show ?case by (simp add: messages_of_def List.map_filter_simps)
next
  case (Cons i ins)
  show ?case
  proof (cases "message_of i")
    case None
    with Cons.prems have "messages_of ins = ms @ p # ns" by (simp add: messages_of_def List.map_filter_simps)
    from Cons.IH [OF this] obtain pre j post where
      "ins = pre @ j # post" "messages_of pre = ms" "message_of j = Some p" by blast
    with None show ?thesis
      by (intro exI [of _ "i # pre"] exI [of _ j] exI [of _ post]) (simp add: messages_of_def List.map_filter_simps)
  next
    case (Some q)
    with Cons.prems have q: "q # messages_of ins = ms @ p # ns" by (simp add: messages_of_def List.map_filter_simps)
    show ?thesis
    proof (cases ms)
      case Nil
      with q Some show ?thesis
        by (intro exI [of _ "[]"] exI [of _ i] exI [of _ ins]) (simp add: messages_of_def List.map_filter_simps)
    next
      case (Cons m ms')
      with q have "messages_of ins = ms' @ p # ns" by simp
      from Cons.IH [OF this] obtain pre j post where
        "ins = pre @ j # post" "messages_of pre = ms'" "message_of j = Some p" by blast
      with Some Cons q show ?thesis
        by (intro exI [of _ "i # pre"] exI [of _ j] exI [of _ post]) (simp add: messages_of_def List.map_filter_simps)
    qed
  qed
qed

lemma runtime_loop_split:
  "runtime_loop b64d tx (xs @ ys) seen rt = (None, rt') \<Longrightarrow>
     \<exists>seen1 rt1. runtime_loop b64d tx xs seen rt = (None, rt1) \<and> runtime_loop b64d tx ys seen1 rt1 = (None, rt')"
proof (induction xs arbitrary: seen rt)
  case Nil
  then show ?case by auto
next
  case (Cons i xs)
  obtain s1 seen1 rt1 where st: "runtime_step b64d tx i seen rt = (s1, seen1, rt1)" using prod_cases3 by blast
  with Cons.prems have "s1 = None" "runtime_loop b64d tx (xs @ ys) seen1 rt1 = (None, rt')"
    by (simp_all split: option.splits)
  with Cons.IH [OF this(2)] st show ?case by simp
qed

text \<open>The player of a task that finishes successfully has been given what the phase says, and keeps it.\<close>

lemma finished_player:
  assumes wf: "runtime_wf rt" and ph: "phase t rt = Playing k bs" and io: "io_exit io = ExitSuccess"
    and ok: "runtime_message b64d tx io (GTaskPlayAudioFinish t) rt = (Some (Inr u), rt1)"
  shows "\<exists>i < length (rt_players rt1). pl_input (rt_players rt1 ! i) = bs \<and> pl_eof (rt_players rt1 ! i) \<and>
           \<not> pl_killed (rt_players rt1 ! i)"
proof -
  obtain task where task: "rt_tasks rt t = Some task" "pl_input (rt_players rt ! pt_player task) = bs"
    using ph by (auto simp: phase_def split: option.splits if_splits)
  have t: "t \<notin> rt_failed_starts rt" and op: "open_player rt (pt_player task)"
    using wf_taskD [OF wf task(1)] by simp_all
  then have same: "rt\<lparr>rt_failed_starts := rt_failed_starts rt - {t}\<rparr> = rt" by simp
  have "rt_players rt1 = rt_players (on_player (pt_player task) end_input (rt_del_task t rt))"
    using ok task(1) same io
      rt_send_core(3) [of tx "''agent writer channel closed while sending task finish status''" _ "on_player (pt_player task) end_input (rt_del_task t rt)"]
    by (auto simp: play_finish_def Let_def finish_report_def prod_eq_iff)
  with op task(2) on_player_nth [of "pt_player task" "rt_del_task t rt" "pt_player task" end_input] show ?thesis
    by (intro exI [of _ "pt_player task"]) (simp add: open_player_def end_input_def)
qed

text \<open>The agent's side: a task whose messages are a start, chunks and a finish, with a player that works.\<close>

definition player_works :: "play_io \<Rightarrow> audio_format option \<Rightarrow> bool" where
  "player_works io format \<longleftrightarrow> can_start io format \<and> io_write_fails io = None \<and> io_exit io = ExitSuccess"

lemma agent_plays:
  assumes loop: "runtime_loop b64d tx inputs seen (runtime_new n) = (None, rt)"
    and ms: "filter (about_task t) (map snd (messages_of inputs)) =
      GTaskPlayAudioStart t format # map (\<lambda>c. GTaskPlayAudioChunk t (b64 c)) parts @ [GTaskPlayAudioFinish t]"
    and works: "\<forall>(io, m) \<in> set (messages_of inputs). about_task t m \<longrightarrow> player_works io format"
    and b64: "\<And>c. b64d (b64 c) = Inr c"
  shows "reported tx t rt = reported tx t (runtime_new n) @ [TaskStarted, TaskFinished]"
    and "\<exists>i < length (rt_players rt). pl_input (rt_players rt ! i) = concat parts \<and> pl_eof (rt_players rt ! i) \<and>
           \<not> pl_killed (rt_players rt ! i)"
proof -
  let ?about = "\<lambda>p. about_task t (snd p)"
  define Q where "Q = filter ?about (messages_of inputs)"
  have "map snd Q = GTaskPlayAudioStart t format # map (\<lambda>c. GTaskPlayAudioChunk t (b64 c)) parts @ [GTaskPlayAudioFinish t]"
    using ms by (simp add: Q_def filter_map comp_def)
  then obtain io0 iof qs where Q: "Q = ((io0, GTaskPlayAudioStart t format) # qs) @ [(iof, GTaskPlayAudioFinish t)]"
    and qs: "map snd qs = map (\<lambda>c. GTaskPlayAudioChunk t (b64 c)) parts"
    by (auto simp: map_eq_Cons_conv map_eq_append_conv)
  have "\<forall>(io, m) \<in> set Q. player_works io format" using works by (auto simp: Q_def)
  then have w0: "player_works io0 format" and wf: "player_works iof format" and wq: "\<forall>q \<in> set qs. player_works (fst q) format"
    by (auto simp: Q)
  define part where "part = (\<lambda>p :: play_io \<times> gateway_to_agent. case snd p of GTaskPlayAudioChunk _ d \<Rightarrow> projr (b64d d) | _ \<Rightarrow> [])"
  have "map part qs = map (\<lambda>m. case m of GTaskPlayAudioChunk _ d \<Rightarrow> projr (b64d d) | _ \<Rightarrow> []) (map snd qs)"
    by (simp add: part_def)
  also have "\<dots> = parts" unfolding qs by (simp add: b64 comp_def)
  finally have parts: "map part qs = parts" .
  have "\<forall>q \<in> set qs. io_write_fails (fst q) = None \<and> (\<exists>d. snd q = GTaskPlayAudioChunk t d \<and> b64d d = Inr (part q))"
  proof
    fix q assume q: "q \<in> set qs"
    then have "snd q \<in> set (map (\<lambda>c. GTaskPlayAudioChunk t (b64 c)) parts)" unfolding qs [symmetric] by auto
    with q wq show "io_write_fails (fst q) = None \<and> (\<exists>d. snd q = GTaskPlayAudioChunk t d \<and> b64d d = Inr (part q))"
      by (auto simp: player_works_def part_def b64)
  qed
  from spec_run_chunks [OF this, of 0 "[]"] w0
  have run: "spec_run b64d t ((io0, GTaskPlayAudioStart t format) # qs) Idle = (Playing (length qs) (concat parts), [TaskStarted])"
    by (simp add: parts player_works_def)
  have "spec_run b64d t Q Idle = (Idle, [TaskStarted, TaskFinished])"
    unfolding Q spec_run_append run using wf by (simp add: player_works_def)
  then show "reported tx t rt = reported tx t (runtime_new n) @ [TaskStarted, TaskFinished]"
    using runtime_loop_spec [OF runtime_wf_new loop, of t] spec_run_filter [of b64d t "messages_of inputs" Idle]
    by (simp add: Q_def)
  have "filter ?about (rev (messages_of inputs)) = (iof, GTaskPlayAudioFinish t) # rev ((io0, GTaskPlayAudioStart t format) # qs)"
    using Q unfolding Q_def by (simp flip: rev_filter)
  then obtain us vs where split: "rev (messages_of inputs) = us @ (iof, GTaskPlayAudioFinish t) # vs"
    "rev ((io0, GTaskPlayAudioStart t format) # qs) = filter ?about vs"
    by (auto simp: filter_eq_Cons_iff)
  then have before: "filter ?about (rev vs) = (io0, GTaskPlayAudioStart t format) # qs" by (simp flip: rev_filter)
  have "messages_of inputs = rev vs @ (iof, GTaskPlayAudioFinish t) # rev us"
    using arg_cong [OF split(1), of rev] by simp
  then obtain pre i post where inputs: "inputs = pre @ i # post" "messages_of pre = rev vs"
    "message_of i = Some (iof, GTaskPlayAudioFinish t)"
    using messages_of_split by blast
  obtain seen1 rt1 where pre: "runtime_loop b64d tx pre seen (runtime_new n) = (None, rt1)"
    and rest: "runtime_loop b64d tx (i # post) seen1 rt1 = (None, rt)"
    using runtime_loop_split [of b64d tx pre "i # post"] loop inputs(1) by blast
  have wf1: "runtime_wf rt1" using runtime_loop_kept [OF runtime_wf_new pre] by (simp add: kept_def)
  have ph: "phase t rt1 = Playing (length qs) (concat parts)"
    using runtime_loop_spec [OF runtime_wf_new pre, of t] spec_run_filter [of b64d t "messages_of pre" Idle] run before
    by (simp add: inputs(2))
  obtain now where i: "i = RtFrame now iof (TextFrame (Inr (GTaskPlayAudioFinish t)))"
    using inputs(3) by (cases i rule: message_of.cases) auto
  obtain rt2 where fin: "runtime_message b64d tx iof (GTaskPlayAudioFinish t) rt1 = (Some (Inr ()), rt2)"
    and post: "runtime_loop b64d tx post now rt2 = (None, rt)"
    using rest unfolding i
    by (cases "runtime_message b64d tx iof (GTaskPlayAudioFinish t) rt1") (auto simp: runtime_turn_def split: option.splits sum.splits)
  obtain j where j: "j < length (rt_players rt2)" "pl_input (rt_players rt2 ! j) = concat parts" "pl_eof (rt_players rt2 ! j)"
    "\<not> pl_killed (rt_players rt2 ! j)"
    using finished_player [OF wf1 ph _ fin] wf by (auto simp: player_works_def)
  have "runtime_wf rt2" using message_kept [OF wf1, of b64d tx iof "GTaskPlayAudioFinish t"] fin by (simp add: kept_def)
  from runtime_loop_kept [OF this post] j
  show "\<exists>i < length (rt_players rt). pl_input (rt_players rt ! i) = concat parts \<and> pl_eof (rt_players rt ! i) \<and>
      \<not> pl_killed (rt_players rt ! i)"
    by (intro exI [of _ j]) (auto simp: kept_def)
qed

section \<open>Properties\<close>

text \<open>C6: Play-audio works from end to end: if the gateway's transfer of an audio succeeds, and the agent it was routed to,
  while its connection runs, has received what was sent to it about the task, and its system can start, feed and
  finish a player, then one player of the agent has been given exactly the audio of the request, its input has been closed
  and it was not killed, and the agent has reported the task as started and then as finished, and nothing else. Other
  tasks of the gateway and other messages to the agent may come in between at any point, but between its choice
  and the delivery of the start the agent stays connected and the task stays registered.\<close>

theorem play_audio_end_to_end:
  assumes transfer: "play_audio_transfer b64 env t payload bytes h = (Ok aid, h')"
    and "h1 = pe_others env 1 (subscribe_task_waiter t (pe_waiter env) (pe_others env 0 h))"
    and "registry_wf (hub_registry h1)" and "t = fst (control_task_id (cpa_task_id payload) counter)"
    and "\<And>tx k. leaves_task t aid tx (pe_others env k)"
    and agent: "reg_agent_command_tx aid (hub_registry h1) = Some tx"
    and stays: "reg_agent_command_tx aid (hub_registry (pe_others env 2 h1)) = Some tx"
      "\<And>g. task_routed t aid tx g \<Longrightarrow> task_routed t aid tx (pe_others env 3 g)"
    and new: "task_log t tx h1 = []"
    and received: "filter (about_task t) (map snd (messages_of inputs)) = task_log t tx h'"
    and loop: "runtime_loop b64d out inputs seen (runtime_new n) = (None, rt)"
    and works: "\<forall>(io, m) \<in> set (messages_of inputs). about_task t m \<longrightarrow> player_works io (cpa_format payload)"
    and b64: "\<And>c. b64d (b64 c) = Inr c"
  shows "reported out t rt = reported out t (runtime_new n) @ [TaskStarted, TaskFinished] \<and>
    (\<exists>i < length (rt_players rt). pl_input (rt_players rt ! i) = bytes \<and> pl_eof (rt_players rt ! i) \<and>
       \<not> pl_killed (rt_players rt ! i))"
proof -
  let ?parts = "chunks (control_chunk_size (cpa_chunk_size_bytes payload)) bytes"
  have "0 < control_chunk_size (cpa_chunk_size_bytes payload)"
    by (cases "cpa_chunk_size_bytes payload") (simp_all add: control_chunk_size_def)
  then have parts: "concat ?parts = bytes" by (rule concat_chunks)
  have "task_log t tx h' = task_log t tx h1 @ [GTaskPlayAudioStart t (cpa_format payload)] @
       map (\<lambda>c. GTaskPlayAudioChunk t (b64 c)) ?parts @ [GTaskPlayAudioFinish t]"
    by (rule transfer_log [OF assms(1-5) agent stays])
  with new received have ms: "filter (about_task t) (map snd (messages_of inputs)) =
      GTaskPlayAudioStart t (cpa_format payload) # map (\<lambda>c. GTaskPlayAudioChunk t (b64 c)) ?parts @ [GTaskPlayAudioFinish t]"
    by simp
  from agent_plays [OF loop ms works b64] show ?thesis unfolding parts by blast
qed

definition demo_inputs :: "runtime_input list" where
  "demo_inputs = map (\<lambda>m. RtFrame 1 demo_io (TextFrame (Inr m)))
     [GTaskPlayAudioStart ''t1'' None, GTaskPlayAudioChunk ''t1'' (byte_text [1, 2]), GTaskPlayAudioChunk ''t1'' (byte_text [3]),
      GTaskPlayAudioFinish ''t1'']"

lemma demo_byte_transfer:
  "\<exists>h'. play_audio_transfer byte_text demo_play_env ''t1'' demo_play [1, 2, 3] demo_speaker_hub = (Ok ''d'', h') \<and>
     task_log ''t1'' 5 h' = map snd (messages_of demo_inputs)"
proof -
  have "fst (play_audio_transfer byte_text demo_play_env ''t1'' demo_play [1, 2, 3] demo_speaker_hub) = Ok ''d'' \<and>
    task_log ''t1'' 5 (snd (play_audio_transfer byte_text demo_play_env ''t1'' demo_play [1, 2, 3] demo_speaker_hub)) =
      map snd (messages_of demo_inputs)"
    by code_simp
  then show ?thesis by (metis prod.collapse)
qed

lemma demo_inputs_loop:
  "fst (runtime_loop (\<lambda>s. Inr (as_bytes s)) 0 demo_inputs 0 (runtime_new demo_out)) = None"
  by (simp add: demo_inputs_def play_start_def play_chunk_def play_finish_def start_playback_task_def playback_argv_def
      finish_report_def demo_launcher demo_io_simps runtime_new_def rt_send_def net_send_def demo_out_def runtime_turn_def
      no_panic_def Let_def rt_put_task_def rt_del_task_def on_player_def feed_player_def task_status_def)

theorem play_audio_end_to_end_witness:
  "\<exists>h' rt i. play_audio_transfer byte_text demo_play_env ''t1'' demo_play [1, 2, 3] demo_speaker_hub = (Ok ''d'', h') \<and>
     runtime_loop (\<lambda>s. Inr (as_bytes s)) 0 demo_inputs 0 (runtime_new demo_out) = (None, rt) \<and>
     pl_input (rt_players rt ! i) = [1, 2, 3]"
proof -
  obtain h' where run: "play_audio_transfer byte_text demo_play_env ''t1'' demo_play [1, 2, 3] demo_speaker_hub = (Ok ''d'', h')"
    and log: "task_log ''t1'' 5 h' = map snd (messages_of demo_inputs)" using demo_byte_transfer by blast
  obtain rt where loop: "runtime_loop (\<lambda>s. Inr (as_bytes s)) 0 demo_inputs 0 (runtime_new demo_out) = (None, rt)"
    using demo_inputs_loop by (metis prod.collapse)
  let ?h1 = "pe_others demo_play_env 1 (subscribe_task_waiter ''t1'' (pe_waiter demo_play_env) (pe_others demo_play_env 0 demo_speaker_hub))"
  have wf: "registry_wf (hub_registry ?h1)" and empty: "task_log ''t1'' 5 ?h1 = []"
    and agent: "reg_agent_command_tx ''d'' (hub_registry ?h1) = Some 5"
    by (auto simp: demo_play_env_def demo_speaker_hub_def hub_new_def subscribe_task_waiter_def registry_wf_def
        demo_speaker_def put_waiter_def task_log_def sent_on_def reg_agent_command_tx_def split: if_splits)
  have quiet: "leaves_task ''t1'' ''d'' tx (pe_others demo_play_env k)" for tx k
    by (simp add: demo_play_env_def leaves_task_refl)
  have received: "filter (about_task ''t1'') (map snd (messages_of demo_inputs)) = task_log ''t1'' 5 h'"
    unfolding log by (simp add: demo_inputs_def messages_of_def List.map_filter_simps)
  have works: "\<forall>(io, m) \<in> set (messages_of demo_inputs). about_task ''t1'' m \<longrightarrow> player_works io (cpa_format demo_play)"
    by (simp add: demo_inputs_def messages_of_def List.map_filter_simps player_works_def can_start_def demo_launcher
        playback_argv_def) (simp add: demo_io_def)
  have stays: "reg_agent_command_tx ''d'' (hub_registry (pe_others demo_play_env 2 ?h1)) = Some 5"
    "\<And>g. task_routed ''t1'' ''d'' 5 g \<Longrightarrow> task_routed ''t1'' ''d'' 5 (pe_others demo_play_env 3 g)"
    using agent by (simp_all add: demo_play_env_def)
  from play_audio_end_to_end [OF run refl wf demo_play_task_id [symmetric] quiet agent stays empty received loop works]
  obtain i where "pl_input (rt_players rt ! i) = [1, 2, 3]" by (auto simp: byte_text_back)
  with run loop show ?thesis by (intro exI conjI)
qed

end
