(* ===== verification/JsonDecode.thy ===== *)
theory JsonDecode
  imports CoreTypes
begin

text \<open>
  How serde reads and writes the structs of the provider files and of the update manifest: members with defaults,
  options, lists and numbers. Each type's own reader and writer stands with the type.
\<close>

section \<open>Reading\<close>

text \<open>
  A member of a struct: of an object the entry with its name, of an array the element at its position among
  \<open>names\<close>. \<open>None\<close> is an error (a duplicate, too many elements, another kind of value), \<open>Some None\<close> an absence.
\<close>

fun member :: "string list \<Rightarrow> json \<Rightarrow> string \<Rightarrow> json option option" where
  "member names (JObject kvs) k =
     (case filter (\<lambda>p. fst p = k) kvs of
        [] \<Rightarrow> Some None
      | [p] \<Rightarrow> Some (Some (snd p))
      | _ \<Rightarrow> None)"
| "member names (JArray xs) k =
     (let i = length (takeWhile (\<lambda>n. n \<noteq> k) names)
      in if length names < length xs then None
         else Some (if i < length xs then Some (xs ! i) else None))"
| "member names _ k = None"

fun required :: "(json \<Rightarrow> 'a option) \<Rightarrow> json option option \<Rightarrow> 'a option" where
  "required dec (Some (Some v)) = dec v"
| "required dec _ = None"

fun defaulting :: "'a \<Rightarrow> (json \<Rightarrow> 'a option) \<Rightarrow> json option option \<Rightarrow> 'a option" where
  "defaulting d dec None = None"
| "defaulting d dec (Some None) = Some d"
| "defaulting d dec (Some (Some v)) = dec v"

fun dec_string :: "json \<Rightarrow> string option" where
  "dec_string (JString s) = Some s"
| "dec_string _ = None"

fun dec_bool :: "json \<Rightarrow> bool option" where
  "dec_bool (JBool b) = Some b"
| "dec_bool _ = None"

definition is_digit :: "char \<Rightarrow> bool" where
  "is_digit c \<longleftrightarrow> read_digit c < 10 \<and> c = digit_char (read_digit c)"

fun dec_u64 :: "json \<Rightarrow> u64 option" where
  "dec_u64 (JNumber s) = (if s \<noteq> [] \<and> list_all is_digit s \<and> read_nat s < 2 ^ 64 then Some (of_nat (read_nat s)) else None)"
| "dec_u64 _ = None"

fun dec_option :: "(json \<Rightarrow> 'a option) \<Rightarrow> json \<Rightarrow> 'a option option" where
  "dec_option dec JNull = Some None"
| "dec_option dec v = map_option Some (dec v)"

fun dec_elements :: "(json \<Rightarrow> 'a option) \<Rightarrow> json list \<Rightarrow> 'a list option" where
  "dec_elements dec [] = Some []"
| "dec_elements dec (v # vs) =
     Option.bind (dec v) (\<lambda>x. map_option (\<lambda>xs. x # xs) (dec_elements dec vs))"

fun dec_list :: "(json \<Rightarrow> 'a option) \<Rightarrow> json \<Rightarrow> 'a list option" where
  "dec_list dec (JArray vs) = dec_elements dec vs"
| "dec_list dec _ = None"

definition optional_string :: "json option option \<Rightarrow> string option option" where
  "optional_string = defaulting None (dec_option dec_string)"

fun is_object :: "json \<Rightarrow> bool" where
  "is_object (JObject _) = True"
| "is_object _ = False"

section \<open>Writing\<close>

definition enc_optional :: "string \<Rightarrow> string option \<Rightarrow> (string \<times> json) list" where
  "enc_optional k x = (case x of None \<Rightarrow> [] | Some s \<Rightarrow> [(k, JString s)])"

definition enc_u64 :: "u64 \<Rightarrow> json" where
  "enc_u64 n = JNumber (show_nat (unat n))"

section \<open>What is written is read back\<close>

lemma digits_show_nat: "list_all is_digit (show_nat n)"
proof (induction n rule: show_nat.induct)
  case (1 n)
  then show ?case
    by (cases "n < 10") (simp_all add: show_nat.simps [of n] is_digit_def)
qed

lemma show_nat_nonempty [simp]: "show_nat n \<noteq> []"
  by (subst show_nat.simps) simp

lemma dec_enc_u64 [simp]: "dec_u64 (enc_u64 n) = Some n"
  using unsigned_less [of n, where 'a = nat] by (simp add: enc_u64_def digits_show_nat)

lemma dec_option_u64 [simp]: "dec_option dec_u64 (enc_u64 n) = Some (Some n)"
  using dec_enc_u64 [of n] by (simp add: enc_u64_def)

lemma dec_elements_map: "(\<And>x. x \<in> set xs \<Longrightarrow> dec (enc x) = Some x) \<Longrightarrow> dec_elements dec (map enc xs) = Some xs"
  by (induction xs) simp_all

lemma dec_string_elements [simp]: "dec_elements dec_string (map JString xs) = Some xs"
  by (simp add: dec_elements_map)

lemma member_skip:
  "k \<notin> fst ` set xs \<Longrightarrow> member names (JObject (xs @ ys)) k = member names (JObject ys) k"
  "k \<notin> fst ` set ys \<Longrightarrow> member names (JObject (xs @ ys)) k = member names (JObject xs) k"
proof -
  have none: "k \<notin> fst ` set zs \<Longrightarrow> filter (\<lambda>p. fst p = k) zs = []" for zs :: "(string \<times> json) list"
    by (auto simp: filter_empty_conv)
  show "k \<notin> fst ` set xs \<Longrightarrow> member names (JObject (xs @ ys)) k = member names (JObject ys) k"
    "k \<notin> fst ` set ys \<Longrightarrow> member names (JObject (xs @ ys)) k = member names (JObject xs) k"
    by (simp_all add: none)
qed

lemma member_Cons:
  "member names (JObject ((k', v) # ys)) k =
     (if k' = k then (if k \<in> fst ` set ys then None else Some (Some v)) else member names (JObject ys) k)"
proof -
  have "k \<in> fst ` set ys \<longleftrightarrow> filter (\<lambda>p. fst p = k) ys \<noteq> []" by (auto simp: filter_empty_conv)
  then show ?thesis by (simp split: list.splits)
qed

lemma enc_optional_keys: "fst ` set (enc_optional k x) = (if x = None then {} else {k})"
  by (cases x) (simp_all add: enc_optional_def)

lemma member_optional:
  "member names (JObject (enc_optional k' x @ ys)) k =
     (if k' = k \<and> x \<noteq> None then (if k \<in> fst ` set ys then None else Some (map_option JString x))
      else member names (JObject ys) k)"
proof (cases x)
  case None then show ?thesis by (simp add: enc_optional_def)
next
  case (Some a) then show ?thesis by (simp add: enc_optional_def member_Cons del: member.simps)
qed

lemma optional_string_simps [simp]:
  "optional_string (Some None) = Some None" "optional_string (Some (Some (JString s))) = Some (Some s)"
  by (simp_all add: optional_string_def)

text \<open>The rules to read a member of an encoded object.\<close>

lemmas member_rules = member_Cons member_optional enc_optional_keys image_Un
lemmas [simp del] = member.simps(1)

lemma member_Nil [simp]: "member names (JObject []) k = Some None"
  by (simp add: member.simps)

lemma defaulting_map [simp]:
  "(\<And>x. dec (enc x) = Some (f x)) \<Longrightarrow> defaulting d dec (Some (map_option enc x)) = Some (case x of None \<Rightarrow> d | Some y \<Rightarrow> f y)"
  by (cases x) simp_all

lemma optional_string_map [simp]: "optional_string (Some (map_option JString x)) = Some x"
  by (cases x) simp_all

end
