(* ===== verification/Providers.thy ===== *)
theory Providers
  imports JsonDecode "HOL-Library.List_Lexorder" "HOL-Library.Char_ord" "HOL-Library.Option_ord" "HOL-Library.Product_Lexorder"
    "HOL-Library.Multiset"
begin

text \<open>
  The installer of recognition providers, \<^verbatim>\<open>speechmeshd/src/providers.rs\<close>: the catalog and state files with
  their JSON form (what the serde attributes of the types say), and the operations on the state file. The disk is
  a map from paths to contents with the errors it answers; how a JSON document is written as text is a parameter.
\<close>

section \<open>Types\<close>

record install_metadata =
  imd_download_required :: bool
  imd_artifact_hint :: "string option"
  imd_notes :: "string list"

definition install_metadata_default :: install_metadata where
  "install_metadata_default = \<lparr>imd_download_required = False, imd_artifact_hint = None, imd_notes = []\<rparr>"

definition install_metadata_is_empty :: "install_metadata \<Rightarrow> bool" where
  "install_metadata_is_empty m \<longleftrightarrow> \<not> imd_download_required m \<and> imd_artifact_hint m = None \<and> imd_notes m = []"

datatype bridge_kind =
    BkMock
  | BkStdio string "string list"
  | BkTcp string
  | BkAgent "u64 option"
  | BkMiniMaxHttp string "string option" "string option"

record installed_provider =
  ipr_provider_id :: string
  ipr_display_name :: "string option"
  ipr_description :: "string option"
  ipr_enabled :: bool
  ipr_installed_at :: "u64 option"
  ipr_install :: install_metadata
  ipr_bridge :: bridge_kind

record providers_config =
  pcf_format :: "string option"
  pcf_providers :: "installed_provider list"

record catalog_provider =
  cpr_provider_id :: string
  cpr_display_name :: "string option"
  cpr_description :: "string option"
  cpr_enabled_by_default :: bool
  cpr_install :: install_metadata
  cpr_bridge :: bridge_kind

record provider_catalog =
  pct_format :: "string option"
  pct_providers :: "catalog_provider list"

datatype install_state_change = Installed | Updated

record provider_install_status =
  pis_provider_id :: string
  pis_display_name :: "string option"
  pis_description :: "string option"
  pis_installed :: bool
  pis_enabled :: bool
  pis_bridge_mode :: string
  pis_download_required :: bool
  pis_artifact_hint :: "string option"

definition asr_provider_catalog_format :: string where
  "asr_provider_catalog_format = ''speechmesh/asr-provider-catalog.v1''"

definition asr_provider_state_format :: string where
  "asr_provider_state_format = ''speechmesh/asr-provider-state.v1''"

definition default_minimax_base_url :: string where
  "default_minimax_base_url = ''https://api.minimaxi.com/v1''"

section \<open>JSON\<close>

definition decode_install_metadata :: "json \<Rightarrow> install_metadata option" where
  "decode_install_metadata v =
     (let mem = member [''download_required'', ''artifact_hint'', ''notes''] v
      in Option.bind (defaulting False dec_bool (mem ''download_required'')) (\<lambda>download.
         Option.bind (optional_string (mem ''artifact_hint'')) (\<lambda>hint.
         Option.bind (defaulting [] (dec_list dec_string) (mem ''notes'')) (\<lambda>notes.
         Some \<lparr>imd_download_required = download, imd_artifact_hint = hint, imd_notes = notes\<rparr>))))"

text \<open>The flattened, internally tagged bridge: its variant is named by \<^verbatim>\<open>bridge_mode\<close> in snake case.\<close>

definition decode_bridge_kind :: "json \<Rightarrow> bridge_kind option" where
  "decode_bridge_kind v =
     Option.bind (required dec_string (member [] v ''bridge_mode'')) (\<lambda>mode.
       if mode = ''mock'' then Some BkMock
       else if mode = ''stdio'' then
         Option.bind (required dec_string (member [] v ''command'')) (\<lambda>command.
           map_option (BkStdio command) (defaulting [] (dec_list dec_string) (member [] v ''args'')))
       else if mode = ''tcp'' then map_option BkTcp (required dec_string (member [] v ''address''))
       else if mode = ''agent'' then
         map_option BkAgent (defaulting None (dec_option dec_u64) (member [] v ''start_timeout_secs''))
       else if mode = ''mini_max_http'' then
         Option.bind (defaulting default_minimax_base_url dec_string (member [] v ''base_url'')) (\<lambda>url.
         Option.bind (optional_string (member [] v ''model'')) (\<lambda>model.
         map_option (BkMiniMaxHttp url model) (optional_string (member [] v ''api_key_file''))))
       else None)"

definition decode_installed_provider :: "json \<Rightarrow> installed_provider option" where
  "decode_installed_provider v =
     (if \<not> is_object v then None
      else
        (let mem = member [] v
         in Option.bind (required dec_string (mem ''provider_id'')) (\<lambda>i.
            Option.bind (optional_string (mem ''display_name'')) (\<lambda>display.
            Option.bind (optional_string (mem ''description'')) (\<lambda>description.
            Option.bind (defaulting True dec_bool (mem ''enabled'')) (\<lambda>enabled.
            Option.bind (defaulting None (dec_option dec_u64) (mem ''installed_at_unix_secs'')) (\<lambda>installed_at.
            Option.bind (defaulting install_metadata_default decode_install_metadata (mem ''install'')) (\<lambda>install.
            map_option (\<lambda>bridge. \<lparr>ipr_provider_id = i, ipr_display_name = display, ipr_description = description,
                ipr_enabled = enabled, ipr_installed_at = installed_at, ipr_install = install, ipr_bridge = bridge\<rparr>)
              (decode_bridge_kind v)))))))))"

definition decode_providers_config :: "json \<Rightarrow> providers_config option" where
  "decode_providers_config v =
     (let mem = member [''format'', ''providers''] v
      in Option.bind (optional_string (mem ''format'')) (\<lambda>format.
         map_option (\<lambda>ps. \<lparr>pcf_format = format, pcf_providers = ps\<rparr>)
           (required (dec_list decode_installed_provider) (mem ''providers''))))"

definition decode_catalog_provider :: "json \<Rightarrow> catalog_provider option" where
  "decode_catalog_provider v =
     (if \<not> is_object v then None
      else
        (let mem = member [] v
         in Option.bind (required dec_string (mem ''provider_id'')) (\<lambda>i.
            Option.bind (optional_string (mem ''display_name'')) (\<lambda>display.
            Option.bind (optional_string (mem ''description'')) (\<lambda>description.
            Option.bind (defaulting True dec_bool (mem ''enabled_by_default'')) (\<lambda>enabled.
            Option.bind (defaulting install_metadata_default decode_install_metadata (mem ''install'')) (\<lambda>install.
            map_option (\<lambda>bridge. \<lparr>cpr_provider_id = i, cpr_display_name = display, cpr_description = description,
                cpr_enabled_by_default = enabled, cpr_install = install, cpr_bridge = bridge\<rparr>)
              (decode_bridge_kind v))))))))"

definition decode_provider_catalog :: "json \<Rightarrow> provider_catalog option" where
  "decode_provider_catalog v =
     (let mem = member [''format'', ''providers''] v
      in Option.bind (optional_string (mem ''format'')) (\<lambda>format.
         map_option (\<lambda>ps. \<lparr>pct_format = format, pct_providers = ps\<rparr>)
           (required (dec_list decode_catalog_provider) (mem ''providers''))))"

definition encode_install_metadata :: "install_metadata \<Rightarrow> json" where
  "encode_install_metadata m =
     JObject ((''download_required'', JBool (imd_download_required m)) # enc_optional ''artifact_hint'' (imd_artifact_hint m) @
       (if imd_notes m = [] then [] else [(''notes'', JArray (map JString (imd_notes m)))]))"

fun encode_bridge_kind :: "bridge_kind \<Rightarrow> (string \<times> json) list" where
  "encode_bridge_kind BkMock = [(''bridge_mode'', JString ''mock'')]"
| "encode_bridge_kind (BkStdio command args) =
     [(''bridge_mode'', JString ''stdio''), (''command'', JString command), (''args'', JArray (map JString args))]"
| "encode_bridge_kind (BkTcp address) = [(''bridge_mode'', JString ''tcp''), (''address'', JString address)]"
| "encode_bridge_kind (BkAgent timeout) =
     [(''bridge_mode'', JString ''agent''),
      (''start_timeout_secs'', case timeout of None \<Rightarrow> JNull | Some n \<Rightarrow> enc_u64 n)]"
| "encode_bridge_kind (BkMiniMaxHttp url model key_file) =
     [(''bridge_mode'', JString ''mini_max_http''), (''base_url'', JString url)] @ enc_optional ''model'' model @
     enc_optional ''api_key_file'' key_file"

definition encode_installed_provider :: "installed_provider \<Rightarrow> json" where
  "encode_installed_provider p =
     JObject ((''provider_id'', JString (ipr_provider_id p)) # enc_optional ''display_name'' (ipr_display_name p) @
       enc_optional ''description'' (ipr_description p) @ [(''enabled'', JBool (ipr_enabled p))] @
       (case ipr_installed_at p of None \<Rightarrow> [] | Some n \<Rightarrow> [(''installed_at_unix_secs'', enc_u64 n)]) @
       (if install_metadata_is_empty (ipr_install p) then [] else [(''install'', encode_install_metadata (ipr_install p))]) @
       encode_bridge_kind (ipr_bridge p))"

definition encode_providers_config :: "providers_config \<Rightarrow> json" where
  "encode_providers_config c =
     JObject (enc_optional ''format'' (pcf_format c) @
       [(''providers'', JArray (map encode_installed_provider (pcf_providers c)))])"

section \<open>The disk\<close>

text \<open>
  Contents by path, and what fails: reading (other than an absence), making the parent directory, and writing,
  which then leaves the given contents behind. The text of a file is a type \<open>'t\<close>: \<open>jc_parse\<close> is
  \<^verbatim>\<open>serde_json::from_str\<close>, and \<open>jc_render\<close> is \<^verbatim>\<open>to_string_pretty\<close> with the newline the code adds.
\<close>

record 't disk =
  dk_files :: "string \<rightharpoonup> 't"
  dk_read_error :: "string \<rightharpoonup> string"
  dk_mkdir_error :: "string \<Rightarrow> bool"
  dk_write_error :: "string \<rightharpoonup> 't option"

record 't json_codec =
  jc_parse :: "'t \<Rightarrow> json option"
  jc_render :: "json \<Rightarrow> 't"

datatype 't read_result = Contents 't | NotFound | ReadFailed string

definition read_to_string :: "'t disk \<Rightarrow> string \<Rightarrow> 't read_result" where
  "read_to_string d path =
     (case dk_read_error d path of
        Some e \<Rightarrow> ReadFailed e
      | None \<Rightarrow> (case dk_files d path of Some s \<Rightarrow> Contents s | None \<Rightarrow> NotFound))"

definition set_contents :: "string \<Rightarrow> 't option \<Rightarrow> 't disk \<Rightarrow> 't disk" where
  "set_contents path c d = d\<lparr>dk_files := (dk_files d)(path := c)\<rparr>"

definition write_json :: "'t json_codec \<Rightarrow> string \<Rightarrow> json \<Rightarrow> 't disk \<Rightarrow> (string + unit) \<times> 't disk" where
  "write_json codec path v d =
     (if dk_mkdir_error d path then (Err ''failed to create directory'', d)
      else (case dk_write_error d path of
              Some left \<Rightarrow> (Err (''failed to write '' @ path), set_contents path left d)
            | None \<Rightarrow> (Ok (), set_contents path (Some (jc_render codec v)) d)))"

section \<open>Loading and saving\<close>

definition validate_format :: "string \<Rightarrow> string option \<Rightarrow> string \<Rightarrow> string + unit" where
  "validate_format path actual expected =
     (case actual of
        Some value \<Rightarrow>
          (if value \<noteq> expected then Err (path @ '' uses format '' @ value @ '', expected '' @ expected) else Ok ())
      | None \<Rightarrow> Ok ())"

definition load_asr_provider_catalog :: "'t json_codec \<Rightarrow> 't disk \<Rightarrow> string \<Rightarrow> string + provider_catalog" where
  "load_asr_provider_catalog codec d path =
     (case read_to_string d path of
        Contents raw \<Rightarrow>
          and_then (ok_or (Option.bind (jc_parse codec raw) decode_provider_catalog)
                      (''failed to parse ASR provider catalog '' @ path)) (\<lambda>catalog.
          and_then (validate_format path (pct_format catalog) asr_provider_catalog_format) (\<lambda>_. Ok catalog))
      | _ \<Rightarrow> Err (''failed to read ASR provider catalog '' @ path))"

definition parse_provider_state :: "'t json_codec \<Rightarrow> string \<Rightarrow> string \<Rightarrow> 't \<Rightarrow> string + providers_config" where
  "parse_provider_state codec what path raw =
     and_then (ok_or (Option.bind (jc_parse codec raw) decode_providers_config) (''failed to parse ASR provider '' @ what @ path))
       (\<lambda>state. and_then (validate_format path (pcf_format state) asr_provider_state_format) (\<lambda>_. Ok state))"

definition load_asr_provider_config :: "'t json_codec \<Rightarrow> 't disk \<Rightarrow> string \<Rightarrow> string + providers_config" where
  "load_asr_provider_config codec d path =
     (case read_to_string d path of
        Contents raw \<Rightarrow> parse_provider_state codec ''config '' path raw
      | _ \<Rightarrow> Err (''failed to read ASR provider config '' @ path))"

definition load_asr_provider_state_or_default :: "'t json_codec \<Rightarrow> 't disk \<Rightarrow> string \<Rightarrow> string + providers_config" where
  "load_asr_provider_state_or_default codec d path =
     (case read_to_string d path of
        Contents raw \<Rightarrow> parse_provider_state codec ''state '' path raw
      | NotFound \<Rightarrow> Ok \<lparr>pcf_format = Some asr_provider_state_format, pcf_providers = []\<rparr>
      | ReadFailed _ \<Rightarrow> Err (''failed to read ASR provider state '' @ path))"

definition sort_providers :: "installed_provider list \<Rightarrow> installed_provider list" where
  "sort_providers ps = sort_key (\<lambda>p. (ipr_provider_id p, ipr_display_name p)) ps"

definition save_asr_provider_state ::
  "'t json_codec \<Rightarrow> string \<Rightarrow> providers_config \<Rightarrow> 't disk \<Rightarrow> (string + unit) \<times> 't disk" where
  "save_asr_provider_state codec path state d =
     write_json codec path
       (encode_providers_config
          (state\<lparr>pcf_format := Some asr_provider_state_format, pcf_providers := sort_providers (pcf_providers state)\<rparr>)) d"

section \<open>Operations\<close>

definition to_installed :: "u64 \<Rightarrow> bool option \<Rightarrow> catalog_provider \<Rightarrow> installed_provider" where
  "to_installed now enabled_override c =
     \<lparr>ipr_provider_id = cpr_provider_id c, ipr_display_name = cpr_display_name c, ipr_description = cpr_description c,
      ipr_enabled = unwrap_or enabled_override (cpr_enabled_by_default c), ipr_installed_at = Some now,
      ipr_install = cpr_install c, ipr_bridge = cpr_bridge c\<rparr>"

text \<open>\<^verbatim>\<open>iter_mut().find\<close>: the first provider with the id is changed.\<close>

fun update_first :: "('a \<Rightarrow> bool) \<Rightarrow> ('a \<Rightarrow> 'a) \<Rightarrow> 'a list \<Rightarrow> 'a list" where
  "update_first P f [] = []"
| "update_first P f (x # xs) = (if P x then f x # xs else x # update_first P f xs)"

definition reinstall :: "u64 \<Rightarrow> bool option \<Rightarrow> catalog_provider \<Rightarrow> installed_provider \<Rightarrow> installed_provider" where
  "reinstall now enabled_override template existing =
     (to_installed now (or_else enabled_override (Some (ipr_enabled existing))) template)
       \<lparr>ipr_installed_at := or_else (ipr_installed_at existing) (Some now)\<rparr>"

definition installed_lookup :: "string \<Rightarrow> installed_provider list \<Rightarrow> installed_provider option" where
  "installed_lookup i ps = find (\<lambda>p. ipr_provider_id p = i) ps"

definition saved :: "'a \<Rightarrow> (string + unit) \<times> 't disk \<Rightarrow> (string + 'a) \<times> 't disk" where
  "saved x r = (and_then (fst r) (\<lambda>_. Ok x), snd r)"

definition install_asr_provider ::
  "'t json_codec \<Rightarrow> u64 \<Rightarrow> string \<Rightarrow> string \<Rightarrow> string \<Rightarrow> bool option \<Rightarrow> 't disk
     \<Rightarrow> (string + install_state_change \<times> installed_provider) \<times> 't disk" where
  "install_asr_provider codec now catalog_path state_path i enabled_override d =
     (case load_asr_provider_catalog codec d catalog_path of
        Inl e \<Rightarrow> (Err e, d)
      | Inr catalog \<Rightarrow>
          (case find (\<lambda>c. cpr_provider_id c = i) (pct_providers catalog) of
             None \<Rightarrow> (Err (''provider '' @ i @ '' is not present in '' @ catalog_path), d)
           | Some template \<Rightarrow>
               (case load_asr_provider_state_or_default codec d state_path of
                  Inl e \<Rightarrow> (Err e, d)
                | Inr state \<Rightarrow>
                    (case installed_lookup i (pcf_providers state) of
                       Some existing \<Rightarrow>
                         saved (Updated, reinstall now enabled_override template existing)
                           (save_asr_provider_state codec state_path
                              (state\<lparr>pcf_providers := update_first (\<lambda>p. ipr_provider_id p = i)
                                       (reinstall now enabled_override template) (pcf_providers state)\<rparr>) d)
                     | None \<Rightarrow>
                         saved (Installed, to_installed now enabled_override template)
                           (save_asr_provider_state codec state_path
                              (state\<lparr>pcf_providers := pcf_providers state @ [to_installed now enabled_override template]\<rparr>) d)))))"

fun remove_first :: "('a \<Rightarrow> bool) \<Rightarrow> 'a list \<Rightarrow> 'a list" where
  "remove_first P [] = []"
| "remove_first P (x # xs) = (if P x then xs else x # remove_first P xs)"

definition not_installed :: "string \<Rightarrow> string \<Rightarrow> string" where
  "not_installed i state_path = ''provider '' @ i @ '' is not installed in '' @ state_path"

definition uninstall_asr_provider ::
  "'t json_codec \<Rightarrow> string \<Rightarrow> string \<Rightarrow> 't disk \<Rightarrow> (string + installed_provider) \<times> 't disk" where
  "uninstall_asr_provider codec state_path i d =
     (case load_asr_provider_state_or_default codec d state_path of
        Inl e \<Rightarrow> (Err e, d)
      | Inr state \<Rightarrow>
          (case installed_lookup i (pcf_providers state) of
             None \<Rightarrow> (Err (not_installed i state_path), d)
           | Some removed \<Rightarrow>
               saved removed
                 (save_asr_provider_state codec state_path
                    (state\<lparr>pcf_providers := remove_first (\<lambda>p. ipr_provider_id p = i) (pcf_providers state)\<rparr>) d)))"

definition set_asr_provider_enabled ::
  "'t json_codec \<Rightarrow> string \<Rightarrow> string \<Rightarrow> bool \<Rightarrow> 't disk \<Rightarrow> (string + bool \<times> installed_provider) \<times> 't disk" where
  "set_asr_provider_enabled codec state_path i enabled d =
     (case load_asr_provider_state_or_default codec d state_path of
        Inl e \<Rightarrow> (Err e, d)
      | Inr state \<Rightarrow>
          (case installed_lookup i (pcf_providers state) of
             None \<Rightarrow> (Err (not_installed i state_path), d)
           | Some p \<Rightarrow>
               saved (ipr_enabled p \<noteq> enabled, p\<lparr>ipr_enabled := enabled\<rparr>)
                 (save_asr_provider_state codec state_path
                    (state\<lparr>pcf_providers := update_first (\<lambda>p. ipr_provider_id p = i) (\<lambda>p. p\<lparr>ipr_enabled := enabled\<rparr>)
                             (pcf_providers state)\<rparr>) d)))"

section \<open>Listing\<close>

fun bridge_mode_name :: "bridge_kind \<Rightarrow> string" where
  "bridge_mode_name BkMock = ''mock''"
| "bridge_mode_name (BkStdio _ _) = ''stdio''"
| "bridge_mode_name (BkTcp _) = ''tcp''"
| "bridge_mode_name (BkAgent _) = ''agent''"
| "bridge_mode_name (BkMiniMaxHttp _ _ _) = ''minimax_http''"

definition installed_row :: "installed_provider \<Rightarrow> provider_install_status" where
  "installed_row p =
     \<lparr>pis_provider_id = ipr_provider_id p, pis_display_name = ipr_display_name p, pis_description = ipr_description p,
      pis_installed = True, pis_enabled = ipr_enabled p, pis_bridge_mode = bridge_mode_name (ipr_bridge p),
      pis_download_required = imd_download_required (ipr_install p), pis_artifact_hint = imd_artifact_hint (ipr_install p)\<rparr>"

definition catalog_row :: "(string \<rightharpoonup> installed_provider) \<Rightarrow> catalog_provider \<Rightarrow> provider_install_status" where
  "catalog_row installed c =
     (let p = installed (cpr_provider_id c)
      in \<lparr>pis_provider_id = cpr_provider_id c,
          pis_display_name = or_else (Option.bind p ipr_display_name) (cpr_display_name c),
          pis_description = or_else (Option.bind p ipr_description) (cpr_description c),
          pis_installed = (p \<noteq> None),
          pis_enabled = (case p of None \<Rightarrow> False | Some q \<Rightarrow> ipr_enabled q),
          pis_bridge_mode = bridge_mode_name (cpr_bridge c),
          pis_download_required = imd_download_required (case p of None \<Rightarrow> cpr_install c | Some q \<Rightarrow> ipr_install q),
          pis_artifact_hint = or_else (Option.bind p (\<lambda>q. imd_artifact_hint (ipr_install q))) (imd_artifact_hint (cpr_install c))\<rparr>)"

text \<open>The last of several providers with one id is the one the map keeps.\<close>

definition installed_map :: "installed_provider list \<Rightarrow> (string \<rightharpoonup> installed_provider)" where
  "installed_map ps = fold (\<lambda>p m. m(ipr_provider_id p \<mapsto> p)) ps Map.empty"

definition add_missing_row :: "installed_provider \<Rightarrow> provider_install_status list \<Rightarrow> provider_install_status list" where
  "add_missing_row p rows =
     (if ipr_provider_id p \<in> pis_provider_id ` set rows then rows else rows @ [installed_row p])"

definition list_provider_statuses :: "provider_catalog option \<Rightarrow> providers_config \<Rightarrow> provider_install_status list" where
  "list_provider_statuses catalog state =
     (let rows = (case catalog of
                    Some c \<Rightarrow> map (catalog_row (installed_map (pcf_providers state))) (pct_providers c)
                  | None \<Rightarrow> map installed_row (pcf_providers state))
      in sort_key pis_provider_id (fold add_missing_row (pcf_providers state) rows))"

section \<open>Reading back what was written\<close>

lemma decode_install_metadata_encode [simp]: "decode_install_metadata (encode_install_metadata m) = Some m"
  by (cases "imd_artifact_hint m")
    (simp_all add: decode_install_metadata_def encode_install_metadata_def member_rules Let_def)

definition bridge_keys :: "string set" where
  "bridge_keys = {''bridge_mode'', ''command'', ''args'', ''address'', ''start_timeout_secs'', ''base_url'', ''model'', ''api_key_file''}"

lemma encode_bridge_keys: "fst ` set (encode_bridge_kind b) \<subseteq> bridge_keys"
  by (cases b) (auto simp: bridge_keys_def enc_optional_def split: option.splits)

lemma decode_bridge_kind_encode: "decode_bridge_kind (JObject (encode_bridge_kind b)) = Some b"
  by (cases b) (auto simp: decode_bridge_kind_def member_rules member_optional [of _ _ _ "[]", simplified] split: option.splits)

lemma decode_bridge_kind_skip:
  assumes "fst ` set pre \<inter> bridge_keys = {}"
  shows "decode_bridge_kind (JObject (pre @ ys)) = decode_bridge_kind (JObject ys)"
proof -
  have "\<forall>k \<in> bridge_keys. member [] (JObject (pre @ ys)) k = member [] (JObject ys) k"
    using assms by (intro ballI member_skip) blast
  then show ?thesis unfolding decode_bridge_kind_def bridge_keys_def by (simp cong: Option.bind_cong if_cong)
qed

definition provider_entries :: "installed_provider \<Rightarrow> (string \<times> json) list" where
  "provider_entries p =
     (''provider_id'', JString (ipr_provider_id p)) # enc_optional ''display_name'' (ipr_display_name p) @
     enc_optional ''description'' (ipr_description p) @ (''enabled'', JBool (ipr_enabled p)) #
     (case ipr_installed_at p of None \<Rightarrow> [] | Some n \<Rightarrow> [(''installed_at_unix_secs'', enc_u64 n)]) @
     (if install_metadata_is_empty (ipr_install p) then [] else [(''install'', encode_install_metadata (ipr_install p))])"

lemma encode_installed_entries:
  "encode_installed_provider p = JObject (provider_entries p @ encode_bridge_kind (ipr_bridge p))"
  by (simp add: encode_installed_provider_def provider_entries_def)

lemma provider_entries_keys:
  "fst ` set (provider_entries p) \<subseteq>
     {''provider_id'', ''display_name'', ''description'', ''enabled'', ''installed_at_unix_secs'', ''install''}"
  by (auto simp: provider_entries_def enc_optional_def split: option.splits)

lemma empty_install_metadata: "install_metadata_is_empty m \<Longrightarrow> m = install_metadata_default"
  by (simp add: install_metadata_is_empty_def install_metadata_default_def)

lemma provider_members:
  "member [] (JObject (provider_entries p)) ''provider_id'' = Some (Some (JString (ipr_provider_id p)))"
  "member [] (JObject (provider_entries p)) ''display_name'' = Some (map_option JString (ipr_display_name p))"
  "member [] (JObject (provider_entries p)) ''description'' = Some (map_option JString (ipr_description p))"
  "member [] (JObject (provider_entries p)) ''enabled'' = Some (Some (JBool (ipr_enabled p)))"
  "member [] (JObject (provider_entries p)) ''installed_at_unix_secs'' = Some (map_option enc_u64 (ipr_installed_at p))"
  "member [] (JObject (provider_entries p)) ''install'' =
     Some (if install_metadata_is_empty (ipr_install p) then None else Some (encode_install_metadata (ipr_install p)))"
  by (auto simp: provider_entries_def member_rules split: option.splits)

lemma decode_installed_provider_encode: "decode_installed_provider (encode_installed_provider p) = Some p"
proof -
  have disjoint: "fst ` set (provider_entries p) \<inter> bridge_keys = {}"
    using provider_entries_keys [of p] by (auto simp: bridge_keys_def)
  let ?obj = "JObject (provider_entries p @ encode_bridge_kind (ipr_bridge p))"
  have skip: "k \<notin> bridge_keys \<Longrightarrow> member [] ?obj k = member [] (JObject (provider_entries p)) k" for k
    using encode_bridge_keys [of "ipr_bridge p"] by (intro member_skip) blast
  have members: "member [] ?obj ''provider_id'' = Some (Some (JString (ipr_provider_id p)))"
    "member [] ?obj ''display_name'' = Some (map_option JString (ipr_display_name p))"
    "member [] ?obj ''description'' = Some (map_option JString (ipr_description p))"
    "member [] ?obj ''enabled'' = Some (Some (JBool (ipr_enabled p)))"
    "member [] ?obj ''installed_at_unix_secs'' = Some (map_option enc_u64 (ipr_installed_at p))"
    "member [] ?obj ''install'' =
       Some (if install_metadata_is_empty (ipr_install p) then None else Some (encode_install_metadata (ipr_install p)))"
    by (simp_all add: skip bridge_keys_def provider_members del: One_nat_def)
  have install: "defaulting install_metadata_default decode_install_metadata (member [] ?obj ''install'') = Some (ipr_install p)"
    using empty_install_metadata [of "ipr_install p", symmetric] by (simp add: members)
  have time: "defaulting None (dec_option dec_u64) (member [] ?obj ''installed_at_unix_secs'') = Some (ipr_installed_at p)"
    by (cases "ipr_installed_at p") (simp_all add: members)
  have bridge: "decode_bridge_kind ?obj = Some (ipr_bridge p)"
    by (simp only: decode_bridge_kind_skip [OF disjoint] decode_bridge_kind_encode)
  show ?thesis
    unfolding decode_installed_provider_def encode_installed_entries Let_def
    unfolding install time bridge unfolding members by simp
qed

lemma decode_providers_config_encode: "decode_providers_config (encode_providers_config c) = Some c"
  by (cases "pcf_format c")
    (simp_all add: decode_providers_config_def encode_providers_config_def Let_def member_rules
      dec_elements_map [of _ decode_installed_provider, OF decode_installed_provider_encode])

section \<open>The state file as a table\<close>

definition provider_ids :: "installed_provider list \<Rightarrow> string list" where
  "provider_ids ps = map ipr_provider_id ps"

lemma installed_lookup_iff:
  "distinct (provider_ids ps) \<Longrightarrow> installed_lookup i ps = Some p \<longleftrightarrow> p \<in> set ps \<and> ipr_provider_id p = i"
  unfolding installed_lookup_def provider_ids_def
  by (induction ps) (auto simp: image_iff)

lemma installed_lookup_None: "installed_lookup i ps = None \<longleftrightarrow> i \<notin> set (provider_ids ps)"
  by (auto simp: installed_lookup_def provider_ids_def find_None_iff)

lemma installed_lookup_id: "installed_lookup i ps = Some p \<Longrightarrow> ipr_provider_id p = i"
  by (auto simp: installed_lookup_def find_Some_iff)

lemma sort_providers_ids: "distinct (provider_ids (sort_providers ps)) \<longleftrightarrow> distinct (provider_ids ps)"
  "set (provider_ids (sort_providers ps)) = set (provider_ids ps)"
proof -
  have "mset (provider_ids (sort_providers ps)) = mset (provider_ids ps)"
    by (simp add: provider_ids_def sort_providers_def)
  then show "distinct (provider_ids (sort_providers ps)) \<longleftrightarrow> distinct (provider_ids ps)"
    "set (provider_ids (sort_providers ps)) = set (provider_ids ps)"
    by (rule mset_eq_imp_distinct_iff, rule mset_eq_setD)
qed

lemma installed_lookup_sort:
  assumes "distinct (provider_ids ps)"
  shows "installed_lookup i (sort_providers ps) = installed_lookup i ps"
proof (cases "installed_lookup i ps")
  case None
  then have "installed_lookup i (sort_providers ps) = None" unfolding installed_lookup_None sort_providers_ids .
  with None show ?thesis by simp
next
  case (Some p)
  then have "p \<in> set (sort_providers ps) \<and> ipr_provider_id p = i"
    unfolding installed_lookup_iff [OF assms] by (simp add: sort_providers_def)
  then have "installed_lookup i (sort_providers ps) = Some p"
    using installed_lookup_iff [of "sort_providers ps"] assms sort_providers_ids(1) by blast
  with Some show ?thesis by simp
qed

lemma update_first_ids:
  "(\<And>p. ipr_provider_id (f p) = ipr_provider_id p) \<Longrightarrow> provider_ids (update_first P f ps) = provider_ids ps"
  by (induction ps) (simp_all add: provider_ids_def)

lemma installed_lookup_update_first:
  assumes "\<And>p. ipr_provider_id p = i \<Longrightarrow> ipr_provider_id (f p) = i"
  shows "installed_lookup j (update_first (\<lambda>p. ipr_provider_id p = i) f ps) =
    (if j = i then map_option f (installed_lookup i ps) else installed_lookup j ps)"
  using assms by (induction ps) (auto simp: installed_lookup_def)

lemma update_first_ids_at:
  assumes "\<And>p. ipr_provider_id p = i \<Longrightarrow> ipr_provider_id (f p) = i"
  shows "provider_ids (update_first (\<lambda>p. ipr_provider_id p = i) f ps) = provider_ids ps"
  using assms by (induction ps) (auto simp: provider_ids_def)

lemma set_remove_first: "set (provider_ids (remove_first P ps)) \<subseteq> set (provider_ids ps)"
  by (induction ps) (auto simp: provider_ids_def)

lemma distinct_remove_first:
  "distinct (provider_ids ps) \<Longrightarrow> distinct (provider_ids (remove_first P ps))"
proof (induction ps)
  case (Cons p ps)
  then show ?case using set_remove_first [of P ps] by (auto simp: provider_ids_def)
qed (simp add: provider_ids_def)

lemma installed_lookup_remove_first:
  "distinct (provider_ids ps) \<Longrightarrow>
   installed_lookup j (remove_first (\<lambda>p. ipr_provider_id p = i) ps) = (if j = i then None else installed_lookup j ps)"
proof (induction ps)
  case (Cons p ps)
  then show ?case
    using installed_lookup_None [of i ps] by (auto simp: installed_lookup_def provider_ids_def)
qed (simp add: installed_lookup_def)

lemma installed_lookup_snoc:
  "installed_lookup j (ps @ [p]) = or_else (installed_lookup j ps) (if ipr_provider_id p = j then Some p else None)"
  by (induction ps) (simp_all add: installed_lookup_def)

text \<open>A saved state is the one that is loaded again, sorted and with the format of a state file.\<close>

definition reads_back :: "'t json_codec \<Rightarrow> bool" where
  "reads_back codec \<longleftrightarrow> (\<forall>v. jc_parse codec (jc_render codec v) = Some v)"

lemma load_after_save:
  assumes "reads_back codec" and "save_asr_provider_state codec path st d = (Ok (), d')" and "dk_read_error d path = None"
  shows "load_asr_provider_state_or_default codec d' path =
    Ok \<lparr>pcf_format = Some asr_provider_state_format, pcf_providers = sort_providers (pcf_providers st)\<rparr>"
proof -
  have "d' = set_contents path (Some (jc_render codec (encode_providers_config
      \<lparr>pcf_format = Some asr_provider_state_format, pcf_providers = sort_providers (pcf_providers st)\<rparr>))) d"
    using assms(2) by (auto simp: save_asr_provider_state_def write_json_def split: if_splits option.splits)
      (metis providers_config.surjective providers_config.update_convs old.unit.exhaust)
  with assms(1,3) show ?thesis
    by (simp add: load_asr_provider_state_or_default_def read_to_string_def set_contents_def parse_provider_state_def
        reads_back_def decode_providers_config_encode validate_format_def)
qed

section \<open>The listing\<close>

definition catalog_ids :: "provider_catalog option \<Rightarrow> string list" where
  "catalog_ids catalog = (case catalog of None \<Rightarrow> [] | Some c \<Rightarrow> map cpr_provider_id (pct_providers c))"

lemma installed_map_lookup:
  assumes "distinct (provider_ids ps)"
  shows "installed_map ps i = installed_lookup i ps"
proof -
  have "fold (\<lambda>p m. m(ipr_provider_id p \<mapsto> p)) ps m i = or_else (installed_lookup i ps) (m i)" for m
    using assms
  proof (induction ps arbitrary: m)
    case (Cons p ps)
    then have "or_else (installed_lookup i ps) ((m(ipr_provider_id p \<mapsto> p)) i) = or_else (installed_lookup i (p # ps)) (m i)"
      using installed_lookup_None [of i ps] by (auto simp: installed_lookup_def provider_ids_def)
    with Cons show ?case by (simp add: provider_ids_def)
  qed (simp add: installed_lookup_def)
  then show ?thesis by (simp add: installed_map_def)
qed

text \<open>What a row says of the installed providers, whichever of the two forms it has.\<close>

definition row_ok :: "installed_provider list \<Rightarrow> provider_install_status \<Rightarrow> bool" where
  "row_ok ps r \<longleftrightarrow>
     (pis_installed r \<longleftrightarrow> installed_lookup (pis_provider_id r) ps \<noteq> None) \<and>
     (pis_enabled r \<longleftrightarrow> (\<exists>p. installed_lookup (pis_provider_id r) ps = Some p \<and> ipr_enabled p))"

lemma catalog_row_ok: "distinct (provider_ids ps) \<Longrightarrow> row_ok ps (catalog_row (installed_map ps) c)"
  by (simp add: row_ok_def catalog_row_def Let_def installed_map_lookup split: option.splits)

lemma installed_row_ok: "distinct (provider_ids ps) \<Longrightarrow> p \<in> set ps \<Longrightarrow> row_ok ps (installed_row p)"
  using installed_lookup_iff [of ps "ipr_provider_id p" p] by (simp add: row_ok_def installed_row_def)

lemma add_missing_row_id: "pis_provider_id (installed_row p) = ipr_provider_id p"
  by (simp add: installed_row_def)

lemma add_missing_rows:
  assumes "distinct (map pis_provider_id rows)"
  shows "distinct (map pis_provider_id (fold add_missing_row ps rows)) \<and>
    pis_provider_id ` set (fold add_missing_row ps rows) = pis_provider_id ` set rows \<union> set (provider_ids ps) \<and>
    set (fold add_missing_row ps rows) \<subseteq> set rows \<union> installed_row ` set ps"
  using assms
proof (induction ps arbitrary: rows)
  case (Cons p ps)
  show ?case
  proof (cases "ipr_provider_id p \<in> pis_provider_id ` set rows")
    case True
    with Cons show ?thesis by (auto simp: add_missing_row_def provider_ids_def)
  next
    case False
    with Cons.prems have "distinct (map pis_provider_id (rows @ [installed_row p]))"
      by (simp add: add_missing_row_id)
    from Cons.IH [OF this] False show ?thesis
      by (auto simp: add_missing_row_def add_missing_row_id provider_ids_def)
  qed
qed (simp add: provider_ids_def)

text \<open>Listing providers gives each provider of the catalog and of the state file exactly one row, in the order
  of the ids, which says truly whether the provider is installed and whether it is enabled, as long as neither
  file names a provider twice.\<close>

lemma listing_complete:
  assumes "distinct (provider_ids (pcf_providers st))" and "distinct (catalog_ids catalog)"
  shows "sorted (map pis_provider_id (list_provider_statuses catalog st)) \<and>
    distinct (map pis_provider_id (list_provider_statuses catalog st)) \<and>
    pis_provider_id ` set (list_provider_statuses catalog st) = set (catalog_ids catalog) \<union> set (provider_ids (pcf_providers st)) \<and>
    (\<forall>r \<in> set (list_provider_statuses catalog st). row_ok (pcf_providers st) r)"
proof -
  let ?ps = "pcf_providers st"
  define rows where "rows = (case catalog of Some c \<Rightarrow> map (catalog_row (installed_map ?ps)) (pct_providers c)
                                          | None \<Rightarrow> map installed_row ?ps)"
  have ids: "map pis_provider_id rows = (if catalog = None then provider_ids ?ps else catalog_ids catalog)"
    by (cases catalog) (simp_all add: rows_def catalog_ids_def provider_ids_def comp_def installed_row_def catalog_row_def Let_def)
  have ok: "\<forall>r \<in> set rows \<union> installed_row ` set ?ps. row_ok ?ps r"
    using assms(1) by (auto simp: rows_def catalog_row_ok installed_row_ok split: option.splits)
  have "distinct (map pis_provider_id rows)" using assms by (simp add: ids)
  note added = add_missing_rows [OF this, of ?ps]
  have listed: "list_provider_statuses catalog st = sort_key pis_provider_id (fold add_missing_row ?ps rows)"
    by (simp add: list_provider_statuses_def rows_def)
  have "mset (map pis_provider_id (list_provider_statuses catalog st)) =
      mset (map pis_provider_id (fold add_missing_row ?ps rows))"
    by (simp add: listed)
  then have "distinct (map pis_provider_id (list_provider_statuses catalog st))"
    using added mset_eq_imp_distinct_iff by blast
  moreover have "pis_provider_id ` set rows \<union> set (provider_ids ?ps) = set (catalog_ids catalog) \<union> set (provider_ids ?ps)"
    using arg_cong [OF ids, of set] by (auto simp: catalog_ids_def)
  ultimately show ?thesis using added ok by (auto simp: listed)
qed

definition demo_installed :: installed_provider where
  "demo_installed = \<lparr>ipr_provider_id = ''b'', ipr_display_name = None, ipr_description = None, ipr_enabled = False,
     ipr_installed_at = Some 5, ipr_install = install_metadata_default, ipr_bridge = BkMock\<rparr>"

definition demo_catalog_provider :: "string \<Rightarrow> catalog_provider" where
  "demo_catalog_provider i = \<lparr>cpr_provider_id = i, cpr_display_name = Some ''Demo'', cpr_description = None,
     cpr_enabled_by_default = True, cpr_install = install_metadata_default, cpr_bridge = BkTcp ''h:1''\<rparr>"

end
