(* ===== verification/Daemon.thy ===== *)
theory Daemon
  imports Providers AgentBridge Composite TtsProviders AsrProviders Gateway
begin

text \<open>
  The gateway program, \<^verbatim>\<open>speechmeshd/src/main.rs\<close>: the commands that change the provider files, and
  which bridges the gateway is started with. Parsed command lines, environment, secret files and the
  construction of an HTTP client are given.
\<close>

section \<open>Arguments\<close>

datatype asr_bridge_mode = AbmMock | AbmStdio | AbmTcp | AbmAgent | AbmMiniMaxHttp
datatype tts_bridge_mode = TbmDisabled | TbmMock | TbmMeloHttp
datatype tts_provider_kind = TpkMock | TpkMeloHttp | TpkQwen3Http | TpkMiniMaxHttp

record install_provider_args =
  ipa_provider_id :: string
  ipa_catalog :: string
  ipa_state :: string
  ipa_enable :: bool
  ipa_disable :: bool

record change_provider_args =
  cpa_provider_id :: string
  cpa_state :: string

datatype providers_command =
    PcList "string option" "string option"
  | PcInstall install_provider_args
  | PcUninstall change_provider_args
  | PcEnable change_provider_args
  | PcDisable change_provider_args

record run_args =
  ra_listen :: string
  ra_protocol_version :: string
  ra_server_name :: string
  ra_asr_providers_config :: "string option"
  ra_asr_providers_state :: "string option"
  ra_asr_bridge_mode :: asr_bridge_mode
  ra_asr_provider_id :: string
  ra_asr_bridge_command :: "string option"
  ra_asr_bridge_args :: "string list"
  ra_asr_bridge_address :: "string option"
  ra_agent_shared_secret :: "string option"
  ra_agent_start_timeout_secs :: u64
  ra_asr_minimax_provider_id :: string
  ra_asr_minimax_provider_name :: string
  ra_asr_minimax_base_url :: string
  ra_asr_minimax_api_key :: "string option"
  ra_asr_minimax_api_key_file :: "string option"
  ra_asr_minimax_model :: string
  ra_asr_minimax_partial_min_bytes :: nat
  ra_tts_bridge_mode :: tts_bridge_mode
  ra_tts_providers :: "tts_provider_kind list"
  ra_tts_provider_id :: string
  ra_tts_provider_name :: string
  ra_tts_melo_base_url :: "string option"
  ra_tts_qwen3_base_url :: "string option"
  ra_tts_qwen3_provider_id :: string
  ra_tts_qwen3_provider_name :: string
  ra_tts_qwen3_model :: "string option"
  ra_tts_qwen3_voice :: "string option"
  ra_tts_qwen3_language :: "string option"
  ra_tts_qwen3_sample_rate_hz :: u32
  ra_tts_minimax_provider_id :: string
  ra_tts_minimax_provider_name :: string
  ra_tts_minimax_base_url :: string
  ra_tts_minimax_api_key :: "string option"
  ra_tts_minimax_group_id :: "string option"
  ra_tts_minimax_api_key_file :: "string option"
  ra_tts_minimax_model :: string
  ra_tts_minimax_voice_id :: string
  ra_tts_minimax_sample_rate_hz :: u32
  ra_tts_minimax_format :: string
  ra_tts_chunk_size_bytes :: nat

section \<open>Provider commands\<close>

text \<open>A command answers with the lines it prints.\<close>

definition status_lines :: "provider_install_status \<Rightarrow> string list" where
  "status_lines row =
     (pis_provider_id row @ '' | '' @
      (if pis_installed row then (if pis_enabled row then ''installed/enabled'' else ''installed/disabled'') else ''available'') @
      '' | bridge='' @ pis_bridge_mode row @ '' | download='' @ (if pis_download_required row then ''required'' else ''no'') @
      (case pis_display_name row of None \<Rightarrow> [] | Some name \<Rightarrow> '' | name='' @ name) @
      (case pis_artifact_hint row of None \<Rightarrow> [] | Some hint \<Rightarrow> '' | artifact='' @ hint)) #
     (case pis_description row of None \<Rightarrow> [] | Some description \<Rightarrow> [''  '' @ description])"

definition list_providers ::
  "'t json_codec \<Rightarrow> string option \<Rightarrow> string option \<Rightarrow> 't disk \<Rightarrow> string + string list" where
  "list_providers codec catalog_path state_path d =
     and_then (case catalog_path of None \<Rightarrow> Ok None | Some path \<Rightarrow> map_sum id Some (load_asr_provider_catalog codec d path))
       (\<lambda>catalog.
     and_then (case state_path of
                 Some path \<Rightarrow> load_asr_provider_state_or_default codec d path
               | None \<Rightarrow> Ok \<lparr>pcf_format = None, pcf_providers = []\<rparr>)
       (\<lambda>state.
     if catalog = None \<and> state_path = None then Err ''providers list requires --catalog, --state, or both''
     else Ok (concat (map status_lines (list_provider_statuses catalog state)))))"

fun bool_text :: "bool \<Rightarrow> string" where
  "bool_text True = ''true''"
| "bool_text False = ''false''"

fun change_label :: "install_state_change \<Rightarrow> string" where
  "change_label Installed = ''installed''"
| "change_label Updated = ''updated''"

definition install_lines :: "string \<Rightarrow> install_state_change \<times> installed_provider \<Rightarrow> string list" where
  "install_lines state_path r =
     (case r of (change, p) \<Rightarrow>
        (change_label change @ '' '' @ ipr_provider_id p @ '' in '' @ state_path @ '' | bridge='' @
         bridge_mode_name (ipr_bridge p) @ '' | enabled='' @ bool_text (ipr_enabled p)) #
        (if imd_download_required (ipr_install p) then [''  download required before traffic should be routed''] else []) @
        map (\<lambda>note. ''  note: '' @ note) (imd_notes (ipr_install p)))"

definition enabled_override :: "install_provider_args \<Rightarrow> bool option" where
  "enabled_override a = (if ipa_enable a then Some True else if ipa_disable a then Some False else None)"

definition toggle_lines :: "string \<Rightarrow> string \<Rightarrow> bool \<times> installed_provider \<Rightarrow> string list" where
  "toggle_lines what state_path r =
     [(if fst r then [] else ''already '') @ what @ '' '' @ ipr_provider_id (snd r) @ '' in '' @ state_path]"

fun execute_provider_command ::
  "'t json_codec \<Rightarrow> u64 \<Rightarrow> providers_command \<Rightarrow> 't disk \<Rightarrow> (string + string list) \<times> 't disk" where
  "execute_provider_command codec now (PcList catalog state) d = (list_providers codec catalog state d, d)"
| "execute_provider_command codec now (PcInstall a) d =
     map_prod (map_sum id (install_lines (ipa_state a))) id
       (install_asr_provider codec now (ipa_catalog a) (ipa_state a) (ipa_provider_id a) (enabled_override a) d)"
| "execute_provider_command codec now (PcUninstall a) d =
     map_prod (map_sum id (\<lambda>p. [''removed '' @ ipr_provider_id p @ '' from '' @ cpa_state a])) id
       (uninstall_asr_provider codec (cpa_state a) (cpa_provider_id a) d)"
| "execute_provider_command codec now (PcEnable a) d =
     map_prod (map_sum id (toggle_lines ''enabled'' (cpa_state a))) id
       (set_asr_provider_enabled codec (cpa_state a) (cpa_provider_id a) True d)"
| "execute_provider_command codec now (PcDisable a) d =
     map_prod (map_sum id (toggle_lines ''disabled'' (cpa_state a))) id
       (set_asr_provider_enabled codec (cpa_state a) (cpa_provider_id a) False d)"

section \<open>Secrets\<close>

text \<open>
  The environment: a variable that is not Unicode has the text of its lossy conversion; \<open>env_read\<close> reads a file
  (the text of the error otherwise); \<open>env_http_client\<close> is the error of building an HTTP client, if it fails.
\<close>

datatype env_value = Unicode string | NotUnicode string

record daemon_env =
  env_vars :: "string \<rightharpoonup> env_value"
  env_read :: "string \<Rightarrow> string + string"
  env_exists :: "string \<Rightarrow> bool"
  env_http_client :: "string option"

fun lossy_text :: "env_value \<Rightarrow> string" where
  "lossy_text (Unicode s) = s"
| "lossy_text (NotUnicode s) = s"

fun unicode_text :: "env_value \<Rightarrow> string option" where
  "unicode_text (Unicode s) = Some s"
| "unicode_text (NotUnicode _) = None"

definition non_blank :: "string option \<Rightarrow> string option" where
  "non_blank v = opt_filter (\<lambda>t. t \<noteq> []) (map_option trim v)"

definition read_secret_from_file :: "daemon_env \<Rightarrow> string \<Rightarrow> string + string" where
  "read_secret_from_file env path =
     (case env_read env path of
        Inl e \<Rightarrow> Err (''failed to read '' @ path @ '': '' @ e)
      | Inr contents \<Rightarrow> if trim contents = [] then Err (path @ '' is empty'') else Ok (trim contents))"

definition dirs_home_dir :: "daemon_env \<Rightarrow> string option" where
  "dirs_home_dir env = map_option lossy_text (env_vars env ''HOME'')"

definition expand_tilde_path :: "daemon_env \<Rightarrow> string \<Rightarrow> string" where
  "expand_tilde_path env path =
     (if path = ''~'' then unwrap_or (dirs_home_dir env) ''/''
      else (case strip_prefix ''~/'' path of
              None \<Rightarrow> path
            | Some rest \<Rightarrow> (case dirs_home_dir env of Some home \<Rightarrow> path_join home rest | None \<Rightarrow> path)))"

definition resolve_minimax_api_key :: "daemon_env \<Rightarrow> run_args \<Rightarrow> string + string" where
  "resolve_minimax_api_key env args =
     (case or_else (non_blank (ra_tts_minimax_api_key args)) (non_blank (map_option lossy_text (env_vars env ''MINIMAX_API_KEY''))) of
        Some key \<Rightarrow> Ok key
      | None \<Rightarrow>
          (case ra_tts_minimax_api_key_file args of
             Some path \<Rightarrow> read_secret_from_file env path
           | None \<Rightarrow>
               (let expanded = expand_tilde_path env ''~/.minimax/token''
                in if env_exists env expanded then read_secret_from_file env expanded
                   else Err (''--tts-minimax-api-key, --tts-minimax-api-key-file, or ~/.minimax/token is required '' @
                             ''when enabling the minimax-http TTS provider''))))"

definition resolve_minimax_group_id :: "daemon_env \<Rightarrow> run_args \<Rightarrow> string option" where
  "resolve_minimax_group_id env args =
     or_else (non_blank (ra_tts_minimax_group_id args)) (non_blank (map_option lossy_text (env_vars env ''MINIMAX_GROUP_ID'')))"

definition resolve_provider_api_key :: "daemon_env \<Rightarrow> string option \<Rightarrow> string \<Rightarrow> string + string" where
  "resolve_provider_api_key env path env_key =
     (case non_blank (Option.bind (env_vars env env_key) unicode_text) of
        Some key \<Rightarrow> Ok key
      | None \<Rightarrow> (case path of Some p \<Rightarrow> read_secret_from_file env p | None \<Rightarrow> Err (''missing secret '' @ env_key)))"

definition resolve_asr_minimax_api_key :: "daemon_env \<Rightarrow> run_args \<Rightarrow> string + string" where
  "resolve_asr_minimax_api_key env args =
     (case non_blank (ra_asr_minimax_api_key args) of
        Some key \<Rightarrow> Ok key
      | None \<Rightarrow>
          map_sum (\<lambda>_. ''--asr-minimax-api-key, --asr-minimax-api-key-file, or MINIMAX_API_KEY is required '' @
                       ''when enabling the minimax-http ASR provider'') id
            (resolve_provider_api_key env (ra_asr_minimax_api_key_file args) ''MINIMAX_API_KEY''))"

section \<open>Recognition bridges\<close>

datatype asr_bridge =
    MockAsr string "string option"
  | StdioAsr string "string option" string "string list"
  | TcpAsr string "string option" string
  | AgentAsr remote_bridge_config u64
  | MiniMaxAsr minimax_asr_config string

fun asr_bridge_descriptors :: "asr_bridge \<Rightarrow> provider_descriptor list" where
  "asr_bridge_descriptors (MockAsr pid name) = mock_asr_descriptors pid name"
| "asr_bridge_descriptors (StdioAsr pid name command args) = stdio_descriptors pid name"
| "asr_bridge_descriptors (TcpAsr pid name address) = tcp_descriptors pid name"
| "asr_bridge_descriptors (AgentAsr cfg timeout) = remote_descriptors cfg"
| "asr_bridge_descriptors (MiniMaxAsr cfg key) = minimax_asr_descriptors cfg"

datatype served_asr = SingleAsr asr_bridge | CompositeAsr "asr_bridge binding list"

fun served_descriptors :: "served_asr \<Rightarrow> provider_descriptor list" where
  "served_descriptors (SingleAsr b) = asr_bridge_descriptors b"
| "served_descriptors (CompositeAsr bs) = composite_descriptors bs"

record bridge_selection =
  bsl_bridge :: served_asr
  bsl_registry :: "hub option"

fun bridge_error_text :: "bridge_error \<Rightarrow> string" where
  "bridge_error_text (Unavailable m) = ''bridge unavailable: '' @ m"
| "bridge_error_text (Disconnected m) = ''bridge disconnected: '' @ m"
| "bridge_error_text (ProtocolError m) = ''bridge protocol error: '' @ m"
| "bridge_error_text (IoError m) = ''bridge io error: '' @ m"

definition new_minimax_asr :: "daemon_env \<Rightarrow> minimax_asr_config \<Rightarrow> string \<Rightarrow> string + asr_bridge" where
  "new_minimax_asr env cfg key =
     (case env_http_client env of
        Some e \<Rightarrow> Err (bridge_error_text (Unavailable (''failed to build MiniMax ASR client: '' @ e)))
      | None \<Rightarrow> Ok (MiniMaxAsr cfg key))"

definition build_installed_asr_bridge ::
  "daemon_env \<Rightarrow> installed_provider \<Rightarrow> run_args \<Rightarrow> hub option \<Rightarrow> string + asr_bridge" where
  "build_installed_asr_bridge env p args registry =
     (case ipr_bridge p of
        BkMock \<Rightarrow> Ok (MockAsr (ipr_provider_id p) (ipr_display_name p))
      | BkStdio command bridge_args \<Rightarrow> Ok (StdioAsr (ipr_provider_id p) (ipr_display_name p) command bridge_args)
      | BkTcp address \<Rightarrow> Ok (TcpAsr (ipr_provider_id p) (ipr_display_name p) address)
      | BkAgent start_timeout_secs \<Rightarrow>
          (if registry = None then
             Err (''provider '' @ ipr_provider_id p @ '' uses bridge_mode=agent but no agent registry is available'')
           else Ok (AgentAsr \<lparr>rbc_provider_id = ipr_provider_id p, rbc_display_name = ipr_display_name p\<rparr>
                      (unwrap_or start_timeout_secs (ra_agent_start_timeout_secs args))))
      | BkMiniMaxHttp base_url model api_key_file \<Rightarrow>
          and_then (resolve_provider_api_key env api_key_file ''MINIMAX_API_KEY'') (\<lambda>key.
            new_minimax_asr env
              \<lparr>mac_provider_id = ipr_provider_id p, mac_display_name = ipr_display_name p, mac_base_url = base_url,
               mac_default_model = unwrap_or model ''speech-01-turbo'',
               mac_partial_min_bytes = ra_asr_minimax_partial_min_bytes args\<rparr> key))"

fun collect_results :: "('e + 'a) list \<Rightarrow> 'e + 'a list" where
  "collect_results [] = Ok []"
| "collect_results (r # rs) = and_then r (\<lambda>x. and_then (collect_results rs) (\<lambda>xs. Ok (x # xs)))"

fun uses_agent :: "installed_provider \<Rightarrow> bool" where
  "uses_agent p = (case ipr_bridge p of BkAgent _ \<Rightarrow> True | _ \<Rightarrow> False)"

definition select_asr_bridges_from_config ::
  "daemon_env \<Rightarrow> run_args \<Rightarrow> string \<Rightarrow> providers_config \<Rightarrow> string + bridge_selection" where
  "select_asr_bridges_from_config env args path parsed =
     (let installed = filter ipr_enabled (pcf_providers parsed);
          registry = (if list_ex uses_agent installed then Some (hub_new (ra_agent_shared_secret args)) else None)
      in if installed = [] then Err (''ASR provider file '' @ path @ '' does not contain any enabled providers'')
         else
           and_then (collect_results (map (\<lambda>p. build_installed_asr_bridge env p args registry) installed)) (\<lambda>bridges.
             (case asr_composite_new asr_bridge_descriptors bridges of
                Inl e \<Rightarrow> Err (''failed to register ASR providers: '' @ bridge_error_text e)
              | Inr bindings \<Rightarrow> Ok \<lparr>bsl_bridge = CompositeAsr bindings, bsl_registry = registry\<rparr>)))"

text \<open>Without a provider file the mode chooses one bridge.\<close>

definition select_asr_bridge_mode :: "daemon_env \<Rightarrow> run_args \<Rightarrow> string + bridge_selection" where
  "select_asr_bridge_mode env args =
     (case ra_asr_bridge_mode args of
        AbmMock \<Rightarrow> Ok \<lparr>bsl_bridge = SingleAsr (MockAsr (ra_asr_provider_id args) None), bsl_registry = None\<rparr>
      | AbmStdio \<Rightarrow>
          and_then (ok_or (ra_asr_bridge_command args) ''--asr-bridge-command is required for stdio mode'') (\<lambda>command.
            Ok \<lparr>bsl_bridge = SingleAsr (StdioAsr (ra_asr_provider_id args) None command (ra_asr_bridge_args args)),
                bsl_registry = None\<rparr>)
      | AbmTcp \<Rightarrow>
          and_then (ok_or (ra_asr_bridge_address args) ''--asr-bridge-address is required for tcp mode'') (\<lambda>address.
            Ok \<lparr>bsl_bridge = SingleAsr (TcpAsr (ra_asr_provider_id args) None address), bsl_registry = None\<rparr>)
      | AbmAgent \<Rightarrow>
          Ok \<lparr>bsl_bridge = SingleAsr (AgentAsr \<lparr>rbc_provider_id = ra_asr_provider_id args, rbc_display_name = None\<rparr>
                              (ra_agent_start_timeout_secs args)),
              bsl_registry = Some (hub_new (ra_agent_shared_secret args))\<rparr>
      | AbmMiniMaxHttp \<Rightarrow>
          and_then (resolve_asr_minimax_api_key env args) (\<lambda>key.
          and_then (new_minimax_asr env
              \<lparr>mac_provider_id = ra_asr_minimax_provider_id args, mac_display_name = Some (ra_asr_minimax_provider_name args),
               mac_base_url = ra_asr_minimax_base_url args, mac_default_model = ra_asr_minimax_model args,
               mac_partial_min_bytes = ra_asr_minimax_partial_min_bytes args\<rparr> key) (\<lambda>bridge.
            Ok \<lparr>bsl_bridge = SingleAsr bridge, bsl_registry = None\<rparr>)))"

definition select_asr_bridge :: "'t json_codec \<Rightarrow> 't disk \<Rightarrow> daemon_env \<Rightarrow> run_args \<Rightarrow> string + bridge_selection" where
  "select_asr_bridge codec d env args =
     (if ra_asr_providers_config args \<noteq> None \<and> ra_asr_providers_state args \<noteq> None then
        Err ''--asr-providers-config and --asr-providers-state are mutually exclusive''
      else
        (case or_else (ra_asr_providers_state args) (ra_asr_providers_config args) of
           Some path \<Rightarrow> and_then (load_asr_provider_config codec d path) (select_asr_bridges_from_config env args path)
         | None \<Rightarrow> select_asr_bridge_mode env args))"

section \<open>Synthesis bridges\<close>

datatype tts_bridge =
    MockTts string "string option"
  | MeloTts melo_config
  | QwenTts qwen_config
  | MiniMaxTts minimax_config string

fun tts_bridge_descriptors :: "tts_bridge \<Rightarrow> provider_descriptor list" where
  "tts_bridge_descriptors (MockTts pid name) = mock_tts_descriptors pid name"
| "tts_bridge_descriptors (MeloTts cfg) = melo_descriptors cfg"
| "tts_bridge_descriptors (QwenTts cfg) = qwen_descriptors cfg"
| "tts_bridge_descriptors (MiniMaxTts cfg key) = minimax_descriptors cfg"

definition built_client :: "daemon_env \<Rightarrow> string \<Rightarrow> 'b \<Rightarrow> string + 'b" where
  "built_client env what b =
     (case env_http_client env of
        Some e \<Rightarrow> Err (bridge_error_text (Unavailable (''failed to build '' @ what @ '' client: '' @ e)))
      | None \<Rightarrow> Ok b)"

fun build_tts_bridge :: "daemon_env \<Rightarrow> run_args \<Rightarrow> tts_provider_kind \<Rightarrow> string + tts_bridge" where
  "build_tts_bridge env args TpkMock = Ok (MockTts (ra_tts_provider_id args) (Some (ra_tts_provider_name args)))"
| "build_tts_bridge env args TpkMeloHttp =
     and_then (ok_or (ra_tts_melo_base_url args) ''--tts-melo-base-url is required when enabling the melo-http TTS provider'')
       (\<lambda>url. built_client env ''MeloTTS''
          (MeloTts \<lparr>mc_provider_id = ra_tts_provider_id args, mc_display_name = Some (ra_tts_provider_name args),
                    mc_base_url = url, mc_chunk_size = ra_tts_chunk_size_bytes args\<rparr>))"
| "build_tts_bridge env args TpkQwen3Http =
     and_then (ok_or (ra_tts_qwen3_base_url args) ''--tts-qwen3-base-url is required when enabling the qwen3-http TTS provider'')
       (\<lambda>url. built_client env ''Qwen3 TTS''
          (QwenTts \<lparr>qc_provider_id = ra_tts_qwen3_provider_id args, qc_display_name = Some (ra_tts_qwen3_provider_name args),
                    qc_base_url = url, qc_chunk_size = ra_tts_chunk_size_bytes args,
                    qc_default_model = ra_tts_qwen3_model args, qc_default_voice = ra_tts_qwen3_voice args,
                    qc_default_language = ra_tts_qwen3_language args,
                    qc_default_sample_rate = ra_tts_qwen3_sample_rate_hz args\<rparr>))"
| "build_tts_bridge env args TpkMiniMaxHttp =
     and_then (resolve_minimax_api_key env args) (\<lambda>key.
     and_then (ok_or (resolve_minimax_group_id env args)
                 ''--tts-minimax-group-id or MINIMAX_GROUP_ID is required when enabling the minimax-http TTS provider'') (\<lambda>group.
       built_client env ''MiniMax TTS''
         (MiniMaxTts \<lparr>mm_provider_id = ra_tts_minimax_provider_id args, mm_display_name = Some (ra_tts_minimax_provider_name args),
                      mm_base_url = ra_tts_minimax_base_url args, mm_group_id = group,
                      mm_default_model = ra_tts_minimax_model args, mm_default_voice_id = ra_tts_minimax_voice_id args,
                      mm_default_sample_rate = ra_tts_minimax_sample_rate_hz args,
                      mm_default_format = ra_tts_minimax_format args, mm_chunk_size = ra_tts_chunk_size_bytes args\<rparr> key)))"

definition tts_provider_kinds :: "run_args \<Rightarrow> tts_provider_kind list" where
  "tts_provider_kinds args =
     (if ra_tts_providers args = [] then
        (case ra_tts_bridge_mode args of TbmDisabled \<Rightarrow> [] | TbmMock \<Rightarrow> [TpkMock] | TbmMeloHttp \<Rightarrow> [TpkMeloHttp])
      else ra_tts_providers args)"

definition select_tts_bridge :: "daemon_env \<Rightarrow> run_args \<Rightarrow> string + tts_bridge binding list option" where
  "select_tts_bridge env args =
     and_then (collect_results (map (build_tts_bridge env args) (tts_provider_kinds args))) (\<lambda>bridges.
       if bridges = [] then Ok None
       else map_sum bridge_error_text Some (tts_composite_new tts_bridge_descriptors bridges))"

section \<open>Starting the gateway\<close>

record server_config =
  scf_listen :: string
  scf_protocol_version :: string
  scf_server_name :: string

text \<open>What \<^verbatim>\<open>run_server\<close> is called with.\<close>

definition run_gateway ::
  "'t json_codec \<Rightarrow> 't disk \<Rightarrow> daemon_env \<Rightarrow> run_args \<Rightarrow> string + server_config \<times> bridge_selection \<times> tts_bridge binding list option" where
  "run_gateway codec d env args =
     and_then (select_asr_bridge codec d env args) (\<lambda>selection.
     and_then (select_tts_bridge env args) (\<lambda>tts.
       Ok (\<lparr>scf_listen = ra_listen args, scf_protocol_version = ra_protocol_version args, scf_server_name = ra_server_name args\<rparr>,
           selection, tts)))"

section \<open>Facts\<close>

lemma collect_results_Ok: "collect_results rs = Ok xs \<longleftrightarrow> rs = map Inr xs"
  by (induction rs arbitrary: xs) (auto elim!: and_then.elims)

lemma collect_results_Err: "collect_results rs = Err e \<Longrightarrow> Inl e \<in> set rs"
proof (induction rs)
  case (Cons r rs)
  then show ?case by (cases r; cases "collect_results rs") auto
qed simp

lemma asr_bridge_ids:
  "build_installed_asr_bridge env p args registry = Ok b \<Longrightarrow> map pd_id (asr_bridge_descriptors b) = [ipr_provider_id p]"
  by (auto simp: build_installed_asr_bridge_def new_minimax_asr_def mock_asr_descriptors_def stdio_descriptors_def
      tcp_descriptors_def remote_descriptors_def minimax_asr_descriptors_def asr_descriptor_with_io_modes_def Let_def
      elim!: and_then.elims split: bridge_kind.splits if_splits option.splits)

lemma build_fails:
  assumes "build_installed_asr_bridge env p args registry = Err e" and "uses_agent p \<Longrightarrow> registry \<noteq> None"
  shows "\<exists>url model key_file. ipr_bridge p = BkMiniMaxHttp url model key_file \<and>
    ((\<exists>e'. resolve_provider_api_key env key_file ''MINIMAX_API_KEY'' = Err e') \<or> env_http_client env \<noteq> None)"
  using assms
  by (auto simp: build_installed_asr_bridge_def new_minimax_asr_def elim!: and_then.elims
      split: bridge_kind.splits if_splits option.splits)

lemma all_bindings_ids: "binding_ids (all_bindings descriptors bridges) = concat (map (\<lambda>b. map pd_id (descriptors b)) bridges)"
  by (induction bridges) (simp_all add: binding_ids_def comp_def)

lemma installed_binding_ids:
  assumes "map (\<lambda>p. build_installed_asr_bridge env p args registry) ps = map Inr bridges"
  shows "binding_ids (all_bindings asr_bridge_descriptors bridges) = map ipr_provider_id ps"
  using assms
proof (induction ps arbitrary: bridges)
  case (Cons p ps)
  then obtain b bs where "bridges = b # bs" "build_installed_asr_bridge env p args registry = Ok b"
    "map (\<lambda>p. build_installed_asr_bridge env p args registry) ps = map Inr bs"
    by (cases bridges) auto
  with Cons.IH asr_bridge_ids [of env p args registry b] show ?case by (simp add: all_bindings_ids)
qed (simp add: all_bindings_ids)

lemma descriptors_not_empty: "asr_bridge_descriptors b \<noteq> []"
  by (cases b) (simp_all add: mock_asr_descriptors_def stdio_descriptors_def tcp_descriptors_def remote_descriptors_def
      minimax_asr_descriptors_def)

definition enabled_providers :: "providers_config \<Rightarrow> installed_provider list" where
  "enabled_providers c = filter ipr_enabled (pcf_providers c)"

text \<open>The one reason for which an enabled provider has no bridge: a MiniMax provider without a key or a client.\<close>

definition no_bridge :: "daemon_env \<Rightarrow> installed_provider \<Rightarrow> bool" where
  "no_bridge env p \<longleftrightarrow>
     (case ipr_bridge p of
        BkMiniMaxHttp url model key_file \<Rightarrow>
          (case resolve_provider_api_key env key_file ''MINIMAX_API_KEY'' of Inl _ \<Rightarrow> True | Inr _ \<Rightarrow> env_http_client env \<noteq> None)
      | _ \<Rightarrow> False)"

lemma select_from_config:
  "case select_asr_bridges_from_config env args path c of
     Inr sel \<Rightarrow> map pd_id (served_descriptors (bsl_bridge sel)) = provider_ids (enabled_providers c) \<and>
       enabled_providers c \<noteq> [] \<and> distinct (provider_ids (enabled_providers c)) \<and>
       (bsl_registry sel \<noteq> None \<longleftrightarrow> list_ex uses_agent (enabled_providers c))
   | Inl _ \<Rightarrow> enabled_providers c = [] \<or> \<not> distinct (provider_ids (enabled_providers c)) \<or>
       list_ex (no_bridge env) (enabled_providers c)"
proof -
  let ?ps = "enabled_providers c"
  let ?reg = "if list_ex uses_agent ?ps then Some (hub_new (ra_agent_shared_secret args)) else None"
  let ?build = "\<lambda>p. build_installed_asr_bridge env p args ?reg"
  have sel: "select_asr_bridges_from_config env args path c =
      (if ?ps = [] then Err (''ASR provider file '' @ path @ '' does not contain any enabled providers'')
       else and_then (collect_results (map ?build ?ps)) (\<lambda>bridges.
         (case asr_composite_new asr_bridge_descriptors bridges of
            Inl e \<Rightarrow> Err (''failed to register ASR providers: '' @ bridge_error_text e)
          | Inr bindings \<Rightarrow> Ok \<lparr>bsl_bridge = CompositeAsr bindings, bsl_registry = ?reg\<rparr>)))"
    by (simp add: select_asr_bridges_from_config_def enabled_providers_def Let_def)
  show ?thesis
  proof (cases "collect_results (map ?build ?ps)")
    case (Inl e)
    from collect_results_Err [OF this] obtain p where p: "p \<in> set ?ps" "?build p = Err e" by auto
    then have "uses_agent p \<Longrightarrow> ?reg \<noteq> None" by (auto simp: list_ex_iff)
    from build_fails [OF p(2) this] have "no_bridge env p" by (auto simp: no_bridge_def split: sum.splits)
    with p(1) Inl show ?thesis by (auto simp: sel list_ex_iff)
  next
    case (Inr bridges)
    then have built: "map ?build ?ps = map Inr bridges" by (simp only: collect_results_Ok)
    note ids = installed_binding_ids [OF built]
    show ?thesis
    proof (cases "asr_composite_new asr_bridge_descriptors bridges")
      case (Inl e)
      have "asr_composite_new asr_bridge_descriptors bridges \<noteq> Ok (all_bindings asr_bridge_descriptors bridges)"
        using Inl by simp
      then have "\<not> distinct (provider_ids ?ps)"
        unfolding composite_new_iff ids by (auto simp: provider_ids_def) (metis descriptors_not_empty)
      with Inl Inr show ?thesis by (simp add: sel)
    next
      case (Inr bindings)
      then have b: "bindings = all_bindings asr_bridge_descriptors bridges \<and> distinct (binding_ids bindings)"
        unfolding composite_new_iff by blast
      then have "binding_ids bindings = provider_ids ?ps" using ids by (simp add: provider_ids_def)
      moreover have "map pd_id (composite_descriptors bindings) = binding_ids bindings"
        by (simp add: composite_descriptors_def binding_ids_def)
      ultimately show ?thesis using Inr b \<open>collect_results _ = Inr bridges\<close> by (auto simp: sel)
    qed
  qed
qed

text \<open>
  The mock and the MeloTTS provider share \<^verbatim>\<open>--tts-provider-id\<close>: a gateway told to serve both does not start.
\<close>

fun tts_kind_id :: "run_args \<Rightarrow> tts_provider_kind \<Rightarrow> string" where
  "tts_kind_id args TpkMock = ra_tts_provider_id args"
| "tts_kind_id args TpkMeloHttp = ra_tts_provider_id args"
| "tts_kind_id args TpkQwen3Http = ra_tts_qwen3_provider_id args"
| "tts_kind_id args TpkMiniMaxHttp = ra_tts_minimax_provider_id args"

lemma tts_bridge_ids:
  "build_tts_bridge env args k = Ok b \<Longrightarrow> map pd_id (tts_bridge_descriptors b) = [tts_kind_id args k]"
  by (cases k) (auto simp: built_client_def mock_tts_descriptors_def melo_descriptors_def qwen_descriptors_def
      minimax_descriptors_def elim!: and_then.elims split: option.splits)

lemma tts_binding_ids:
  "map (build_tts_bridge env args) ks = map Inr bridges \<Longrightarrow>
   binding_ids (all_bindings tts_bridge_descriptors bridges) = map (tts_kind_id args) ks"
proof (induction ks arbitrary: bridges)
  case (Cons k ks)
  then obtain b bs where "bridges = b # bs" "build_tts_bridge env args k = Ok b"
    "map (build_tts_bridge env args) ks = map Inr bs" by (cases bridges) auto
  with Cons.IH tts_bridge_ids [of env args k b] show ?case by (simp add: all_bindings_ids)
qed (simp add: all_bindings_ids)

lemma shared_tts_provider_id:
  assumes "TpkMock \<in> set (tts_provider_kinds args)" and "TpkMeloHttp \<in> set (tts_provider_kinds args)"
  shows "\<exists>e. select_tts_bridge env args = Err e"
proof (cases "collect_results (map (build_tts_bridge env args) (tts_provider_kinds args))")
  case (Inr bridges)
  then have ids: "binding_ids (all_bindings tts_bridge_descriptors bridges) = map (tts_kind_id args) (tts_provider_kinds args)"
    by (intro tts_binding_ids) (simp only: collect_results_Ok)
  have "bridges \<noteq> []" using ids assms by auto
  moreover have "\<not> inj_on (tts_kind_id args) (set (tts_provider_kinds args))"
    using assms by (auto dest: inj_onD [of _ _ TpkMock TpkMeloHttp])
  then have "\<not> distinct (map (tts_kind_id args) (tts_provider_kinds args))" by (simp add: distinct_map)
  then have "\<forall>bs. tts_composite_new tts_bridge_descriptors bridges \<noteq> Ok bs"
    using bind_bridges_ok [of "''TTS''" tts_bridge_descriptors bridges "{}" "[]"] ids
    by (auto simp: tts_composite_new_def)
  ultimately show ?thesis using Inr
    by (cases "tts_composite_new tts_bridge_descriptors bridges") (auto simp: select_tts_bridge_def)
qed (simp add: select_tts_bridge_def)

section \<open>Commands as updates of a table\<close>

type_synonym provider_table = "string \<rightharpoonup> installed_provider"

definition table_of :: "installed_provider list \<Rightarrow> provider_table" where
  "table_of ps = (\<lambda>i. installed_lookup i ps)"

definition template_of :: "'t json_codec \<Rightarrow> 't disk \<Rightarrow> string \<Rightarrow> string \<Rightarrow> catalog_provider option" where
  "template_of codec d catalog_path i =
     (case load_asr_provider_catalog codec d catalog_path of
        Inl _ \<Rightarrow> None
      | Inr catalog \<Rightarrow> find (\<lambda>c. cpr_provider_id c = i) (pct_providers catalog))"

text \<open>
  What a command is meant to do to the table of installed providers; \<open>templates\<close> looks up a catalog. An installed
  entry has the catalog's data; a provider that was installed before keeps the time of its first
  installation, and whether it is enabled, unless the command says that.
\<close>

definition installed_entry ::
  "u64 \<Rightarrow> install_provider_args \<Rightarrow> catalog_provider \<Rightarrow> installed_provider option \<Rightarrow> installed_provider" where
  "installed_entry now a t before =
     \<lparr>ipr_provider_id = ipa_provider_id a, ipr_display_name = cpr_display_name t, ipr_description = cpr_description t,
      ipr_enabled =
        (if ipa_enable a \<or> ipa_disable a then ipa_enable a
         else (case before of Some p \<Rightarrow> ipr_enabled p | None \<Rightarrow> cpr_enabled_by_default t)),
      ipr_installed_at =
        (case before of
           Some p \<Rightarrow> (if ipr_installed_at p = None then Some now else ipr_installed_at p)
         | None \<Rightarrow> Some now),
      ipr_install = cpr_install t, ipr_bridge = cpr_bridge t\<rparr>"

fun table_command ::
  "(string \<Rightarrow> string \<Rightarrow> catalog_provider option) \<Rightarrow> u64 \<Rightarrow> providers_command \<Rightarrow> provider_table \<Rightarrow> provider_table" where
  "table_command templates now (PcList _ _) tab = tab"
| "table_command templates now (PcInstall a) tab =
     (case templates (ipa_catalog a) (ipa_provider_id a) of
        None \<Rightarrow> tab
      | Some t \<Rightarrow> tab(ipa_provider_id a \<mapsto> installed_entry now a t (tab (ipa_provider_id a))))"
| "table_command templates now (PcUninstall a) tab = tab(cpa_provider_id a := None)"
| "table_command templates now (PcEnable a) tab =
     tab(cpa_provider_id a := map_option (\<lambda>p. p\<lparr>ipr_enabled := True\<rparr>) (tab (cpa_provider_id a)))"
| "table_command templates now (PcDisable a) tab =
     tab(cpa_provider_id a := map_option (\<lambda>p. p\<lparr>ipr_enabled := False\<rparr>) (tab (cpa_provider_id a)))"

fun command_state :: "providers_command \<Rightarrow> string option" where
  "command_state (PcList _ _) = None"
| "command_state (PcInstall a) = Some (ipa_state a)"
| "command_state (PcUninstall a) = Some (cpa_state a)"
| "command_state (PcEnable a) = Some (cpa_state a)"
| "command_state (PcDisable a) = Some (cpa_state a)"

text \<open>
  The state file at \<open>path\<close> represents the table: it loads, with every provider once, and can be read and written.
\<close>

definition represents :: "'t json_codec \<Rightarrow> string \<Rightarrow> provider_table \<Rightarrow> 't disk \<Rightarrow> bool" where
  "represents codec path tab d \<longleftrightarrow>
     (\<exists>st. load_asr_provider_state_or_default codec d path = Ok st \<and> distinct (provider_ids (pcf_providers st)) \<and>
           table_of (pcf_providers st) = tab)"

definition usable :: "string \<Rightarrow> 't disk \<Rightarrow> bool" where
  "usable path d \<longleftrightarrow> dk_read_error d path = None \<and> \<not> dk_mkdir_error d path \<and> dk_write_error d path = None"

text \<open>The same disk but for the file at \<open>path\<close>.\<close>

definition same_but :: "string \<Rightarrow> 't disk \<Rightarrow> 't disk \<Rightarrow> bool" where
  "same_but path d d' \<longleftrightarrow>
     dk_read_error d' = dk_read_error d \<and> dk_mkdir_error d' = dk_mkdir_error d \<and> dk_write_error d' = dk_write_error d \<and>
     (\<forall>q. q \<noteq> path \<longrightarrow> dk_files d' q = dk_files d q)"

lemma same_but_refl: "same_but path d d"
  by (simp add: same_but_def)

lemma same_but_trans: "same_but path d d1 \<Longrightarrow> same_but path d1 d2 \<Longrightarrow> same_but path d d2"
  by (simp add: same_but_def)

lemma usable_same: "same_but path d d' \<Longrightarrow> usable path d' = usable path d"
  by (simp add: same_but_def usable_def)

lemma template_same:
  assumes "same_but path d d'" and "q \<noteq> path"
  shows "template_of codec d' q = template_of codec d q"
proof -
  have "dk_files d' q = dk_files d q" "dk_read_error d' = dk_read_error d" using assms by (simp_all add: same_but_def)
  then have "read_to_string d' q = read_to_string d q" by (simp add: read_to_string_def cong: option.case_cong)
  then show ?thesis by (simp add: template_of_def load_asr_provider_catalog_def fun_eq_iff)
qed

lemma save_represents:
  assumes "reads_back codec" and "usable path d" and "distinct (provider_ids ps)"
  shows "\<exists>d'. save_asr_provider_state codec path (st\<lparr>pcf_providers := ps\<rparr>) d = (Ok (), d') \<and>
    represents codec path (table_of ps) d' \<and> same_but path d d'"
proof -
  let ?r = "save_asr_provider_state codec path (st\<lparr>pcf_providers := ps\<rparr>) d"
  have r: "?r = (Ok (), snd ?r)" and same: "same_but path d (snd ?r)"
    using assms(2)
    by (simp_all add: usable_def save_asr_provider_state_def write_json_def same_but_def set_contents_def)
  from assms(2) have "dk_read_error d path = None" by (simp add: usable_def)
  from load_after_save [OF assms(1) r this] have "represents codec path (table_of ps) (snd ?r)"
    using assms(3) by (simp add: represents_def table_of_def sort_providers_ids installed_lookup_sort)
  with r same show ?thesis by blast
qed

text \<open>What a command leaves: the file represents the table, and the other files are as before.\<close>

definition leaves :: "'t json_codec \<Rightarrow> string \<Rightarrow> 't disk \<Rightarrow> provider_table \<Rightarrow> 'r \<times> 't disk \<Rightarrow> bool" where
  "leaves codec path d tab r \<longleftrightarrow> represents codec path tab (snd r) \<and> same_but path d (snd r)"

lemma leaves_same: "represents codec path tab d \<Longrightarrow> leaves codec path d tab (x, d)"
  by (simp add: leaves_def same_but_refl)

lemma leaves_map: "leaves codec path d tab (map_prod f id r) = leaves codec path d tab r"
  by (simp add: leaves_def)

lemma leaves_saved:
  assumes "reads_back codec" and "usable path d" and "distinct (provider_ids ps)" and "table_of ps = tab"
  shows "leaves codec path d tab (saved x (save_asr_provider_state codec path (st\<lparr>pcf_providers := ps\<rparr>) d))"
  using save_represents [OF assms(1-3), of st] assms(4) by (auto simp: leaves_def saved_def)

lemma represents_loaded:
  assumes "represents codec path tab d"
  obtains st where "load_asr_provider_state_or_default codec d path = Ok st" "distinct (provider_ids (pcf_providers st))"
    "tab = table_of (pcf_providers st)" "\<And>i. installed_lookup i (pcf_providers st) = tab i"
  using assms by (auto simp: represents_def table_of_def)

lemma set_enabled_leaves:
  assumes codec: "reads_back codec" and usable: "usable path d" and rep: "represents codec path tab d"
  shows "leaves codec path d (tab(i := map_option (\<lambda>p. p\<lparr>ipr_enabled := b\<rparr>) (tab i)))
    (set_asr_provider_enabled codec path i b d)"
proof -
  obtain st where load: "load_asr_provider_state_or_default codec d path = Ok st"
    and dist: "distinct (provider_ids (pcf_providers st))" and lookup: "\<And>i. installed_lookup i (pcf_providers st) = tab i"
    using represents_loaded [OF rep] by blast
  let ?qs = "update_first (\<lambda>p. ipr_provider_id p = i) (\<lambda>p. p\<lparr>ipr_enabled := b\<rparr>) (pcf_providers st)"
  have tab: "table_of ?qs = tab(i := map_option (\<lambda>p. p\<lparr>ipr_enabled := b\<rparr>) (tab i))"
    by (auto simp: table_of_def installed_lookup_update_first lookup fun_eq_iff)
  have "distinct (provider_ids ?qs)" using dist by (simp add: update_first_ids)
  note new = leaves_saved [OF codec usable this tab]
  show ?thesis
  proof (cases "tab i")
    case None
    then have "tab(i := map_option (\<lambda>p. p\<lparr>ipr_enabled := b\<rparr>) (tab i)) = tab" by (auto simp: fun_eq_iff)
    then show ?thesis using None leaves_same [OF rep] by (simp add: set_asr_provider_enabled_def load lookup)
  next
    case (Some p)
    then show ?thesis using new by (simp add: set_asr_provider_enabled_def load lookup)
  qed
qed

lemma uninstall_leaves:
  assumes codec: "reads_back codec" and usable: "usable path d" and rep: "represents codec path tab d"
  shows "leaves codec path d (tab(i := None)) (uninstall_asr_provider codec path i d)"
proof -
  obtain st where load: "load_asr_provider_state_or_default codec d path = Ok st"
    and dist: "distinct (provider_ids (pcf_providers st))" and lookup: "\<And>i. installed_lookup i (pcf_providers st) = tab i"
    using represents_loaded [OF rep] by blast
  let ?qs = "remove_first (\<lambda>p. ipr_provider_id p = i) (pcf_providers st)"
  have "table_of ?qs = tab(i := None)"
    using dist by (auto simp: table_of_def installed_lookup_remove_first lookup fun_eq_iff)
  note new = leaves_saved [OF codec usable distinct_remove_first [OF dist] this]
  show ?thesis
  proof (cases "tab i")
    case None
    then have "tab(i := None) = tab" by (auto simp: fun_eq_iff)
    then show ?thesis using None leaves_same [OF rep] by (simp add: uninstall_asr_provider_def load lookup)
  next
    case (Some p)
    then show ?thesis using new by (simp add: uninstall_asr_provider_def load lookup)
  qed
qed

lemma install_leaves:
  assumes codec: "reads_back codec" and usable: "usable path d" and rep: "represents codec path tab d"
    and t: "template_of codec d catalog i = Some t"
  shows "leaves codec path d
    (tab(i \<mapsto> (case tab i of None \<Rightarrow> to_installed now ov t | Some p \<Rightarrow> reinstall now ov t p)))
    (install_asr_provider codec now catalog path i ov d)"
proof -
  obtain st where load: "load_asr_provider_state_or_default codec d path = Ok st"
    and dist: "distinct (provider_ids (pcf_providers st))" and lookup: "\<And>i. installed_lookup i (pcf_providers st) = tab i"
    using represents_loaded [OF rep] by blast
  obtain cat where cat: "load_asr_provider_catalog codec d catalog = Ok cat"
    and found: "find (\<lambda>c. cpr_provider_id c = i) (pct_providers cat) = Some t"
    using t by (auto simp: template_of_def split: sum.splits)
  then have tid: "cpr_provider_id t = i" by (auto simp: find_Some_iff)
  show ?thesis
  proof (cases "tab i")
    case None
    let ?qs = "pcf_providers st @ [to_installed now ov t]"
    have "table_of ?qs = tab(i \<mapsto> to_installed now ov t)"
      using None by (auto simp: table_of_def installed_lookup_snoc lookup fun_eq_iff to_installed_def tid)
    moreover have "distinct (provider_ids ?qs)"
      using dist None installed_lookup_None [of i "pcf_providers st"] by (simp add: provider_ids_def to_installed_def tid lookup)
    ultimately show ?thesis
      using leaves_saved [OF codec usable] None by (simp add: install_asr_provider_def cat found load lookup)
  next
    case (Some p)
    let ?qs = "update_first (\<lambda>p. ipr_provider_id p = i) (reinstall now ov t) (pcf_providers st)"
    have f: "ipr_provider_id (reinstall now ov t q) = i" for q by (simp add: reinstall_def to_installed_def tid)
    have "table_of ?qs = tab(i \<mapsto> reinstall now ov t p)"
      using Some f by (auto simp: table_of_def installed_lookup_update_first lookup fun_eq_iff)
    moreover have "distinct (provider_ids ?qs)" using dist f by (simp add: update_first_ids_at)
    ultimately show ?thesis
      using leaves_saved [OF codec usable] Some by (simp add: install_asr_provider_def cat found load lookup)
  qed
qed

lemma installed_entry_code:
  assumes "cpr_provider_id t = ipa_provider_id a"
  shows "installed_entry now a t before =
    (case before of None \<Rightarrow> to_installed now (enabled_override a) t | Some p \<Rightarrow> reinstall now (enabled_override a) t p)"
  using assms
  by (auto simp: installed_entry_def to_installed_def reinstall_def enabled_override_def split: option.split)

lemma template_id: "template_of codec d catalog i = Some t \<Longrightarrow> cpr_provider_id t = i"
  by (auto simp: template_of_def find_Some_iff split: sum.splits)

lemma install_without_template:
  "template_of codec d catalog i = None \<Longrightarrow> snd (install_asr_provider codec now catalog path i ov d) = d"
  by (simp add: install_asr_provider_def template_of_def split: sum.splits)

text \<open>One command, whatever it comes to.\<close>

lemma provider_command_step:
  assumes "reads_back codec" and "usable path d" and "represents codec path tab d" and "command_state c \<in> {None, Some path}"
  shows "leaves codec path d (table_command (template_of codec d) now c tab) (execute_provider_command codec now c d)"
proof (cases c)
  case (PcInstall a)
  have path: "ipa_state a = path" using assms(4) PcInstall by simp
  show ?thesis
  proof (cases "template_of codec d (ipa_catalog a) (ipa_provider_id a)")
    case None
    with PcInstall leaves_same [OF assms(3)] show ?thesis
      by (simp add: leaves_map path) (simp add: leaves_def install_without_template)
  next
    case (Some t)
    with PcInstall install_leaves [OF assms(1-3) Some, of now "enabled_override a"] show ?thesis
      by (simp add: leaves_map path installed_entry_code [OF template_id [OF Some]])
  qed
qed (use assms set_enabled_leaves [OF assms(1-3)] uninstall_leaves [OF assms(1-3)] in \<open>simp_all add: leaves_map leaves_same\<close>)

text \<open>A script of commands, each with its time; a failed command does not end it.\<close>

fun run_commands :: "'t json_codec \<Rightarrow> (u64 \<times> providers_command) list \<Rightarrow> 't disk \<Rightarrow> 't disk" where
  "run_commands codec [] d = d"
| "run_commands codec ((now, c) # cs) d = run_commands codec cs (snd (execute_provider_command codec now c d))"

definition table_commands ::
  "(string \<Rightarrow> string \<Rightarrow> catalog_provider option) \<Rightarrow> (u64 \<times> providers_command) list \<Rightarrow> provider_table \<Rightarrow> provider_table" where
  "table_commands templates cs tab = fold (\<lambda>(now, c). table_command templates now c) cs tab"

fun command_catalog :: "providers_command \<Rightarrow> string option" where
  "command_catalog (PcInstall a) = Some (ipa_catalog a)"
| "command_catalog _ = None"

lemma table_command_cong:
  "(\<And>q. command_catalog c = Some q \<Longrightarrow> t1 q = t2 q) \<Longrightarrow> table_command t1 now c tab = table_command t2 now c tab"
  by (cases c) simp_all

lemma run_commands_represents:
  assumes "reads_back codec" and "usable path d" and "represents codec path tab d"
    and "\<forall>(now, c) \<in> set cs. command_state c \<in> {None, Some path} \<and> command_catalog c \<noteq> Some path"
  shows "represents codec path (table_commands (template_of codec d) cs tab) (run_commands codec cs d)"
proof -
  have "same_but path d d' \<Longrightarrow> represents codec path tab d' \<Longrightarrow>
      represents codec path (table_commands (template_of codec d) cs tab) (run_commands codec cs d')" for d'
    using assms(4)
  proof (induction cs arbitrary: d' tab)
    case (Cons nc cs)
    obtain now c where nc: "nc = (now, c)" by (cases nc)
    let ?d1 = "snd (execute_provider_command codec now c d')"
    have "usable path d'" using usable_same [OF Cons.prems(1)] assms(2) by simp
    from provider_command_step [OF assms(1) this Cons.prems(2)] Cons.prems(3) nc
    have step: "leaves codec path d' (table_command (template_of codec d') now c tab) (execute_provider_command codec now c d')"
      by simp
    have "table_command (template_of codec d') now c tab = table_command (template_of codec d) now c tab"
      using Cons.prems(3) nc template_same [OF Cons.prems(1)] by (intro table_command_cong) auto
    with step have "represents codec path (table_command (template_of codec d) now c tab) ?d1" and "same_but path d ?d1"
      using same_but_trans [OF Cons.prems(1)] by (simp_all add: leaves_def)
    from Cons.IH [OF this(2,1)] Cons.prems(3) show ?case by (simp add: nc table_commands_def)
  qed (simp add: table_commands_def)
  from this [OF same_but_refl assms(3)] show ?thesis .
qed

text \<open>On a state file that does not load, every command fails and changes nothing.\<close>

lemma unloadable_command:
  assumes "load_asr_provider_state_or_default codec d path = Err e" and "command_state c \<in> {None, Some path}"
  shows "snd (execute_provider_command codec now c d) = d"
  using assms
  by (cases c)
    (auto simp: install_asr_provider_def uninstall_asr_provider_def set_asr_provider_enabled_def split: sum.split option.split)

lemma unloadable_commands:
  assumes "load_asr_provider_state_or_default codec d path = Err e"
  shows "\<forall>(now, c) \<in> set cs. command_state c \<in> {None, Some path} \<Longrightarrow> run_commands codec cs d = d"
  by (induction cs) (auto simp: unloadable_command [OF assms])

lemma represents_empty: "usable path d \<Longrightarrow> dk_files d path = None \<Longrightarrow> represents codec path Map.empty d"
  by (simp add: represents_def usable_def load_asr_provider_state_or_default_def read_to_string_def provider_ids_def
      table_of_def installed_lookup_def fun_eq_iff)

text \<open>The gateway reads the file with the stricter loader: without a file it does not start.\<close>

lemma load_config_state:
  "case load_asr_provider_config codec d path of
     Inr c \<Rightarrow> load_asr_provider_state_or_default codec d path = Ok c
   | Inl _ \<Rightarrow> (case load_asr_provider_state_or_default codec d path of Inl _ \<Rightarrow> True | Inr c \<Rightarrow> pcf_providers c = [])"
  by (auto simp: load_asr_provider_config_def load_asr_provider_state_or_default_def parse_provider_state_def ok_or.simps
      split: read_result.splits sum.splits option.splits)

lemma enabled_ids:
  assumes "distinct (provider_ids ps)"
  shows "set (provider_ids (filter ipr_enabled ps)) = {i. \<exists>p. table_of ps i = Some p \<and> ipr_enabled p}"
    and "distinct (provider_ids (filter ipr_enabled ps))"
    and "list_ex P (filter ipr_enabled ps) \<longleftrightarrow> (\<exists>i p. table_of ps i = Some p \<and> ipr_enabled p \<and> P p)"
  using assms
  by (auto simp: table_of_def installed_lookup_iff provider_ids_def list_ex_iff distinct_map_filter)

section \<open>Properties\<close>

text \<open>C40: The provider commands are updates of a table: run on any state file that loads and names every provider
  once (an absent file counts as an empty one), on a disk that reads and writes it, any script of installs, reinstalls,
  removals, switches and listings, some of which may fail, leaves a state file that loads, names every provider once, and
  holds the table that the commands' meanings give: an install puts the catalog's data in, and
  keeps the time of the first install and, unless told otherwise, whether the provider is enabled. A state
  file that does not load is left as it is.\<close>

theorem provider_commands_refine_table:
  assumes "reads_back codec" and "usable path d"
    and "\<forall>(now, c) \<in> set cs. command_state c \<in> {None, Some path} \<and> command_catalog c \<noteq> Some path"
  shows "case load_asr_provider_state_or_default codec d path of
      Inl _ \<Rightarrow> run_commands codec cs d = d
    | Inr st \<Rightarrow> distinct (provider_ids (pcf_providers st)) \<longrightarrow>
        represents codec path (table_commands (template_of codec d) cs (table_of (pcf_providers st))) (run_commands codec cs d)"
proof (cases "load_asr_provider_state_or_default codec d path")
  case (Inl e)
  with unloadable_commands [OF Inl, of cs] assms(3) show ?thesis by fastforce
next
  case (Inr st)
  have "represents codec path (table_of (pcf_providers st)) d" if "distinct (provider_ids (pcf_providers st))"
    using Inr that by (simp add: represents_def)
  with run_commands_represents [OF assms(1,2) _ assms(3)] Inr show ?thesis by simp
qed

text \<open>C39: What is installed is what is served: a gateway started on the state file that a script of provider commands
  has written offers exactly the providers the script leaves installed and enabled, each once, and accepts
  agents exactly when one of them is reached through an agent. It refuses to start only when none is enabled
  or a MiniMax provider lacks its key or its HTTP client.\<close>

theorem installed_providers_are_served:
  assumes "reads_back codec" and "usable path d" and "dk_files d path = None"
    and "\<forall>(now, c) \<in> set cs. command_state c \<in> {None, Some path} \<and> command_catalog c \<noteq> Some path"
    and "ra_asr_providers_state args = Some path" and "ra_asr_providers_config args = None"
    and "tab = table_commands (template_of codec d) cs Map.empty"
  shows "case select_asr_bridge codec (run_commands codec cs d) env args of
     Inr sel \<Rightarrow> set (map pd_id (served_descriptors (bsl_bridge sel))) = {i. \<exists>p. tab i = Some p \<and> ipr_enabled p} \<and>
       distinct (map pd_id (served_descriptors (bsl_bridge sel))) \<and>
       (bsl_registry sel \<noteq> None \<longleftrightarrow> (\<exists>i p. tab i = Some p \<and> ipr_enabled p \<and> uses_agent p))
   | Inl _ \<Rightarrow> (\<forall>i p. tab i = Some p \<longrightarrow> \<not> ipr_enabled p) \<or> (\<exists>i p. tab i = Some p \<and> ipr_enabled p \<and> no_bridge env p)"
proof -
  let ?d = "run_commands codec cs d"
  have "represents codec path tab ?d"
    using run_commands_represents [OF assms(1,2) represents_empty [OF assms(2,3)] assms(4)] assms(7) by simp
  then obtain st where load: "load_asr_provider_state_or_default codec ?d path = Ok st"
    and dist: "distinct (provider_ids (pcf_providers st))" and tab: "tab = table_of (pcf_providers st)"
    by (rule represents_loaded)
  have sel: "select_asr_bridge codec ?d env args =
      and_then (load_asr_provider_config codec ?d path) (select_asr_bridges_from_config env args path)"
    using assms(5,6) by (simp add: select_asr_bridge_def)
  show ?thesis
  proof (cases "load_asr_provider_config codec ?d path")
    case (Inl e)
    with load_config_state [of codec ?d path] load have "pcf_providers st = []" by simp
    with Inl show ?thesis by (simp add: sel tab table_of_def installed_lookup_def)
  next
    case (Inr c)
    with load_config_state [of codec ?d path] load have "c = st" by simp
    with Inr have start: "select_asr_bridge codec ?d env args = select_asr_bridges_from_config env args path st"
      by (simp add: sel)
    note picked = select_from_config [where env = env and args = args and path = path and c = st, folded start]
    have none: "enabled_providers st = [] \<longleftrightarrow> (\<forall>i p. tab i = Some p \<longrightarrow> \<not> ipr_enabled p)"
      using enabled_ids(3) [OF dist, of "\<lambda>_. True"] by (auto simp: enabled_providers_def tab list_ex_iff filter_empty_conv)
    note enabled = enabled_ids [OF dist, folded enabled_providers_def tab]
    show ?thesis
    proof (cases "select_asr_bridge codec ?d env args")
      case (Inl e)
      with picked show ?thesis unfolding none enabled(3) using enabled(2) by auto
    next
      case (Inr s)
      with picked have ids: "map pd_id (served_descriptors (bsl_bridge s)) = provider_ids (enabled_providers st)"
        and reg: "bsl_registry s \<noteq> None \<longleftrightarrow> list_ex uses_agent (enabled_providers st)" by simp_all
      show ?thesis unfolding Inr using enabled(1,2) enabled(3) [of uses_agent] by (simp only: sum.case ids reg)
    qed
  qed
qed

section \<open>Examples\<close>

text \<open>A disk whose files hold JSON documents.\<close>

definition demo_codec :: "json json_codec" where
  "demo_codec = \<lparr>jc_parse = Some, jc_render = id\<rparr>"

definition demo_catalog :: json where
  "demo_catalog = JObject [(''providers'', JArray
     [JObject [(''provider_id'', JString ''a''), (''bridge_mode'', JString ''tcp''), (''address'', JString ''h:1'')],
      JObject [(''provider_id'', JString ''b''), (''bridge_mode'', JString ''agent'')]])]"

definition demo_disk :: "json disk" where
  "demo_disk = \<lparr>dk_files = [''cat'' \<mapsto> demo_catalog], dk_read_error = Map.empty, dk_mkdir_error = (\<lambda>_. False),
     dk_write_error = Map.empty\<rparr>"

definition demo_install :: "string \<Rightarrow> providers_command" where
  "demo_install i = PcInstall \<lparr>ipa_provider_id = i, ipa_catalog = ''cat'', ipa_state = ''st'', ipa_enable = False, ipa_disable = False\<rparr>"

definition demo_commands :: "(u64 \<times> providers_command) list" where
  "demo_commands = [(1, demo_install ''a''), (2, demo_install ''b''),
     (3, PcDisable \<lparr>cpa_provider_id = ''a'', cpa_state = ''st''\<rparr>)]"

lemma demo_codec_reads: "reads_back demo_codec"
  by (simp add: reads_back_def demo_codec_def)

lemma demo_disk_usable: "usable ''st'' demo_disk" "dk_files demo_disk ''st'' = None"
  by (simp_all add: usable_def demo_disk_def)

lemma demo_commands_about:
  "\<forall>(now, c) \<in> set demo_commands. command_state c \<in> {None, Some ''st''} \<and> command_catalog c \<noteq> Some ''st''"
  by (simp add: demo_commands_def demo_install_def)

lemma demo_templates:
  "map_option cpr_bridge (template_of demo_codec demo_disk ''cat'' ''a'') = Some (BkTcp ''h:1'')"
  "map_option cpr_bridge (template_of demo_codec demo_disk ''cat'' ''b'') = Some (BkAgent None)"
  "map_option cpr_enabled_by_default (template_of demo_codec demo_disk ''cat'' ''b'') = Some True"
  by code_simp+

definition demo_table :: provider_table where
  "demo_table = table_commands (template_of demo_codec demo_disk) demo_commands Map.empty"

lemma demo_table_entries:
  "map_option (\<lambda>p. (ipr_enabled p, ipr_bridge p)) (demo_table ''a'') = Some (False, BkTcp ''h:1'')"
  "map_option (\<lambda>p. (ipr_enabled p, ipr_bridge p)) (demo_table ''b'') = Some (True, BkAgent None)"
  "i \<noteq> ''a'' \<Longrightarrow> i \<noteq> ''b'' \<Longrightarrow> demo_table i = None"
  using demo_templates
  by (auto simp: demo_table_def table_commands_def demo_commands_def demo_install_def installed_entry_def)

text \<open>The first provider, installed at 1 and disabled at 3, is installed again at 9.\<close>

definition demo_again :: "(u64 \<times> providers_command) list" where
  "demo_again = demo_commands @ [(9, demo_install ''a'')]"

theorem provider_commands_refine_table_witness:
  "\<exists>st. load_asr_provider_state_or_default demo_codec (run_commands demo_codec demo_again demo_disk) ''st'' = Ok st \<and>
     map_option (\<lambda>p. (ipr_enabled p, ipr_installed_at p)) (installed_lookup ''a'' (pcf_providers st)) = Some (False, Some 1)"
proof -
  have about: "\<forall>(now, c) \<in> set demo_again. command_state c \<in> {None, Some ''st''} \<and> command_catalog c \<noteq> Some ''st''"
    using demo_commands_about by (simp add: demo_again_def demo_install_def)
  let ?tab = "table_commands (template_of demo_codec demo_disk) demo_again Map.empty"
  have load0: "load_asr_provider_state_or_default demo_codec demo_disk ''st'' =
      Ok \<lparr>pcf_format = Some asr_provider_state_format, pcf_providers = []\<rparr>"
    by (simp add: load_asr_provider_state_or_default_def read_to_string_def demo_disk_def)
  have "table_of [] = Map.empty" by (simp add: table_of_def installed_lookup_def fun_eq_iff)
  then have "represents demo_codec ''st'' ?tab (run_commands demo_codec demo_again demo_disk)"
    using provider_commands_refine_table [OF demo_codec_reads demo_disk_usable(1) about]
    by (simp add: load0 provider_ids_def)
  then obtain st where load: "load_asr_provider_state_or_default demo_codec (run_commands demo_codec demo_again demo_disk) ''st'' = Ok st"
    and "installed_lookup ''a'' (pcf_providers st) = ?tab ''a''" by (rule represents_loaded) auto
  moreover have "map_option (\<lambda>p. (ipr_enabled p, ipr_installed_at p)) (?tab ''a'') = Some (False, Some 1)"
    using demo_templates
    by (auto simp: table_commands_def demo_again_def demo_commands_def demo_install_def installed_entry_def)
  ultimately show ?thesis by auto
qed

definition demo_env :: daemon_env where
  "demo_env = \<lparr>env_vars = Map.empty, env_read = (\<lambda>_. Inl ''none''), env_exists = (\<lambda>_. False), env_http_client = None\<rparr>"

text \<open>The default arguments of the command line, with a provider state file.\<close>

definition demo_args :: run_args where
  "demo_args = \<lparr>ra_listen = ''127.0.0.1:8765'', ra_protocol_version = ''v1'', ra_server_name = ''speechmeshd'',
     ra_asr_providers_config = None, ra_asr_providers_state = Some ''st'', ra_asr_bridge_mode = AbmMock,
     ra_asr_provider_id = ''bridge.asr'', ra_asr_bridge_command = None, ra_asr_bridge_args = [],
     ra_asr_bridge_address = None, ra_agent_shared_secret = None, ra_agent_start_timeout_secs = 10,
     ra_asr_minimax_provider_id = ''minimax.asr'', ra_asr_minimax_provider_name = ''MiniMax ASR'',
     ra_asr_minimax_base_url = default_minimax_base_url, ra_asr_minimax_api_key = None,
     ra_asr_minimax_api_key_file = None, ra_asr_minimax_model = ''speech-01-turbo'',
     ra_asr_minimax_partial_min_bytes = 32000, ra_tts_bridge_mode = TbmDisabled, ra_tts_providers = [],
     ra_tts_provider_id = ''tts.bridge'', ra_tts_provider_name = ''SpeechMesh TTS'', ra_tts_melo_base_url = None,
     ra_tts_qwen3_base_url = None, ra_tts_qwen3_provider_id = ''qwen3.tts'', ra_tts_qwen3_provider_name = ''Qwen3 TTS'',
     ra_tts_qwen3_model = None, ra_tts_qwen3_voice = None, ra_tts_qwen3_language = None,
     ra_tts_qwen3_sample_rate_hz = 24000, ra_tts_minimax_provider_id = ''minimax.tts'',
     ra_tts_minimax_provider_name = ''MiniMax Speech'', ra_tts_minimax_base_url = ''https://api.minimaxi.com'',
     ra_tts_minimax_api_key = None, ra_tts_minimax_group_id = None, ra_tts_minimax_api_key_file = None,
     ra_tts_minimax_model = ''speech-2.8-hd'', ra_tts_minimax_voice_id = ''female-shaonv'',
     ra_tts_minimax_sample_rate_hz = 32000, ra_tts_minimax_format = ''mp3'', ra_tts_chunk_size_bytes = 16384\<rparr>"

theorem installed_providers_are_served_witness:
  "\<exists>sel. select_asr_bridge demo_codec (run_commands demo_codec demo_commands demo_disk) demo_env demo_args = Ok sel \<and>
     set (map pd_id (served_descriptors (bsl_bridge sel))) = {''b''} \<and> bsl_registry sel \<noteq> None"
proof -
  have b: "\<exists>p. demo_table ''b'' = Some p \<and> ipr_enabled p \<and> uses_agent p \<and> \<not> no_bridge demo_env p"
    using demo_table_entries(2) by (auto simp: no_bridge_def)
  have only: "demo_table i = Some p \<Longrightarrow> ipr_enabled p \<Longrightarrow> i = ''b''" for i p
    using demo_table_entries(1) demo_table_entries(3) [of i] by (cases "i = ''a''") auto
  have state: "ra_asr_providers_state demo_args = Some ''st''" "ra_asr_providers_config demo_args = None"
    by (simp_all add: demo_args_def)
  have none_missing: "\<not> (\<exists>i p. demo_table i = Some p \<and> ipr_enabled p \<and> no_bridge demo_env p)"
    using only b by (metis option.inject)
  have ids: "{i. \<exists>p. demo_table i = Some p \<and> ipr_enabled p} = {''b''}" using only b by blast
  note served = installed_providers_are_served [OF demo_codec_reads demo_disk_usable demo_commands_about state demo_table_def,
      of demo_env]
  show ?thesis
  proof (cases "select_asr_bridge demo_codec (run_commands demo_codec demo_commands demo_disk) demo_env demo_args")
    case (Inl e)
    with served none_missing b show ?thesis by auto
  next
    case (Inr s)
    with served ids b show ?thesis by auto
  qed
qed

end
