(* ===== verification/AppUpdate.thy ===== *)
theory AppUpdate
  imports JsonDecode BridgeCommon "HOL-Library.List_Lexorder" "HOL-Library.Char_ord"
begin

text \<open>
  Updating the client binary, \<^verbatim>\<open>app/src/main.rs\<close>: the update manifest, the choice of a release, the replacement of
  the binary and the loop of the automatic update. The HTTP replies, the digest, the parser of the \<^verbatim>\<open>semver\<close>
  crate, the outcomes of file operations and of the commands that are run are parameters.
\<close>

section \<open>Targets and versions\<close>

record client_target =
  ct_platform :: string
  ct_arch :: string

definition canonical_platform :: "string \<Rightarrow> string" where
  "canonical_platform value =
     (let v = to_ascii_lowercase (trim value)
      in if v \<in> {''darwin'', ''macos'', ''mac'', ''osx''} then ''macos'' else if v = ''linux'' then ''linux'' else v)"

definition canonical_arch :: "string \<Rightarrow> string" where
  "canonical_arch value =
     (let v = to_ascii_lowercase (trim value)
      in if v \<in> {''x86_64'', ''amd64''} then ''x86_64'' else if v \<in> {''aarch64'', ''arm64''} then ''aarch64'' else v)"

definition default_channel :: string where
  "default_channel = ''stable''"

datatype update_status = UpdateAvailable | UpToDate | DowngradeAvailable | VersionUnknown

text \<open>\<open>sv\<close> is \<^verbatim>\<open>Version::parse\<close>, whose versions are linearly ordered.\<close>

definition parse_semver :: "(string \<Rightarrow> 'v option) \<Rightarrow> string \<Rightarrow> 'v option" where
  "parse_semver sv value = sv (dropWhile (\<lambda>c. c = CHR ''v'') value)"

definition compare_versions :: "(string \<Rightarrow> 'v :: linorder option) \<Rightarrow> string \<Rightarrow> string \<Rightarrow> update_status" where
  "compare_versions sv current target =
     (case (parse_semver sv current, parse_semver sv target) of
        (Some c, Some t) \<Rightarrow> if c < t then UpdateAvailable else if t = c then UpToDate else DowngradeAvailable
      | _ \<Rightarrow> if current = target then UpToDate else VersionUnknown)"

fun update_status_label :: "update_status \<Rightarrow> string" where
  "update_status_label UpdateAvailable = ''update_available''"
| "update_status_label UpToDate = ''up_to_date''"
| "update_status_label DowngradeAvailable = ''downgrade_available''"
| "update_status_label VersionUnknown = ''version_unknown''"

section \<open>The manifest\<close>

record legacy_manifest =
  lm_version :: string
  lm_url :: string
  lm_sha256 :: string

record manifest_asset =
  ma_platform :: string
  ma_arch :: string
  ma_url :: string
  ma_sha256 :: string
  ma_binary_name :: "string option"

record manifest_release =
  mr_version :: string
  mr_channel :: "string option"
  mr_notes_url :: "string option"
  mr_published_at :: "string option"
  mr_assets :: "manifest_asset list"

record update_manifest =
  um_schema :: "string option"
  um_default_channel :: "string option"
  um_releases :: "manifest_release list"

datatype manifest_envelope = Rich update_manifest | Legacy legacy_manifest

definition decode_manifest_asset :: "json \<Rightarrow> manifest_asset option" where
  "decode_manifest_asset v =
     (let mem = member [''platform'', ''arch'', ''url'', ''sha256'', ''binary_name''] v
      in Option.bind (required dec_string (mem ''platform'')) (\<lambda>platform.
         Option.bind (required dec_string (mem ''arch'')) (\<lambda>arch.
         Option.bind (required dec_string (mem ''url'')) (\<lambda>url.
         Option.bind (required dec_string (mem ''sha256'')) (\<lambda>sha256.
         map_option (\<lambda>name. \<lparr>ma_platform = platform, ma_arch = arch, ma_url = url, ma_sha256 = sha256, ma_binary_name = name\<rparr>)
           (optional_string (mem ''binary_name'')))))))"

definition decode_manifest_release :: "json \<Rightarrow> manifest_release option" where
  "decode_manifest_release v =
     (let mem = member [''version'', ''channel'', ''notes_url'', ''published_at'', ''assets''] v
      in Option.bind (required dec_string (mem ''version'')) (\<lambda>version.
         Option.bind (optional_string (mem ''channel'')) (\<lambda>chan.
         Option.bind (optional_string (mem ''notes_url'')) (\<lambda>notes.
         Option.bind (optional_string (mem ''published_at'')) (\<lambda>published.
         map_option (\<lambda>assets. \<lparr>mr_version = version, mr_channel = chan, mr_notes_url = notes,
                              mr_published_at = published, mr_assets = assets\<rparr>)
           (required (dec_list decode_manifest_asset) (mem ''assets'')))))))"

definition decode_update_manifest :: "json \<Rightarrow> update_manifest option" where
  "decode_update_manifest v =
     (let mem = member [''schema'', ''default_channel'', ''releases''] v
      in Option.bind (optional_string (mem ''schema'')) (\<lambda>schema.
         Option.bind (optional_string (mem ''default_channel'')) (\<lambda>chan.
         map_option (\<lambda>releases. \<lparr>um_schema = schema, um_default_channel = chan, um_releases = releases\<rparr>)
           (required (dec_list decode_manifest_release) (mem ''releases'')))))"

text \<open>The aliases of \<^verbatim>\<open>url\<close> are one member: two of them are a duplicate.\<close>

fun unalias :: "json \<Rightarrow> json" where
  "unalias (JObject kvs) = JObject (map (\<lambda>(k, v). (if k \<in> {''asset_url'', ''download_url''} then ''url'' else k, v)) kvs)"
| "unalias v = v"

definition decode_legacy_manifest :: "json \<Rightarrow> legacy_manifest option" where
  "decode_legacy_manifest v =
     (let mem = member [''version'', ''url'', ''sha256''] (unalias v)
      in Option.bind (required dec_string (mem ''version'')) (\<lambda>version.
         Option.bind (required dec_string (mem ''url'')) (\<lambda>url.
         map_option (\<lambda>sha256. \<lparr>lm_version = version, lm_url = url, lm_sha256 = sha256\<rparr>)
           (required dec_string (mem ''sha256'')))))"

text \<open>The untagged enum: the first form that fits.\<close>

definition decode_manifest_envelope :: "json \<Rightarrow> manifest_envelope option" where
  "decode_manifest_envelope v = or_else (map_option Rich (decode_update_manifest v)) (map_option Legacy (decode_legacy_manifest v))"

section \<open>Choosing a release\<close>

record resolved_update =
  ru_version :: string
  ru_channel :: string
  ru_url :: string
  ru_sha256 :: string
  ru_target :: client_target
  ru_notes_url :: "string option"
  ru_published_at :: "string option"

definition asset_matches_target :: "client_target \<Rightarrow> manifest_asset \<Rightarrow> bool" where
  "asset_matches_target t a \<longleftrightarrow> canonical_platform (ma_platform a) = ct_platform t \<and> canonical_arch (ma_arch a) = ct_arch t"

text \<open>\<open>compare_manifest_versions left right\<close> is not \<^verbatim>\<open>Greater\<close>.\<close>

definition manifest_version_le :: "(string \<Rightarrow> 'v :: linorder option) \<Rightarrow> string \<Rightarrow> string \<Rightarrow> bool" where
  "manifest_version_le sv left right =
     (case (parse_semver sv left, parse_semver sv right) of
        (Some l, Some r) \<Rightarrow> l \<le> r
      | _ \<Rightarrow> left \<le> right)"

text \<open>
  \<^verbatim>\<open>sort_by\<close>, which is stable: an element goes before the first that is not before it. The standard library
  promises a sorted result only when the comparison is a total order.
\<close>

fun insert_by :: "('a \<Rightarrow> 'a \<Rightarrow> bool) \<Rightarrow> 'a \<Rightarrow> 'a list \<Rightarrow> 'a list" where
  "insert_by le x [] = [x]"
| "insert_by le x (y # ys) = (if le x y then x # y # ys else y # insert_by le x ys)"

definition sort_by :: "('a \<Rightarrow> 'a \<Rightarrow> bool) \<Rightarrow> 'a list \<Rightarrow> 'a list" where
  "sort_by le xs = foldr (insert_by le) xs []"

type_synonym candidate = "manifest_release \<times> string \<times> manifest_asset"

definition release_channel :: "update_manifest \<Rightarrow> manifest_release \<Rightarrow> string" where
  "release_channel m r = unwrap_or (mr_channel r) (unwrap_or (um_default_channel m) default_channel)"

definition release_candidate :: "update_manifest \<Rightarrow> string \<Rightarrow> client_target \<Rightarrow> manifest_release \<Rightarrow> candidate option" where
  "release_candidate m normalized_channel t r =
     (if to_ascii_lowercase (release_channel m r) \<noteq> normalized_channel then None
      else map_option (\<lambda>a. (r, release_channel m r, a)) (find (asset_matches_target t) (mr_assets r)))"

definition requested_channel :: "update_manifest \<Rightarrow> string \<Rightarrow> string" where
  "requested_channel m requested =
     (if trim requested = [] then unwrap_or (um_default_channel m) default_channel else trim requested)"

definition resolve_candidate :: "candidate \<Rightarrow> string + resolved_update" where
  "resolve_candidate c =
     (case c of (r, chan, a) \<Rightarrow>
        (case opt_filter (\<lambda>name. name \<noteq> ''speechmesh'') (ma_binary_name a) of
           Some name \<Rightarrow> Err (''manifest asset binary_name '' @ name @ '' does not match expected speechmesh'')
         | None \<Rightarrow>
             Ok \<lparr>ru_version = mr_version r, ru_channel = chan, ru_url = ma_url a, ru_sha256 = ma_sha256 a,
                 ru_target = \<lparr>ct_platform = canonical_platform (ma_platform a), ct_arch = canonical_arch (ma_arch a)\<rparr>,
                 ru_notes_url = mr_notes_url r, ru_published_at = mr_published_at r\<rparr>))"

definition no_release :: "string \<Rightarrow> client_target \<Rightarrow> string" where
  "no_release chan t =
     ''no matching release found for channel '' @ chan @ '' and platform '' @ ct_platform t @ ''/'' @ ct_arch t"

definition manifest_candidates :: "update_manifest \<Rightarrow> string \<Rightarrow> client_target \<Rightarrow> candidate list" where
  "manifest_candidates m requested t =
     List.map_filter (release_candidate m (to_ascii_lowercase (requested_channel m requested)) t) (um_releases m)"

definition select_manifest_release ::
  "(string \<Rightarrow> 'v :: linorder option) \<Rightarrow> update_manifest \<Rightarrow> string \<Rightarrow> client_target \<Rightarrow> string + resolved_update" where
  "select_manifest_release sv m requested t =
     (case opt_filter (\<lambda>s. s \<noteq> [] \<and> s \<noteq> ''speechmesh/update-manifest.v1'') (um_schema m) of
        Some schema \<Rightarrow> Err (''unsupported update manifest schema: '' @ schema)
      | None \<Rightarrow>
          (case sort_by (\<lambda>l r. manifest_version_le sv (mr_version (fst r)) (mr_version (fst l)))
                  (manifest_candidates m requested t) of
             [] \<Rightarrow> Err (no_release (requested_channel m requested) t)
           | c # _ \<Rightarrow> resolve_candidate c))"

section \<open>Files\<close>

text \<open>
  Files by path, each with its contents and permissions, and the errors of the operations: a failed write leaves what
  \<open>uf_write_error\<close> gives with the error.
\<close>

record app_file =
  fl_bytes :: bytes
  fl_mode :: nat

record app_files =
  uf_files :: "string \<rightharpoonup> app_file"
  uf_default_mode :: nat
  uf_write_error :: "string \<rightharpoonup> string \<times> bytes"
  uf_stat_error :: "string \<rightharpoonup> string"
  uf_chmod_error :: "string \<rightharpoonup> string"
  uf_remove_error :: "string \<rightharpoonup> string"
  uf_rename_error :: "string \<Rightarrow> string \<Rightarrow> string option"
  uf_mkdir_error :: "string \<rightharpoonup> string"

type_synonym 'a file_op = "app_files \<Rightarrow> (string + 'a) \<times> app_files"

definition put_file :: "string \<Rightarrow> app_file option \<Rightarrow> app_files \<Rightarrow> app_files" where
  "put_file path f s = s\<lparr>uf_files := (uf_files s)(path := f)\<rparr>"

definition fs_write :: "string \<Rightarrow> bytes \<Rightarrow> unit file_op" where
  "fs_write path bytes s =
     (let mode = (case uf_files s path of Some f \<Rightarrow> fl_mode f | None \<Rightarrow> uf_default_mode s)
      in case uf_write_error s path of
           Some (e, left) \<Rightarrow> (Err e, put_file path (Some \<lparr>fl_bytes = left, fl_mode = mode\<rparr>) s)
         | None \<Rightarrow> (Ok (), put_file path (Some \<lparr>fl_bytes = bytes, fl_mode = mode\<rparr>) s))"

definition fs_rename :: "string \<Rightarrow> string \<Rightarrow> unit file_op" where
  "fs_rename src dst s =
     (case uf_rename_error s src dst of
        Some e \<Rightarrow> (Err e, s)
      | None \<Rightarrow>
          (case uf_files s src of
             None \<Rightarrow> (Err ''No such file or directory'', s)
           | Some f \<Rightarrow> (Ok (), put_file dst (Some f) (put_file src None s))))"

definition fs_remove :: "string \<Rightarrow> unit file_op" where
  "fs_remove path s =
     (case uf_remove_error s path of Some e \<Rightarrow> (Err e, s) | None \<Rightarrow> (Ok (), put_file path None s))"

definition fs_exists :: "app_files \<Rightarrow> string \<Rightarrow> bool" where
  "fs_exists s path \<longleftrightarrow> uf_files s path \<noteq> None \<and> uf_stat_error s path = None"

text \<open>\<^verbatim>\<open>with_context\<close> and \<^verbatim>\<open>?\<close>; an error is kept as its chain, as \<^verbatim>\<open>{error:#}\<close> prints it.\<close>

definition in_context :: "string \<Rightarrow> (string + 'a) \<times> app_files \<Rightarrow> (string + 'a) \<times> app_files" where
  "in_context c r = (map_sum (\<lambda>e. c @ '': '' @ e) id (fst r), snd r)"

definition fs_then :: "(string + 'a) \<times> app_files \<Rightarrow> ('a \<Rightarrow> 'b file_op) \<Rightarrow> (string + 'b) \<times> app_files" where
  "fs_then r k = (case r of (Inl e, s) \<Rightarrow> (Err e, s) | (Inr x, s) \<Rightarrow> k x s)"

text \<open>\<^verbatim>\<open>Path::parent\<close> and \<^verbatim>\<open>Path::file_name\<close>: a trailing slash or dot does not count.\<close>

function strip_tail :: "string \<Rightarrow> string" where
  "strip_tail p =
     (if p \<noteq> [] \<and> last p = CHR ''/'' then strip_tail (butlast p)
      else (case strip_suffix ''/.'' p of Some q \<Rightarrow> strip_tail q | None \<Rightarrow> p))"
  by pat_completeness auto
termination
  by (relation "measure length") (auto simp: strip_suffix_Some_iff)

declare strip_tail.simps [simp del]

definition path_name :: "string \<Rightarrow> string option" where
  "path_name path =
     (let name = rev (takeWhile (\<lambda>c. c \<noteq> CHR ''/'') (rev (strip_tail path)))
      in if name \<in> {[], ''.'', ''..''} then None else Some name)"

definition path_parent :: "string \<Rightarrow> string option" where
  "path_parent path =
     (let p = strip_tail path; dir = rev (dropWhile (\<lambda>c. c \<noteq> CHR ''/'') (rev p))
      in if p = [] then None
         else if dir = [] then Some []
         else Some (if strip_tail dir = [] then ''/'' else strip_tail dir))"

section \<open>Replacing the binary\<close>

definition copy_permissions :: "string \<Rightarrow> string \<Rightarrow> unit file_op" where
  "copy_permissions source destination s =
     (case (uf_stat_error s source, uf_files s source) of
        (None, Some f) \<Rightarrow>
          (case uf_chmod_error s destination of
             Some e \<Rightarrow> (Err (''failed to apply permissions to '' @ destination @ '': '' @ e), s)
           | None \<Rightarrow> (Ok (), put_file destination (map_option (\<lambda>g. g\<lparr>fl_mode := fl_mode f\<rparr>) (uf_files s destination)) s))
      | (e, _) \<Rightarrow> (Err (''failed to read permissions for '' @ source @ '': '' @ unwrap_or e ''No such file or directory''), s))"

definition update_path :: "string \<Rightarrow> string \<Rightarrow> string" where
  "update_path parent name = path_join parent (''.'' @ name @ ''.update'')"

definition backup_path :: "string \<Rightarrow> string \<Rightarrow> string" where
  "backup_path parent name = path_join parent (''.'' @ name @ ''.prev'')"

text \<open>The last two steps: the current binary is moved away, and back if the new one cannot take its place.\<close>

definition swap_binary :: "string \<Rightarrow> string \<Rightarrow> string \<Rightarrow> unit file_op" where
  "swap_binary target temp backup s =
     fs_then (in_context (''failed to back up current binary '' @ target) (fs_rename target backup s)) (\<lambda>_ s1.
       (case fs_rename temp target s1 of
          (Inl e, s2) \<Rightarrow> (Err (''failed to replace binary '' @ target @ '': '' @ e), snd (fs_rename backup target s2))
        | (Inr _, s2) \<Rightarrow> (Ok (), s2)))"

definition replace_binary :: "string \<Rightarrow> bytes \<Rightarrow> unit file_op" where
  "replace_binary target bytes s =
     (case path_parent target of
        None \<Rightarrow> (Err (''target binary has no parent directory: '' @ target), s)
      | Some parent \<Rightarrow>
          (case path_name target of
             None \<Rightarrow> (Err (''target binary has no file name: '' @ target), s)
           | Some name \<Rightarrow>
               (let temp = update_path parent name; backup = backup_path parent name
                in fs_then (in_context (''failed to write temp update '' @ temp) (fs_write temp bytes s)) (\<lambda>_ s1.
                   fs_then (copy_permissions target temp s1) (\<lambda>_ s2.
                   fs_then (if fs_exists s2 backup
                            then in_context (''failed to remove old backup binary '' @ backup) (fs_remove backup s2)
                            else (Ok (), s2)) (\<lambda>_ s3.
                   swap_binary target temp backup s3))))))"

section \<open>Self-update\<close>

datatype restart_mode = RestartNone | RestartLaunchd | RestartSystemdUser

fun restart_mode_label :: "restart_mode \<Rightarrow> string" where
  "restart_mode_label RestartNone = ''none''"
| "restart_mode_label RestartLaunchd = ''launchd''"
| "restart_mode_label RestartSystemdUser = ''systemd-user''"

record self_update_args =
  sua_manifest_url :: "string option"
  sua_channel :: string
  sua_asset_url :: "string option"
  sua_sha256 :: "string option"
  sua_version :: "string option"
  sua_dry_run :: bool
  sua_force :: bool
  sua_restart_mode :: restart_mode
  sua_service_name :: "string option"
  sua_binary_path :: "string option"

record restart_plan =
  rp_requested_mode :: string
  rp_service_name :: "string option"
  rp_performed :: bool
  rp_hint :: "string option"

record self_update_report =
  sur_current_version :: string
  sur_target_version :: string
  sur_status :: update_status
  sur_executable :: string
  sur_channel :: string
  sur_url :: string
  sur_sha256 :: string
  sur_bytes :: nat
  sur_dry_run :: bool
  sur_applied :: bool
  sur_restart :: restart_plan

text \<open>
  The world of one run: the host, the running version and executable, the replies of the manifest and asset
  requests, the digest, and the commands: the user id (or its error) and the outcome of a command line.
\<close>

datatype command_outcome = NotStarted string | Exited bool string

record 'v update_world =
  uw_os :: string
  uw_arch :: string
  uw_version :: string
  uw_current_exe :: "string + string"
  uw_semver :: "string \<Rightarrow> 'v option"
  uw_manifest :: "string \<Rightarrow> json http_reply"
  uw_asset :: "string \<Rightarrow> bytes http_reply"
  uw_sha256 :: "bytes \<Rightarrow> bytes"
  uw_uid :: "string + string"
  uw_run :: "string list \<Rightarrow> command_outcome"
  uw_now :: u64

definition current_target :: "'v update_world \<Rightarrow> client_target" where
  "current_target w = \<lparr>ct_platform = canonical_platform (uw_os w), ct_arch = canonical_arch (uw_arch w)\<rparr>"

definition fetch_manifest :: "'v update_world \<Rightarrow> string \<Rightarrow> string + manifest_envelope" where
  "fetch_manifest w url =
     (case uw_manifest w url of
        SendFailed e \<Rightarrow> Err (''failed to fetch manifest '' @ url @ '': '' @ e)
      | BadStatus e _ \<Rightarrow> Err (''manifest request failed for '' @ url @ '': '' @ e)
      | Replied (Inl e) \<Rightarrow> Err (''failed to decode manifest '' @ url @ '': '' @ e)
      | Replied (Inr v) \<Rightarrow>
          (case decode_manifest_envelope v of
             Some m \<Rightarrow> Ok m
           | None \<Rightarrow> Err (''failed to decode manifest '' @ url @
               '': error decoding response body: data did not match any variant of untagged enum UpdateManifestEnvelope'')))"

definition download_binary :: "'v update_world \<Rightarrow> string \<Rightarrow> string + bytes" where
  "download_binary w url =
     (case uw_asset w url of
        SendFailed e \<Rightarrow> Err (''failed to download asset '' @ url @ '': '' @ e)
      | BadStatus e _ \<Rightarrow> Err (''asset request failed for '' @ url @ '': '' @ e)
      | Replied (Inl e) \<Rightarrow> Err (''failed to read asset body '' @ url @ '': '' @ e)
      | Replied (Inr bs) \<Rightarrow> Ok bs)"

definition hex_char :: "nat \<Rightarrow> char" where
  "hex_char n = (if n < 10 then digit_char n else char_of (87 + n))"

definition sha256_hex :: "'v update_world \<Rightarrow> bytes \<Rightarrow> string" where
  "sha256_hex w bs = concat (map (\<lambda>b. [hex_char (unat b div 16), hex_char (unat b mod 16)]) (uw_sha256 w bs))"

definition resolve_manifest_release ::
  "('v :: linorder) update_world \<Rightarrow> string \<Rightarrow> string \<Rightarrow> client_target \<Rightarrow> string + resolved_update" where
  "resolve_manifest_release w url requested t =
     and_then (fetch_manifest w url) (\<lambda>envelope.
       case envelope of
         Legacy m \<Rightarrow>
           Ok \<lparr>ru_version = lm_version m, ru_channel = requested, ru_url = lm_url m, ru_sha256 = lm_sha256 m, ru_target = t,
               ru_notes_url = None, ru_published_at = None\<rparr>
       | Rich m \<Rightarrow> select_manifest_release (uw_semver w) m requested t)"

definition resolve_update_plan :: "('v :: linorder) update_world \<Rightarrow> self_update_args \<Rightarrow> string + resolved_update" where
  "resolve_update_plan w a =
     (case (sua_manifest_url a, sua_asset_url a) of
        (Some manifest_url, None) \<Rightarrow> resolve_manifest_release w manifest_url (sua_channel a) (current_target w)
      | (None, Some asset_url) \<Rightarrow>
          and_then (ok_or (sua_sha256 a) ''--sha256 is required with --asset-url'') (\<lambda>sha256.
            Ok \<lparr>ru_version = unwrap_or (sua_version a) ''unknown'', ru_channel = sua_channel a, ru_url = asset_url,
                ru_sha256 = sha256, ru_target = current_target w, ru_notes_url = None, ru_published_at = None\<rparr>)
      | (Some _, Some _) \<Rightarrow> Err ''use either --manifest-url or --asset-url, not both''
      | (None, None) \<Rightarrow> Err ''either --manifest-url or --asset-url is required'')"

definition refuse_status :: "string \<Rightarrow> string \<Rightarrow> update_status \<Rightarrow> string option" where
  "refuse_status current target status =
     (case status of
        UpdateAvailable \<Rightarrow> None
      | UpToDate \<Rightarrow> Some (''target version '' @ target @ '' matches current version '' @ current @
                          ''; pass --force to replace anyway'')
      | DowngradeAvailable \<Rightarrow> Some (''target version '' @ target @ '' is older than current version '' @ current @
                          ''; pass --force to replace anyway'')
      | VersionUnknown \<Rightarrow> Some (''unable to compare current version '' @ current @ '' with target '' @ target @
                          ''; pass --force to replace anyway''))"

definition restart_hint :: "string \<Rightarrow> restart_mode \<Rightarrow> string option \<Rightarrow> string option" where
  "restart_hint os mode service =
     (case mode of
        RestartNone \<Rightarrow>
          (if os = ''macos'' then
             Some (''If this binary is managed by launchd, run `launchctl kickstart -k gui/$(id -u)/<label>` '' @ ''after updating.'')
           else if os = ''linux'' then
             Some (''If this binary is managed by systemd --user, run `systemctl --user restart <service>` '' @ ''after updating.'')
           else None)
      | RestartLaunchd \<Rightarrow>
          Some (''Service restart command: launchctl kickstart -k gui/$(id -u)/'' @ unwrap_or service ''<label>'')
      | RestartSystemdUser \<Rightarrow>
          Some (''Service restart command: systemctl --user restart '' @ unwrap_or service ''<service>''))"

definition run_restart :: "'v update_world \<Rightarrow> string list \<Rightarrow> string \<Rightarrow> string \<Rightarrow> string + unit" where
  "run_restart w argv not_started failed =
     (case uw_run w argv of
        NotStarted e \<Rightarrow> Err (not_started @ '': '' @ e)
      | Exited True _ \<Rightarrow> Ok ()
      | Exited False status \<Rightarrow> Err (failed @ '' with status '' @ status))"

fun restart_managed_service :: "'v update_world \<Rightarrow> restart_mode \<Rightarrow> string option \<Rightarrow> string + unit" where
  "restart_managed_service w RestartNone service_name = Ok ()"
| "restart_managed_service w RestartLaunchd service_name =
     and_then (ok_or service_name ''--service-name is required with --restart-mode launchd'') (\<lambda>label.
     and_then (uw_uid w) (\<lambda>uid.
       run_restart w [''launchctl'', ''kickstart'', ''-k'', ''gui/'' @ trim uid @ ''/'' @ label]
         (''failed to restart launchd service '' @ label) (''launchd restart failed for '' @ label)))"
| "restart_managed_service w RestartSystemdUser service_name =
     and_then (ok_or service_name ''--service-name is required with --restart-mode systemd-user'') (\<lambda>service.
       run_restart w [''systemctl'', ''--user'', ''restart'', service]
         (''failed to restart systemd --user service '' @ service) (''systemd --user restart failed for '' @ service))"

text \<open>Replacing the binary and restarting the service, unless it is a dry run: whether a restart was performed.\<close>

definition apply_update :: "'v update_world \<Rightarrow> self_update_args \<Rightarrow> string \<Rightarrow> bytes \<Rightarrow> bool file_op" where
  "apply_update w a binary bytes s =
     (if sua_dry_run a then (Ok False, s)
      else fs_then (replace_binary binary bytes s) (\<lambda>_ s1.
             if sua_restart_mode a = RestartNone then (Ok False, s1)
             else (map_sum id (\<lambda>_. True) (restart_managed_service w (sua_restart_mode a) (sua_service_name a)), s1)))"

text \<open>What is decided before anything is changed: the release, the binary and the verified bytes.\<close>

definition verified_update ::
  "('v :: linorder) update_world \<Rightarrow> self_update_args \<Rightarrow> string + resolved_update \<times> string \<times> bytes" where
  "verified_update w a =
     and_then (resolve_update_plan w a) (\<lambda>release.
     and_then (map_sum (\<lambda>e. ''failed to resolve current executable: '' @ e) id (uw_current_exe w)) (\<lambda>exe.
     (let binary = unwrap_or (sua_binary_path a) exe
      in case (if sua_force a then None
               else refuse_status (uw_version w) (ru_version release) (compare_versions (uw_semver w) (uw_version w) (ru_version release))) of
           Some e \<Rightarrow> Err e
         | None \<Rightarrow>
             and_then (download_binary w (ru_url release)) (\<lambda>bytes.
               if to_ascii_lowercase (sha256_hex w bytes) \<noteq> to_ascii_lowercase (trim (ru_sha256 release)) then
                 Err (''sha256 mismatch: expected '' @ ru_sha256 release @ '', got '' @ sha256_hex w bytes)
               else Ok (release, binary, bytes)))))"

definition self_update_report_of ::
  "('v :: linorder) update_world \<Rightarrow> self_update_args \<Rightarrow> resolved_update \<Rightarrow> string \<Rightarrow> bytes \<Rightarrow> bool \<Rightarrow> self_update_report" where
  "self_update_report_of w a release binary bytes restarted =
     \<lparr>sur_current_version = uw_version w, sur_target_version = ru_version release,
      sur_status = compare_versions (uw_semver w) (uw_version w) (ru_version release), sur_executable = binary,
      sur_channel = ru_channel release, sur_url = ru_url release, sur_sha256 = sha256_hex w bytes, sur_bytes = length bytes,
      sur_dry_run = sua_dry_run a, sur_applied = (\<not> sua_dry_run a),
      sur_restart = \<lparr>rp_requested_mode = restart_mode_label (sua_restart_mode a), rp_service_name = sua_service_name a,
        rp_performed = restarted, rp_hint = restart_hint (uw_os w) (sua_restart_mode a) (sua_service_name a)\<rparr>\<rparr>"

definition execute_self_update :: "('v :: linorder) update_world \<Rightarrow> self_update_args \<Rightarrow> self_update_report file_op" where
  "execute_self_update w a s =
     (case verified_update w a of
        Inl e \<Rightarrow> (Err e, s)
      | Inr (release, binary, bytes) \<Rightarrow>
          fs_then (apply_update w a binary bytes s) (\<lambda>restarted s1.
            (Ok (self_update_report_of w a release binary bytes restarted), s1)))"

section \<open>Automatic updates\<close>

record auto_update_args =
  aua_manifest_url :: string
  aua_channel :: string
  aua_interval_secs :: u64
  aua_once :: bool
  aua_restart_mode :: restart_mode
  aua_service_name :: "string option"
  aua_status_file :: "string option"
  aua_binary_path :: "string option"

record cycle_report =
  cyr_unix_time_secs :: u64
  cyr_event :: string
  cyr_status :: string
  cyr_current_version :: string
  cyr_target_version :: "string option"
  cyr_executable :: string
  cyr_manifest_url :: string
  cyr_channel :: string
  cyr_interval_secs :: u64
  cyr_release_url :: "string option"
  cyr_release_sha256 :: "string option"
  cyr_bytes :: "nat option"
  cyr_applied :: bool
  cyr_restart_performed :: bool
  cyr_error :: "string option"

definition build_auto_update_self_update_args :: "auto_update_args \<Rightarrow> self_update_args" where
  "build_auto_update_self_update_args a =
     \<lparr>sua_manifest_url = Some (aua_manifest_url a), sua_channel = aua_channel a, sua_asset_url = None, sua_sha256 = None,
      sua_version = None, sua_dry_run = False, sua_force = False, sua_restart_mode = aua_restart_mode a,
      sua_service_name = aua_service_name a, sua_binary_path = aua_binary_path a\<rparr>"

definition cycle_start :: "'v update_world \<Rightarrow> auto_update_args \<Rightarrow> cycle_report" where
  "cycle_start w a =
     \<lparr>cyr_unix_time_secs = uw_now w, cyr_event = ''check_failed'', cyr_status = ''error'',
      cyr_current_version = uw_version w, cyr_target_version = None,
      cyr_executable = unwrap_or (aua_binary_path a) (case uw_current_exe w of Inr exe \<Rightarrow> exe | Inl _ \<Rightarrow> ''speechmesh''),
      cyr_manifest_url = aua_manifest_url a, cyr_channel = aua_channel a, cyr_interval_secs = aua_interval_secs a,
      cyr_release_url = None, cyr_release_sha256 = None, cyr_bytes = None, cyr_applied = False,
      cyr_restart_performed = False, cyr_error = None\<rparr>"

definition cycle_updated :: "self_update_report \<Rightarrow> cycle_report \<Rightarrow> cycle_report" where
  "cycle_updated u r =
     r\<lparr>cyr_event := ''updated'', cyr_status := update_status_label (sur_status u), cyr_target_version := Some (sur_target_version u),
       cyr_release_url := Some (sur_url u), cyr_release_sha256 := Some (sur_sha256 u), cyr_bytes := Some (sur_bytes u),
       cyr_applied := sur_applied u, cyr_restart_performed := rp_performed (sur_restart u)\<rparr>"

definition run_auto_update_cycle :: "('v :: linorder) update_world \<Rightarrow> auto_update_args \<Rightarrow> app_files \<Rightarrow> cycle_report \<times> app_files" where
  "run_auto_update_cycle w a s =
     (let r = cycle_start w a
      in case resolve_manifest_release w (aua_manifest_url a) (aua_channel a) (current_target w) of
           Inl e \<Rightarrow> (r\<lparr>cyr_error := Some e\<rparr>, s)
         | Inr release \<Rightarrow>
             (let status = compare_versions (uw_semver w) (uw_version w) (ru_version release);
                  r1 = r\<lparr>cyr_status := update_status_label status, cyr_target_version := Some (ru_version release),
                         cyr_release_url := Some (ru_url release), cyr_release_sha256 := Some (ru_sha256 release)\<rparr>
              in if status = UpdateAvailable then
                   (case execute_self_update w (build_auto_update_self_update_args a) s of
                      (Inr u, s1) \<Rightarrow> (cycle_updated u r1, s1)
                    | (Inl e, s1) \<Rightarrow> (r1\<lparr>cyr_event := ''update_failed'', cyr_error := Some e\<rparr>, s1))
                 else (r1\<lparr>cyr_event := ''checked''\<rparr>, s)))"

text \<open>The state file is written beside its place and moved into it; \<open>render\<close> is its text.\<close>

definition status_temp_path :: "string \<Rightarrow> string" where
  "status_temp_path path =
     (let temp_name = ''.'' @ unwrap_or (path_name path) ''speechmesh-auto-update-status.json'' @ ''.tmp''
      in if path_name path = None then path_join path temp_name
         else path_join (unwrap_or (path_parent path) []) temp_name)"

definition write_auto_update_state :: "(cycle_report \<Rightarrow> bytes) \<Rightarrow> string \<Rightarrow> cycle_report \<Rightarrow> unit file_op" where
  "write_auto_update_state render path r s =
     (let dir = opt_filter (\<lambda>p. p \<noteq> []) (path_parent path); temp = status_temp_path path
      in case Option.bind dir (uf_mkdir_error s) of
           Some e \<Rightarrow> (Err (''failed to create auto-update status directory '' @ unwrap_or dir [] @ '': '' @ e), s)
         | None \<Rightarrow>
             fs_then (in_context (''failed to write '' @ temp) (fs_write temp (render r) s)) (\<lambda>_ s1.
               in_context (''failed to move auto-update status '' @ path @ '' into place'') (fs_rename temp path s1)))"

definition store_cycle_report :: "(cycle_report \<Rightarrow> bytes) \<Rightarrow> auto_update_args \<Rightarrow> cycle_report \<Rightarrow> unit file_op" where
  "store_cycle_report render a r s =
     (case aua_status_file a of
        None \<Rightarrow> (Ok (), s)
      | Some path \<Rightarrow>
          (case write_auto_update_state render path r s of
             (Inr _, s1) \<Rightarrow> (Ok (), s1)
           | (Inl e, s1) \<Rightarrow> (if aua_once a then (Err e, s1) else (Ok (), s1))))"

text \<open>
  The loop, one world and one outcome of flushing standard output per cycle. \<open>None\<close>: it is still running when the
  worlds are used up.
\<close>

fun run_auto_update_loop ::
  "(cycle_report \<Rightarrow> bytes) \<Rightarrow> auto_update_args \<Rightarrow> (('v :: linorder) update_world \<times> string option) list \<Rightarrow> app_files
     \<Rightarrow> (string + unit) option \<times> app_files" where
  "run_auto_update_loop render a [] s = (None, s)"
| "run_auto_update_loop render a ((w, flush_error) # ws) s =
     (case run_auto_update_cycle w a s of
        (r, s1) \<Rightarrow>
          (case flush_error of
             Some e \<Rightarrow> (Some (Err (''failed to flush auto-update report to stdout: '' @ e)), s1)
           | None \<Rightarrow>
               (case store_cycle_report render a r s1 of
                  (Inl e, s2) \<Rightarrow> (Some (Err e), s2)
                | (Inr _, s2) \<Rightarrow>
                    (if aua_once a then
                       (Some (case cyr_error r of Some e \<Rightarrow> Err (''auto-update --once failed: '' @ e) | None \<Rightarrow> Ok ()), s2)
                     else if cyr_applied r then (Some (Ok ()), s2)
                     else run_auto_update_loop render a ws s2))))"

definition run_auto_update ::
  "(cycle_report \<Rightarrow> bytes) \<Rightarrow> auto_update_args \<Rightarrow> (('v :: linorder) update_world \<times> string option) list \<Rightarrow> app_files
     \<Rightarrow> (string + unit) option \<times> app_files" where
  "run_auto_update render a ws s =
     (if \<not> aua_once a \<and> aua_interval_secs a = 0 then
        (Some (Err ''--interval-secs must be greater than 0 when --once is not set''), s)
      else run_auto_update_loop render a ws s)"

section \<open>The other commands\<close>

record version_info =
  vi_version :: string
  vi_executable :: string
  vi_platform :: string
  vi_channel :: string

definition version_info_of :: "'v update_world \<Rightarrow> string + version_info" where
  "version_info_of w =
     map_sum (\<lambda>e. ''failed to resolve current executable: '' @ e)
       (\<lambda>exe. \<lparr>vi_version = uw_version w, vi_executable = exe,
               vi_platform = ct_platform (current_target w) @ ''/'' @ ct_arch (current_target w), vi_channel = default_channel\<rparr>)
       (uw_current_exe w)"

record check_update_report =
  cur_current_version :: string
  cur_status :: update_status
  cur_executable :: string
  cur_release :: resolved_update

definition check_update :: "('v :: linorder) update_world \<Rightarrow> string \<Rightarrow> string \<Rightarrow> string + check_update_report" where
  "check_update w manifest_url chan =
     and_then (resolve_manifest_release w manifest_url chan (current_target w)) (\<lambda>release.
       map_sum (\<lambda>e. ''failed to resolve current executable: '' @ e)
         (\<lambda>exe. \<lparr>cur_current_version = uw_version w,
                 cur_status = compare_versions (uw_semver w) (uw_version w) (ru_version release),
                 cur_executable = exe, cur_release = release\<rparr>)
         (uw_current_exe w))"

text \<open>The root command: what the first argument calls.\<close>

datatype root_command = RootHelp | RootVersion | RootCheckUpdate | RootSelfUpdate | RootAutoUpdate | RootDeviceAgent | RootCli

definition should_run_device_agent :: "string list \<Rightarrow> bool" where
  "should_run_device_agent args \<longleftrightarrow> ''run'' \<in> set (drop 2 args)"

definition root_command_of :: "string list \<Rightarrow> root_command" where
  "root_command_of args =
     (case (if 1 < length args then Some (args ! 1) else None) of
        None \<Rightarrow> RootHelp
      | Some c \<Rightarrow>
          if c \<in> {''help'', ''-h'', ''--help''} then RootHelp
          else if c = ''version'' then RootVersion
          else if c = ''check-update'' then RootCheckUpdate
          else if c = ''self-update'' then RootSelfUpdate
          else if c = ''auto-update'' then RootAutoUpdate
          else if c = ''agent'' \<and> should_run_device_agent args then RootDeviceAgent
          else RootCli)"

section \<open>The best release\<close>

lemma set_insert_by [simp]: "set (insert_by le x ys) = insert x (set ys)"
  by (induction ys) auto

lemma sort_by_Cons [simp]: "sort_by le (x # xs) = insert_by le x (sort_by le xs)"
  by (simp add: sort_by_def)

lemma sort_by_Nil [simp]: "sort_by le [] = []"
  by (simp add: sort_by_def)

lemma set_sort_by [simp]: "set (sort_by le xs) = set xs"
  by (induction xs) simp_all

lemma insert_by_cong: "(\<And>y. y \<in> set ys \<Longrightarrow> le x y = le' x y) \<Longrightarrow> insert_by le x ys = insert_by le' x ys"
  by (induction ys) auto

lemma sort_by_cong:
  "(\<And>x y. x \<in> set xs \<Longrightarrow> y \<in> set xs \<Longrightarrow> le x y = le' x y) \<Longrightarrow> sort_by le xs = sort_by le' xs"
proof (induction xs)
  case (Cons x xs)
  then have "sort_by le xs = sort_by le' xs" by simp
  with Cons.prems show ?case by (auto intro!: insert_by_cong)
qed simp

text \<open>The first element with the greatest key.\<close>

definition first_best :: "('a \<Rightarrow> 'k :: linorder) \<Rightarrow> 'a list \<Rightarrow> 'a option" where
  "first_best key xs = find (\<lambda>x. \<forall>y \<in> set xs. key y \<le> key x) xs"

lemma first_best_Cons:
  "first_best key (x # xs) =
     (case first_best key xs of
        None \<Rightarrow> Some x
      | Some b \<Rightarrow> if key b \<le> key x then Some x else Some b)"
proof (cases xs)
  case (Cons z zs)
  have "Max (key ` set xs) \<in> key ` set xs" using Cons by (intro Max_in) auto
  then obtain m where m: "m \<in> set xs" "Max (key ` set xs) = key m" by (rule imageE)
  then have "\<forall>y \<in> set xs. key y \<le> key m" by (metis List.finite_set Max_ge finite_imageI imageI)
  note m = m(1) this
  have "first_best key xs \<noteq> None" unfolding first_best_def find_None_iff using m by blast
  then obtain b where b: "first_best key xs = Some b" by blast
  then have best: "b \<in> set xs" "\<forall>y \<in> set xs. key y \<le> key b"
    by (auto simp: first_best_def find_Some_iff)
  show ?thesis
  proof (cases "key b \<le> key x")
    case True
    then have "\<forall>y \<in> set (x # xs). key y \<le> key x" using best(2) by force
    then show ?thesis using b True by (simp add: first_best_def)
  next
    case False
    then have "(\<forall>y \<in> set (x # xs). key y \<le> key c) \<longleftrightarrow> (\<forall>y \<in> set xs. key y \<le> key c)" if "c \<in> set xs" for c
      using best(1) that by (auto intro: order_trans)
    then have "find (\<lambda>c. \<forall>y \<in> set (x # xs). key y \<le> key c) xs = first_best key xs"
      unfolding first_best_def by (intro find_cong) auto
    moreover have "\<not> (\<forall>y \<in> set (x # xs). key y \<le> key x)" using False best(1) by auto
    ultimately show ?thesis using b False by (auto simp: first_best_def)
  qed
qed (simp add: first_best_def)

lemma sort_by_head:
  "(case sort_by (\<lambda>l r. key r \<le> key l) xs of [] \<Rightarrow> None | x # _ \<Rightarrow> Some x) = first_best key xs"
proof (induction xs)
  case (Cons x xs)
  then show ?case
    by (cases "sort_by (\<lambda>l r. key r \<le> key l) xs") (auto simp: first_best_Cons split: option.splits)
qed (simp add: first_best_def)

definition candidate_version :: "(string \<Rightarrow> 'v option) \<Rightarrow> candidate \<Rightarrow> 'v" where
  "candidate_version sv c = the (parse_semver sv (mr_version (fst c)))"

text \<open>C10: The release that is chosen is the best one: among the releases of the channel that have a binary for the
  target, the first in the manifest of those with the highest version, if all these versions are semantic
  versions. The sort with its comparison and its reversal is no more than that.\<close>

theorem select_release_best:
  assumes "um_schema m \<in> {None, Some [], Some ''speechmesh/update-manifest.v1''}"
    and "\<forall>c \<in> set (manifest_candidates m requested t). parse_semver sv (mr_version (fst c)) \<noteq> None"
  shows "select_manifest_release sv m requested t =
    (case first_best (candidate_version sv) (manifest_candidates m requested t) of
       None \<Rightarrow> Err (no_release (requested_channel m requested) t)
     | Some c \<Rightarrow> resolve_candidate c)"
proof -
  let ?cs = "manifest_candidates m requested t"
  have "sort_by (\<lambda>l r. manifest_version_le sv (mr_version (fst r)) (mr_version (fst l))) ?cs =
      sort_by (\<lambda>l r. candidate_version sv r \<le> candidate_version sv l) ?cs"
  proof (rule sort_by_cong)
    fix x y
    assume "x \<in> set ?cs" "y \<in> set ?cs"
    then obtain u v where "parse_semver sv (mr_version (fst x)) = Some u" "parse_semver sv (mr_version (fst y)) = Some v"
      using assms(2) by blast
    then show "manifest_version_le sv (mr_version (fst y)) (mr_version (fst x)) \<longleftrightarrow> candidate_version sv y \<le> candidate_version sv x"
      by (simp add: manifest_version_le_def candidate_version_def)
  qed
  moreover have "opt_filter (\<lambda>s. s \<noteq> [] \<and> s \<noteq> ''speechmesh/update-manifest.v1'') (um_schema m) = None"
    using assms(1) by (auto simp: opt_filter_def)
  ultimately show ?thesis
    using sort_by_head [of "candidate_version sv" ?cs, symmetric]
    by (simp add: select_manifest_release_def split: list.splits)
qed

text \<open>
  Plain versions, three numbers with dots between them, and their order: an instance of the parser that is given,
  with the order the \<^verbatim>\<open>semver\<close> crate documents for them.
\<close>

datatype release_number = Release nat nat nat

fun release_key :: "release_number \<Rightarrow> nat list" where
  "release_key (Release major minor patch) = [major, minor, patch]"

lemma release_key_inject: "release_key a = release_key b \<longleftrightarrow> a = b"
  by (cases a; cases b) simp

instantiation release_number :: linorder
begin

definition less_eq_release_number :: "release_number \<Rightarrow> release_number \<Rightarrow> bool" where
  "less_eq_release_number a b \<longleftrightarrow> release_key a \<le> release_key b"

definition less_release_number :: "release_number \<Rightarrow> release_number \<Rightarrow> bool" where
  "less_release_number a b \<longleftrightarrow> release_key a < release_key b"

instance
  by standard (auto simp: less_eq_release_number_def less_release_number_def less_le release_key_inject)

end

definition read_number :: "string \<Rightarrow> nat option" where
  "read_number s = (if s = [] \<or> list_ex (\<lambda>c. c < CHR ''0'' \<or> CHR ''9'' < c) s then None else Some (read_nat s))"

definition demo_semver :: "string \<Rightarrow> release_number option" where
  "demo_semver s =
     (let major = takeWhile (\<lambda>c. c \<noteq> CHR ''.'') s; r = drop (Suc (length major)) s;
          minor = takeWhile (\<lambda>c. c \<noteq> CHR ''.'') r; patch = drop (Suc (length minor)) r
      in case (read_number major, read_number minor, read_number patch) of
           (Some x, Some y, Some z) \<Rightarrow> Some (Release x y z)
         | _ \<Rightarrow> None)"

lemma demo_versions:
  "parse_semver demo_semver ''1.9.0'' = Some (Release 1 9 0)" "parse_semver demo_semver ''v1.10.0'' = Some (Release 1 10 0)"
  by code_simp+

definition demo_asset :: "string \<Rightarrow> manifest_asset" where
  "demo_asset os = \<lparr>ma_platform = os, ma_arch = ''amd64'', ma_url = ''u'', ma_sha256 = '' 0aFF '', ma_binary_name = None\<rparr>"

definition demo_release :: "string \<Rightarrow> string \<Rightarrow> manifest_release" where
  "demo_release version os = \<lparr>mr_version = version, mr_channel = None, mr_notes_url = None, mr_published_at = None,
     mr_assets = [demo_asset os]\<rparr>"

definition demo_manifest :: update_manifest where
  "demo_manifest = \<lparr>um_schema = None, um_default_channel = None,
     um_releases = [demo_release ''1.9.0'' ''linux'', demo_release ''v1.10.0'' ''Linux'', demo_release ''1.11.0'' ''darwin'']\<rparr>"

definition demo_target :: client_target where
  "demo_target = \<lparr>ct_platform = ''linux'', ct_arch = ''x86_64''\<rparr>"

lemma demo_candidates:
  "map (\<lambda>c. mr_version (fst c)) (manifest_candidates demo_manifest ''stable'' demo_target) = [''1.9.0'', ''v1.10.0'']"
  by code_simp

theorem select_release_best_witness:
  "\<exists>u. select_manifest_release demo_semver demo_manifest ''stable'' demo_target = Ok u \<and> ru_version u = ''v1.10.0''"
proof -
  obtain a b where c: "manifest_candidates demo_manifest ''stable'' demo_target = [a, b]"
    "mr_version (fst a) = ''1.9.0''" "mr_version (fst b) = ''v1.10.0''"
    using demo_candidates by (auto simp: map_eq_Cons_conv)
  have schema: "um_schema demo_manifest \<in> {None, Some [], Some ''speechmesh/update-manifest.v1''}" by (simp add: demo_manifest_def)
  have known: "\<forall>c \<in> set (manifest_candidates demo_manifest ''stable'' demo_target). parse_semver demo_semver (mr_version (fst c)) \<noteq> None"
    by (simp add: c demo_versions)
  have best: "first_best (candidate_version demo_semver) [a, b] = Some b"
    by (simp add: first_best_def candidate_version_def c demo_versions less_eq_release_number_def less_release_number_def)
  have "opt_filter (\<lambda>n. n \<noteq> ''speechmesh'') (ma_binary_name (snd (snd b))) = None \<and> b \<in> set (manifest_candidates demo_manifest ''stable'' demo_target)"
    using c by (auto simp: manifest_candidates_def demo_manifest_def map_filter_set release_candidate_def demo_release_def
        demo_asset_def opt_filter_def split: if_splits dest!: find_SomeE)
  then show ?thesis
    using select_release_best [OF schema known] c(3) by (auto simp: c(1) best resolve_candidate_def split: prod.splits)
qed

text \<open>With a version that is not semantic the comparison is no order: the sort promises nothing then.\<close>

lemma mixed_versions_cycle:
  assumes "sv = (\<lambda>s. if s = ''10.0.0'' then Some (10 :: nat) else if s = ''9.0.0'' then Some 9 else None)"
  shows "\<not> manifest_version_le sv ''10.0.0'' ''9.0.0''" "\<not> manifest_version_le sv ''9.0.0'' ''5x''"
    "\<not> manifest_version_le sv ''5x'' ''10.0.0''"
  by (simp_all add: assms manifest_version_le_def parse_semver_def)

section \<open>The replacement\<close>

lemma strip_tail_id: "p = [] \<or> last p \<notin> {CHR ''/'', CHR ''.''} \<Longrightarrow> strip_tail p = p"
  by (subst strip_tail.simps) (auto simp: strip_suffix_Some_iff split: option.splits)

lemma takeWhile_rev_name:
  "CHR ''/'' \<notin> set n \<Longrightarrow> takeWhile (\<lambda>c. c \<noteq> CHR ''/'') (rev (base @ ''/'' @ n)) = rev n"
  "CHR ''/'' \<notin> set n \<Longrightarrow> takeWhile (\<lambda>c. c \<noteq> CHR ''/'') (rev n) = rev n"
  by (auto simp: takeWhile_append takeWhile_eq_all_conv)

lemma path_name_join:
  assumes "CHR ''/'' \<notin> set n" and "n \<noteq> []" and "last n \<notin> {CHR ''/'', CHR ''.''}"
  shows "path_name (path_join base n) = Some n"
proof -
  have special: "n \<noteq> ''.''" "n \<noteq> ''..''" using assms(3) by auto
  have rel: "\<not> prefix ''/'' n" using assms(1) by (auto simp: prefix_def)
  have "\<exists>b. path_join base n = b @ ''/'' @ n \<or> path_join base n = n"
  proof (cases "base = []")
    case False
    show ?thesis
    proof (cases "last base = CHR ''/''")
      case True
      with False have "base = butlast base @ ''/''" by (metis append_butlast_last_id)
      then show ?thesis using rel True False by (auto simp: path_join_def)
    qed (use False rel in \<open>auto simp: path_join_def\<close>)
  qed (use rel in \<open>simp add: path_join_def\<close>)
  moreover have "strip_tail (path_join base n) = path_join base n"
    using assms(2,3) by (intro strip_tail_id) (auto simp: path_join_def)
  ultimately have "takeWhile (\<lambda>c. c \<noteq> CHR ''/'') (rev (strip_tail (path_join base n))) = rev n"
    using takeWhile_rev_name [OF assms(1)] by metis
  then show ?thesis using special assms(2) by (simp add: path_name_def)
qed

lemma path_name_plain: "path_name p = Some n \<Longrightarrow> CHR ''/'' \<notin> set n \<and> n \<noteq> []"
  by (auto simp: path_name_def Let_def split: if_splits dest!: set_takeWhileD)

lemma update_paths_distinct:
  assumes "path_name target = Some name"
  shows "update_path parent name \<noteq> target" "backup_path parent name \<noteq> target" "update_path parent name \<noteq> backup_path parent name"
proof -
  note plain = path_name_plain [OF assms]
  have "path_name (update_path parent name) = Some (''.'' @ name @ ''.update'')"
    unfolding update_path_def using plain by (intro path_name_join) auto
  moreover have "path_name (backup_path parent name) = Some (''.'' @ name @ ''.prev'')"
    unfolding backup_path_def using plain by (intro path_name_join) auto
  moreover have "''.'' @ name @ ''.update'' \<noteq> name" "''.'' @ name @ ''.prev'' \<noteq> name"
    "''.'' @ name @ ''.update'' \<noteq> ''.'' @ name @ ''.prev''"
    by (auto dest: arg_cong [of _ _ length])
  ultimately show "update_path parent name \<noteq> target" "backup_path parent name \<noteq> target"
    "update_path parent name \<noteq> backup_path parent name" using assms by auto
qed

lemma put_file_simps [simp]:
  "uf_files (put_file p f s) = (uf_files s)(p := f)"
  "uf_default_mode (put_file p f s) = uf_default_mode s"
  "uf_write_error (put_file p f s) = uf_write_error s" "uf_stat_error (put_file p f s) = uf_stat_error s"
  "uf_chmod_error (put_file p f s) = uf_chmod_error s" "uf_remove_error (put_file p f s) = uf_remove_error s"
  "uf_rename_error (put_file p f s) = uf_rename_error s" "uf_mkdir_error (put_file p f s) = uf_mkdir_error s"
  by (simp_all add: put_file_def)

lemma fs_then_simps [simp]: "fs_then (Inl e, s) k = (Err e, s)" "fs_then (Inr x, s) k = k x s"
  by (simp_all add: fs_then_def)

lemma in_context_simps [simp]: "in_context c (Inl e, s) = (Err (c @ '': '' @ e), s)" "in_context c (Inr x, s) = (Ok x, s)"
  by (simp_all add: in_context_def)

text \<open>Either the new binary is in place and the old one is kept, or the old one is in one of the two places.\<close>

definition swapped :: "string \<Rightarrow> string \<Rightarrow> app_file \<Rightarrow> app_file \<Rightarrow> (string + unit) \<times> app_files \<Rightarrow> bool" where
  "swapped target backup old new r \<longleftrightarrow>
     (case r of
        (Inr _, s) \<Rightarrow> uf_files s target = Some new \<and> uf_files s backup = Some old
      | (Inl _, s) \<Rightarrow> uf_files s target = Some old \<or> (uf_files s target = None \<and> uf_files s backup = Some old))"

lemma swap_binary_swapped:
  assumes "uf_files s target = Some old" and "uf_files s temp = Some new"
    and "temp \<noteq> target" "backup \<noteq> target" "temp \<noteq> backup"
  shows "swapped target backup old new (swap_binary target temp backup s)"
  using assms
  by (auto simp: swap_binary_def fs_rename_def swapped_def split: option.splits)

lemma swapped_then:
  "(\<And>e s1. r = (Inl e, s1) \<Longrightarrow> uf_files s1 target = Some old) \<Longrightarrow>
   (\<And>x s1. r = (Inr x, s1) \<Longrightarrow> swapped target backup old new (k x s1)) \<Longrightarrow> swapped target backup old new (fs_then r k)"
  by (auto simp: fs_then_def swapped_def split: prod.splits sum.splits)

text \<open>The new binary waits beside the old one.\<close>

definition waiting :: "string \<Rightarrow> app_file \<Rightarrow> string \<Rightarrow> bytes \<Rightarrow> app_files \<Rightarrow> bool" where
  "waiting target old temp bytes s \<longleftrightarrow>
     uf_files s target = Some old \<and> (\<exists>f. uf_files s temp = Some f \<and> fl_bytes f = bytes)"

lemma in_context_files:
  "in_context c r = (Inl e, s) \<Longrightarrow> snd r = s" "in_context c r = (Inr x, s) \<longleftrightarrow> r = (Inr x, s)"
  by (cases r; cases "fst r"; simp)+

lemma write_waiting:
  assumes "uf_files s target = Some old" and "temp \<noteq> target"
  shows "uf_files (snd (fs_write temp bytes s)) target = Some old"
    and "fs_write temp bytes s = (Inr u, s1) \<Longrightarrow> waiting target old temp bytes s1"
  using assms by (auto simp: fs_write_def Let_def waiting_def split: option.splits)

lemma copied_permissions:
  assumes "waiting target old temp bytes s" and "temp \<noteq> target"
  shows "uf_files (snd (copy_permissions target temp s)) target = Some old"
    and "copy_permissions target temp s = (Inr u, s1) \<Longrightarrow> uf_files s1 target = Some old \<and>
      uf_files s1 temp = Some \<lparr>fl_bytes = bytes, fl_mode = fl_mode old\<rparr>"
  using assms by (auto simp: copy_permissions_def waiting_def split: option.splits)

lemma removed_backup:
  assumes "(if fs_exists s backup then in_context c (fs_remove backup s) else (Ok (), s)) = (r, s1)" and "p \<noteq> backup"
  shows "uf_files s1 p = uf_files s p"
  using assms by (auto simp: fs_remove_def split: if_splits option.splits)

lemma replace_binary_swapped:
  assumes "uf_files s target = Some old" and "path_parent target = Some parent" and "path_name target = Some name"
  shows "swapped target (backup_path parent name) old \<lparr>fl_bytes = bytes, fl_mode = fl_mode old\<rparr> (replace_binary target bytes s)"
proof -
  note paths = update_paths_distinct [OF assms(3), of parent]
  let ?temp = "update_path parent name"
  show ?thesis
    unfolding replace_binary_def assms(2,3) option.case Let_def
  proof (intro swapped_then, goal_cases)
    case (1 e s1)
    then show ?case using write_waiting(1) [OF assms(1) paths(1)] by (auto dest: in_context_files(1))
  next
    case (2 u s1 e s2)
    then have "waiting target old ?temp bytes s1"
      using write_waiting(2) [OF assms(1) paths(1)] by (simp add: in_context_files(2))
    from copied_permissions(1) [OF this paths(1)] 2(2) show ?case by simp
  next
    case (3 u s1 v s2 e s3)
    then have "waiting target old ?temp bytes s1"
      using write_waiting(2) [OF assms(1) paths(1)] by (simp add: in_context_files(2))
    from copied_permissions(2) [OF this paths(1) 3(2)] removed_backup [OF 3(3)] paths show ?case by auto
  next
    case (4 u s1 v s2 x s3)
    then have "waiting target old ?temp bytes s1"
      using write_waiting(2) [OF assms(1) paths(1)] by (simp add: in_context_files(2))
    from copied_permissions(2) [OF this paths(1) 4(2)] removed_backup [OF 4(3)] paths
    show ?case by (intro swap_binary_swapped) auto
  qed
qed

lemma path_parent_name: "path_name p = Some n \<Longrightarrow> \<exists>d. path_parent p = Some d"
  by (cases "strip_tail p = []") (simp_all add: path_name_def path_parent_def Let_def)

text \<open>Whatever the path: the binary is replaced as \<open>swapped\<close> says, or not touched.\<close>

definition backup_of :: "string \<Rightarrow> string" where
  "backup_of target = backup_path (unwrap_or (path_parent target) []) (unwrap_or (path_name target) [])"

lemma replace_binary_kept:
  assumes "uf_files s target = Some old"
  shows "swapped target (backup_of target) old \<lparr>fl_bytes = bytes, fl_mode = fl_mode old\<rparr> (replace_binary target bytes s)"
proof (cases "path_name target")
  case None
  then show ?thesis using assms by (cases "path_parent target") (simp_all add: replace_binary_def swapped_def)
next
  case (Some name)
  then obtain parent where "path_parent target = Some parent" using path_parent_name by blast
  with replace_binary_swapped [OF assms this Some] Some show ?thesis by (simp add: backup_of_def)
qed

lemma map_sum_Ok: "map_sum f id r = Ok y \<longleftrightarrow> r = Ok y"
  by (cases r) auto

lemma verified_update_Ok:
  "verified_update w a = Ok (release, binary, bytes) \<Longrightarrow>
   resolve_update_plan w a = Ok release \<and> download_binary w (ru_url release) = Ok bytes \<and>
   to_ascii_lowercase (sha256_hex w bytes) = to_ascii_lowercase (trim (ru_sha256 release)) \<and>
   (sua_force a \<or> compare_versions (uw_semver w) (uw_version w) (ru_version release) = UpdateAvailable) \<and>
   (\<exists>exe. uw_current_exe w = Ok exe \<and> binary = unwrap_or (sua_binary_path a) exe)"
  by (auto simp: verified_update_def Let_def refuse_status_def map_sum_Ok elim!: and_then.elims
      split: option.splits if_splits update_status.splits)

text \<open>C9: The binary is only ever replaced by what was asked for: a self-update leaves it as it was, unless a release was
  resolved, the version is newer or the replacement forced, and the downloaded bytes have the digest of the
  release; then either these bytes are in place with the old permissions, and the old binary is kept as
  the backup, or the last rename and its undoing both failed and the old binary is only in the backup, which is an error.\<close>

theorem binary_replaced_only_verified:
  assumes "execute_self_update w a s = (r, s')" and "uf_files s target = Some old"
    and "uw_current_exe w = Ok exe" and "target = unwrap_or (sua_binary_path a) exe"
  shows "uf_files s' target = Some old \<or>
    (\<exists>release bytes. resolve_update_plan w a = Ok release \<and> download_binary w (ru_url release) = Ok bytes \<and>
       to_ascii_lowercase (sha256_hex w bytes) = to_ascii_lowercase (trim (ru_sha256 release)) \<and>
       (sua_force a \<or> compare_versions (uw_semver w) (uw_version w) (ru_version release) = UpdateAvailable) \<and>
       \<not> sua_dry_run a \<and> uf_files s' (backup_of target) = Some old \<and>
       (uf_files s' target = Some \<lparr>fl_bytes = bytes, fl_mode = fl_mode old\<rparr> \<or> (uf_files s' target = None \<and> (\<exists>e. r = Err e))))"
proof (cases "verified_update w a")
  case (Inl e)
  with assms show ?thesis by (simp add: execute_self_update_def)
next
  case (Inr v)
  then obtain release binary bytes where v: "v = (release, binary, bytes)" by (cases v)
  note verified = verified_update_Ok [OF Inr [unfolded v]]
  with assms(3,4) have binary: "binary = target" by simp
  show ?thesis
  proof (cases "sua_dry_run a")
    case True
    with Inr v assms(1,2) show ?thesis by (simp add: execute_self_update_def apply_update_def)
  next
    case False
    let ?new = "\<lparr>fl_bytes = bytes, fl_mode = fl_mode old\<rparr>"
    obtain rr s1 where rr: "replace_binary target bytes s = (rr, s1)" by (cases "replace_binary target bytes s")
    with replace_binary_kept [OF assms(2), of bytes] have swap: "swapped target (backup_of target) old ?new (rr, s1)" by simp
    have after: "s' = s1 \<and> (\<forall>e. rr = Inl e \<longrightarrow> r = Err e)"
      using assms(1) Inr v rr False binary
      by (cases rr) (auto simp: execute_self_update_def apply_update_def fs_then_def split: prod.splits sum.splits if_splits)
    from swap after have "uf_files s' target = Some old \<or> uf_files s' (backup_of target) = Some old \<and>
        (uf_files s' target = Some ?new \<or> uf_files s' target = None \<and> (\<exists>e. r = Err e))"
      by (auto simp: swapped_def split: sum.splits)
    with verified False show ?thesis by blast
  qed
qed

section \<open>The loop\<close>

text \<open>Files whose operations all succeed.\<close>

definition healthy :: "app_files \<Rightarrow> bool" where
  "healthy s \<longleftrightarrow>
     uf_write_error s = Map.empty \<and> uf_stat_error s = Map.empty \<and> uf_chmod_error s = Map.empty \<and>
     uf_remove_error s = Map.empty \<and> uf_rename_error s = (\<lambda>_. Map.empty) \<and> uf_mkdir_error s = Map.empty"

lemma healthy_put [simp]: "healthy (put_file p f s) = healthy s"
  by (simp add: healthy_def)

lemma healthy_ops:
  "healthy s \<Longrightarrow> \<exists>f. fs_write p bs s = (Ok (), put_file p (Some f) s)"
  "healthy s \<Longrightarrow> uf_files s p = Some f \<Longrightarrow> fs_rename p q s = (Ok (), put_file q (Some f) (put_file p None s))"
  "healthy s \<Longrightarrow> fs_remove p s = (Ok (), put_file p None s)"
  "healthy s \<Longrightarrow> uf_files s p = Some f \<Longrightarrow> \<exists>g. copy_permissions p q s = (Ok (), put_file q g s) \<and> (g = None \<longleftrightarrow> uf_files s q = None)"
  by (auto simp: healthy_def fs_write_def fs_rename_def fs_remove_def copy_permissions_def Let_def split: option.splits)

lemma replace_binary_healthy:
  assumes "healthy s" and "uf_files s target = Some old" and "path_name target = Some name"
  shows "\<exists>s'. replace_binary target bytes s = (Ok (), s') \<and> healthy s' \<and>
    uf_files s' target = Some \<lparr>fl_bytes = bytes, fl_mode = fl_mode old\<rparr> \<and> uf_files s' (backup_of target) = Some old"
proof -
  obtain parent where parent: "path_parent target = Some parent" using path_parent_name [OF assms(3)] by blast
  let ?temp = "update_path parent name" and ?backup = "backup_path parent name"
  note paths = update_paths_distinct [OF assms(3), of parent]
  obtain f where f: "fs_write ?temp bytes s = (Ok (), put_file ?temp (Some f) s)" using healthy_ops(1) [OF assms(1)] by blast
  let ?s1 = "put_file ?temp (Some f) s"
  obtain g where g: "copy_permissions target ?temp ?s1 = (Ok (), put_file ?temp (Some g) ?s1)"
    using healthy_ops(4) [of ?s1 target old ?temp] assms(1,2) paths by auto
  let ?s2 = "put_file ?temp (Some g) ?s1"
  let ?s3 = "if fs_exists ?s2 ?backup then put_file ?backup None ?s2 else ?s2"
  have s3: "healthy ?s3" "uf_files ?s3 target = Some old" "uf_files ?s3 ?temp = Some g"
    using assms(1,2) paths by auto
  let ?s4 = "put_file ?backup (Some old) (put_file target None ?s3)"
  have "replace_binary target bytes s = (Ok (), put_file target (Some g) (put_file ?temp None ?s4))"
    using s3 paths assms(1) healthy_ops(2) [OF s3(1,2), of ?backup] healthy_ops(2) [of ?s4 ?temp g target]
    by (simp add: replace_binary_def parent assms(3) Let_def f g healthy_ops(3) swap_binary_def split: if_splits)
  moreover have "healthy (put_file target (Some g) (put_file ?temp None ?s4))" using s3(1) by simp
  ultimately obtain s' where s': "replace_binary target bytes s = (Ok (), s')" "healthy s'" by blast
  with replace_binary_kept [OF assms(2), of bytes] show ?thesis by (simp add: swapped_def)
qed

lemma auto_update_resolved:
  assumes "verified_update w (build_auto_update_self_update_args a) = Ok (release, target, bytes)"
  shows "resolve_manifest_release w (aua_manifest_url a) (aua_channel a) (current_target w) = Ok release"
    and "compare_versions (uw_semver w) (uw_version w) (ru_version release) = UpdateAvailable"
  using verified_update_Ok [OF assms] by (simp_all add: resolve_update_plan_def build_auto_update_self_update_args_def)

definition restart_of :: "'v update_world \<Rightarrow> auto_update_args \<Rightarrow> string + unit" where
  "restart_of w a = restart_managed_service w (aua_restart_mode a) (aua_service_name a)"

lemma cycle_start_applied [simp]: "cyr_applied (cycle_start w a) = False"
  by (simp add: cycle_start_def)

text \<open>A cycle that finds an installable release: the binary is replaced, and the report depends on the restart.\<close>

lemma cycle_installs:
  assumes v: "verified_update w (build_auto_update_self_update_args a) = Ok (release, target, bytes)"
    and files: "healthy s" "uf_files s target = Some old" "path_name target = Some name"
  obtains r s1 where "run_auto_update_cycle w a s = (r, s1)" "healthy s1"
    "uf_files s1 target = Some \<lparr>fl_bytes = bytes, fl_mode = fl_mode old\<rparr>" "uf_files s1 (backup_of target) = Some old"
    "cyr_applied r \<longleftrightarrow> (\<exists>u. restart_of w a = Ok u)"
proof -
  obtain s1 where s1: "replace_binary target bytes s = (Ok (), s1)" "healthy s1"
    "uf_files s1 target = Some \<lparr>fl_bytes = bytes, fl_mode = fl_mode old\<rparr>" "uf_files s1 (backup_of target) = Some old"
    using replace_binary_healthy [OF files] by blast
  let ?a = "build_auto_update_self_update_args a"
  have args: "\<not> sua_dry_run ?a" "sua_restart_mode ?a = aua_restart_mode a" "sua_service_name ?a = aua_service_name a"
    by (simp_all add: build_auto_update_self_update_args_def)
  obtain r where r: "run_auto_update_cycle w a s = (r, s1)" "cyr_applied r \<longleftrightarrow> (\<exists>u. restart_of w a = Ok u)"
  proof (cases "restart_of w a")
    case (Inl e)
    then have "aua_restart_mode a \<noteq> RestartNone" by (auto simp: restart_of_def)
    with Inl s1(1) args v have "execute_self_update w ?a s = (Err e, s1)"
      by (simp add: execute_self_update_def apply_update_def restart_of_def)
    then show thesis using auto_update_resolved [OF v] Inl
      by (intro that) (simp add: run_auto_update_cycle_def Let_def, simp)
  next
    case (Inr u)
    then have "\<exists>b. apply_update w ?a target bytes s = (Ok b, s1)"
      using s1(1) args by (cases "aua_restart_mode a = RestartNone") (auto simp: apply_update_def restart_of_def)
    then obtain b where "apply_update w ?a target bytes s = (Ok b, s1)" by blast
    with v have "execute_self_update w ?a s = (Ok (self_update_report_of w ?a release target bytes b), s1)"
      by (simp add: execute_self_update_def)
    then show thesis using auto_update_resolved [OF v] Inr args(1)
      by (intro that) (simp add: run_auto_update_cycle_def Let_def, simp add: cycle_updated_def self_update_report_of_def)
  qed
  from that [OF r(1) s1(2-4) r(2)] show thesis .
qed

text \<open>A world without an installable release changes nothing.\<close>

definition no_update :: "('v :: linorder) update_world \<Rightarrow> auto_update_args \<Rightarrow> bool" where
  "no_update w a \<longleftrightarrow>
     (case resolve_manifest_release w (aua_manifest_url a) (aua_channel a) (current_target w) of
        Inl _ \<Rightarrow> True
      | Inr release \<Rightarrow> compare_versions (uw_semver w) (uw_version w) (ru_version release) \<noteq> UpdateAvailable)"

lemma cycle_idle: "no_update w a \<Longrightarrow> \<exists>r. run_auto_update_cycle w a s = (r, s) \<and> \<not> cyr_applied r"
  by (auto simp: no_update_def run_auto_update_cycle_def Let_def split: sum.splits)

definition status_elsewhere :: "auto_update_args \<Rightarrow> string \<Rightarrow> bool" where
  "status_elsewhere a target \<longleftrightarrow>
     (case aua_status_file a of
        None \<Rightarrow> True
      | Some path \<Rightarrow> {path, status_temp_path path} \<inter> {target, backup_of target} = {})"

lemma store_report:
  assumes "healthy s" and "status_elsewhere a target"
  obtains s' where "store_cycle_report render a r s = (Ok (), s')" "healthy s'"
    "uf_files s' target = uf_files s target" "uf_files s' (backup_of target) = uf_files s (backup_of target)"
proof (cases "aua_status_file a")
  case None
  then show thesis using assms(1) by (intro that [of s]) (simp_all add: store_cycle_report_def)
next
  case (Some path)
  let ?temp = "status_temp_path path"
  obtain f where f: "fs_write ?temp (render r) s = (Ok (), put_file ?temp (Some f) s)" using healthy_ops(1) [OF assms(1)] by blast
  have dir: "Option.bind d (uf_mkdir_error s) = None" for d using assms(1) by (cases d) (simp_all add: healthy_def)
  have "fs_rename ?temp path (put_file ?temp (Some f) s) = (Ok (), put_file path (Some f) (put_file ?temp None (put_file ?temp (Some f) s)))"
    using assms(1) by (intro healthy_ops(2)) simp_all
  then have stored: "store_cycle_report render a r s = (Ok (), put_file path (Some f) (put_file ?temp None (put_file ?temp (Some f) s)))"
    by (simp add: store_cycle_report_def Some write_auto_update_state_def dir f Let_def)
  show thesis by (rule that [OF stored]) (use assms in \<open>auto simp: status_elsewhere_def Some\<close>)
qed

lemma loop_idle:
  assumes "healthy s" and "status_elsewhere a target" and "\<not> aua_once a"
    and "\<forall>(w, f) \<in> set ws. f = None \<and> no_update w a"
  obtains s' where "\<And>rest. run_auto_update_loop render a (ws @ rest) s = run_auto_update_loop render a rest s'" "healthy s'"
    "uf_files s' target = uf_files s target" "uf_files s' (backup_of target) = uf_files s (backup_of target)"
proof -
  have "\<exists>s'. (\<forall>rest. run_auto_update_loop render a (ws @ rest) s = run_auto_update_loop render a rest s') \<and> healthy s' \<and>
      uf_files s' target = uf_files s target \<and> uf_files s' (backup_of target) = uf_files s (backup_of target)"
    using assms(1,4)
  proof (induction ws arbitrary: s)
    case (Cons wf ws)
    then obtain w where w: "wf = (w, None)" "no_update w a" by (cases wf) auto
    obtain r where r: "run_auto_update_cycle w a s = (r, s)" "\<not> cyr_applied r" using cycle_idle [OF w(2)] by blast
    obtain s1 where s1: "store_cycle_report render a r s = (Ok (), s1)" "healthy s1"
      "uf_files s1 target = uf_files s target" "uf_files s1 (backup_of target) = uf_files s (backup_of target)"
      using store_report [OF Cons.prems(1) assms(2)] by blast
    have "run_auto_update_loop render a ((wf # ws) @ rest) s = run_auto_update_loop render a (ws @ rest) s1" for rest
      using r s1(1) assms(3) by (simp add: w)
    with Cons.IH [OF s1(2)] Cons.prems(2) s1(3,4) show ?case by simp
  next
    case Nil
    then show ?case by (intro exI [of _ s]) simp
  qed
  with that show thesis by blast
qed

text \<open>C11: The automatic update ends when it has done its work: whatever releases are missing or old in the cycles before,
  the first cycle that finds a newer release with verified bytes ends the loop without an error, if files can
  be written and the service restarts, with the new binary in place and the old one as its backup.\<close>

theorem auto_update_ends:
  assumes "\<not> aua_once a" and "aua_interval_secs a \<noteq> 0" and "status_elsewhere a target"
    and "healthy s" and "uf_files s target = Some old" and "path_name target = Some name"
    and "\<forall>(w, f) \<in> set ws. f = None \<and> no_update w a"
    and "verified_update w (build_auto_update_self_update_args a) = Ok (release, target, bytes)" and "restart_of w a = Ok ()"
  shows "\<exists>s'. run_auto_update render a (ws @ (w, None) # rest) s = (Some (Ok ()), s') \<and>
    uf_files s' target = Some \<lparr>fl_bytes = bytes, fl_mode = fl_mode old\<rparr> \<and> uf_files s' (backup_of target) = Some old"
proof -
  obtain s1 where s1: "\<And>rest. run_auto_update_loop render a (ws @ rest) s = run_auto_update_loop render a rest s1" "healthy s1"
    "uf_files s1 target = Some old"
    using loop_idle [OF assms(4,3,1,7)] assms(5) by metis
  obtain r s2 where s2: "run_auto_update_cycle w a s1 = (r, s2)" "healthy s2" "cyr_applied r"
    "uf_files s2 target = Some \<lparr>fl_bytes = bytes, fl_mode = fl_mode old\<rparr>" "uf_files s2 (backup_of target) = Some old"
    using cycle_installs [OF assms(8) s1(2,3) assms(6)] assms(9) by blast
  obtain s3 where "store_cycle_report render a r s2 = (Ok (), s3)" "uf_files s3 target = uf_files s2 target"
    "uf_files s3 (backup_of target) = uf_files s2 (backup_of target)"
    using store_report [OF s2(2) assms(3)] by blast
  with s2 assms(1,2) show ?thesis by (simp add: run_auto_update_def s1(1))
qed

text \<open>C12: A restart that fails makes the automatic update run for ever: each cycle replaces the binary and then counts as
  failed, so the loop never ends, and from the second cycle on the backup is the new binary as well, so that
  the old one is lost. A missing \<^verbatim>\<open>--service-name\<close> is enough.\<close>

theorem failed_restart_repeats_forever:
  assumes "\<not> aua_once a" and "aua_interval_secs a \<noteq> 0" and "status_elsewhere a target"
    and "healthy s" and "uf_files s target = Some old" and "path_name target = Some name"
    and "\<forall>(w, f) \<in> set ws. f = None \<and> (\<exists>e. restart_of w a = Err e) \<and>
      (\<exists>release. verified_update w (build_auto_update_self_update_args a) = Ok (release, target, bytes))"
  shows "\<exists>s'. run_auto_update render a ws s = (None, s') \<and>
    (ws \<noteq> [] \<longrightarrow> map_option fl_bytes (uf_files s' target) = Some bytes) \<and>
    (2 \<le> length ws \<longrightarrow> map_option fl_bytes (uf_files s' (backup_of target)) = Some bytes)"
proof -
  have "\<exists>s'. run_auto_update_loop render a ws s = (None, s') \<and>
      (ws \<noteq> [] \<or> fl_bytes old = bytes \<longrightarrow> map_option fl_bytes (uf_files s' target) = Some bytes) \<and>
      (2 \<le> length ws \<or> ws \<noteq> [] \<and> fl_bytes old = bytes \<longrightarrow> map_option fl_bytes (uf_files s' (backup_of target)) = Some bytes)"
    using assms(4,5,7)
  proof (induction ws arbitrary: s old)
    case (Cons wf ws)
    then obtain w release where w: "wf = (w, None)" "\<not> (\<exists>u. restart_of w a = Ok u)"
      "verified_update w (build_auto_update_self_update_args a) = Ok (release, target, bytes)" by (cases wf) auto
    obtain r s1 where cycle: "run_auto_update_cycle w a s = (r, s1)" "healthy s1"
      "uf_files s1 target = Some \<lparr>fl_bytes = bytes, fl_mode = fl_mode old\<rparr>" "uf_files s1 (backup_of target) = Some old"
      "cyr_applied r \<longleftrightarrow> (\<exists>u. restart_of w a = Ok u)"
      by (rule cycle_installs [OF w(3) Cons.prems(1,2) assms(6)])
    with w(2) have s1: "run_auto_update_cycle w a s = (r, s1)" "healthy s1" "\<not> cyr_applied r"
      "uf_files s1 target = Some \<lparr>fl_bytes = bytes, fl_mode = fl_mode old\<rparr>" "uf_files s1 (backup_of target) = Some old"
      by simp_all
    obtain s2 where s2: "store_cycle_report render a r s1 = (Ok (), s2)" "healthy s2" "uf_files s2 target = uf_files s1 target"
      "uf_files s2 (backup_of target) = uf_files s1 (backup_of target)"
      using store_report [OF s1(2) assms(3)] by blast
    have step: "run_auto_update_loop render a (wf # ws) s = run_auto_update_loop render a ws s2"
      using s1 s2(1) assms(1) by (simp add: w(1))
    from s1(4) s2(3) have new: "uf_files s2 target = Some \<lparr>fl_bytes = bytes, fl_mode = fl_mode old\<rparr>" by simp
    show ?case
    proof (cases "ws = []")
      case True
      then show ?thesis using step new s1(5) s2(4) by simp
    next
      case False
      with Cons.IH [OF s2(2) new] Cons.prems(3) show ?thesis unfolding step by auto
    qed
  qed simp
  then obtain s' where "run_auto_update_loop render a ws s = (None, s')"
    "ws \<noteq> [] \<or> fl_bytes old = bytes \<longrightarrow> map_option fl_bytes (uf_files s' target) = Some bytes"
    "2 \<le> length ws \<or> ws \<noteq> [] \<and> fl_bytes old = bytes \<longrightarrow> map_option fl_bytes (uf_files s' (backup_of target)) = Some bytes"
    by (elim exE conjE)
  with assms(1,2) show ?thesis by (intro exI [of _ s']) (simp add: run_auto_update_def)
qed

section \<open>Examples\<close>

text \<open>Version \<^verbatim>\<open>1.9.0\<close> is running, the manifest offers \<^verbatim>\<open>v1.10.0\<close>, whose digest is \<^verbatim>\<open>0aff\<close>.\<close>

definition demo_manifest_json :: json where
  "demo_manifest_json = JObject [(''releases'', JArray [JObject [(''version'', JString ''v1.10.0''), (''assets'', JArray
     [JObject [(''platform'', JString ''Linux''), (''arch'', JString ''amd64''), (''url'', JString ''u''),
               (''sha256'', JString '' 0aFF '')]])]])]"

definition demo_world :: "release_number update_world" where
  "demo_world = \<lparr>uw_os = ''linux'', uw_arch = ''x86_64'', uw_version = ''1.9.0'', uw_current_exe = Inr ''/b/speechmesh'',
     uw_semver = demo_semver, uw_manifest = (\<lambda>_. Replied (Inr demo_manifest_json)),
     uw_asset = (\<lambda>_. Replied (Inr [1, 2])), uw_sha256 = (\<lambda>_. [10, 255]), uw_uid = Inr ''501'',
     uw_run = (\<lambda>_. Exited True ''0''), uw_now = 7\<rparr>"

definition demo_auto_args :: "restart_mode \<Rightarrow> auto_update_args" where
  "demo_auto_args mode = \<lparr>aua_manifest_url = ''m'', aua_channel = ''stable'', aua_interval_secs = 300, aua_once = False,
     aua_restart_mode = mode, aua_service_name = None, aua_status_file = None, aua_binary_path = None\<rparr>"

definition demo_old :: app_file where
  "demo_old = \<lparr>fl_bytes = [9], fl_mode = 493\<rparr>"

definition demo_files :: app_files where
  "demo_files = \<lparr>uf_files = [''/b/speechmesh'' \<mapsto> demo_old], uf_default_mode = 420, uf_write_error = Map.empty,
     uf_stat_error = Map.empty, uf_chmod_error = Map.empty, uf_remove_error = Map.empty,
     uf_rename_error = (\<lambda>_. Map.empty), uf_mkdir_error = Map.empty\<rparr>"

lemma demo_verified:
  "\<exists>release. verified_update demo_world (build_auto_update_self_update_args (demo_auto_args mode)) = Ok (release, ''/b/speechmesh'', [1, 2])"
proof -
  have plan: "resolve_update_plan demo_world (build_auto_update_self_update_args (demo_auto_args mode)) =
      resolve_manifest_release demo_world ''m'' ''stable'' (current_target demo_world)"
    by (simp add: resolve_update_plan_def build_auto_update_self_update_args_def demo_auto_args_def)
  have "map_sum id (\<lambda>u. (ru_version u, ru_url u, ru_sha256 u))
      (resolve_manifest_release demo_world ''m'' ''stable'' (current_target demo_world)) = Ok (''v1.10.0'', ''u'', '' 0aFF '')"
    by code_simp
  then obtain u where u: "resolve_manifest_release demo_world ''m'' ''stable'' (current_target demo_world) = Ok u"
    "ru_version u = ''v1.10.0''" "ru_url u = ''u''" "ru_sha256 u = '' 0aFF ''"
    by (cases "resolve_manifest_release demo_world ''m'' ''stable'' (current_target demo_world)") auto
  have "compare_versions (uw_semver demo_world) (uw_version demo_world) ''v1.10.0'' = UpdateAvailable"
    "to_ascii_lowercase (sha256_hex demo_world [1, 2]) = to_ascii_lowercase (trim '' 0aFF '')" by code_simp+
  moreover have "uw_current_exe demo_world = Ok ''/b/speechmesh''" "uw_asset demo_world url = Replied (Inr [1, 2])" for url
    by (simp_all add: demo_world_def)
  ultimately have "verified_update demo_world (build_auto_update_self_update_args (demo_auto_args mode)) = Ok (u, ''/b/speechmesh'', [1, 2])"
    unfolding verified_update_def plan
    by (simp add: u refuse_status_def download_binary_def build_auto_update_self_update_args_def demo_auto_args_def)
  then show ?thesis by blast
qed

lemma demo_files_healthy: "healthy demo_files" "uf_files demo_files ''/b/speechmesh'' = Some demo_old"
  by (simp_all add: healthy_def demo_files_def)

lemma demo_path_name: "path_name ''/b/speechmesh'' = Some ''speechmesh''"
  by (simp add: path_name_def Let_def strip_tail_id)

lemma demo_auto_plain: "\<not> aua_once (demo_auto_args mode)" "aua_interval_secs (demo_auto_args mode) \<noteq> 0"
  "status_elsewhere (demo_auto_args mode) p"
  by (simp_all add: demo_auto_args_def status_elsewhere_def)

theorem binary_replaced_only_verified_witness:
  "\<exists>r s'. execute_self_update demo_world (build_auto_update_self_update_args (demo_auto_args RestartNone)) demo_files = (r, s') \<and>
     (uf_files s' ''/b/speechmesh'' = Some demo_old \<or> uf_files s' (backup_of ''/b/speechmesh'') = Some demo_old)"
proof -
  let ?a = "build_auto_update_self_update_args (demo_auto_args RestartNone)"
  obtain r s' where run: "execute_self_update demo_world ?a demo_files = (r, s')" by (cases "execute_self_update demo_world ?a demo_files")
  have exe: "uw_current_exe demo_world = Ok ''/b/speechmesh''" by (simp add: demo_world_def)
  have target: "''/b/speechmesh'' = unwrap_or (sua_binary_path ?a) ''/b/speechmesh''"
    by (simp add: build_auto_update_self_update_args_def demo_auto_args_def)
  from binary_replaced_only_verified [OF run demo_files_healthy(2) exe target] run show ?thesis by blast
qed

theorem auto_update_ends_witness:
  "\<exists>s'. run_auto_update (\<lambda>_. []) (demo_auto_args RestartNone) [(demo_world, None)] demo_files = (Some (Ok ()), s') \<and>
     uf_files s' ''/b/speechmesh'' = Some \<lparr>fl_bytes = [1, 2], fl_mode = 493\<rparr>"
proof -
  obtain release where "verified_update demo_world (build_auto_update_self_update_args (demo_auto_args RestartNone)) =
      Ok (release, ''/b/speechmesh'', [1, 2])" using demo_verified by blast
  note ends = auto_update_ends [OF demo_auto_plain demo_files_healthy demo_path_name _ this, of "[]" "\<lambda>_. []" "[]"]
  have "restart_of demo_world (demo_auto_args RestartNone) = Ok ()" by (simp add: restart_of_def demo_auto_args_def)
  with ends show ?thesis by (auto simp: demo_old_def)
qed

text \<open>\<^verbatim>\<open>--restart-mode systemd-user\<close> without \<^verbatim>\<open>--service-name\<close>.\<close>

theorem failed_restart_repeats_forever_witness:
  "\<exists>s'. run_auto_update (\<lambda>_. []) (demo_auto_args RestartSystemdUser) [(demo_world, None), (demo_world, None)] demo_files = (None, s') \<and>
     map_option fl_bytes (uf_files s' (backup_of ''/b/speechmesh'')) = Some [1, 2]"
proof -
  let ?a = "demo_auto_args RestartSystemdUser"
  have "\<exists>e. restart_of demo_world ?a = Err e" by (simp add: restart_of_def demo_auto_args_def)
  then have "\<forall>(w, f) \<in> set [(demo_world, None), (demo_world, None)]. f = None \<and> (\<exists>e. restart_of w ?a = Err e) \<and>
      (\<exists>release. verified_update w (build_auto_update_self_update_args ?a) = Ok (release, ''/b/speechmesh'', [1, 2]))"
    using demo_verified by simp
  from failed_restart_repeats_forever [OF demo_auto_plain demo_files_healthy demo_path_name this, of "\<lambda>_. []"]
  show ?thesis by auto
qed

end
