(* ===== verification/ConfigText.thy ===== *)
theory ConfigText
  imports Prelude
begin

text \<open>
  The text of \<^verbatim>\<open>~/.speechmesh/config.yml\<close>, which the device agent and the command-line client both
  read with parsers of their own: the string functions of the Rust standard library the parsers call,
  the values they read, the loop over the lines that they share, and as locales what a step of a parser
  promises: an invariant kept, no error, or agreement with another parser.
\<close>

section \<open>Strings\<close>

text \<open>\<^verbatim>\<open>str::lines\<close>: a line ends with a line feed, and a carriage return before it belongs to the end.\<close>

definition strip_cr :: "string \<Rightarrow> string" where
  "strip_cr l = unwrap_or (strip_suffix [CHR 0x0D] l) l"

function str_lines :: "string \<Rightarrow> string list" where
  "str_lines s =
     (if s = [] then []
      else (case dropWhile (\<lambda>c. c \<noteq> CHR 0x0A) s of
              [] \<Rightarrow> [s]
            | _ # rest \<Rightarrow> strip_cr (takeWhile (\<lambda>c. c \<noteq> CHR 0x0A) s) # str_lines rest))"
  by pat_completeness auto
termination
proof (relation "measure length")
  fix s :: string and x rest
  assume "dropWhile (\<lambda>c. c \<noteq> CHR 0x0A) s = x # rest"
  then have "length (x # rest) \<le> length s" by (metis length_dropWhile_le)
  then show "(rest, s) \<in> measure length" by simp
qed simp

declare str_lines.simps [simp del]

text \<open>\<^verbatim>\<open>split_once\<close>, \<^verbatim>\<open>split\<close> and \<^verbatim>\<open>trim_end_matches\<close> with a character.\<close>

definition split_once :: "char \<Rightarrow> string \<Rightarrow> (string \<times> string) option" where
  "split_once c s =
     (case dropWhile (\<lambda>x. x \<noteq> c) s of
        [] \<Rightarrow> None
      | _ # r \<Rightarrow> Some (takeWhile (\<lambda>x. x \<noteq> c) s, r))"

lemma split_once_Some_iff: "split_once c s = Some (a, b) \<longleftrightarrow> s = a @ c # b \<and> c \<notin> set a"
proof
  assume "split_once c s = Some (a, b)"
  then obtain x where d: "dropWhile (\<lambda>x. x \<noteq> c) s = x # b" and a: "a = takeWhile (\<lambda>x. x \<noteq> c) s"
    by (auto simp: split_once_def split: list.splits)
  have "x = c" using hd_dropWhile [of "\<lambda>x. x \<noteq> c" s] d by simp
  then show "s = a @ c # b \<and> c \<notin> set a"
    using a d takeWhile_dropWhile_id [of "\<lambda>x. x \<noteq> c" s] by (auto dest: set_takeWhileD)
next
  assume s: "s = a @ c # b \<and> c \<notin> set a"
  then have "dropWhile (\<lambda>x. x \<noteq> c) s = c # b" "takeWhile (\<lambda>x. x \<noteq> c) s = a"
    by (auto simp: dropWhile_append takeWhile_append)
  then show "split_once c s = Some (a, b)" by (simp add: split_once_def)
qed

lemma split_once_None_iff: "split_once c s = None \<longleftrightarrow> c \<notin> set s"
proof (cases "c \<in> set s")
  case True
  then obtain a b where "s = a @ c # b" "c \<notin> set a" by (meson split_list_first)
  then have "split_once c s = Some (a, b)" by (simp add: split_once_Some_iff)
  with True show ?thesis by simp
next
  case False
  have "split_once c s \<noteq> Some (a, b)" for a b using False split_once_Some_iff [of c s a b] by auto
  then have "split_once c s = None" by (cases "split_once c s") auto
  with False show ?thesis by simp
qed

fun split_on :: "char \<Rightarrow> string \<Rightarrow> string list" where
  "split_on c [] = [[]]"
| "split_on c (x # xs) =
     (if x = c then [] # split_on c xs
      else (case split_on c xs of [] \<Rightarrow> [[x]] | w # ws \<Rightarrow> (x # w) # ws))"

definition trim_end_matches :: "char \<Rightarrow> string \<Rightarrow> string" where
  "trim_end_matches c s = rev (dropWhile (\<lambda>x. x = c) (rev s))"

text \<open>The number of leading blanks: \<^verbatim>\<open>line.chars().take_while(|c| *c == ' ').count()\<close>.\<close>

definition line_indent :: "string \<Rightarrow> nat" where
  "line_indent line = length (takeWhile (\<lambda>c. c = CHR '' '') line)"

section \<open>Numbers\<close>

text \<open>\<^verbatim>\<open>str::parse\<close> into an unsigned integer below \<open>bound\<close>: an optional plus sign, then digits, the first
  offending character or the first overflow deciding the error.\<close>

definition is_digit :: "char \<Rightarrow> bool" where
  "is_digit c = (let n = (of_char c :: nat) in 48 \<le> n \<and> n \<le> 57)"

fun parse_digits :: "nat \<Rightarrow> nat \<Rightarrow> string \<Rightarrow> string + nat" where
  "parse_digits bound acc [] = Ok acc"
| "parse_digits bound acc (c # cs) =
     (if \<not> is_digit c then Err ''invalid digit found in string''
      else (let n = acc * 10 + read_digit c
            in if n < bound then parse_digits bound n cs
               else Err ''number too large to fit in target type''))"

definition parse_uint :: "nat \<Rightarrow> string \<Rightarrow> string + nat" where
  "parse_uint bound s =
     (if s = [] then Err ''cannot parse integer from empty string''
      else if s = ''+'' then Err ''invalid digit found in string''
      else parse_digits bound 0 (unwrap_or (strip_prefix ''+'' s) s))"

definition parse_word :: "string \<Rightarrow> string + 'w::len word" where
  "parse_word s = map_sum id of_nat (parse_uint (2 ^ LENGTH('w)) s)"

lemma parse_digits_append:
  "parse_digits bound acc (s @ t) = and_then (parse_digits bound acc s) (\<lambda>n. parse_digits bound n t)"
  by (induction bound acc s rule: parse_digits.induct) (auto simp: Let_def)

lemma is_digit_char [simp]: "d < 10 \<Longrightarrow> is_digit (digit_char d)"
  by (simp add: is_digit_def digit_char_def)

lemma parse_digits_show: "n < bound \<Longrightarrow> parse_digits bound 0 (show_nat n) = Ok n"
proof (induction n rule: show_nat.induct)
  case (1 n)
  show ?case
  proof (cases "n < 10")
    case True
    then show ?thesis using 1 by (simp add: show_nat.simps [of n])
  next
    case False
    then have "parse_digits bound 0 (show_nat (n div 10)) = Ok (n div 10)" using 1 by simp
    then show ?thesis using False 1(2) by (simp add: show_nat.simps [of n] parse_digits_append)
  qed
qed

lemma show_nat_head: "\<exists>d < 10. \<exists>r. show_nat n = digit_char d # r"
proof (induction n rule: show_nat.induct)
  case (1 n)
  show ?case
  proof (cases "n < 10")
    case True
    then show ?thesis by (auto simp: show_nat.simps [of n])
  next
    case False
    then show ?thesis using 1 by (auto simp: show_nat.simps [of n])
  qed
qed

lemma parse_uint_show:
  assumes "n < bound"
  shows "parse_uint bound (show_nat n) = Ok n"
proof -
  obtain d r where d: "d < 10" "show_nat n = digit_char d # r" using show_nat_head by blast
  have "digit_char d \<noteq> CHR ''+''" using d(1) is_digit_char [of d] by (auto simp: is_digit_def)
  with d parse_digits_show [OF assms] show ?thesis by (simp add: parse_uint_def)
qed

lemma parse_word_show: "n < 2 ^ LENGTH('w) \<Longrightarrow> parse_word (show_nat n) = Ok (of_nat n :: 'w::len word)"
  by (simp add: parse_word_def parse_uint_show)

section \<open>The loop over the lines\<close>

text \<open>Blank lines and comments are skipped; a step reads the indentation and the trimmed text of a line.\<close>

fun parse_config :: "(nat \<Rightarrow> string \<Rightarrow> 's \<Rightarrow> string + 's) \<Rightarrow> string list \<Rightarrow> 's \<Rightarrow> string + 's" where
  "parse_config parse_line [] s = Ok s"
| "parse_config parse_line (original # rest) s =
     (let line = trim_end original; trimmed = trim line
      in if trimmed = [] \<or> prefix ''#'' trimmed then parse_config parse_line rest s
         else and_then (parse_line (line_indent line) trimmed s) (parse_config parse_line rest))"

locale config_parser =
  fixes parse_line :: "nat \<Rightarrow> string \<Rightarrow> 's \<Rightarrow> string + 's" and good :: "'s \<Rightarrow> bool"
  assumes line_keeps: "good s \<Longrightarrow> parse_line n t s = Ok s' \<Longrightarrow> good s'"
begin

lemma parse_keeps: "good s \<Longrightarrow> parse_config parse_line ls s = Ok s' \<Longrightarrow> good s'"
  by (induction ls arbitrary: s) (auto simp: Let_def split: if_splits dest: line_keeps)

end

locale total_config_parser = config_parser +
  assumes line_ok: "good s \<Longrightarrow> \<exists>s'. parse_line n t s = Ok s'"
begin

lemma parse_ok: "good s \<Longrightarrow> \<exists>s'. parse_config parse_line ls s = Ok s'"
proof (induction ls arbitrary: s)
  case Nil
  then show ?case by simp
next
  case (Cons l ls)
  have "\<exists>s'. and_then (parse_line n t s) (parse_config parse_line ls) = Ok s'" for n t
    using line_ok [OF Cons.prems, of n t] Cons.IH line_keeps [OF Cons.prems] by auto
  with Cons show ?case by (simp add: Let_def del: and_then_Inr)
qed

end

text \<open>A parser all of whose errors are of one kind.\<close>

locale failing_parser = config_parser +
  fixes expected_error :: "string \<Rightarrow> bool"
  assumes line_fails: "good s \<Longrightarrow> parse_line n t s = Err e \<Longrightarrow> expected_error e"
begin

lemma parse_fails: "good s \<Longrightarrow> parse_config parse_line ls s = Err e \<Longrightarrow> expected_error e"
proof (induction ls arbitrary: s)
  case Nil
  then show ?case by simp
next
  case (Cons l ls)
  have "expected_error e" if "and_then (parse_line n t s) (parse_config parse_line ls) = Err e" for n t
  proof (cases "parse_line n t s")
    case (Inl e')
    with that line_fails [OF Cons.prems(1) Inl] show ?thesis by simp
  next
    case (Inr s')
    with that Cons.IH [OF line_keeps [OF Cons.prems(1) Inr]] show ?thesis by simp
  qed
  with Cons show ?case by (simp add: Let_def split: if_splits)
qed

end

text \<open>Two parsers whose steps agree, as long as the first accepts the line, agree on the file.\<close>

locale agreeing_parsers =
  fixes parse_line1 :: "nat \<Rightarrow> string \<Rightarrow> 's \<Rightarrow> string + 's"
    and parse_line2 :: "nat \<Rightarrow> string \<Rightarrow> 't \<Rightarrow> string + 't"
    and agree :: "'s \<Rightarrow> 't \<Rightarrow> bool"
  assumes line_agrees: "agree s t \<Longrightarrow> parse_line1 n x s = Ok s' \<Longrightarrow> \<exists>t'. parse_line2 n x t = Ok t' \<and> agree s' t'"
begin

lemma parse_agrees:
  "agree s t \<Longrightarrow> parse_config parse_line1 ls s = Ok s'
     \<Longrightarrow> \<exists>t'. parse_config parse_line2 ls t = Ok t' \<and> agree s' t'"
proof (induction ls arbitrary: s t)
  case Nil
  then show ?case by simp
next
  case (Cons l ls)
  then show ?case by (auto simp: Let_def split: if_splits) (metis line_agrees)
qed

end

section \<open>Errors, files and values\<close>

text \<open>\<^verbatim>\<open>with_context\<close>: an error is its chain, as \<^verbatim>\<open>{error:#}\<close> prints it.\<close>

definition in_chain :: "string \<Rightarrow> string + 'a \<Rightarrow> string + 'a" where
  "in_chain c r = map_sum (\<lambda>e. c @ '': '' @ e) id r"

text \<open>What the environment and the disk answer: \<^verbatim>\<open>HOME\<close>, whether a path exists, what reading it gives.\<close>

record config_env =
  cfe_home :: "string option"
  cfe_exists :: "string \<Rightarrow> bool"
  cfe_read :: "string \<Rightarrow> string + string"

definition strip_quotes :: "string \<Rightarrow> string" where
  "strip_quotes value =
     unwrap_or
       (or_else (Option.bind (strip_prefix [CHR 0x22] value) (strip_suffix [CHR 0x22]))
                (Option.bind (strip_prefix [CHR 0x27] value) (strip_suffix [CHR 0x27]))) value"

definition split_key_value :: "string \<Rightarrow> (string \<times> string) option" where
  "split_key_value line =
     (case split_once (CHR '':'') line of
        None \<Rightarrow> None
      | Some (key, v) \<Rightarrow>
          (let value = trim v in if value = [] then None else Some (trim key, strip_quotes value)))"

end
