(* ===== verification/AgentConfig.thy ===== *)
theory AgentConfig
  imports ConfigText AgentRuntime
begin

text \<open>
  \<^verbatim>\<open>speechmeshd/src/bin/speechmesh-agent.rs\<close>: how the device agent reads its configuration file and makes
  the configuration it runs with. The arguments are the parsed ones, with the defaults clap has filled in.
\<close>

section \<open>The file\<close>

record agent_gateway_config =
  agw_ws_url :: "string option"
  agw_agent_url :: "string option"

record agent_profile =
  agp_gateway :: agent_gateway_config
  agp_shared_secret :: "string option"

record agent_file_config =
  agf_active_profile :: "string option"
  agf_profiles :: "string \<rightharpoonup> agent_profile"
  agf_default_profile :: agent_profile

definition agent_profile_default :: agent_profile where
  "agent_profile_default = \<lparr>agp_gateway = \<lparr>agw_ws_url = None, agw_agent_url = None\<rparr>, agp_shared_secret = None\<rparr>"

definition agent_file_default :: agent_file_config where
  "agent_file_default =
     \<lparr>agf_active_profile = None, agf_profiles = Map.empty, agf_default_profile = agent_profile_default\<rparr>"

section \<open>Parsing\<close>

definition agent_assign_profile_value :: "string \<Rightarrow> agent_profile \<Rightarrow> string + agent_profile" where
  "agent_assign_profile_value trimmed p =
     (if trimmed = ''gateway:'' then Ok p
      else (case split_key_value trimmed of
              None \<Rightarrow> Ok p
            | Some (key, value) \<Rightarrow>
                Ok (if key = ''shared_secret'' then p\<lparr>agp_shared_secret := Some value\<rparr>
                    else if key = ''ws_url'' then p\<lparr>agp_gateway := agp_gateway p\<lparr>agw_ws_url := Some value\<rparr>\<rparr>
                    else if key = ''agent_url'' then p\<lparr>agp_gateway := agp_gateway p\<lparr>agw_agent_url := Some value\<rparr>\<rparr>
                    else p)))"

definition agent_assign_gateway_value :: "string \<Rightarrow> agent_gateway_config \<Rightarrow> string + agent_gateway_config" where
  "agent_assign_gateway_value trimmed g =
     (case split_key_value trimmed of
        None \<Rightarrow> Ok g
      | Some (key, value) \<Rightarrow>
          Ok (if key = ''ws_url'' then g\<lparr>agw_ws_url := Some value\<rparr>
              else if key = ''agent_url'' then g\<lparr>agw_agent_url := Some value\<rparr>
              else g))"

text \<open>The variables of the loop.\<close>

record agent_parser =
  apr_config :: agent_file_config
  apr_current :: "string option"
  apr_in_profiles :: bool
  apr_in_gateway :: bool

definition agent_parser_new :: agent_parser where
  "agent_parser_new =
     \<lparr>apr_config = agent_file_default, apr_current = None, apr_in_profiles = False, apr_in_gateway = False\<rparr>"

definition agent_active_profile :: "string \<Rightarrow> agent_file_config \<Rightarrow> agent_file_config" where
  "agent_active_profile trimmed cfg =
     (case split_key_value trimmed of
        Some (key, value) \<Rightarrow> (if key = ''active_profile'' then cfg\<lparr>agf_active_profile := Some value\<rparr> else cfg)
      | None \<Rightarrow> cfg)"

text \<open>A line without indentation: a section, or a value of the profile the file gives at its top level.\<close>

definition agent_top_line :: "string \<Rightarrow> agent_parser \<Rightarrow> string + agent_parser" where
  "agent_top_line trimmed s0 =
     (let s = s0\<lparr>apr_current := None, apr_in_gateway := False\<rparr>
      in if trimmed = ''profiles:'' then Ok (s\<lparr>apr_in_profiles := True\<rparr>)
         else if trimmed = ''gateway:'' then Ok (s\<lparr>apr_in_profiles := False, apr_in_gateway := True\<rparr>)
         else and_then (agent_assign_profile_value trimmed (agf_default_profile (apr_config s))) (\<lambda>p.
           Ok (s\<lparr>apr_in_profiles := False,
                 apr_config := agent_active_profile trimmed ((apr_config s)\<lparr>agf_default_profile := p\<rparr>)\<rparr>)))"

text \<open>The name of a profile opens it, and gives it its defaults the first time.\<close>

definition agent_open_profile :: "string \<Rightarrow> agent_parser \<Rightarrow> agent_parser" where
  "agent_open_profile trimmed s =
     (let name = trim (trim_end_matches (CHR '':'') trimmed); cfg = apr_config s
      in s\<lparr>apr_current := Some name, apr_in_gateway := False,
           apr_config := cfg\<lparr>agf_profiles :=
             (agf_profiles cfg)(name \<mapsto> unwrap_or (agf_profiles cfg name) agent_profile_default)\<rparr>\<rparr>)"

text \<open>\<^verbatim>\<open>profiles.get_mut(current)\<close> and an assignment to what it finds.\<close>

definition agent_in_profile ::
  "(agent_profile \<Rightarrow> string + agent_profile) \<Rightarrow> agent_parser \<Rightarrow> string + agent_parser" where
  "agent_in_profile assign s =
     (let cfg = apr_config s; name = unwrap_or (apr_current s) []
      in case agf_profiles cfg name of
           None \<Rightarrow> Err ''unknown profile while parsing''
         | Some p \<Rightarrow> map_sum id (\<lambda>p'. s\<lparr>apr_config := cfg\<lparr>agf_profiles := (agf_profiles cfg)(name \<mapsto> p')\<rparr>\<rparr>) (assign p))"

definition agent_line :: "nat \<Rightarrow> string \<Rightarrow> agent_parser \<Rightarrow> string + agent_parser" where
  "agent_line indent trimmed s =
     (if indent = 0 then agent_top_line trimmed s
      else if indent = 2 \<and> apr_in_profiles s \<and> suffix '':'' trimmed then Ok (agent_open_profile trimmed s)
      else if indent = 2 \<and> \<not> apr_in_profiles s \<and> apr_in_gateway s then
        (let cfg = apr_config s; p = agf_default_profile cfg
         in map_sum id (\<lambda>g. s\<lparr>apr_config := cfg\<lparr>agf_default_profile := p\<lparr>agp_gateway := g\<rparr>\<rparr>\<rparr>)
              (agent_assign_gateway_value trimmed (agp_gateway p)))
      else if indent = 4 \<and> apr_current s \<noteq> None \<and> trimmed = ''gateway:'' then Ok (s\<lparr>apr_in_gateway := True\<rparr>)
      else if indent = 4 \<and> apr_current s \<noteq> None then
        agent_in_profile (agent_assign_profile_value trimmed) (s\<lparr>apr_in_gateway := False\<rparr>)
      else if indent = 6 \<and> apr_current s \<noteq> None \<and> apr_in_gateway s then
        agent_in_profile (\<lambda>p. map_sum id (\<lambda>g. p\<lparr>agp_gateway := g\<rparr>) (agent_assign_gateway_value trimmed (agp_gateway p))) s
      else Ok s)"

definition agent_parse_file_config :: "string \<Rightarrow> string + agent_file_config" where
  "agent_parse_file_config raw =
     map_sum id apr_config (parse_config agent_line (str_lines raw) agent_parser_new)"

section \<open>Loading and running\<close>

definition config_path :: "config_env \<Rightarrow> string option \<Rightarrow> string + string option" where
  "config_path env explicit_path =
     (case explicit_path of
        Some path \<Rightarrow> Ok (Some path)
      | None \<Rightarrow>
          (case cfe_home env of
             None \<Rightarrow> Err ''HOME is not set; use --config to specify a config file''
           | Some home \<Rightarrow> Ok (Some (path_join (path_join home ''.speechmesh'') ''config.yml''))))"

definition load_agent_config :: "config_env \<Rightarrow> string option \<Rightarrow> string + agent_file_config option" where
  "load_agent_config env explicit_path =
     and_then (config_path env explicit_path) (\<lambda>found.
       (case found of
          None \<Rightarrow> Ok None
        | Some path \<Rightarrow>
            (if \<not> cfe_exists env path then Ok None
             else and_then (in_chain (''failed to read config file '' @ path) (cfe_read env path)) (\<lambda>raw.
               map_sum id Some (in_chain (''failed to parse config '' @ path) (agent_parse_file_config raw))))))"

definition agent_resolve_profile :: "agent_file_config option \<Rightarrow> string option \<Rightarrow> agent_profile option" where
  "agent_resolve_profile config selected =
     Option.bind config (\<lambda>cfg.
       or_else (Option.bind selected (agf_profiles cfg))
         (or_else (Option.bind (agf_active_profile cfg) (agf_profiles cfg))
           (or_else (agf_profiles cfg ''default'')
             (let p = agf_default_profile cfg
              in if agw_ws_url (agp_gateway p) \<noteq> None \<or> agw_agent_url (agp_gateway p) \<noteq> None \<or> agp_shared_secret p \<noteq> None
                 then Some p else None))))"

datatype agent_capability = SpeakerCapability

fun capabilities_for :: "agent_capability \<Rightarrow> string list" where
  "capabilities_for SpeakerCapability = [''speaker'']"

record agent_run_args =
  ara_gateway_url :: "string option"
  ara_agent_id :: string
  ara_agent_name :: string
  ara_device_id :: string
  ara_provider_id :: string
  ara_shared_secret :: "string option"
  ara_capability :: agent_capability

text \<open>The configuration of \<^verbatim>\<open>run_forever\<close>; the reconnect delay is handed on as it is.\<close>

definition agent_run_config ::
  "config_env \<Rightarrow> string option \<Rightarrow> string option \<Rightarrow> agent_run_args \<Rightarrow> string + runtime_config" where
  "agent_run_config env explicit_path selected args =
     and_then (load_agent_config env explicit_path) (\<lambda>config.
       (let profile = agent_resolve_profile config selected
        in Ok \<lparr>rcf_gateway_url =
                 unwrap_or
                   (or_else (ara_gateway_url args)
                     (or_else (Option.bind profile (\<lambda>p. agw_agent_url (agp_gateway p)))
                              (Option.bind profile (\<lambda>p. agw_ws_url (agp_gateway p)))))
                   ''ws://127.0.0.1:8765/agent'',
               rcf_agent_id = ara_agent_id args, rcf_agent_name = ara_agent_name args,
               rcf_device_id = ara_device_id args, rcf_provider_id = ara_provider_id args,
               rcf_shared_secret = or_else (ara_shared_secret args) (Option.bind profile agp_shared_secret),
               rcf_capabilities = capabilities_for (ara_capability args)\<rparr>))"

section \<open>Lemmas\<close>

text \<open>The profile that lines are assigned to is in the table, so \<^verbatim>\<open>unknown profile while parsing\<close> is unreachable.\<close>

definition agent_parser_good :: "agent_parser \<Rightarrow> bool" where
  "agent_parser_good s \<longleftrightarrow> (\<forall>name. apr_current s = Some name \<longrightarrow> agf_profiles (apr_config s) name \<noteq> None)"

lemma agent_assign_ok:
  "\<exists>p'. agent_assign_profile_value trimmed p = Ok p'" "\<exists>g'. agent_assign_gateway_value trimmed g = Ok g'"
  by (auto simp: agent_assign_profile_value_def agent_assign_gateway_value_def split: option.split)

lemma agent_in_profile_ok:
  assumes "agent_parser_good s" "apr_current s \<noteq> None" "\<And>p. \<exists>p'. assign p = Ok p'"
  shows "\<exists>s'. agent_in_profile assign s = Ok s'"
proof -
  obtain name p where n: "apr_current s = Some name" "agf_profiles (apr_config s) name = Some p"
    using assms(1,2) by (auto simp: agent_parser_good_def)
  obtain p' where "assign p = Ok p'" using assms(3) by blast
  with n show ?thesis by (simp add: agent_in_profile_def Let_def)
qed

lemma agent_in_profile_good:
  assumes "agent_parser_good s" "agent_in_profile assign s = Ok s'"
  shows "agent_parser_good s'"
proof -
  obtain p p' where s': "s' = s\<lparr>apr_config := (apr_config s)\<lparr>agf_profiles :=
      (agf_profiles (apr_config s))(unwrap_or (apr_current s) [] \<mapsto> p')\<rparr>\<rparr>"
    using assms(2) by (auto simp: agent_in_profile_def Let_def map_sum_def split: option.splits sum.splits)
  show ?thesis using assms(1) by (auto simp: s' agent_parser_good_def)
qed

lemma agent_top_line_ok: "\<exists>s'. agent_top_line trimmed s = Ok s' \<and> apr_current s' = None"
proof -
  obtain p where "agent_assign_profile_value trimmed (agf_default_profile (apr_config s)) = Ok p"
    using agent_assign_ok(1) by blast
  then show ?thesis by (auto simp: agent_top_line_def Let_def)
qed

lemma agent_flags_good [simp]:
  "agent_parser_good (s\<lparr>apr_in_gateway := b\<rparr>) = agent_parser_good s"
  by (simp add: agent_parser_good_def)

lemma agent_open_profile_good: "agent_parser_good (agent_open_profile trimmed s)"
  by (simp add: agent_parser_good_def agent_open_profile_def Let_def)

lemma agent_line_good_ok:
  assumes "agent_parser_good s"
  shows "\<exists>s'. agent_line n trimmed s = Ok s' \<and> agent_parser_good s'"
proof -
  have top: "\<exists>s'. agent_top_line trimmed s = Ok s' \<and> agent_parser_good s'"
    using agent_top_line_ok [of trimmed s] by (auto simp: agent_parser_good_def)
  have inp: "\<exists>s'. agent_in_profile assign t = Ok s' \<and> agent_parser_good s'"
    if "apr_current t \<noteq> None" "\<And>p. \<exists>p'. assign p = Ok p'" "agent_parser_good t" for assign t
    using agent_in_profile_ok [OF that(3,1), of assign] that(2) agent_in_profile_good [OF that(3), of assign] by auto
  have gw: "\<exists>p'. map_sum id (\<lambda>g. p\<lparr>agp_gateway := g\<rparr>) (agent_assign_gateway_value trimmed (agp_gateway p)) = Ok p'" for p
    using agent_assign_ok(2) [of trimmed "agp_gateway p"] by auto
  obtain g where g: "agent_assign_gateway_value trimmed (agp_gateway (agf_default_profile (apr_config s))) = Ok g"
    using agent_assign_ok(2) by blast
  have dflt: "agent_parser_good (s\<lparr>apr_config := (apr_config s)\<lparr>agf_default_profile := p\<rparr>\<rparr>)" for p
    using assms by (simp add: agent_parser_good_def)
  show ?thesis
    unfolding agent_line_def
    using top inp [OF _ gw, of s] inp [of "s\<lparr>apr_in_gateway := False\<rparr>" "agent_assign_profile_value trimmed", OF _ agent_assign_ok(1)] g dflt assms
    by (auto simp: agent_open_profile_good Let_def)
qed

interpretation agent_parser: total_config_parser agent_line agent_parser_good
proof
  show "agent_parser_good s'" if "agent_parser_good s" "agent_line n t s = Ok s'" for s n t s'
    using agent_line_good_ok [OF that(1), of n t] that(2) by auto
  show "\<exists>s'. agent_line n t s = Ok s'" if "agent_parser_good s" for s n t
    using agent_line_good_ok [OF that] by blast
qed

text \<open>The agent reads every text.\<close>

lemma agent_parse_total: "\<exists>cfg. agent_parse_file_config raw = Ok cfg"
proof -
  have "agent_parser_good agent_parser_new" by (simp add: agent_parser_good_def agent_parser_new_def)
  from agent_parser.parse_ok [OF this, of "str_lines raw"] show ?thesis
    by (auto simp: agent_parse_file_config_def)
qed

end
