(* ===== verification/CliConfig.thy ===== *)
theory CliConfig
  imports AgentConfig CoreTypes
begin

text \<open>
  The configuration of the command-line client, \<^verbatim>\<open>sdks/rust/src/bin/speechmesh-cli.rs\<close>: the file it shares
  with the device agent, the profile it takes, and the voice profile that goes with a directory. What
  \<^verbatim>\<open>str::parse::<f32>\<close> answers is the parameter \<open>pf\<close>, and what \<^verbatim>\<open>fs::canonicalize\<close> answers is \<open>canon\<close>.
  \<^verbatim>\<open>AudioEncodingArg\<close> has the variants of \<open>audio_encoding\<close>, and \<^verbatim>\<open>into()\<close> maps each to its namesake.
\<close>

section \<open>The file\<close>

datatype output_encoding_arg = Mp3Output | WavOutput | FlacOutput

record cli_gateway_config =
  cgw_ws_url :: "string option"
  cgw_control_url :: "string option"

record defaults_config =
  dfc_device :: "string option"
  dfc_provider :: "string option"
  dfc_require :: "string list"
  dfc_prefer :: "string list"
  dfc_voice :: "string option"
  dfc_language :: "string option"
  dfc_rate :: "f32_bits option"
  dfc_pitch :: "f32_bits option"
  dfc_volume :: "f32_bits option"
  dfc_format :: "output_encoding_arg option"
  dfc_sample_rate :: "u32 option"
  dfc_channels :: "u16 option"
  dfc_control_url :: "string option"
  dfc_chunk_size_bytes :: "u64 option"
  dfc_asr_encoding :: "audio_encoding option"
  dfc_asr_sample_rate :: "u32 option"
  dfc_asr_channels :: "u16 option"
  dfc_asr_language :: "string option"
  dfc_asr_interim :: "bool option"
  dfc_asr_punctuation :: "bool option"
  dfc_asr_timestamps :: "bool option"
  dfc_asr_hints :: "string list"

record voice_profile_config =
  vpc_provider :: "string option"
  vpc_voice :: "string option"
  vpc_language :: "string option"
  vpc_rate :: "f32_bits option"
  vpc_pitch :: "f32_bits option"
  vpc_volume :: "f32_bits option"

record project_voice_binding =
  pvb_root :: "string option"
  pvb_voice_profile :: "string option"

record cli_profile =
  cpr_gateway :: cli_gateway_config
  cpr_client_name :: "string option"
  cpr_defaults :: defaults_config

record cli_file_config =
  cfc_active_profile :: "string option"
  cfc_profiles :: "string \<rightharpoonup> cli_profile"
  cfc_voice_profiles :: "string \<rightharpoonup> voice_profile_config"
  cfc_project_voice_profiles :: "string \<rightharpoonup> project_voice_binding"
  cfc_default_profile :: cli_profile

definition defaults_config_default :: defaults_config where
  "defaults_config_default =
     \<lparr>dfc_device = None, dfc_provider = None, dfc_require = [], dfc_prefer = [],
      dfc_voice = None, dfc_language = None, dfc_rate = None, dfc_pitch = None,
      dfc_volume = None, dfc_format = None, dfc_sample_rate = None, dfc_channels = None,
      dfc_control_url = None, dfc_chunk_size_bytes = None, dfc_asr_encoding = None, dfc_asr_sample_rate = None,
      dfc_asr_channels = None, dfc_asr_language = None, dfc_asr_interim = None, dfc_asr_punctuation = None,
      dfc_asr_timestamps = None, dfc_asr_hints = []\<rparr>"

definition voice_profile_default :: voice_profile_config where
  "voice_profile_default =
     \<lparr>vpc_provider = None, vpc_voice = None, vpc_language = None, vpc_rate = None, vpc_pitch = None, vpc_volume = None\<rparr>"

definition project_voice_default :: project_voice_binding where
  "project_voice_default = \<lparr>pvb_root = None, pvb_voice_profile = None\<rparr>"

definition cli_profile_default :: cli_profile where
  "cli_profile_default =
     \<lparr>cpr_gateway = \<lparr>cgw_ws_url = None, cgw_control_url = None\<rparr>, cpr_client_name = None,
      cpr_defaults = defaults_config_default\<rparr>"

definition cli_file_default :: cli_file_config where
  "cli_file_default =
     \<lparr>cfc_active_profile = None, cfc_profiles = Map.empty, cfc_voice_profiles = Map.empty,
      cfc_project_voice_profiles = Map.empty, cfc_default_profile = cli_profile_default\<rparr>"

section \<open>Values\<close>

definition parse_number :: "(string \<Rightarrow> string + 'a) \<Rightarrow> string \<Rightarrow> string \<Rightarrow> string + 'a" where
  "parse_number parse key value =
     map_sum (\<lambda>err. ''invalid value for '' @ key @ '': '' @ value @ '' ('' @ err @ '')'') id (parse value)"

definition parse_bool :: "string \<Rightarrow> string \<Rightarrow> string + bool" where
  "parse_bool value key =
     (if value = ''true'' \<or> value = ''yes'' \<or> value = ''on'' \<or> value = ''1'' then Ok True
      else if value = ''false'' \<or> value = ''no'' \<or> value = ''off'' \<or> value = ''0'' then Ok False
      else Err (''invalid value for '' @ key @ '': '' @ value))"

definition parse_csv_list :: "string \<Rightarrow> string list" where
  "parse_csv_list value = filter (\<lambda>item. item \<noteq> []) (map trim (split_on (CHR '','') value))"

definition parse_output_encoding :: "string \<Rightarrow> string + output_encoding_arg" where
  "parse_output_encoding value =
     (if value = ''mp3'' then Ok Mp3Output else if value = ''wav'' then Ok WavOutput
      else if value = ''flac'' then Ok FlacOutput else Err (''invalid value for format: '' @ value))"

definition parse_audio_encoding :: "string \<Rightarrow> string + audio_encoding" where
  "parse_audio_encoding value =
     (if value = ''pcm-s16le'' then Ok PcmS16Le else if value = ''pcm-f32le'' then Ok PcmF32Le
      else if value = ''opus'' then Ok Opus else if value = ''mp3'' then Ok Mp3
      else if value = ''aac'' then Ok Aac else if value = ''flac'' then Ok Flac
      else if value = ''wav'' then Ok Wav else Err (''invalid value for asr_encoding: '' @ value))"

definition cli_strip_quotes :: "string \<Rightarrow> string" where
  "cli_strip_quotes value =
     unwrap_or
       (or_else (Option.bind (strip_prefix [CHR 0x22] value) (strip_suffix [CHR 0x22]))
                (Option.bind (strip_prefix [CHR 0x27] value) (strip_suffix [CHR 0x27]))) value"

definition cli_split_key_value :: "string \<Rightarrow> (string \<times> string) option" where
  "cli_split_key_value line =
     (case split_once (CHR '':'') line of
        None \<Rightarrow> None
      | Some (key, v) \<Rightarrow>
          (let value = trim v in if value = [] then None else Some (trim key, cli_strip_quotes value)))"

definition assign_profile_value :: "string \<Rightarrow> cli_profile \<Rightarrow> string + cli_profile" where
  "assign_profile_value trimmed p =
     (if trimmed = ''gateway:'' then Ok p
      else (case cli_split_key_value trimmed of
              None \<Rightarrow> Ok p
            | Some (key, value) \<Rightarrow>
                Ok (if key = ''client_name'' then p\<lparr>cpr_client_name := Some value\<rparr>
                    else if key = ''ws_url'' then p\<lparr>cpr_gateway := cpr_gateway p\<lparr>cgw_ws_url := Some value\<rparr>\<rparr>
                    else if key = ''control_url'' then p\<lparr>cpr_gateway := cpr_gateway p\<lparr>cgw_control_url := Some value\<rparr>\<rparr>
                    else p)))"

definition assign_gateway_value :: "string \<Rightarrow> cli_gateway_config \<Rightarrow> string + cli_gateway_config" where
  "assign_gateway_value trimmed g =
     (case cli_split_key_value trimmed of
        None \<Rightarrow> Ok g
      | Some (key, value) \<Rightarrow>
          Ok (if key = ''ws_url'' then g\<lparr>cgw_ws_url := Some value\<rparr>
              else if key = ''control_url'' then g\<lparr>cgw_control_url := Some value\<rparr>
              else g))"

definition assign_defaults_value ::
  "(string \<Rightarrow> string + f32_bits) \<Rightarrow> string \<Rightarrow> defaults_config \<Rightarrow> string + defaults_config" where
  "assign_defaults_value pf trimmed d =
     (case cli_split_key_value trimmed of
        None \<Rightarrow> Ok d
      | Some (key, value) \<Rightarrow>
          (if key = ''device'' then Ok (d\<lparr>dfc_device := Some value\<rparr>)
           else if key = ''provider'' then Ok (d\<lparr>dfc_provider := Some value\<rparr>)
           else if key = ''require'' then Ok (d\<lparr>dfc_require := parse_csv_list value\<rparr>)
           else if key = ''prefer'' then Ok (d\<lparr>dfc_prefer := parse_csv_list value\<rparr>)
           else if key = ''voice'' then Ok (d\<lparr>dfc_voice := Some value\<rparr>)
           else if key = ''language'' then Ok (d\<lparr>dfc_language := Some value\<rparr>)
           else if key = ''rate'' then map_sum id (\<lambda>x. d\<lparr>dfc_rate := Some x\<rparr>) (parse_number pf key value)
           else if key = ''pitch'' then map_sum id (\<lambda>x. d\<lparr>dfc_pitch := Some x\<rparr>) (parse_number pf key value)
           else if key = ''volume'' then map_sum id (\<lambda>x. d\<lparr>dfc_volume := Some x\<rparr>) (parse_number pf key value)
           else if key = ''format'' then map_sum id (\<lambda>x. d\<lparr>dfc_format := Some x\<rparr>) (parse_output_encoding value)
           else if key = ''sample_rate'' then map_sum id (\<lambda>x. d\<lparr>dfc_sample_rate := Some x\<rparr>) (parse_number parse_word key value)
           else if key = ''channels'' then map_sum id (\<lambda>x. d\<lparr>dfc_channels := Some x\<rparr>) (parse_number parse_word key value)
           else if key = ''control_url'' then Ok (d\<lparr>dfc_control_url := Some value\<rparr>)
           else if key = ''chunk_size_bytes'' then map_sum id (\<lambda>x. d\<lparr>dfc_chunk_size_bytes := Some x\<rparr>) (parse_number parse_word key value)
           else if key = ''asr_encoding'' then map_sum id (\<lambda>x. d\<lparr>dfc_asr_encoding := Some x\<rparr>) (parse_audio_encoding value)
           else if key = ''asr_sample_rate'' then map_sum id (\<lambda>x. d\<lparr>dfc_asr_sample_rate := Some x\<rparr>) (parse_number parse_word key value)
           else if key = ''asr_channels'' then map_sum id (\<lambda>x. d\<lparr>dfc_asr_channels := Some x\<rparr>) (parse_number parse_word key value)
           else if key = ''asr_language'' then Ok (d\<lparr>dfc_asr_language := Some value\<rparr>)
           else if key = ''asr_interim'' then map_sum id (\<lambda>x. d\<lparr>dfc_asr_interim := Some x\<rparr>) (parse_bool value key)
           else if key = ''asr_punctuation'' then map_sum id (\<lambda>x. d\<lparr>dfc_asr_punctuation := Some x\<rparr>) (parse_bool value key)
           else if key = ''asr_timestamps'' then map_sum id (\<lambda>x. d\<lparr>dfc_asr_timestamps := Some x\<rparr>) (parse_bool value key)
           else if key = ''asr_hints'' then Ok (d\<lparr>dfc_asr_hints := parse_csv_list value\<rparr>)
           else Ok d))"

definition assign_voice_profile_value ::
  "(string \<Rightarrow> string + f32_bits) \<Rightarrow> string \<Rightarrow> voice_profile_config \<Rightarrow> string + voice_profile_config" where
  "assign_voice_profile_value pf trimmed p =
     (case cli_split_key_value trimmed of
        None \<Rightarrow> Ok p
      | Some (key, value) \<Rightarrow>
          (if key = ''provider'' then Ok (p\<lparr>vpc_provider := Some value\<rparr>)
           else if key = ''voice'' then Ok (p\<lparr>vpc_voice := Some value\<rparr>)
           else if key = ''language'' then Ok (p\<lparr>vpc_language := Some value\<rparr>)
           else if key = ''rate'' then map_sum id (\<lambda>x. p\<lparr>vpc_rate := Some x\<rparr>) (parse_number pf key value)
           else if key = ''pitch'' then map_sum id (\<lambda>x. p\<lparr>vpc_pitch := Some x\<rparr>) (parse_number pf key value)
           else if key = ''volume'' then map_sum id (\<lambda>x. p\<lparr>vpc_volume := Some x\<rparr>) (parse_number pf key value)
           else Ok p))"

definition assign_project_voice_binding_value ::
  "string \<Rightarrow> project_voice_binding \<Rightarrow> string + project_voice_binding" where
  "assign_project_voice_binding_value trimmed b =
     (case cli_split_key_value trimmed of
        None \<Rightarrow> Ok b
      | Some (key, value) \<Rightarrow>
          Ok (if key = ''root'' then b\<lparr>pvb_root := Some value\<rparr>
              else if key = ''voice_profile'' then b\<lparr>pvb_voice_profile := Some value\<rparr>
              else b))"

section \<open>Parsing\<close>

text \<open>The variables of the loop.\<close>

record cli_parser =
  clp_config :: cli_file_config
  clp_profile :: "string option"
  clp_voice :: "string option"
  clp_binding :: "string option"
  clp_in_profiles :: bool
  clp_in_voices :: bool
  clp_in_projects :: bool
  clp_in_gateway :: bool
  clp_in_defaults :: bool

definition cli_parser_new :: cli_parser where
  "cli_parser_new =
     \<lparr>clp_config = cli_file_default, clp_profile = None, clp_voice = None, clp_binding = None,
      clp_in_profiles = False, clp_in_voices = False, clp_in_projects = False, clp_in_gateway = False,
      clp_in_defaults = False\<rparr>"

definition in_section :: "bool \<Rightarrow> bool \<Rightarrow> bool \<Rightarrow> cli_parser \<Rightarrow> cli_parser" where
  "in_section profiles voices projects s =
     s\<lparr>clp_in_profiles := profiles, clp_in_voices := voices, clp_in_projects := projects\<rparr>"

definition cli_active_profile :: "string \<Rightarrow> cli_file_config \<Rightarrow> cli_file_config" where
  "cli_active_profile trimmed cfg =
     (case cli_split_key_value trimmed of
        Some (key, value) \<Rightarrow> (if key = ''active_profile'' then cfg\<lparr>cfc_active_profile := Some value\<rparr> else cfg)
      | None \<Rightarrow> cfg)"

definition cli_top_line :: "string \<Rightarrow> cli_parser \<Rightarrow> string + cli_parser" where
  "cli_top_line trimmed s0 =
     (let s = s0\<lparr>clp_profile := None, clp_voice := None, clp_binding := None, clp_in_gateway := False,
                 clp_in_defaults := False\<rparr>;
          out = in_section False False False s
      in if trimmed = ''profiles:'' then Ok (in_section True False False s)
         else if trimmed = ''voice_profiles:'' then Ok (in_section False True False s)
         else if trimmed = ''project_voice_profiles:'' then Ok (in_section False False True s)
         else if trimmed = ''gateway:'' then Ok (out\<lparr>clp_in_gateway := True\<rparr>)
         else if trimmed = ''defaults:'' then Ok (out\<lparr>clp_in_defaults := True\<rparr>)
         else and_then (assign_profile_value trimmed (cfc_default_profile (clp_config s))) (\<lambda>p.
           Ok (out\<lparr>clp_config := cli_active_profile trimmed ((clp_config s)\<lparr>cfc_default_profile := p\<rparr>)\<rparr>)))"

text \<open>\<^verbatim>\<open>entry(name).or_default()\<close>, and \<^verbatim>\<open>get_mut(name)\<close> with an assignment to what it finds.\<close>

definition or_default :: "string \<Rightarrow> 'a \<Rightarrow> (string \<rightharpoonup> 'a) \<Rightarrow> (string \<rightharpoonup> 'a)" where
  "or_default name d m = m(name \<mapsto> unwrap_or (m name) d)"

definition in_entry ::
  "string \<Rightarrow> string option \<Rightarrow> ('a \<Rightarrow> string + 'a) \<Rightarrow> (string \<rightharpoonup> 'a) \<Rightarrow> string + (string \<rightharpoonup> 'a)" where
  "in_entry err current assign m =
     (let name = unwrap_or current []
      in case m name of
           None \<Rightarrow> Err err
         | Some p \<Rightarrow> map_sum id (\<lambda>p'. m(name \<mapsto> p')) (assign p))"

definition section_name :: "string \<Rightarrow> string" where
  "section_name trimmed = trim (trim_end_matches (CHR '':'') trimmed)"

definition put_profiles :: "(string \<rightharpoonup> cli_profile) \<Rightarrow> cli_parser \<Rightarrow> cli_parser" where
  "put_profiles m s = s\<lparr>clp_config := (clp_config s)\<lparr>cfc_profiles := m\<rparr>\<rparr>"

definition put_voices :: "(string \<rightharpoonup> voice_profile_config) \<Rightarrow> cli_parser \<Rightarrow> cli_parser" where
  "put_voices m s = s\<lparr>clp_config := (clp_config s)\<lparr>cfc_voice_profiles := m\<rparr>\<rparr>"

definition put_projects :: "(string \<rightharpoonup> project_voice_binding) \<Rightarrow> cli_parser \<Rightarrow> cli_parser" where
  "put_projects m s = s\<lparr>clp_config := (clp_config s)\<lparr>cfc_project_voice_profiles := m\<rparr>\<rparr>"

definition put_default_profile :: "cli_profile \<Rightarrow> cli_parser \<Rightarrow> cli_parser" where
  "put_default_profile p s = s\<lparr>clp_config := (clp_config s)\<lparr>cfc_default_profile := p\<rparr>\<rparr>"

text \<open>The two assignments below a profile's own values.\<close>

definition profile_gateway_value :: "string \<Rightarrow> cli_profile \<Rightarrow> string + cli_profile" where
  "profile_gateway_value trimmed p = map_sum id (\<lambda>g. p\<lparr>cpr_gateway := g\<rparr>) (assign_gateway_value trimmed (cpr_gateway p))"

definition profile_defaults_value ::
  "(string \<Rightarrow> string + f32_bits) \<Rightarrow> string \<Rightarrow> cli_profile \<Rightarrow> string + cli_profile" where
  "profile_defaults_value pf trimmed p =
     map_sum id (\<lambda>d. p\<lparr>cpr_defaults := d\<rparr>) (assign_defaults_value pf trimmed (cpr_defaults p))"

definition cli_line :: "(string \<Rightarrow> string + f32_bits) \<Rightarrow> nat \<Rightarrow> string \<Rightarrow> cli_parser \<Rightarrow> string + cli_parser" where
  "cli_line pf indent trimmed s =
     (let cfg = clp_config s; name = section_name trimmed; named = suffix '':'' trimmed;
          in_profile = (\<lambda>assign s. map_sum id (\<lambda>m. put_profiles m s)
            (in_entry ''unknown profile while parsing'' (clp_profile s) assign (cfc_profiles (clp_config s))))
      in if indent = 0 then cli_top_line trimmed s
         else if indent = 2 \<and> clp_in_profiles s \<and> named then
           Ok (put_profiles (or_default name cli_profile_default (cfc_profiles cfg))
                (s\<lparr>clp_profile := Some name, clp_in_gateway := False, clp_in_defaults := False\<rparr>))
         else if indent = 2 \<and> clp_in_voices s \<and> named then
           Ok (put_voices (or_default name voice_profile_default (cfc_voice_profiles cfg)) (s\<lparr>clp_voice := Some name\<rparr>))
         else if indent = 2 \<and> clp_in_projects s \<and> named then
           Ok (put_projects (or_default name project_voice_default (cfc_project_voice_profiles cfg))
                (s\<lparr>clp_binding := Some name\<rparr>))
         else if indent = 2 \<and> \<not> clp_in_profiles s \<and> clp_in_gateway s then
           map_sum id (\<lambda>p. put_default_profile p s) (profile_gateway_value trimmed (cfc_default_profile cfg))
         else if indent = 2 \<and> \<not> clp_in_profiles s \<and> clp_in_defaults s then
           map_sum id (\<lambda>p. put_default_profile p s) (profile_defaults_value pf trimmed (cfc_default_profile cfg))
         else if indent = 4 \<and> clp_profile s \<noteq> None \<and> trimmed = ''gateway:'' then
           Ok (s\<lparr>clp_in_gateway := True, clp_in_defaults := False\<rparr>)
         else if indent = 4 \<and> clp_profile s \<noteq> None \<and> trimmed = ''defaults:'' then
           Ok (s\<lparr>clp_in_defaults := True, clp_in_gateway := False\<rparr>)
         else if indent = 4 \<and> clp_profile s \<noteq> None then
           in_profile (assign_profile_value trimmed) (s\<lparr>clp_in_gateway := False, clp_in_defaults := False\<rparr>)
         else if indent = 6 \<and> clp_profile s \<noteq> None \<and> clp_in_gateway s then
           in_profile (profile_gateway_value trimmed) s
         else if indent = 6 \<and> clp_profile s \<noteq> None \<and> clp_in_defaults s then
           in_profile (profile_defaults_value pf trimmed) s
         else if indent = 4 \<and> clp_voice s \<noteq> None \<and> clp_in_voices s then
           map_sum id (\<lambda>m. put_voices m s)
             (in_entry ''unknown voice profile while parsing'' (clp_voice s) (assign_voice_profile_value pf trimmed)
               (cfc_voice_profiles cfg))
         else if indent = 4 \<and> clp_binding s \<noteq> None \<and> clp_in_projects s then
           map_sum id (\<lambda>m. put_projects m s)
             (in_entry ''unknown project voice binding while parsing'' (clp_binding s)
               (assign_project_voice_binding_value trimmed) (cfc_project_voice_profiles cfg))
         else Ok s)"

definition parse_file_config :: "(string \<Rightarrow> string + f32_bits) \<Rightarrow> string \<Rightarrow> string + cli_file_config" where
  "parse_file_config pf raw = map_sum id clp_config (parse_config (cli_line pf) (str_lines raw) cli_parser_new)"

section \<open>Loading and choosing\<close>

definition cli_config_path :: "config_env \<Rightarrow> string option \<Rightarrow> string + string option" where
  "cli_config_path env explicit_path =
     (case explicit_path of
        Some path \<Rightarrow> Ok (Some path)
      | None \<Rightarrow>
          (case cfe_home env of
             None \<Rightarrow> Err ''HOME is not set; use --config to specify a config file''
           | Some home \<Rightarrow> Ok (Some (path_join (path_join home ''.speechmesh'') ''config.yml''))))"

definition load_cli_config ::
  "(string \<Rightarrow> string + f32_bits) \<Rightarrow> config_env \<Rightarrow> string option \<Rightarrow> string + cli_file_config option" where
  "load_cli_config pf env explicit_path =
     and_then (cli_config_path env explicit_path) (\<lambda>found.
       (case found of
          None \<Rightarrow> Ok None
        | Some path \<Rightarrow>
            (if \<not> cfe_exists env path then Ok None
             else and_then (in_chain (''failed to read config file '' @ path) (cfe_read env path)) (\<lambda>raw.
               map_sum id Some (in_chain (''failed to parse config '' @ path) (parse_file_config pf raw))))))"

definition defaults_present :: "defaults_config \<Rightarrow> bool" where
  "defaults_present d \<longleftrightarrow>
     dfc_device d \<noteq> None \<or> dfc_provider d \<noteq> None \<or> dfc_require d \<noteq> [] \<or> dfc_prefer d \<noteq> [] \<or>
     dfc_voice d \<noteq> None \<or> dfc_language d \<noteq> None \<or> dfc_rate d \<noteq> None \<or> dfc_pitch d \<noteq> None \<or>
     dfc_volume d \<noteq> None \<or> dfc_format d \<noteq> None \<or> dfc_sample_rate d \<noteq> None \<or> dfc_channels d \<noteq> None \<or>
     dfc_control_url d \<noteq> None \<or> dfc_chunk_size_bytes d \<noteq> None \<or> dfc_asr_encoding d \<noteq> None \<or> dfc_asr_sample_rate d \<noteq> None \<or>
     dfc_asr_channels d \<noteq> None \<or> dfc_asr_language d \<noteq> None \<or> dfc_asr_interim d \<noteq> None \<or> dfc_asr_punctuation d \<noteq> None \<or>
     dfc_asr_timestamps d \<noteq> None \<or> dfc_asr_hints d \<noteq> []"

definition resolve_profile :: "cli_file_config option \<Rightarrow> string option \<Rightarrow> cli_profile option" where
  "resolve_profile config selected =
     Option.bind config (\<lambda>cfg.
       or_else (Option.bind selected (cfc_profiles cfg))
         (or_else (Option.bind (cfc_active_profile cfg) (cfc_profiles cfg))
           (or_else (cfc_profiles cfg ''default'')
             (let p = cfc_default_profile cfg
              in if cgw_ws_url (cpr_gateway p) \<noteq> None \<or> cgw_control_url (cpr_gateway p) \<noteq> None \<or>
                    cpr_client_name p \<noteq> None \<or> defaults_present (cpr_defaults p)
                 then Some p else None))))"

record cli_globals =
  clg_url :: "string option"
  clg_client_name :: "string option"
  clg_config :: "string option"
  clg_profile :: "string option"
  clg_json :: bool
  clg_jsonl :: bool

record cli_runtime =
  rtc_url :: string
  rtc_control_url :: "string option"
  rtc_defaults :: defaults_config
  rtc_voice_profiles :: "string \<rightharpoonup> voice_profile_config"
  rtc_project_voice_profiles :: "string \<rightharpoonup> project_voice_binding"
  rtc_client_name :: string
  rtc_json :: bool
  rtc_jsonl :: bool

definition cli_runtime_config ::
  "(string \<Rightarrow> string + f32_bits) \<Rightarrow> config_env \<Rightarrow> cli_globals \<Rightarrow> string + cli_runtime" where
  "cli_runtime_config pf env cli =
     and_then (load_cli_config pf env (clg_config cli)) (\<lambda>config.
       (let profile = resolve_profile config (clg_profile cli)
        in Ok \<lparr>rtc_url = unwrap_or (or_else (clg_url cli) (Option.bind profile (\<lambda>p. cgw_ws_url (cpr_gateway p))))
                 ''ws://127.0.0.1:8765/ws'',
               rtc_control_url = Option.bind profile (\<lambda>p. cgw_control_url (cpr_gateway p)),
               rtc_defaults = unwrap_or (map_option cpr_defaults profile) defaults_config_default,
               rtc_voice_profiles = unwrap_or (map_option cfc_voice_profiles config) Map.empty,
               rtc_project_voice_profiles = unwrap_or (map_option cfc_project_voice_profiles config) Map.empty,
               rtc_client_name = unwrap_or (or_else (clg_client_name cli) (Option.bind profile cpr_client_name)) ''speechmesh'',
               rtc_json = clg_json cli, rtc_jsonl = clg_jsonl cli\<rparr>))"

section \<open>The voice profile of a directory\<close>

text \<open>\<^verbatim>\<open>Path::components\<close> of a Unix path: empty and dot names do not count, but for a dot in front.\<close>

datatype path_component = RootDir | CurDir | ParentDir | NormalName string

definition name_component :: "string \<Rightarrow> path_component" where
  "name_component n = (if n = ''..'' then ParentDir else NormalName n)"

definition path_components :: "string \<Rightarrow> path_component list" where
  "path_components p =
     (let names = filter (\<lambda>n. n \<noteq> []) (split_on (CHR ''/'') p);
          rest = map name_component (filter (\<lambda>n. n \<noteq> ''.'') names)
      in if prefix ''/'' p then RootDir # rest
         else if names \<noteq> [] \<and> hd names = ''.'' then CurDir # rest else rest)"

definition path_has_prefix :: "string \<Rightarrow> string \<Rightarrow> bool" where
  "path_has_prefix path base \<longleftrightarrow> prefix (path_components base) (path_components path)"

definition canonicalize_if_exists :: "(string \<Rightarrow> string option) \<Rightarrow> string \<Rightarrow> string" where
  "canonicalize_if_exists canon path = unwrap_or (canon path) path"

definition voice_candidate ::
  "(string \<Rightarrow> string option) \<Rightarrow> cli_runtime \<Rightarrow> string \<Rightarrow> project_voice_binding \<Rightarrow> (nat \<times> voice_profile_config) option" where
  "voice_candidate canon cli cwd binding =
     Option.bind (pvb_root binding) (\<lambda>root.
     Option.bind (pvb_voice_profile binding) (\<lambda>profile_name.
       (let root = canonicalize_if_exists canon root
        in if \<not> path_has_prefix cwd root then None
           else map_option (Pair (length (path_components root))) (rtc_voice_profiles cli profile_name))))"

definition select_voice_profile_for_path ::
  "string list \<Rightarrow> (string \<Rightarrow> string option) \<Rightarrow> cli_runtime \<Rightarrow> string \<Rightarrow> voice_profile_config option" where
  "select_voice_profile_for_path ks canon cli cwd =
     (let cwd = canonicalize_if_exists canon cwd
      in map_option snd (max_by_key fst
           (List.map_filter (voice_candidate canon cli cwd) (map_values ks (rtc_project_voice_profiles cli)))))"

text \<open>\<open>cwd\<close> is the current directory, when there is one.\<close>

definition select_voice_profile ::
  "string list \<Rightarrow> (string \<Rightarrow> string option) \<Rightarrow> string option \<Rightarrow> cli_runtime \<Rightarrow> string option
     \<Rightarrow> string + voice_profile_config option" where
  "select_voice_profile ks canon cwd cli selected =
     (case selected of
        Some name \<Rightarrow> map_sum id Some (ok_or (rtc_voice_profiles cli name) (''unknown voice profile: '' @ name))
      | None \<Rightarrow>
          (case cwd of
             None \<Rightarrow> Ok None
           | Some dir \<Rightarrow> Ok (select_voice_profile_for_path ks canon cli dir)))"

section \<open>Lemmas: the file\<close>

lemma cli_text_same [simp]: "cli_strip_quotes = strip_quotes" "cli_split_key_value = split_key_value"
proof -
  show same: "cli_strip_quotes = strip_quotes" by (rule ext) (simp add: cli_strip_quotes_def strip_quotes_def)
  show "cli_split_key_value = split_key_value"
    by (rule ext) (simp only: cli_split_key_value_def split_key_value_def same)
qed

lemma put_simps [simp]:
  "clp_config (put_profiles m s) = (clp_config s)\<lparr>cfc_profiles := m\<rparr>"
  "clp_config (put_voices m' s) = (clp_config s)\<lparr>cfc_voice_profiles := m'\<rparr>"
  "clp_config (put_projects m'' s) = (clp_config s)\<lparr>cfc_project_voice_profiles := m''\<rparr>"
  "clp_config (put_default_profile p s) = (clp_config s)\<lparr>cfc_default_profile := p\<rparr>"
  "clp_profile (put_profiles m s) = clp_profile s" "clp_profile (put_voices m' s) = clp_profile s"
  "clp_profile (put_projects m'' s) = clp_profile s" "clp_profile (put_default_profile p s) = clp_profile s"
  "clp_voice (put_profiles m s) = clp_voice s" "clp_voice (put_voices m' s) = clp_voice s"
  "clp_voice (put_projects m'' s) = clp_voice s" "clp_voice (put_default_profile p s) = clp_voice s"
  "clp_binding (put_profiles m s) = clp_binding s" "clp_binding (put_voices m' s) = clp_binding s"
  "clp_binding (put_projects m'' s) = clp_binding s" "clp_binding (put_default_profile p s) = clp_binding s"
  by (simp_all add: put_profiles_def put_voices_def put_projects_def put_default_profile_def)

lemma put_flags [simp]:
  "clp_in_profiles (put_profiles m s) = clp_in_profiles s" "clp_in_profiles (put_voices m' s) = clp_in_profiles s"
  "clp_in_profiles (put_projects m'' s) = clp_in_profiles s" "clp_in_profiles (put_default_profile p s) = clp_in_profiles s"
  "clp_in_voices (put_profiles m s) = clp_in_voices s" "clp_in_voices (put_voices m' s) = clp_in_voices s"
  "clp_in_voices (put_projects m'' s) = clp_in_voices s" "clp_in_voices (put_default_profile p s) = clp_in_voices s"
  "clp_in_projects (put_profiles m s) = clp_in_projects s" "clp_in_projects (put_voices m' s) = clp_in_projects s"
  "clp_in_projects (put_projects m'' s) = clp_in_projects s" "clp_in_projects (put_default_profile p s) = clp_in_projects s"
  "clp_in_gateway (put_profiles m s) = clp_in_gateway s" "clp_in_gateway (put_voices m' s) = clp_in_gateway s"
  "clp_in_gateway (put_projects m'' s) = clp_in_gateway s" "clp_in_gateway (put_default_profile p s) = clp_in_gateway s"
  by (simp_all add: put_profiles_def put_voices_def put_projects_def put_default_profile_def)

lemma map_sum_Inr: "map_sum f g r = Inr y \<longleftrightarrow> (\<exists>x. r = Inr x \<and> y = g x)"
  by (cases r) auto

lemma map_sum_Inl: "map_sum f g r = Inl y \<longleftrightarrow> (\<exists>x. r = Inl x \<and> y = f x)"
  by (cases r) auto

lemma in_entry_Inr:
  "in_entry err current assign m = Ok m' \<longleftrightarrow>
     (\<exists>p p'. m (unwrap_or current []) = Some p \<and> assign p = Ok p' \<and> m' = m(unwrap_or current [] \<mapsto> p'))"
  by (auto simp: in_entry_def Let_def map_sum_Inr split: option.splits)

text \<open>What the two programs have in common: the URLs of the gateway's \<^verbatim>\<open>/ws\<close> endpoint.\<close>

definition agent_ws :: "agent_profile \<Rightarrow> string option" where
  "agent_ws p = agw_ws_url (agp_gateway p)"

definition cli_ws :: "cli_profile \<Rightarrow> string option" where
  "cli_ws p = cgw_ws_url (cpr_gateway p)"

lemma cli_ws_fun: "cli_ws = (\<lambda>p. cgw_ws_url (cpr_gateway p))"
  by (rule ext) (simp add: cli_ws_def)

lemma agent_ws_fun: "agent_ws = (\<lambda>p. agw_ws_url (agp_gateway p))"
  by (rule ext) (simp add: agent_ws_def)

definition same_file :: "cli_file_config \<Rightarrow> agent_file_config \<Rightarrow> bool" where
  "same_file c a \<longleftrightarrow>
     cfc_active_profile c = agf_active_profile a \<and>
     (\<forall>name. map_option cli_ws (cfc_profiles c name) = map_option agent_ws (agf_profiles a name)) \<and>
     cli_ws (cfc_default_profile c) = agent_ws (agf_default_profile a)"

definition same_parser :: "cli_parser \<Rightarrow> agent_parser \<Rightarrow> bool" where
  "same_parser s t \<longleftrightarrow>
     same_file (clp_config s) (apr_config t) \<and> clp_profile s = apr_current t \<and>
     clp_in_profiles s = apr_in_profiles t \<and> clp_in_gateway s = apr_in_gateway t \<and> agent_parser_good t \<and>
     (clp_in_voices s \<or> clp_in_projects s \<longrightarrow> \<not> clp_in_profiles s \<and> \<not> clp_in_gateway s \<and> clp_profile s = None)"

lemma assign_profile_same:
  assumes "assign_profile_value x p = Ok p'" "agent_assign_profile_value x q = Ok q'" "cli_ws p = agent_ws q"
  shows "cli_ws p' = agent_ws q'"
  using assms
  by (auto simp: assign_profile_value_def agent_assign_profile_value_def cli_ws_def agent_ws_def
      split: option.splits if_splits)

lemma assign_gateway_same:
  assumes "assign_gateway_value x g = Ok g'" "agent_assign_gateway_value x h = Ok h'" "cgw_ws_url g = agw_ws_url h"
  shows "cgw_ws_url g' = agw_ws_url h'"
  using assms
  by (auto simp: assign_gateway_value_def agent_assign_gateway_value_def split: option.splits if_splits)

lemma same_default:
  "same_file c a \<Longrightarrow> cli_ws p = agent_ws q \<Longrightarrow> same_file (c\<lparr>cfc_default_profile := p\<rparr>) (a\<lparr>agf_default_profile := q\<rparr>)"
  by (simp add: same_file_def)

lemma same_active: "same_file c a \<Longrightarrow> same_file (cli_active_profile x c) (agent_active_profile x a)"
  by (auto simp: same_file_def cli_active_profile_def agent_active_profile_def split: option.split)

lemma same_top:
  assumes "same_parser s t" "cli_top_line x s = Ok s'"
  shows "\<exists>t'. agent_top_line x t = Ok t' \<and> same_parser s' t'"
proof -
  have inert: "agent_assign_profile_value y p = Ok p" "split_key_value y = None"
    if "y \<in> {''voice_profiles:'', ''project_voice_profiles:'', ''defaults:''}" for y p
    using that by (auto simp: agent_assign_profile_value_def split_key_value_def split_once_def)
  obtain q where q: "agent_assign_profile_value x (agf_default_profile (apr_config t)) = Ok q"
    using agent_assign_ok(1) by blast
  have sf: "same_file (clp_config s) (apr_config t)" using assms(1) by (simp add: same_parser_def)
  consider "x = ''profiles:''" | "x = ''gateway:''" | "x \<in> {''voice_profiles:'', ''project_voice_profiles:'', ''defaults:''}"
    | (other) "x \<noteq> ''profiles:''" "x \<noteq> ''gateway:''" "x \<notin> {''voice_profiles:'', ''project_voice_profiles:'', ''defaults:''}"
    by argo
  then show ?thesis
  proof cases
    case other
    obtain p where p: "assign_profile_value x (cfc_default_profile (clp_config s)) = Ok p"
      using assms(2) other by (auto simp: cli_top_line_def Let_def)
    have pq: "cli_ws p = agent_ws q" using assign_profile_same [OF p q] sf by (simp add: same_file_def)
    let ?c = "cli_active_profile x ((clp_config s)\<lparr>cfc_default_profile := p\<rparr>)"
    let ?a = "agent_active_profile x ((apr_config t)\<lparr>agf_default_profile := q\<rparr>)"
    have "s' = (in_section False False False (s\<lparr>clp_profile := None, clp_voice := None, clp_binding := None,
        clp_in_gateway := False, clp_in_defaults := False\<rparr>))\<lparr>clp_config := ?c\<rparr>"
      using assms(2) other p by (simp add: cli_top_line_def Let_def)
    moreover have "agent_top_line x t =
        Ok (t\<lparr>apr_current := None, apr_in_gateway := False, apr_in_profiles := False, apr_config := ?a\<rparr>)"
      using other q by (simp add: agent_top_line_def Let_def)
    moreover have "same_file ?c ?a" using same_active [OF same_default [OF sf pq]] .
    ultimately show ?thesis by (simp add: in_section_def same_parser_def agent_parser_good_def)
  next
    case 3
    then have "agent_top_line x t =
        Ok (t\<lparr>apr_current := None, apr_in_gateway := False, apr_in_profiles := False, apr_config := apr_config t\<rparr>)"
      by (elim insertE emptyE) (simp_all add: agent_top_line_def agent_active_profile_def inert Let_def)
    moreover have "clp_config s' = clp_config s \<and> clp_profile s' = None \<and> \<not> clp_in_profiles s' \<and> \<not> clp_in_gateway s'"
      using 3 assms(2) by (elim insertE emptyE) (simp_all add: cli_top_line_def in_section_def Let_def, auto)
    ultimately show ?thesis using sf by (simp add: same_parser_def agent_parser_good_def)
  qed (use assms(2) sf in \<open>simp_all add: cli_top_line_def agent_top_line_def Let_def in_section_def same_parser_def
      agent_parser_good_def, auto\<close>)
qed

lemma same_in_profile:
  assumes "same_parser s t" "in_entry err (clp_profile s) assign (cfc_profiles (clp_config s)) = Ok m"
    and "\<And>p q p'. assign p = Ok p' \<Longrightarrow> cli_ws p = agent_ws q \<Longrightarrow> \<exists>q'. assign' q = Ok q' \<and> cli_ws p' = agent_ws q'"
  shows "\<exists>t'. agent_in_profile assign' t = Ok t' \<and> same_parser (put_profiles m s) t'"
proof -
  let ?n = "unwrap_or (apr_current t) []"
  have n: "clp_profile s = apr_current t" and
    f: "map_option cli_ws (cfc_profiles (clp_config s) ?n) = map_option agent_ws (agf_profiles (apr_config t) ?n)"
    using assms(1) by (simp_all add: same_parser_def same_file_def)
  obtain p p' where p: "cfc_profiles (clp_config s) ?n = Some p" "assign p = Ok p'"
    "m = (cfc_profiles (clp_config s))(?n \<mapsto> p')"
    using assms(2) n by (auto simp: in_entry_Inr)
  obtain q where q: "agf_profiles (apr_config t) ?n = Some q" "cli_ws p = agent_ws q"
    using f p(1) by (cases "agf_profiles (apr_config t) ?n") auto
  obtain q' where q': "assign' q = Ok q'" "cli_ws p' = agent_ws q'" using assms(3) [OF p(2) q(2)] by blast
  have "same_parser (put_profiles m s)
    (t\<lparr>apr_config := (apr_config t)\<lparr>agf_profiles := (agf_profiles (apr_config t))(?n \<mapsto> q')\<rparr>\<rparr>)"
    using assms(1) q'(2) p(3) by (auto simp: same_parser_def same_file_def agent_parser_good_def)
  with q(1) q'(1) show ?thesis by (simp add: agent_in_profile_def Let_def)
qed

lemma same_open:
  assumes "same_parser s t" "clp_in_profiles s"
  shows "same_parser (put_profiles (or_default (section_name x) cli_profile_default (cfc_profiles (clp_config s)))
      (s\<lparr>clp_profile := Some (section_name x), clp_in_gateway := False, clp_in_defaults := False\<rparr>)) (agent_open_profile x t)"
proof -
  let ?n = "section_name x"
  have "map_option cli_ws (cfc_profiles (clp_config s) ?n) = map_option agent_ws (agf_profiles (apr_config t) ?n)"
    using assms by (simp add: same_parser_def same_file_def)
  then have "cli_ws (unwrap_or (cfc_profiles (clp_config s) ?n) cli_profile_default) =
      agent_ws (unwrap_or (agf_profiles (apr_config t) ?n) agent_profile_default)"
    by (cases "cfc_profiles (clp_config s) ?n"; cases "agf_profiles (apr_config t) ?n")
      (simp_all add: cli_ws_def agent_ws_def cli_profile_default_def agent_profile_default_def)
  with assms show ?thesis
    by (auto simp: same_parser_def same_file_def agent_open_profile_good or_default_def)
      (auto simp: agent_open_profile_def Let_def section_name_def)
qed

lemma same_line2:
  assumes "same_parser s t" "cli_line pf 2 x s = Ok s'"
  shows "\<exists>t'. agent_line 2 x t = Ok t' \<and> same_parser s' t'"
proof (cases "clp_in_profiles s")
  case True
  then have f: "apr_in_profiles t" "\<not> clp_in_voices s" "\<not> clp_in_projects s" using assms(1) by (auto simp: same_parser_def)
  show ?thesis
    using assms True f same_open [OF assms(1) True, of x]
    by (cases "suffix '':'' x") (auto simp: cli_line_def agent_line_def Let_def)
next
  case False
  then have f: "\<not> apr_in_profiles t" "apr_in_gateway t = clp_in_gateway s" using assms(1) by (auto simp: same_parser_def)
  show ?thesis
  proof (cases "clp_in_gateway s")
    case True
    then have v: "\<not> clp_in_voices s" "\<not> clp_in_projects s" using assms(1) by (auto simp: same_parser_def)
    obtain g where g: "assign_gateway_value x (cpr_gateway (cfc_default_profile (clp_config s))) = Ok g"
      "s' = put_default_profile ((cfc_default_profile (clp_config s))\<lparr>cpr_gateway := g\<rparr>) s"
      using assms(2) True False v by (auto simp: cli_line_def Let_def profile_gateway_value_def map_sum_Inr)
    obtain h where h: "agent_assign_gateway_value x (agp_gateway (agf_default_profile (apr_config t))) = Ok h"
      using agent_assign_ok(2) by blast
    have "cgw_ws_url g = agw_ws_url h"
      using assign_gateway_same [OF g(1) h] assms(1) by (simp add: same_parser_def same_file_def cli_ws_def agent_ws_def)
    with True False f v g h assms(1) show ?thesis
      by (auto simp: agent_line_def Let_def same_parser_def same_file_def cli_ws_def agent_ws_def agent_parser_good_def)
  next
    case g: False
    have "same_file (clp_config s') (apr_config t)"
      using assms False g
      by (auto simp: cli_line_def Let_def same_parser_def same_file_def map_sum_Inr profile_defaults_value_def cli_ws_def
          split: if_splits)
    moreover have "clp_profile s' = clp_profile s" "clp_in_profiles s' = clp_in_profiles s" "clp_in_gateway s' = clp_in_gateway s"
      "clp_in_voices s' = clp_in_voices s" "clp_in_projects s' = clp_in_projects s"
      using assms(2) False g by (auto simp: cli_line_def Let_def map_sum_Inr split: if_splits)
    ultimately show ?thesis using assms(1) f g by (auto simp: agent_line_def same_parser_def)
  qed
qed

lemma profile_value_same:
  assumes "assign_profile_value x p = Ok p'" "cli_ws p = agent_ws q"
  shows "\<exists>q'. agent_assign_profile_value x q = Ok q' \<and> cli_ws p' = agent_ws q'"
  using agent_assign_ok(1) [of x q] assign_profile_same [OF assms(1) _ assms(2)] by blast

lemma gateway_value_same:
  assumes "profile_gateway_value x p = Ok p'" "cli_ws p = agent_ws q"
  shows "\<exists>q'. map_sum id (\<lambda>g. q\<lparr>agp_gateway := g\<rparr>) (agent_assign_gateway_value x (agp_gateway q)) = Ok q' \<and>
            cli_ws p' = agent_ws q'"
proof -
  obtain g where g: "assign_gateway_value x (cpr_gateway p) = Ok g" "p' = p\<lparr>cpr_gateway := g\<rparr>"
    using assms(1) by (auto simp: profile_gateway_value_def map_sum_Inr)
  obtain h where h: "agent_assign_gateway_value x (agp_gateway q) = Ok h" using agent_assign_ok(2) by blast
  show ?thesis
    using assign_gateway_same [OF g(1) h] assms(2) g(2) h by (simp add: cli_ws_def agent_ws_def)
qed

lemma defaults_value_ws: "profile_defaults_value pf x p = Ok p' \<Longrightarrow> cli_ws p' = cli_ws p"
  by (auto simp: profile_defaults_value_def map_sum_Inr cli_ws_def)

lemma same_flags:
  "same_parser s t \<Longrightarrow> clp_profile s \<noteq> None \<Longrightarrow>
     same_parser (s\<lparr>clp_in_gateway := b, clp_in_defaults := d\<rparr>) (t\<lparr>apr_in_gateway := b\<rparr>)"
  by (auto simp: same_parser_def)

lemma same_line4:
  assumes "same_parser s t" "cli_line pf 4 x s = Ok s'"
  shows "\<exists>t'. agent_line 4 x t = Ok t' \<and> same_parser s' t'"
proof (cases "clp_profile s")
  case None
  then have n: "apr_current t = None" using assms(1) by (simp add: same_parser_def)
  from None assms(2) have "same_parser s' t"
    using assms(1) by (auto simp: cli_line_def Let_def map_sum_Inr same_parser_def same_file_def split: if_splits)
  with n show ?thesis by (simp add: agent_line_def)
next
  case (Some name)
  have n: "clp_profile s \<noteq> None" "apr_current t = Some name"
    using Some assms(1) unfolding same_parser_def by simp_all
  note flags = same_flags [OF assms(1) n(1)]
  let ?s = "s\<lparr>clp_in_gateway := False, clp_in_defaults := False\<rparr>" and ?t = "t\<lparr>apr_in_gateway := False\<rparr>"
  consider "x = ''gateway:''" | (d) "x = ''defaults:''" | (o) "x \<noteq> ''gateway:''" "x \<noteq> ''defaults:''" by argo
  then show ?thesis
  proof cases
    case 1
    with assms(2) Some n(2) flags [where b = True and d = False] show ?thesis by (auto simp: cli_line_def agent_line_def Let_def)
  next
    case d
    have key: "split_key_value x = None" by (simp add: d split_key_value_def split_once_def)
    obtain q where "agf_profiles (apr_config t) name = Some q"
      using assms(1) n(2) by (auto simp: same_parser_def agent_parser_good_def)
    then have "agent_line 4 x t = Ok ?t"
      using n(2) key d by (simp add: agent_line_def agent_in_profile_def agent_assign_profile_value_def Let_def fun_upd_idem)
    moreover have "s' = s\<lparr>clp_in_defaults := True, clp_in_gateway := False\<rparr>"
      using assms(2) Some d by (simp add: cli_line_def Let_def)
    ultimately show ?thesis using assms(1) n(1) by (auto simp: same_parser_def)
  next
    case o
    then obtain m where m: "in_entry ''unknown profile while parsing'' (clp_profile ?s) (assign_profile_value x)
        (cfc_profiles (clp_config ?s)) = Ok m" "s' = put_profiles m ?s"
      using assms(2) Some by (auto simp: cli_line_def Let_def map_sum_Inr)
    from same_in_profile [OF flags m(1) profile_value_same] m(2) o n(2)
    show ?thesis by (simp add: agent_line_def)
  qed
qed

lemma same_file_upd:
  assumes "same_file c a" "cfc_profiles c n = Some p" "cli_ws p' = cli_ws p"
  shows "same_file (c\<lparr>cfc_profiles := (cfc_profiles c)(n \<mapsto> p')\<rparr>) a"
proof -
  have "map_option cli_ws (cfc_profiles c n) = map_option agent_ws (agf_profiles a n)"
    using assms(1) by (simp add: same_file_def)
  then have "Some (cli_ws p) = map_option agent_ws (agf_profiles a n)" using assms(2) by simp
  with assms show ?thesis by (simp add: same_file_def del: map_option_eq_Some)
qed

lemma same_line6:
  assumes "same_parser s t" "cli_line pf 6 x s = Ok s'"
  shows "\<exists>t'. agent_line 6 x t = Ok t' \<and> same_parser s' t'"
proof (cases "clp_profile s \<noteq> None \<and> clp_in_gateway s")
  case True
  then have n: "apr_current t \<noteq> None" "apr_in_gateway t" using assms(1) by (auto simp: same_parser_def)
  obtain m where m: "in_entry ''unknown profile while parsing'' (clp_profile s) (profile_gateway_value x)
      (cfc_profiles (clp_config s)) = Ok m" "s' = put_profiles m s"
    using assms(2) True by (auto simp: cli_line_def Let_def map_sum_Inr)
  from same_in_profile [OF assms(1) m(1) gateway_value_same] m(2) n show ?thesis by (simp add: agent_line_def)
next
  case False
  then have n: "\<not> (apr_current t \<noteq> None \<and> apr_in_gateway t)" using assms(1) by (auto simp: same_parser_def)
  have "same_parser s' t"
  proof (cases "clp_profile s \<noteq> None \<and> clp_in_defaults s")
    case True
    then obtain m where m: "in_entry ''unknown profile while parsing'' (clp_profile s) (profile_defaults_value pf x)
        (cfc_profiles (clp_config s)) = Ok m" "s' = put_profiles m s"
      using assms(2) False by (auto simp: cli_line_def Let_def map_sum_Inr)
    let ?n = "unwrap_or (clp_profile s) []"
    from m(1) obtain p p' where "cfc_profiles (clp_config s) ?n = Some p"
      "profile_defaults_value pf x p = Ok p'" "m = (cfc_profiles (clp_config s))(?n \<mapsto> p')"
      by (auto simp: in_entry_Inr)
    then have "same_file ((clp_config s)\<lparr>cfc_profiles := m\<rparr>) (apr_config t)"
      using same_file_upd [of "clp_config s" "apr_config t" ?n p p'] assms(1) defaults_value_ws
      by (simp add: same_parser_def)
    with m(2) assms(1) show ?thesis by (auto simp: same_parser_def)
  next
    case False
    with assms \<open>\<not> (clp_profile s \<noteq> None \<and> clp_in_gateway s)\<close> show ?thesis by (auto simp: cli_line_def Let_def)
  qed
  with n show ?thesis by (auto simp: agent_line_def)
qed

lemma same_line:
  assumes "same_parser s t" "cli_line pf n x s = Ok s'"
  shows "\<exists>t'. agent_line n x t = Ok t' \<and> same_parser s' t'"
proof -
  consider "n = 0" | "n = 2" | "n = 4" | "n = 6" | (other) "n \<notin> {0, 2, 4, 6}" by blast
  then show ?thesis
  proof cases
    case 1
    with same_top [OF assms(1), of x s'] assms(2) show ?thesis by (simp add: cli_line_def agent_line_def Let_def)
  next
    case other
    with assms show ?thesis by (simp add: cli_line_def agent_line_def Let_def)
  qed (use same_line2 [OF assms(1)] same_line4 [OF assms(1)] same_line6 [OF assms(1)] assms(2) in blast)+
qed

interpretation same_text: agreeing_parsers "cli_line pf" agent_line same_parser for pf
  by unfold_locales (rule same_line)

lemma same_parser_new: "same_parser cli_parser_new agent_parser_new"
  by (simp add: same_parser_def cli_parser_new_def agent_parser_new_def same_file_def cli_file_default_def
      agent_file_default_def cli_profile_default_def agent_profile_default_def cli_ws_def agent_ws_def agent_parser_good_def)

lemma parse_same:
  assumes "parse_file_config pf raw = Ok c"
  shows "\<exists>a. agent_parse_file_config raw = Ok a \<and> same_file c a"
proof -
  obtain s where s: "parse_config (cli_line pf) (str_lines raw) cli_parser_new = Ok s" "c = clp_config s"
    using assms by (auto simp: parse_file_config_def map_sum_Inr)
  from same_text.parse_agrees [OF same_parser_new s(1)] s(2) show ?thesis
    by (auto simp: agent_parse_file_config_def same_parser_def)
qed

lemma load_same:
  assumes "load_cli_config pf env path = Ok (Some c)"
  shows "\<exists>a. load_agent_config env path = Ok (Some a) \<and> same_file c a"
proof -
  have path: "cli_config_path env path = config_path env path"
    by (simp add: cli_config_path_def config_path_def)
  obtain found where f: "config_path env path = Ok found" using assms path by (auto simp: load_cli_config_def)
  then obtain path_of where fl: "found = Some path_of" "cfe_exists env path_of"
    using assms path by (auto simp: load_cli_config_def split: option.splits if_splits)
  obtain raw where raw: "cfe_read env path_of = Ok raw" "parse_file_config pf raw = Ok c"
    using assms path f fl by (auto simp: load_cli_config_def in_chain_def map_sum_Inr)
  obtain a where a: "agent_parse_file_config raw = Ok a" "same_file c a" using parse_same [OF raw(2)] by blast
  have "load_agent_config env path = Ok (Some a)"
    using f fl raw(1) a(1) by (simp add: load_agent_config_def in_chain_def)
  with a(2) show ?thesis by blast
qed

text \<open>
  The profile both programs are meant to take: the first of the requested one, the active one and the one called
  \<open>default\<close> that the file has, by name; without any of them the values at the top level of the file count.
\<close>

definition profile_name :: "string option \<Rightarrow> string option \<Rightarrow> (string \<Rightarrow> bool) \<Rightarrow> string option" where
  "profile_name selected active known =
     find known ((case selected of Some n \<Rightarrow> [n] | None \<Rightarrow> []) @ (case active of Some n \<Rightarrow> [n] | None \<Rightarrow> []) @ [''default''])"

lemma chosen_by_name:
  "or_else (Option.bind sel m) (or_else (Option.bind act m) (or_else (m ''default'') d)) =
     (case profile_name sel act (\<lambda>n. m n \<noteq> None) of Some n \<Rightarrow> m n | None \<Rightarrow> d)"
  by (cases sel; cases act) (auto simp: profile_name_def split: option.split)

definition cli_profile_of :: "string option \<Rightarrow> cli_file_config \<Rightarrow> cli_profile option" where
  "cli_profile_of name c = (case name of Some n \<Rightarrow> cfc_profiles c n | None \<Rightarrow> Some (cfc_default_profile c))"

definition agent_profile_of :: "string option \<Rightarrow> agent_file_config \<Rightarrow> agent_profile option" where
  "agent_profile_of name a = (case name of Some n \<Rightarrow> agf_profiles a n | None \<Rightarrow> Some (agf_default_profile a))"

lemma no_defaults: "\<not> defaults_present d \<Longrightarrow> d = defaults_config_default"
  by (cases d) (simp add: defaults_present_def defaults_config_default_def)

lemma cli_resolved:
  assumes p_def: "p = cli_profile_of (profile_name sel (cfc_active_profile c) (\<lambda>n. cfc_profiles c n \<noteq> None)) c"
  shows "Option.bind (resolve_profile (Some c) sel) cli_ws = Option.bind p cli_ws"
    and "unwrap_or (map_option cpr_defaults (resolve_profile (Some c) sel)) defaults_config_default = unwrap_or (map_option cpr_defaults p) defaults_config_default"
proof -
  show "Option.bind (resolve_profile (Some c) sel) cli_ws = Option.bind p cli_ws"
    unfolding resolve_profile_def bind.bind_lunit chosen_by_name p_def cli_profile_of_def
    by (auto simp: Let_def cli_ws_def split: option.split)
  show "unwrap_or (map_option cpr_defaults (resolve_profile (Some c) sel)) defaults_config_default = unwrap_or (map_option cpr_defaults p) defaults_config_default"
    unfolding resolve_profile_def bind.bind_lunit chosen_by_name p_def cli_profile_of_def
    using no_defaults [of "cpr_defaults (cfc_default_profile c)"] by (auto simp: Let_def split: option.split)
qed

lemma agent_resolved:
  assumes q_def: "q = agent_profile_of (profile_name sel (agf_active_profile a) (\<lambda>n. agf_profiles a n \<noteq> None)) a"
  shows "Option.bind (agent_resolve_profile (Some a) sel) agent_ws = Option.bind q agent_ws"
    and "Option.bind (agent_resolve_profile (Some a) sel) (\<lambda>p. agw_agent_url (agp_gateway p)) =
           Option.bind q (\<lambda>p. agw_agent_url (agp_gateway p))"
    and "Option.bind (agent_resolve_profile (Some a) sel) agp_shared_secret = Option.bind q agp_shared_secret"
  unfolding agent_resolve_profile_def bind.bind_lunit chosen_by_name q_def agent_profile_of_def
  by (auto simp: Let_def agent_ws_def split: option.split)

lemma same_chosen:
  assumes "same_file c a"
  shows "profile_name sel (agf_active_profile a) (\<lambda>n. agf_profiles a n \<noteq> None) =
         profile_name sel (cfc_active_profile c) (\<lambda>n. cfc_profiles c n \<noteq> None)"
    and "Option.bind (agent_profile_of name a) agent_ws = Option.bind (cli_profile_of name c) cli_ws"
proof -
  have p: "map_option cli_ws (cfc_profiles c n) = map_option agent_ws (agf_profiles a n)" for n
    using assms by (simp add: same_file_def)
  then have "(agf_profiles a n \<noteq> None) = (cfc_profiles c n \<noteq> None)" for n
    by (metis option.map_disc_iff)
  then show "profile_name sel (agf_active_profile a) (\<lambda>n. agf_profiles a n \<noteq> None) =
         profile_name sel (cfc_active_profile c) (\<lambda>n. cfc_profiles c n \<noteq> None)"
    using assms by (simp add: same_file_def)
  have b: "Option.bind x f = Option.bind y g" if "map_option f x = map_option g y" for x y and f :: "cli_profile \<Rightarrow> string option" and g :: "agent_profile \<Rightarrow> string option"
    using that by (cases x; cases y) auto
  show "Option.bind (agent_profile_of name a) agent_ws = Option.bind (cli_profile_of name c) cli_ws"
    using assms b [OF p] by (cases name) (simp_all add: agent_profile_of_def cli_profile_of_def same_file_def)
qed

section \<open>Lemmas: errors of the parser\<close>

text \<open>The names that lines are assigned to are in their tables, so the lookups do not fail.\<close>

definition cli_parser_good :: "cli_parser \<Rightarrow> bool" where
  "cli_parser_good s \<longleftrightarrow>
     (\<forall>n. clp_profile s = Some n \<longrightarrow> cfc_profiles (clp_config s) n \<noteq> None) \<and>
     (\<forall>n. clp_voice s = Some n \<longrightarrow> cfc_voice_profiles (clp_config s) n \<noteq> None) \<and>
     (\<forall>n. clp_binding s = Some n \<longrightarrow> cfc_project_voice_profiles (clp_config s) n \<noteq> None)"

definition invalid_value :: "string \<Rightarrow> bool" where
  "invalid_value e \<longleftrightarrow> prefix ''invalid value for '' e"

lemma value_errors:
  "parse_number parse key v = Err e \<Longrightarrow> invalid_value e"
  "parse_bool v key = Err e \<Longrightarrow> invalid_value e"
  "parse_output_encoding v = Err e \<Longrightarrow> invalid_value e"
  "parse_audio_encoding v = Err e \<Longrightarrow> invalid_value e"
  by (auto simp: parse_number_def parse_bool_def parse_output_encoding_def parse_audio_encoding_def invalid_value_def
      map_sum_Inl split: if_splits)

lemma assign_errors:
  "assign_defaults_value pf x d = Err e \<Longrightarrow> invalid_value e"
  "assign_voice_profile_value pf x p = Err e \<Longrightarrow> invalid_value e"
  "assign_profile_value x q \<noteq> Err e" "assign_gateway_value x g \<noteq> Err e"
  "assign_project_voice_binding_value x b \<noteq> Err e"
proof -
  show "invalid_value e" if "assign_defaults_value pf x d = Err e"
    using that by (auto simp: assign_defaults_value_def map_sum_Inl split: option.splits if_splits dest!: value_errors)
  show "invalid_value e" if "assign_voice_profile_value pf x p = Err e"
    using that by (auto simp: assign_voice_profile_value_def map_sum_Inl split: option.splits if_splits dest!: value_errors)
qed (auto simp: assign_profile_value_def assign_gateway_value_def assign_project_voice_binding_value_def
      split: option.splits if_splits)

lemma in_entry_Inl:
  assumes "in_entry err (Some n) assign m = Err e" "m n \<noteq> None"
  shows "\<exists>p. assign p = Err e"
  using assms by (auto simp: in_entry_def Let_def map_sum_Inl split: option.splits)

lemma nested_errors:
  "profile_gateway_value x p \<noteq> Err e" "profile_defaults_value pf x p = Err e \<Longrightarrow> invalid_value e"
  using assign_errors(1) [of pf x "cpr_defaults p" e] assign_errors(4) [of x "cpr_gateway p" e]
  by (auto simp: profile_gateway_value_def profile_defaults_value_def map_sum_Inl)

lemma cli_top_line_good: "cli_top_line x s = Ok s' \<Longrightarrow> cli_parser_good s'"
  by (auto simp: cli_top_line_def Let_def in_section_def cli_parser_good_def split: if_splits)

lemma cli_top_line_ok: "cli_top_line x s \<noteq> Err e"
  using assign_errors(3) [of x "cfc_default_profile (clp_config s)"]
  by (cases "assign_profile_value x (cfc_default_profile (clp_config s))")
    (auto simp: cli_top_line_def Let_def split: if_splits)

lemma cli_line_good:
  assumes "cli_parser_good s" "cli_line pf n x s = Ok s'"
  shows "cli_parser_good s'"
proof (cases "n = 0")
  case True
  with assms(2) cli_top_line_good show ?thesis by (simp add: cli_line_def Let_def)
next
  case False
  with assms show ?thesis
    by (auto simp: cli_line_def Let_def map_sum_Inr cli_parser_good_def or_default_def in_entry_Inr
        split: if_splits)
qed

lemma cli_line_fails:
  assumes "cli_parser_good s" "cli_line pf n x s = Err e"
  shows "invalid_value e"
proof -
  have n: "n \<noteq> 0" using assms(2) cli_top_line_ok [of x s e] by (intro notI) (simp add: cli_line_def Let_def)
  note good = assms(1) [unfolded cli_parser_good_def]
  show ?thesis
    using n assms(2) good
    by (auto simp: cli_line_def Let_def map_sum_Inl nested_errors assign_errors split: if_splits
        dest!: in_entry_Inl dest: nested_errors(2) assign_errors(1,2))
qed

interpretation cli_parser: failing_parser "cli_line pf" cli_parser_good invalid_value for pf
  by unfold_locales (blast intro: cli_line_good cli_line_fails)+

text \<open>The client rejects a file only for a value that does not parse.\<close>

lemma parse_errors: "parse_file_config pf raw = Err e \<Longrightarrow> invalid_value e"
  using cli_parser.parse_fails [of cli_parser_new pf "str_lines raw" e]
  by (auto simp: parse_file_config_def map_sum_Inl cli_parser_good_def cli_parser_new_def)

section \<open>Lemmas: voice profiles\<close>

text \<open>The directory a binding is for, and the profile it gives to a directory in it.\<close>

definition binding_root :: "(string \<Rightarrow> string option) \<Rightarrow> project_voice_binding \<Rightarrow> path_component list" where
  "binding_root canon b = path_components (canonicalize_if_exists canon (unwrap_or (pvb_root b) []))"

definition binding_applies ::
  "(string \<Rightarrow> string option) \<Rightarrow> cli_runtime \<Rightarrow> string \<Rightarrow> project_voice_binding \<Rightarrow> voice_profile_config \<Rightarrow> bool" where
  "binding_applies canon cli cwd b p \<longleftrightarrow>
     pvb_root b \<noteq> None \<and> Option.bind (pvb_voice_profile b) (rtc_voice_profiles cli) = Some p \<and>
     prefix (binding_root canon b) (path_components (canonicalize_if_exists canon cwd))"

lemma voice_candidate_Some:
  "voice_candidate canon cli (canonicalize_if_exists canon cwd) b = Some (d, p) \<longleftrightarrow>
     binding_applies canon cli cwd b p \<and> d = length (binding_root canon b)"
  by (cases "pvb_root b"; cases "pvb_voice_profile b")
    (auto simp: voice_candidate_def binding_applies_def binding_root_def path_has_prefix_def Let_def)

lemma prefixes_by_length: "prefix a c \<Longrightarrow> prefix b c \<Longrightarrow> length a \<le> length b \<Longrightarrow> prefix a b"
  by (metis prefix_length_prefix)

lemma ran_iff: "v \<in> ran m \<longleftrightarrow> (\<exists>k. m k = Some v)"
  by (auto simp: ran_def)

section \<open>Properties\<close>

text \<open>C26: The client and the agent read the configuration file alike. Where the client accepts the file, the agent does
  too: both find the same active profile and, under the same names, profiles with the same URL of the \<^verbatim>\<open>/ws\<close>
  endpoint. And both programs take the profile of the same name: the requested one if the file has it, else the active one
  if the file has it, else the one called \<open>default\<close> if the file has it, else the values at the top level. From
  it the client takes its URL and its defaults; the agent takes its own URL or, where
  there is none, the client's, and its secret.\<close>

theorem programs_read_config_alike:
  assumes "load_cli_config pf env path = Ok (Some c)"
  shows "\<exists>a. load_agent_config env path = Ok (Some a) \<and> cfc_active_profile c = agf_active_profile a \<and>
    (\<forall>n. map_option (\<lambda>p. cgw_ws_url (cpr_gateway p)) (cfc_profiles c n) =
         map_option (\<lambda>q. agw_ws_url (agp_gateway q)) (agf_profiles a n)) \<and>
    (\<forall>selected.
       let name = profile_name selected (cfc_active_profile c) (\<lambda>n. cfc_profiles c n \<noteq> None);
           p = cli_profile_of name c; q = agent_profile_of name a;
           ws = Option.bind p (\<lambda>p. cgw_ws_url (cpr_gateway p))
       in (\<forall>cli. clg_config cli = path \<and> clg_profile cli = selected \<and> clg_url cli = None \<longrightarrow>
             (\<exists>rt. cli_runtime_config pf env cli = Ok rt \<and> rtc_url rt = unwrap_or ws ''ws://127.0.0.1:8765/ws'' \<and>
                rtc_defaults rt = unwrap_or (map_option cpr_defaults p) defaults_config_default)) \<and>
          (\<forall>args. ara_gateway_url args = None \<longrightarrow>
             (\<exists>cfg. agent_run_config env path selected args = Ok cfg \<and>
                rcf_gateway_url cfg = unwrap_or (or_else (Option.bind q (\<lambda>q. agw_agent_url (agp_gateway q))) ws)
                  ''ws://127.0.0.1:8765/agent'' \<and>
                rcf_shared_secret cfg = or_else (ara_shared_secret args) (Option.bind q agp_shared_secret))))"
proof -
  obtain a where a: "load_agent_config env path = Ok (Some a)" and same: "same_file c a" using load_same [OF assms] by blast
  have "\<exists>rt. cli_runtime_config pf env cli = Ok rt \<and>
      rtc_url rt = unwrap_or (Option.bind (resolve_profile (Some c) (clg_profile cli)) cli_ws) ''ws://127.0.0.1:8765/ws'' \<and>
      rtc_defaults rt = unwrap_or (map_option cpr_defaults (resolve_profile (Some c) (clg_profile cli))) defaults_config_default"
    if "clg_config cli = path" "clg_url cli = None" for cli
    using that assms by (simp add: cli_runtime_config_def Let_def cli_ws_fun)
  moreover have "\<exists>cfg. agent_run_config env path selected args = Ok cfg \<and>
      rcf_gateway_url cfg = unwrap_or (or_else
        (Option.bind (agent_resolve_profile (Some a) selected) (\<lambda>p. agw_agent_url (agp_gateway p)))
        (Option.bind (agent_resolve_profile (Some a) selected) agent_ws)) ''ws://127.0.0.1:8765/agent'' \<and>
      rcf_shared_secret cfg = or_else (ara_shared_secret args) (Option.bind (agent_resolve_profile (Some a) selected) agp_shared_secret)"
    if "ara_gateway_url args = None" for args selected
    using that a by (simp add: agent_run_config_def Let_def agent_ws_fun)
  ultimately show ?thesis
    using a same cli_resolved [where c = c, OF refl] agent_resolved [where a = a, OF refl] same_chosen [OF same]
    by (intro exI [of _ a] conjI) (simp_all add: same_file_def cli_ws_fun agent_ws_fun Let_def)
qed

definition demo_env :: config_env where
  "demo_env = \<lparr>cfe_home = Some ''/h'', cfe_exists = (\<lambda>_. True),
     cfe_read = (\<lambda>_. Ok (''active_profile: lab'' @ [CHR 0x0A] @ ''profiles:'' @ [CHR 0x0A] @
       ''  default:'' @ [CHR 0x0A] @ ''    ws_url: ws://gw/ws'' @ [CHR 0x0A] @
       ''  lab:'' @ [CHR 0x0A] @ ''    ws_url: ws://lab/ws'' @ [CHR 0x0A] @ ''    shared_secret: k''))\<rparr>"

definition demo_agent_args :: agent_run_args where
  "demo_agent_args = \<lparr>ara_gateway_url = None, ara_agent_id = ''a'', ara_agent_name = ''n'', ara_device_id = ''d'',
     ara_provider_id = ''p'', ara_shared_secret = None, ara_capability = SpeakerCapability\<rparr>"

text \<open>The agent takes the active profile, and in it the client's URL and its own secret.\<close>

theorem programs_read_config_alike_witness:
  "\<exists>cfg. agent_run_config demo_env None None demo_agent_args = Ok cfg \<and> rcf_gateway_url cfg = ''ws://lab/ws'' \<and>
     rcf_shared_secret cfg = Some ''k''"
proof -
  have c: "case load_cli_config (\<lambda>_. Err []) demo_env None of
      Inr (Some c) \<Rightarrow> profile_name None (cfc_active_profile c) (\<lambda>n. cfc_profiles c n \<noteq> None) = Some ''lab'' \<and>
        Option.bind (cfc_profiles c ''lab'') (\<lambda>p. cgw_ws_url (cpr_gateway p)) = Some ''ws://lab/ws''
    | _ \<Rightarrow> False"
    by code_simp
  have b: "case load_agent_config demo_env None of
      Inr (Some a) \<Rightarrow> Option.bind (agf_profiles a ''lab'') (\<lambda>q. agw_agent_url (agp_gateway q)) = None \<and>
        Option.bind (agf_profiles a ''lab'') agp_shared_secret = Some ''k''
    | _ \<Rightarrow> False"
    by code_simp
  from c obtain c where cf: "load_cli_config (\<lambda>_. Err []) demo_env None = Ok (Some c)"
    and name: "profile_name None (cfc_active_profile c) (\<lambda>n. cfc_profiles c n \<noteq> None) = Some ''lab''"
    and ws: "Option.bind (cfc_profiles c ''lab'') (\<lambda>p. cgw_ws_url (cpr_gateway p)) = Some ''ws://lab/ws''"
    by (auto split: sum.splits option.splits)
  have args: "ara_gateway_url demo_agent_args = None" "ara_shared_secret demo_agent_args = None"
    by (simp_all add: demo_agent_args_def)
  obtain a where a: "load_agent_config demo_env None = Ok (Some a)" and taken:
    "\<forall>selected.
       let name = profile_name selected (cfc_active_profile c) (\<lambda>n. cfc_profiles c n \<noteq> None);
           p = cli_profile_of name c; q = agent_profile_of name a;
           ws = Option.bind p (\<lambda>p. cgw_ws_url (cpr_gateway p))
       in \<forall>args. ara_gateway_url args = None \<longrightarrow>
             (\<exists>cfg. agent_run_config demo_env None selected args = Ok cfg \<and>
                rcf_gateway_url cfg = unwrap_or (or_else (Option.bind q (\<lambda>q. agw_agent_url (agp_gateway q))) ws)
                  ''ws://127.0.0.1:8765/agent'' \<and>
                rcf_shared_secret cfg = or_else (ara_shared_secret args) (Option.bind q agp_shared_secret))"
    using programs_read_config_alike [OF cf] unfolding Let_def by blast
  from taken [unfolded Let_def, THEN spec [of _ None], unfolded name, THEN spec [of _ demo_agent_args]] args ws
  obtain cfg where cfg: "agent_run_config demo_env None None demo_agent_args = Ok cfg"
    "rcf_gateway_url cfg = unwrap_or (or_else (Option.bind (agf_profiles a ''lab'') (\<lambda>q. agw_agent_url (agp_gateway q)))
       (Some ''ws://lab/ws'')) ''ws://127.0.0.1:8765/agent''"
    "rcf_shared_secret cfg = or_else None (Option.bind (agf_profiles a ''lab'') agp_shared_secret)"
    by (auto simp: agent_profile_of_def cli_profile_of_def)
  have "Option.bind (agf_profiles a ''lab'') (\<lambda>q. agw_agent_url (agp_gateway q)) = None"
    "Option.bind (agf_profiles a ''lab'') agp_shared_secret = Some ''k''" using b a by simp_all
  with cfg show ?thesis by simp
qed

text \<open>C28: Without a named voice profile, the client takes the one of the innermost configured project that holds the
  working directory, whatever the order of the table: every other binding that applies is for a directory
  around it or for the same one; and it takes none only when none applies.\<close>

theorem voice_profile_longest_root:
  assumes "enumerates ks (rtc_project_voice_profiles cli)"
  shows "case select_voice_profile_for_path ks canon cli cwd of
           None \<Rightarrow> \<forall>n b p. rtc_project_voice_profiles cli n = Some b \<longrightarrow> \<not> binding_applies canon cli cwd b p
         | Some p \<Rightarrow> \<exists>n b. rtc_project_voice_profiles cli n = Some b \<and> binding_applies canon cli cwd b p \<and>
             (\<forall>n' b' p'. rtc_project_voice_profiles cli n' = Some b' \<longrightarrow> binding_applies canon cli cwd b' p' \<longrightarrow>
                prefix (binding_root canon b') (binding_root canon b))"
proof -
  let ?cs = "List.map_filter (voice_candidate canon cli (canonicalize_if_exists canon cwd))
               (map_values ks (rtc_project_voice_profiles cli))"
  have cs: "(d, p) \<in> set ?cs \<longleftrightarrow> (\<exists>n b. rtc_project_voice_profiles cli n = Some b \<and> binding_applies canon cli cwd b p \<and>
      d = length (binding_root canon b))" for d p
    unfolding map_filter_set set_map_values [OF assms] by (simp add: voice_candidate_Some Bex_def ran_iff) blast
  have sel: "select_voice_profile_for_path ks canon cli cwd = map_option snd (max_by_key fst ?cs)"
    by (simp add: select_voice_profile_for_path_def)
  show ?thesis
  proof (cases "max_by_key fst ?cs")
    case None
    then have "(d, p) \<notin> set ?cs" for d p by simp
    with None sel show ?thesis unfolding cs by auto
  next
    case (Some x)
    obtain d p where x: "x = (d, p)" by fastforce
    have m: "x \<in> set ?cs \<and> (\<forall>y \<in> set ?cs. fst y \<le> fst x)"
      using max_by_key_Some [OF Some] by blast
    obtain n b where b: "rtc_project_voice_profiles cli n = Some b" "binding_applies canon cli cwd b p"
      "d = length (binding_root canon b)" using m cs [of d p] x by blast
    have "prefix (binding_root canon b') (binding_root canon b)"
      if "rtc_project_voice_profiles cli n' = Some b'" "binding_applies canon cli cwd b' p'" for n' b' p'
    proof (rule prefixes_by_length [of _ "path_components (canonicalize_if_exists canon cwd)"])
      have "(length (binding_root canon b'), p') \<in> set ?cs" using that cs by blast
      with m x b(3) show "length (binding_root canon b') \<le> length (binding_root canon b)" by fastforce
    qed (use that(2) b(2) in \<open>simp_all add: binding_applies_def\<close>)
    with b(1,2) have "\<exists>n b. rtc_project_voice_profiles cli n = Some b \<and> binding_applies canon cli cwd b p \<and>
        (\<forall>n' b' p'. rtc_project_voice_profiles cli n' = Some b' \<longrightarrow> binding_applies canon cli cwd b' p' \<longrightarrow>
           prefix (binding_root canon b') (binding_root canon b))" by blast
    with Some sel x show ?thesis by simp
  qed
qed

definition demo_bindings :: cli_runtime where
  "demo_bindings =
     \<lparr>rtc_url = ''u'', rtc_control_url = None, rtc_defaults = defaults_config_default,
      rtc_voice_profiles = [''a'' \<mapsto> voice_profile_default, ''b'' \<mapsto> voice_profile_default\<lparr>vpc_voice := Some ''v''\<rparr>],
      rtc_project_voice_profiles =
        [''p'' \<mapsto> \<lparr>pvb_root = Some ''/w'', pvb_voice_profile = Some ''a''\<rparr>,
         ''q'' \<mapsto> \<lparr>pvb_root = Some ''/w/n/'', pvb_voice_profile = Some ''b''\<rparr>],
      rtc_client_name = ''c'', rtc_json = False, rtc_jsonl = False\<rparr>"

theorem voice_profile_longest_root_witness:
  "case select_voice_profile_for_path [''q'', ''p''] (\<lambda>_. None) demo_bindings ''/w/./n/app'' of
     None \<Rightarrow> False
   | Some p \<Rightarrow> vpc_voice p = Some ''v'' \<and> (\<exists>n b. rtc_project_voice_profiles demo_bindings n = Some b \<and>
       binding_applies (\<lambda>_. None) demo_bindings ''/w/./n/app'' b p)"
proof -
  have "enumerates [''q'', ''p''] (rtc_project_voice_profiles demo_bindings)"
    by (auto simp: enumerates_def demo_bindings_def)
  note t = voice_profile_longest_root [OF this, of "\<lambda>_. None" "''/w/./n/app''"]
  have "map_option vpc_voice (select_voice_profile_for_path [''q'', ''p''] (\<lambda>_. None) demo_bindings ''/w/./n/app'') = Some (Some ''v'')"
    by code_simp
  with t show ?thesis by (auto split: option.splits)
qed

end
