(* ===== verification/CliSession.thy ===== *)
theory CliSession
  imports CliConfig SdkClient BridgeCommon
begin

text \<open>
  The sessions of the command-line client, \<^verbatim>\<open>sdks/rust/src/bin/speechmesh-cli.rs\<close>: how arguments, voice
  profile and defaults make a request, how synthesised audio reaches a sink, and how a transcription is
  read. The client talks through \<open>SdkClient\<close>; \<open>enc\<close> and \<open>dec\<close> are the standard base64 engine. What is
  printed while a command runs is left out; its result is what it returns or prints at the end.
\<close>

section \<open>Errors\<close>

text \<open>An \<^verbatim>\<open>anyhow::Error\<close>: a message, an error of the client, or a context around one.\<close>

datatype cli_error = Bail string | FromClient client_error | InContext string cli_error

definition bail_with :: "string + 'a \<Rightarrow> cli_error + 'a" where
  "bail_with r = map_sum Bail id r"

text \<open>A call that waits, followed by what comes after it.\<close>

fun wait_then :: "('e + 'a) wait \<Rightarrow> ('e \<Rightarrow> cli_error) \<Rightarrow> ('a \<Rightarrow> (cli_error + 'b) wait) \<Rightarrow> (cli_error + 'b) wait" where
  "wait_then Waiting f g = Waiting"
| "wait_then (Got (Inl e)) f g = Got (Err (f e))"
| "wait_then (Got (Inr x)) f g = g x"

section \<open>Requests\<close>

record provider_args =
  pva_provider :: "string option"
  pva_required :: "string list"
  pva_preferred :: "string list"

record text_input_args =
  txa_text :: "string option"
  txa_text_file :: "string option"
  txa_stdin :: bool

record tts_run_args =
  tra_provider :: provider_args
  tra_input :: text_input_args
  tra_voice_profile :: "string option"
  tra_voice :: "string option"
  tra_language :: "string option"
  tra_rate :: "f32_bits option"
  tra_pitch :: "f32_bits option"
  tra_volume :: "f32_bits option"
  tra_format :: "output_encoding_arg option"
  tra_sample_rate :: "u32 option"
  tra_channels :: "u16 option"

definition cli_provider_selector :: "provider_args \<Rightarrow> provider_selector" where
  "cli_provider_selector args =
     (case pva_provider args of
        Some provider_id \<Rightarrow> selector_provider provider_id
      | None \<Rightarrow> selector_default)
       \<lparr>sel_required := pva_required args, sel_preferred := pva_preferred args\<rparr>"

definition merge_provider_args_with_voice_profile ::
  "cli_runtime \<Rightarrow> provider_args \<Rightarrow> voice_profile_config option \<Rightarrow> provider_args" where
  "merge_provider_args_with_voice_profile cli args voice_profile =
     \<lparr>pva_provider = (if pva_provider args = None
        then or_else (Option.bind voice_profile vpc_provider) (dfc_provider (rtc_defaults cli)) else pva_provider args),
      pva_required = (if pva_required args = [] then dfc_require (rtc_defaults cli) else pva_required args),
      pva_preferred = (if pva_preferred args = [] then dfc_prefer (rtc_defaults cli) else pva_preferred args)\<rparr>"

definition merge_provider_args :: "cli_runtime \<Rightarrow> provider_args \<Rightarrow> provider_args" where
  "merge_provider_args cli args = merge_provider_args_with_voice_profile cli args None"

fun output_encoding :: "output_encoding_arg \<Rightarrow> audio_encoding" where
  "output_encoding Mp3Output = Mp3"
| "output_encoding WavOutput = Wav"
| "output_encoding FlacOutput = Flac"

definition output_audio_format :: "cli_runtime \<Rightarrow> tts_run_args \<Rightarrow> audio_format" where
  "output_audio_format cli args =
     \<lparr>af_encoding = output_encoding (unwrap_or (or_else (tra_format args) (dfc_format (rtc_defaults cli))) Mp3Output),
      af_sample_rate_hz = unwrap_or (or_else (tra_sample_rate args) (dfc_sample_rate (rtc_defaults cli))) 32000,
      af_channels = unwrap_or (or_else (tra_channels args) (dfc_channels (rtc_defaults cli))) 1\<rparr>"

text \<open>Where the client runs: its directory, and what selecting a voice profile asks of the disk.\<close>

record cli_place =
  cpl_order :: "string list"
  cpl_canon :: "string \<Rightarrow> string option"
  cpl_cwd :: "string option"

definition voice_profile_for :: "cli_place \<Rightarrow> cli_runtime \<Rightarrow> tts_run_args \<Rightarrow> string + voice_profile_config option" where
  "voice_profile_for place cli args =
     select_voice_profile (cpl_order place) (cpl_canon place) (cpl_cwd place) cli (tra_voice_profile args)"

definition build_tts_request_with_stream ::
  "cli_place \<Rightarrow> cli_runtime \<Rightarrow> tts_run_args \<Rightarrow> bool \<Rightarrow> string + tts_stream_request" where
  "build_tts_request_with_stream place cli args live =
     and_then (voice_profile_for place cli args) (\<lambda>vp.
       Ok \<lparr>tsq_provider = cli_provider_selector (merge_provider_args_with_voice_profile cli (tra_provider args) vp),
          tsq_input_kind = TextInput,
          tsq_output_format = Some (output_audio_format cli args),
          tsq_options =
            \<lparr>so_language = or_else (tra_language args) (or_else (Option.bind vp vpc_language) (dfc_language (rtc_defaults cli))),
             so_voice = or_else (tra_voice args) (or_else (Option.bind vp vpc_voice) (dfc_voice (rtc_defaults cli))),
             so_stream = live,
             so_rate = or_else (or_else (tra_rate args) (Option.bind vp vpc_rate)) (dfc_rate (rtc_defaults cli)),
             so_pitch = or_else (or_else (tra_pitch args) (Option.bind vp vpc_pitch)) (dfc_pitch (rtc_defaults cli)),
             so_volume = or_else (or_else (tra_volume args) (Option.bind vp vpc_volume)) (dfc_volume (rtc_defaults cli)),
             so_provider_options = JNull\<rparr>\<rparr>)"

definition build_tts_request :: "cli_place \<Rightarrow> cli_runtime \<Rightarrow> tts_run_args \<Rightarrow> string + tts_stream_request" where
  "build_tts_request place cli args = build_tts_request_with_stream place cli args True"

section \<open>Inputs\<close>

text \<open>What reading files and the standard input gives.\<close>

record 'a cli_reads =
  crd_file :: "string \<Rightarrow> string + 'a"
  crd_stdin :: "string + 'a"

definition load_text_input :: "string cli_reads \<Rightarrow> text_input_args \<Rightarrow> string + string" where
  "load_text_input rd args =
     (case txa_text args of
        Some t \<Rightarrow> Ok t
      | None \<Rightarrow>
          (case txa_text_file args of
             Some path \<Rightarrow> in_chain (''failed to read text file '' @ path) (crd_file rd path)
           | None \<Rightarrow>
               (if txa_stdin args then in_chain ''failed to read text from stdin'' (crd_stdin rd)
                else Err ''one of --text, --text-file, or --stdin is required'')))"

record audio_input_args =
  aia_file :: "string option"
  aia_stdin :: bool
  aia_encoding :: "audio_encoding option"
  aia_sample_rate :: "u32 option"
  aia_channels :: "u16 option"

definition load_audio_input :: "bytes cli_reads \<Rightarrow> audio_input_args \<Rightarrow> string + bytes" where
  "load_audio_input rd args =
     (case aia_file args of
        Some path \<Rightarrow> in_chain (''failed to read audio file '' @ path) (crd_file rd path)
      | None \<Rightarrow>
          (if aia_stdin args then in_chain ''failed to read audio bytes from stdin'' (crd_stdin rd)
           else Err ''one of --file or --stdin is required''))"

definition connect_client ::
  "cli_runtime \<Rightarrow> string + unit \<Rightarrow> sdk_input list \<Rightarrow> (client_error + sdk_client) wait \<times> sdk_input list" where
  "connect_client cli connected ins =
     sdk_connect ((client_config_new (rtc_url cli))\<lparr>ccf_client_name := rtc_client_name cli\<rparr>) connected ins"

definition connect_failed :: "client_error \<Rightarrow> cli_error" where
  "connect_failed e = InContext ''failed to connect to SpeechMesh'' (FromClient e)"

section \<open>Sinks\<close>

text \<open>
  Where audio goes. \<open>snk_fault n\<close> is the error of the \<open>n\<close>-th operation on the standard output or the
  player's input; the bytes of a write that failed do not count.
\<close>

datatype sink_kind = StdoutSink | PlayerSink | BufferSink

record output_sink =
  snk_kind :: sink_kind
  snk_bytes :: bytes
  snk_ops :: nat
  snk_fault :: "nat \<Rightarrow> string option"

definition new_sink :: "sink_kind \<Rightarrow> (nat \<Rightarrow> string option) \<Rightarrow> output_sink" where
  "new_sink kind fault = \<lparr>snk_kind = kind, snk_bytes = [], snk_ops = 0, snk_fault = fault\<rparr>"

definition sink_op :: "output_sink \<Rightarrow> (string + unit) \<times> output_sink" where
  "sink_op s =
     (case snk_fault s (snk_ops s) of Some e \<Rightarrow> Err e | None \<Rightarrow> Ok (), s\<lparr>snk_ops := Suc (snk_ops s)\<rparr>)"

definition sink_append :: "bytes \<Rightarrow> output_sink \<Rightarrow> output_sink" where
  "sink_append bs s = s\<lparr>snk_bytes := snk_bytes s @ bs\<rparr>"

definition sink_flush :: "output_sink \<Rightarrow> (string + unit) \<times> output_sink" where
  "sink_flush s = (case snk_kind s of BufferSink \<Rightarrow> (Ok (), s) | _ \<Rightarrow> sink_op s)"

definition sink_write_all :: "bytes \<Rightarrow> output_sink \<Rightarrow> (string + unit) \<times> output_sink" where
  "sink_write_all bs s =
     (case snk_kind s of
        BufferSink \<Rightarrow> (Ok (), sink_append bs s)
      | PlayerSink \<Rightarrow>
          (case sink_op s of
             (Inl e, s1) \<Rightarrow> (Err e, s1)
           | (Inr _, s1) \<Rightarrow> (Ok (), sink_append bs s1))
      | StdoutSink \<Rightarrow>
          (case sink_op s of
             (Inl e, s1) \<Rightarrow> (Err e, s1)
           | (Inr _, s1) \<Rightarrow> sink_flush (sink_append bs s1)))"

definition sink_finish :: "output_sink \<Rightarrow> (string + unit) \<times> output_sink" where
  "sink_finish s = (case snk_kind s of PlayerSink \<Rightarrow> sink_op s | _ \<Rightarrow> (Ok (), s))"

section \<open>Synthesis\<close>

definition cli_server_error :: "error_info \<Rightarrow> cli_error" where
  "cli_server_error e = Bail (''server error: '' @ ei_message e @ '' ('' @ ei_code e @ '')'')"

text \<open>One message of the gateway: an error ends the loop, otherwise what has been seen of the end.\<close>

fun sink_message ::
  "(string \<Rightarrow> string + bytes) \<Rightarrow> server_message \<Rightarrow> bool \<times> bool \<Rightarrow> output_sink
     \<Rightarrow> (cli_error + bool \<times> bool) \<times> output_sink" where
  "sink_message dec (STtsAudioDelta _ _ payload) seen sink =
     (case dec (tad_audio_base64 payload) of
        Inl e \<Rightarrow> (Err (InContext ''failed to decode tts audio chunk'' (Bail e)), sink)
      | Inr bs \<Rightarrow> map_prod (map_sum Bail (\<lambda>_. seen)) id (sink_write_all bs sink))"
| "sink_message dec (STtsAudioDone _ _ _) (audio_done, ended) sink =
     map_prod (map_sum Bail (\<lambda>_. (True, ended))) id (sink_flush sink)"
| "sink_message dec (SSessionEnded _ _) (audio_done, ended) sink = (Ok (audio_done, True), sink)"
| "sink_message dec (SError _ _ e) seen sink = (Err (cli_server_error e), sink)"
| "sink_message dec _ seen sink = (Ok seen, sink)"

function (sequential) sink_loop ::
  "(string \<Rightarrow> string + bytes) \<Rightarrow> bool \<times> bool \<Rightarrow> sdk_input list \<Rightarrow> sdk_client \<Rightarrow> output_sink
     \<Rightarrow> (cli_error + unit) wait \<times> output_sink" where
  "sink_loop dec seen ins k sink =
     (if fst seen \<and> snd seen then (Got (Ok ()), sink)
      else (case sdk_recv ins k of
              (Waiting, ins1, k1) \<Rightarrow> (Waiting, sink)
            | (Got (Inl e), ins1, k1) \<Rightarrow> (Got (Err (FromClient e)), sink)
            | (Got (Inr m), ins1, k1) \<Rightarrow>
                (case sink_message dec m seen sink of
                   (Inl e, sink1) \<Rightarrow> (Got (Err e), sink1)
                 | (Inr seen1, sink1) \<Rightarrow> sink_loop dec seen1 ins1 k1 sink1)))"
  by pat_completeness auto
termination
  by (relation "measure (\<lambda>(dec, seen, ins, k, sink). length ins)") (auto dest: sdk_recv_shorter [OF sym])

declare sink_loop.simps [simp del]

definition stream_tts_to_sink ::
  "(string \<Rightarrow> string + bytes) \<Rightarrow> cli_runtime \<Rightarrow> string + unit \<Rightarrow> tts_stream_request \<Rightarrow> string \<Rightarrow> sdk_input list \<Rightarrow> output_sink
     \<Rightarrow> (cli_error + unit) wait \<times> output_sink" where
  "stream_tts_to_sink dec cli connected request t ins sink =
     (case connect_client cli connected ins of
        (Waiting, _) \<Rightarrow> (Waiting, sink)
      | (Got (Inl e), _) \<Rightarrow> (Got (Err (connect_failed e)), sink)
      | (Got (Inr k), ins1) \<Rightarrow>
          (case start_tts request ins1 k of
             (Waiting, _, _) \<Rightarrow> (Waiting, sink)
           | (Got (Inl e), _, _) \<Rightarrow> (Got (Err (FromClient e)), sink)
           | (Got (Inr _), ins2, k2) \<Rightarrow>
               (case append_tts_input t k2 of
                  (Inl e, _) \<Rightarrow> (Got (Err (FromClient e)), sink)
                | (Inr _, k3) \<Rightarrow>
                    (case sdk_commit k3 of
                       (Inl e, _) \<Rightarrow> (Got (Err (FromClient e)), sink)
                     | (Inr _, k4) \<Rightarrow> sink_loop dec (False, False) ins2 k4 sink))))"

record synthesized_audio =
  sya_audio :: bytes
  sya_format :: "audio_format option"

definition synthesize_tts ::
  "(string \<Rightarrow> string + bytes) \<Rightarrow> cli_runtime \<Rightarrow> string + unit \<Rightarrow> tts_stream_request \<Rightarrow> string \<Rightarrow> sdk_input list
     \<Rightarrow> (cli_error + synthesized_audio) wait" where
  "synthesize_tts dec cli connected request t ins =
     (case stream_tts_to_sink dec cli connected request t ins (new_sink BufferSink (\<lambda>_. None)) of
        (r, sink) \<Rightarrow> wait_then r id (\<lambda>_.
          if snk_bytes sink = [] then Got (Err (Bail ''TTS produced empty audio''))
          else Got (Ok \<lparr>sya_audio = snk_bytes sink, sya_format = None\<rparr>)))"

definition run_tts_stream ::
  "(string \<Rightarrow> string + bytes) \<Rightarrow> cli_place \<Rightarrow> string cli_reads \<Rightarrow> cli_runtime \<Rightarrow> tts_run_args \<Rightarrow> string + unit \<Rightarrow> sdk_input list
     \<Rightarrow> output_sink \<Rightarrow> (cli_error + unit) wait \<times> output_sink" where
  "run_tts_stream dec place rd cli args connected ins sink =
     (case load_text_input rd (tra_input args) of
        Inl e \<Rightarrow> (Got (Err (Bail e)), sink)
      | Inr t \<Rightarrow>
          (if trim t = [] then (Got (Err (Bail ''TTS input is empty'')), sink)
           else (case build_tts_request place cli args of
                   Inl e \<Rightarrow> (Got (Err (Bail e)), sink)
                 | Inr request \<Rightarrow>
                     (case stream_tts_to_sink dec cli connected request t ins sink of
                        (Got (Inr _), sink1) \<Rightarrow>
                          map_prod (\<lambda>r. Got (bail_with r)) id (sink_finish sink1)
                      | r \<Rightarrow> r))))"

text \<open>The player: \<open>spawned\<close> is what starting \<^verbatim>\<open>ffplay\<close> gives, the faults of its input or an error.\<close>

definition player_format :: "audio_encoding \<Rightarrow> string + string" where
  "player_format e =
     (case e of
        Mp3 \<Rightarrow> Ok ''mp3'' | Wav \<Rightarrow> Ok ''wav'' | Flac \<Rightarrow> Ok ''flac''
      | _ \<Rightarrow> Err (''streaming playback is unsupported for output encoding '' @ encoding_debug e))"

definition run_tts_play ::
  "(string \<Rightarrow> string + bytes) \<Rightarrow> cli_place \<Rightarrow> string cli_reads \<Rightarrow> cli_runtime \<Rightarrow> tts_run_args \<Rightarrow> string + unit \<Rightarrow> sdk_input list
     \<Rightarrow> (string \<Rightarrow> string + (nat \<Rightarrow> string option)) \<Rightarrow> (cli_error + unit) wait \<times> bytes" where
  "run_tts_play dec place rd cli args connected ins spawned =
     (case and_then (player_format (af_encoding (output_audio_format cli args))) spawned of
        Inl e \<Rightarrow> (Got (Err (Bail e)), [])
      | Inr faults \<Rightarrow>
          map_prod id snk_bytes (run_tts_stream dec place rd cli args connected ins (new_sink PlayerSink faults)))"

definition run_tts_voices ::
  "cli_runtime \<Rightarrow> provider_args \<Rightarrow> string option \<Rightarrow> string + unit \<Rightarrow> sdk_input list
     \<Rightarrow> (cli_error + voice_descriptor list) wait" where
  "run_tts_voices cli provider language connected ins =
     (case connect_client cli connected ins of
        (r, ins1) \<Rightarrow> wait_then r connect_failed (\<lambda>k.
          wait_then (fst (list_tts_voices (cli_provider_selector (merge_provider_args cli provider))
                      (or_else language (dfc_language (rtc_defaults cli))) ins1 k)) FromClient (\<lambda>vs. Got (Ok vs))))"

definition run_discover ::
  "cli_runtime \<Rightarrow> capability_domain option \<Rightarrow> string + unit \<Rightarrow> sdk_input list \<Rightarrow> (cli_error + provider_descriptor list) wait" where
  "run_discover cli domain connected ins =
     (case connect_client cli connected ins of
        (r, ins1) \<Rightarrow> wait_then r connect_failed (\<lambda>k.
          wait_then (fst (sdk_discover (case domain of Some d \<Rightarrow> [d] | None \<Rightarrow> [Asr, Tts]) ins1 k)) FromClient
            (\<lambda>ps. Got (Ok ps))))"

section \<open>Recognition\<close>

record asr_transcribe_args =
  ata_provider :: provider_args
  ata_input :: audio_input_args
  ata_language :: "string option"
  ata_interim :: bool
  ata_punctuation :: bool
  ata_no_punctuation :: bool
  ata_timestamps :: bool
  ata_hints :: "string list"

definition asr_request_of :: "cli_runtime \<Rightarrow> asr_transcribe_args \<Rightarrow> asr_stream_request" where
  "asr_request_of cli args =
     (let d = rtc_defaults cli; input = ata_input args
      in \<lparr>asq_provider = cli_provider_selector (merge_provider_args cli (ata_provider args)),
          asq_input_format =
            \<lparr>af_encoding = unwrap_or (or_else (aia_encoding input) (dfc_asr_encoding d)) PcmS16Le,
             af_sample_rate_hz = unwrap_or (or_else (aia_sample_rate input) (dfc_asr_sample_rate d)) 16000,
             af_channels = unwrap_or (or_else (aia_channels input) (dfc_asr_channels d)) 1\<rparr>,
          asq_options =
            \<lparr>ro_language = or_else (ata_language args) (dfc_asr_language d),
             ro_hints = (if ata_hints args = [] then dfc_asr_hints d else ata_hints args),
             ro_interim_results = (ata_interim args \<or> unwrap_or (dfc_asr_interim d) False),
             ro_timestamps = (if ata_timestamps args then True else unwrap_or (dfc_asr_timestamps d) False),
             ro_punctuation = (if ata_punctuation args then True else if ata_no_punctuation args then False
                               else unwrap_or (dfc_asr_punctuation d) True),
             ro_prefer_on_device = False, ro_provider_options = JNull\<rparr>\<rparr>)"

text \<open>One message: the end with the final text, an error, or the final text so far. With \<^verbatim>\<open>--jsonl\<close> results are
  printed as they come and no final text is kept.\<close>

fun asr_message :: "bool \<Rightarrow> server_message \<Rightarrow> string option \<Rightarrow> cli_error + bool \<times> string option" where
  "asr_message jsonl (SAsrResult _ _ payload) final =
     Ok (False, if \<not> jsonl \<and> arp_is_final payload \<and> arp_speech_final payload then Some (arp_text payload) else final)"
| "asr_message jsonl (SSessionEnded _ _) final = Ok (True, final)"
| "asr_message jsonl (SError _ _ e) final = Err (cli_server_error e)"
| "asr_message jsonl _ final = Ok (False, final)"

function (sequential) asr_loop ::
  "bool \<Rightarrow> sdk_input list \<Rightarrow> sdk_client \<Rightarrow> string option \<Rightarrow> (cli_error + string option) wait" where
  "asr_loop jsonl ins k final =
     (case sdk_recv ins k of
        (Waiting, ins1, k1) \<Rightarrow> Waiting
      | (Got (Inl e), ins1, k1) \<Rightarrow> Got (Err (FromClient e))
      | (Got (Inr m), ins1, k1) \<Rightarrow>
          (case asr_message jsonl m final of
             Inl e \<Rightarrow> Got (Err e)
           | Inr (True, final1) \<Rightarrow> Got (Ok final1)
           | Inr (False, final1) \<Rightarrow> asr_loop jsonl ins1 k1 final1))"
  by pat_completeness auto
termination
  by (relation "measure (\<lambda>(jsonl, ins, k, final). length ins)") (auto dest: sdk_recv_shorter [OF sym])

declare asr_loop.simps [simp del]

text \<open>What is printed at the end: \<^verbatim>\<open>{"text": ..}\<close>, nothing, or the text.\<close>

datatype asr_report = JsonText "string option" | NoReport | PlainText string

definition asr_report_of :: "cli_runtime \<Rightarrow> string option \<Rightarrow> asr_report" where
  "asr_report_of cli final =
     (if rtc_json cli then JsonText final else if rtc_jsonl cli then NoReport else PlainText (unwrap_or final []))"

definition run_asr_transcribe ::
  "bytes cli_reads \<Rightarrow> cli_runtime \<Rightarrow> asr_transcribe_args \<Rightarrow> string + unit \<Rightarrow> sdk_input list \<Rightarrow> (cli_error + asr_report) wait" where
  "run_asr_transcribe rd cli args connected ins =
     (case load_audio_input rd (ata_input args) of
        Inl e \<Rightarrow> Got (Err (Bail e))
      | Inr audio \<Rightarrow>
          (if audio = [] then Got (Err (Bail ''ASR input is empty''))
           else (case connect_client cli connected ins of
              (r, ins1) \<Rightarrow> wait_then r connect_failed (\<lambda>k.
                (case start_asr (asr_request_of cli args) ins1 k of
                   (r2, ins2, k2) \<Rightarrow> wait_then r2 FromClient (\<lambda>_.
                     (case send_audio audio k2 of
                        (Inl e, _) \<Rightarrow> Got (Err (FromClient e))
                      | (Inr _, k3) \<Rightarrow>
                          (case sdk_commit k3 of
                             (Inl e, _) \<Rightarrow> Got (Err (FromClient e))
                           | (Inr _, k4) \<Rightarrow>
                               wait_then (asr_loop (rtc_jsonl cli) ins2 k4 None) id
                                 (\<lambda>final. Got (Ok (asr_report_of cli final)))))))))))"

section \<open>Lemmas\<close>

definition calm :: "output_sink \<Rightarrow> bool" where
  "calm s \<longleftrightarrow> (\<forall>n. snk_fault s n = None)"

lemma calm_op:
  "calm s \<Longrightarrow> \<exists>s'. sink_op s = (Ok (), s') \<and> calm s' \<and> snk_bytes s' = snk_bytes s"
  by (simp add: sink_op_def calm_def)

lemma calm_flush:
  "calm s \<Longrightarrow> \<exists>s'. sink_flush s = (Ok (), s') \<and> calm s' \<and> snk_bytes s' = snk_bytes s"
  using calm_op [of s] by (cases "snk_kind s") (simp_all add: sink_flush_def)

lemma calm_append: "calm s \<Longrightarrow> calm (sink_append bs s)" "snk_bytes (sink_append bs s) = snk_bytes s @ bs"
  by (simp_all add: sink_append_def calm_def)

lemma calm_write:
  assumes "calm s"
  shows "\<exists>s'. sink_write_all bs s = (Ok (), s') \<and> calm s' \<and> snk_bytes s' = snk_bytes s @ bs"
proof -
  obtain s1 where s1: "sink_op s = (Ok (), s1)" "calm s1" "snk_bytes s1 = snk_bytes s"
    using calm_op [OF assms] by blast
  obtain s2 where s2: "sink_flush (sink_append bs s1) = (Ok (), s2)" "calm s2" "snk_bytes s2 = snk_bytes s @ bs"
    using calm_flush [OF calm_append(1) [OF s1(2)], of bs] s1(3) by (auto simp: calm_append)
  show ?thesis
    using s1 s2 assms by (cases "snk_kind s") (simp_all add: sink_write_all_def calm_append)
qed

lemma arrives_simps: "arrives [] = []" "arrives (m # ms) = Arrives (Some (TextFrame (Inr m))) # arrives ms"
  "arrives (ms @ ns) = arrives ms @ arrives ns"
  by (simp_all add: arrives_def)

lemma sink_loop_done: "sink_loop dec (True, True) ins k sink = (Got (Ok ()), sink)"
  by (simp add: sink_loop.simps)

lemma sink_loop_message:
  "\<not> (fst seen \<and> snd seen) \<Longrightarrow>
     sink_loop dec seen (Arrives (Some (TextFrame (Inr m))) # ins) k sink =
       (case sink_message dec m seen sink of
          (Inl e, sink1) \<Rightarrow> (Got (Err e), sink1)
        | (Inr seen1, sink1) \<Rightarrow> sink_loop dec seen1 ins (observe_message m k) sink1)"
  by (subst sink_loop.simps) auto

text \<open>
  The reference: what a command makes of the events the provider emits. The first error or the end decides;
  without either the command waits.
\<close>

definition provider_failed :: "string \<Rightarrow> cli_error" where
  "provider_failed m = Bail (''server error: '' @ m @ '' (provider_error)'')"

fun tts_outcome :: "bytes \<Rightarrow> bridge_tts_event list \<Rightarrow> (cli_error + bytes) option" where
  "tts_outcome acc [] = None"
| "tts_outcome acc (TtsAudioEv chunk # es) = tts_outcome (acc @ ac_bytes chunk) es"
| "tts_outcome acc (TtsEndedEv reason # es) = Some (Ok acc)"
| "tts_outcome acc (TtsErrorEv m # es) = Some (Err (provider_failed m))"

fun asr_outcome :: "bool \<Rightarrow> string option \<Rightarrow> bridge_asr_event list \<Rightarrow> (cli_error + string option) option" where
  "asr_outcome jsonl final [] = None"
| "asr_outcome jsonl final (AsrPartialEv t # es) = asr_outcome jsonl final es"
| "asr_outcome jsonl final (AsrFinalEv tr # es) = asr_outcome jsonl (if jsonl then final else Some (tr_text tr)) es"
| "asr_outcome jsonl final (AsrEndedEv reason # es) = Some (Ok final)"
| "asr_outcome jsonl final (AsrErrorEv m # es) = Some (Err (provider_failed m))"

definition wait_of :: "('e + 'a) option \<Rightarrow> ('e + 'a) wait" where
  "wait_of r = (case r of None \<Rightarrow> Waiting | Some x \<Rightarrow> Got x)"

lemma wait_of_simps [simp]: "wait_of None = Waiting" "wait_of (Some x) = Got x"
  by (simp_all add: wait_of_def)

lemma wait_then_map: "wait_then (wait_of r) id (\<lambda>x. Got (Ok (f x))) = wait_of (map_option (map_sum id f) r)"
proof (cases r)
  case (Some a)
  then show ?thesis by (cases a) auto
qed simp

lemma server_error_provider: "cli_server_error (error_info_new ''provider_error'' m) = provider_failed m"
  by (simp add: cli_server_error_def error_info_new_def provider_failed_def)

lemma sink_loop_empty: "\<not> (fst seen \<and> snd seen) \<Longrightarrow> sink_loop dec seen [] k sink = (Waiting, sink)"
  by (subst sink_loop.simps) auto

lemma asr_loop_simps:
  "asr_loop jsonl [] k final = Waiting"
  "asr_loop jsonl (Arrives (Some (TextFrame (Inr m))) # ins) k final =
     (case asr_message jsonl m final of
        Inl e \<Rightarrow> Got (Err e)
      | Inr (True, final1) \<Rightarrow> Got (Ok final1)
      | Inr (False, final1) \<Rightarrow> asr_loop jsonl ins (observe_message m k) final1)"
  by (simp_all add: asr_loop.simps)

lemma fst_pumped: "fst (case q of (ns, x) \<Rightarrow> (m # ns, x)) = m # fst q"
  by (simp split: prod.split)

text \<open>The loops over what the gateway relays of a provider's events do what the reference says.\<close>

lemma sink_loop_outcome:
  assumes "\<forall>b. dec (b64 b) = Ok b" "calm sink"
  shows "\<exists>sink'. sink_loop dec (False, False) (arrives (fst (run_pump (tts_pump_step b64 s) p es))) k sink =
             (wait_of (map_option (map_sum id (\<lambda>_. ())) (tts_outcome (snk_bytes sink) es)), sink') \<and>
           (\<forall>bs. tts_outcome (snk_bytes sink) es = Some (Ok bs) \<longrightarrow> snk_bytes sink' = bs)"
  using assms(2)
proof (induction es arbitrary: p sink)
  case Nil
  then show ?case by (simp add: arrives_simps sink_loop_empty)
next
  case (Cons e es)
  show ?case
  proof (cases e)
    case (TtsAudioEv chunk)
    obtain m p1 where step: "tts_pump_step b64 s e p = ([m], True, p1)" and m: "\<exists>seq pl. m = STtsAudioDelta s seq pl \<and>
        tad_audio_base64 pl = b64 (ac_bytes chunk)"
      by (simp add: TtsAudioEv Let_def)
    obtain sink1 where w: "sink_write_all (ac_bytes chunk) sink = (Ok (), sink1)" "calm sink1"
      "snk_bytes sink1 = snk_bytes sink @ ac_bytes chunk"
      using calm_write [OF Cons.prems] by blast
    have run: "fst (run_pump (tts_pump_step b64 s) p (e # es)) = m # fst (run_pump (tts_pump_step b64 s) p1 es)"
      using step by (simp split: prod.split)
    have "sink_loop dec (False, False) (arrives (m # ms)) k sink = sink_loop dec (False, False) (arrives ms) k sink1" for ms
      using m w(1) assms(1) by (auto simp: arrives_simps sink_loop_message)
    with Cons.IH [OF w(2), of p1] run w(3) TtsAudioEv show ?thesis by simp
  next
    case (TtsEndedEv reason)
    obtain sink2 where "sink_flush sink = (Ok (), sink2)" "snk_bytes sink2 = snk_bytes sink"
      using calm_flush [OF Cons.prems] by blast
    with TtsEndedEv show ?thesis by (simp add: Let_def arrives_simps sink_loop_message sink_loop_done)
  next
    case (TtsErrorEv m)
    then show ?thesis
      by (simp add: arrives_simps sink_loop_message provider_error_message_def server_error_provider split: prod.split)
  qed
qed

lemma asr_loop_outcome:
  "asr_loop jsonl (arrives (fst (run_pump (asr_pump_step s) p es))) k final = wait_of (asr_outcome jsonl final es)"
proof (induction es arbitrary: p k final)
  case Nil
  then show ?case by (simp add: arrives_simps asr_loop_simps)
next
  case (Cons e es)
  show ?case
    by (cases e) (simp_all add: Let_def arrives_simps asr_loop_simps Cons.IH provider_error_message_def
        server_error_provider fst_pumped)
qed

text \<open>A connection whose greeting is answered, and a start that is answered.\<close>

definition greeted :: "cli_runtime \<Rightarrow> sdk_client" where
  "greeted cli = (sdk_client_new ((client_config_new (rtc_url cli))\<lparr>ccf_client_name := rtc_client_name cli\<rparr>))
     \<lparr>sdk_sent := [OutMessage (CHello None \<lparr>hq_protocol_version = ''v1'', hq_client_name = Some (rtc_client_name cli)\<rparr>)]\<rparr>"

lemma connect_greeted:
  "connect_client cli (Ok ()) (Arrives (Some (TextFrame (Inr (SHelloOk r h)))) # ins) = (Got (Ok (greeted cli)), ins)"
  by (simp add: connect_client_def sdk_connect_def handshake_def sdk_await.simps send_json_def sdk_write_def greeted_def
      sdk_client_new_def client_config_new_def)

lemma start_tts_answered:
  assumes "ssp_domain st = Tts"
  shows "\<exists>k' k''. start_tts req (Arrives (Some (TextFrame (Inr (SSessionStarted (Some (numbered_id 1)) s st)))) # ins) (greeted cli) =
           (Got (Ok \<lparr>sst_request_id = Some (numbered_id 1), sst_session_id = s, sst_payload = st\<rparr>), ins, k') \<and>
         append_tts_input t k' = (Ok (), k'') \<and> (\<exists>k3. sdk_commit k'' = (Ok (), k3))"
  using assms
  by (simp add: start_tts_def sdk_request_def next_request_id_def greeted_def sdk_client_new_def send_json_def
      sdk_write_def sdk_await.simps append_tts_input_def ensure_active_session_domain_def sdk_commit_def
      numbered_id_def)

lemma start_asr_answered:
  assumes "ssp_domain st = Asr"
  shows "\<exists>k' k''. start_asr req (Arrives (Some (TextFrame (Inr (SSessionStarted (Some (numbered_id 1)) s st)))) # ins) (greeted cli) =
           (Got (Ok \<lparr>sst_request_id = Some (numbered_id 1), sst_session_id = s, sst_payload = st\<rparr>), ins, k') \<and>
         send_audio audio k' = (Ok (), k'') \<and> (\<exists>k3. sdk_commit k'' = (Ok (), k3))"
  using assms
  by (simp add: start_asr_def sdk_request_def next_request_id_def greeted_def sdk_client_new_def send_json_def
      sdk_write_def sdk_await.simps send_audio_def ensure_active_session_domain_def sdk_commit_def
      numbered_id_def)

section \<open>Properties\<close>

text \<open>The messages of a session in which the gateway greets, starts the session and relays what the task made of events.\<close>

definition session_messages ::
  "request_id option \<Rightarrow> hello_response \<Rightarrow> session_id \<Rightarrow> session_started_payload \<Rightarrow> server_message list \<Rightarrow> sdk_input list" where
  "session_messages r h s st ms = arrives (SHelloOk r h # SSessionStarted (Some (numbered_id 1)) s st # ms)"

lemma synthesize_outcome:
  assumes "\<forall>b. dec (b64 b) = Ok b" and "ssp_domain st = Tts"
  shows "synthesize_tts dec cli (Ok ()) request t
           (session_messages r h s st (fst (run_pump (tts_pump_step b64 s) (tts_pump_new kind) es))) =
         (case tts_outcome [] es of
            None \<Rightarrow> Waiting
          | Some (Inl e) \<Rightarrow> Got (Err e)
          | Some (Inr audio) \<Rightarrow>
              Got (if audio = [] then Err (Bail ''TTS produced empty audio'') else Ok \<lparr>sya_audio = audio, sya_format = None\<rparr>))"
proof -
  let ?sink = "new_sink BufferSink (\<lambda>_. None)"
  have calm: "calm ?sink" and empty: "snk_bytes ?sink = []" by (simp_all add: new_sink_def calm_def)
  let ?ms = "fst (run_pump (tts_pump_step b64 s) (tts_pump_new kind) es)"
  from start_tts_answered [OF assms(2)] obtain k1 k2 k3 where k:
    "start_tts request (Arrives (Some (TextFrame (Inr (SSessionStarted (Some (numbered_id 1)) s st)))) # arrives ?ms) (greeted cli) =
       (Got (Ok \<lparr>sst_request_id = Some (numbered_id 1), sst_session_id = s, sst_payload = st\<rparr>), arrives ?ms, k1)"
    "append_tts_input t k1 = (Ok (), k2)" "sdk_commit k2 = (Ok (), k3)" by blast
  obtain sink' where l: "sink_loop dec (False, False) (arrives ?ms) k3 ?sink =
      (wait_of (map_option (map_sum id (\<lambda>_. ())) (tts_outcome [] es)), sink')"
    "\<forall>bs. tts_outcome [] es = Some (Ok bs) \<longrightarrow> snk_bytes sink' = bs"
    using sink_loop_outcome [OF assms(1) calm, of s "tts_pump_new kind" es k3] unfolding empty by blast
  have "stream_tts_to_sink dec cli (Ok ()) request t (session_messages r h s st ?ms) ?sink =
      (wait_of (map_option (map_sum id (\<lambda>_. ())) (tts_outcome [] es)), sink')"
    by (simp add: stream_tts_to_sink_def session_messages_def arrives_simps connect_greeted k l(1) del: One_nat_def)
  then show ?thesis
    using l(2) by (simp add: synthesize_tts_def split: option.split sum.split)
qed

definition demo_chunk :: "bytes \<Rightarrow> audio_chunk" where
  "demo_chunk b = \<lparr>ac_bytes = b, ac_sequence = 0, ac_is_final = False, ac_format = None\<rparr>"

text \<open>C24: Synthesis from the provider to the client's buffer. Whatever events the provider emits, the client of a
  gateway that relays them gets the audio of all chunks up to the end, concatenated and nothing else; it fails
  on the first error, and on an end without audio, and waits exactly as long as neither has come.\<close>

theorem synthesis_end_to_end:
  assumes "\<forall>b. dec (b64 b) = Ok b" and "ssp_domain st = Tts"
  shows "synthesize_tts dec cli (Ok ()) request t
           (session_messages r h s st (fst (run_pump (tts_pump_step b64 s) (tts_pump_new kind) es))) =
         (case tts_outcome [] es of
            None \<Rightarrow> Waiting
          | Some (Inl e) \<Rightarrow> Got (Err e)
          | Some (Inr audio) \<Rightarrow>
              Got (if audio = [] then Err (Bail ''TTS produced empty audio'') else Ok \<lparr>sya_audio = audio, sya_format = None\<rparr>))"
  using synthesize_outcome [OF assms] .

text \<open>C25: Transcription from the provider to the printed text. Whatever events the provider emits, the client of a
  gateway that relays them prints the text of the last final result before the end; it fails on the first
  error, and waits exactly as long as neither has come. With \<^verbatim>\<open>--jsonl\<close> no text is kept.\<close>

theorem transcription_end_to_end:
  assumes "load_audio_input rd (ata_input args) = Ok audio" and "audio \<noteq> []" and "ssp_domain st = Asr"
  shows "run_asr_transcribe rd cli args (Ok ())
           (session_messages r h s st (fst (run_pump (asr_pump_step s) asr_pump_new es))) =
         wait_of (map_option (map_sum id (asr_report_of cli)) (asr_outcome (rtc_jsonl cli) None es))"
proof -
  let ?ms = "fst (run_pump (asr_pump_step s) asr_pump_new es)" and ?req = "asr_request_of cli args"
  from start_asr_answered [OF assms(3)] obtain k1 k2 k3 where k:
    "start_asr ?req (Arrives (Some (TextFrame (Inr (SSessionStarted (Some (numbered_id 1)) s st)))) # arrives ?ms) (greeted cli) =
       (Got (Ok \<lparr>sst_request_id = Some (numbered_id 1), sst_session_id = s, sst_payload = st\<rparr>), arrives ?ms, k1)"
    "send_audio audio k1 = (Ok (), k2)" "sdk_commit k2 = (Ok (), k3)" by blast
  show ?thesis
    using assms(2)
    by (simp add: run_asr_transcribe_def assms(1) session_messages_def arrives_simps connect_greeted k asr_loop_outcome
        wait_then_map del: One_nat_def)
qed

definition demo_cli :: cli_runtime where
  "demo_cli = demo_bindings\<lparr>rtc_url := ''ws://gw/ws''\<rparr>"

definition demo_transcribe_args :: asr_transcribe_args where
  "demo_transcribe_args =
     \<lparr>ata_provider = \<lparr>pva_provider = None, pva_required = [], pva_preferred = []\<rparr>,
      ata_input = \<lparr>aia_file = None, aia_stdin = True, aia_encoding = None, aia_sample_rate = None, aia_channels = None\<rparr>,
      ata_language = None, ata_interim = False, ata_punctuation = False, ata_no_punctuation = False, ata_timestamps = False,
      ata_hints = []\<rparr>"

definition demo_greeting :: hello_response where
  "demo_greeting = \<lparr>hr_protocol_version = ''v1'', hr_server_name = ''gw'', hr_one_session_per_connection = True\<rparr>"

theorem transcription_end_to_end_witness:
  "run_asr_transcribe \<lparr>crd_file = (\<lambda>_. Err []), crd_stdin = Ok [1]\<rparr> demo_cli demo_transcribe_args (Ok ())
     (session_messages None demo_greeting (SessionId 7) demo_started
       (fst (run_pump (asr_pump_step (SessionId 7)) asr_pump_new
          [AsrPartialEv ''h'', AsrFinalEv \<lparr>tr_text = ''hi'', tr_language = None, tr_segments = []\<rparr>, AsrEndedEv None]))) =
   Got (Ok (PlainText ''hi''))"
proof -
  have "load_audio_input \<lparr>crd_file = (\<lambda>_. Err []), crd_stdin = Ok [1]\<rparr> (ata_input demo_transcribe_args) = Ok [1]"
    "([1] :: bytes) \<noteq> []" "ssp_domain demo_started = Asr"
    by (simp_all add: load_audio_input_def demo_transcribe_args_def in_chain_def demo_started_def)
  note run = transcription_end_to_end [OF this]
  show ?thesis unfolding run by (simp add: asr_report_of_def demo_cli_def demo_bindings_def)
qed

definition demo_tts_started :: session_started_payload where
  "demo_tts_started = demo_started\<lparr>ssp_domain := Tts\<rparr>"

theorem synthesis_end_to_end_witness:
  "synthesize_tts (\<lambda>t. Ok (as_bytes t)) demo_cli (Ok ()) undefined ''hi''
     (session_messages None demo_greeting (SessionId 7) demo_tts_started
       (fst (run_pump (tts_pump_step byte_text (SessionId 7)) (tts_pump_new TextInput)
          [TtsAudioEv (demo_chunk [1]), TtsAudioEv (demo_chunk [2, 3]), TtsEndedEv None]))) =
   Got (Ok \<lparr>sya_audio = [1, 2, 3], sya_format = None\<rparr>)"
proof -
  have "\<forall>b. Ok (as_bytes (byte_text b)) = (Ok b :: string + bytes)" by (simp add: byte_text_back)
  moreover have "ssp_domain demo_tts_started = Tts" by (simp add: demo_tts_started_def)
  ultimately show ?thesis by (subst synthesis_end_to_end) (simp_all add: demo_chunk_def)
qed

end
