(* ===== verification/CliControl.thy ===== *)
theory CliControl
  imports CliSession Control
begin

text \<open>
  The commands of the command-line client that use \<^verbatim>\<open>/control\<close>, \<^verbatim>\<open>sdks/rust/src/bin/speechmesh-cli.rs\<close>: one request
  per connection, \<^verbatim>\<open>say\<close>, the device and version lists, the status of an agent, and the doctor. A decoder of
  JSON texts, the \<^verbatim>\<open>Debug\<close> form of a string and the texts of errors of the gateway are parameters. The tables
  the commands print are left out; a command gives what it prints from.
\<close>

section \<open>Texts\<close>

text \<open>The \<^verbatim>\<open>Display\<close> form of an error, its chain (\<^verbatim>\<open>{error:#}\<close>), and \<^verbatim>\<open>str::contains\<close>.
  \<open>rendered\<close> renders an error the gateway sent.\<close>

fun client_error_text :: "(request_id option \<Rightarrow> session_id option \<Rightarrow> error_info \<Rightarrow> string) \<Rightarrow> client_error \<Rightarrow> string" where
  "client_error_text rendered (ConnectError e) = ''connect failed: '' @ e"
| "client_error_text rendered (TransportError e) = ''transport failed: '' @ e"
| "client_error_text rendered (ClientProtocolError e) = ''protocol failed: '' @ e"
| "client_error_text rendered (ServerReported r s e) = ''server error '' @ rendered r s e"
| "client_error_text rendered NoActiveSession = ''no active session''"
| "client_error_text rendered ConnectionClosed = ''connection closed''"

fun error_text :: "(request_id option \<Rightarrow> session_id option \<Rightarrow> error_info \<Rightarrow> string) \<Rightarrow> cli_error \<Rightarrow> string" where
  "error_text rendered (Bail m) = m"
| "error_text rendered (FromClient e) = client_error_text rendered e"
| "error_text rendered (InContext c e) = c"

fun error_chain :: "(request_id option \<Rightarrow> session_id option \<Rightarrow> error_info \<Rightarrow> string) \<Rightarrow> cli_error \<Rightarrow> string" where
  "error_chain rendered (InContext c e) = c @ '': '' @ error_chain rendered e"
| "error_chain rendered e = error_text rendered e"

fun str_contains :: "string \<Rightarrow> string \<Rightarrow> bool" where
  "str_contains p [] = (p = [])"
| "str_contains p (c # cs) = (strip_prefix p (c # cs) \<noteq> None \<or> str_contains p cs)"

definition annotate_control_capability_error ::
  "(request_id option \<Rightarrow> session_id option \<Rightarrow> error_info \<Rightarrow> string) \<Rightarrow> string \<Rightarrow> cli_error \<Rightarrow> cli_error" where
  "annotate_control_capability_error rendered command e =
     (if str_contains ''unknown variant'' (error_chain rendered e)
      then Bail (''gateway control plane does not support `'' @ command @
                 ''` yet; deploy the updated `speechmeshd` before retrying'')
      else e)"

section \<open>Requests on a connection of their own\<close>

text \<open>What a websocket gives: texts, pings, a close, frames that are passed over, a failed read, the end.\<close>

datatype socket_input = TextIn string | PingIn bytes | CloseIn | OtherIn | ReadFails string | EndIn

text \<open>A connection: its status or error, the error of the n-th write, what arrives.\<close>

record socket_peer =
  spr_connect :: "string + nat \<times> string"
  spr_fault :: "nat \<Rightarrow> string option"
  spr_inputs :: "socket_input list"

fun control_loop ::
  "(string \<Rightarrow> string + control_response) \<Rightarrow> (control_response \<Rightarrow> 'a option) \<Rightarrow> (nat \<Rightarrow> string option) \<Rightarrow> nat
     \<Rightarrow> socket_input list \<Rightarrow> (cli_error + 'a) wait" where
  "control_loop decode extractor fault n [] = Waiting"
| "control_loop decode extractor fault n (TextIn t # ins) =
     (case decode t of
        Inl e \<Rightarrow> Got (Err (Bail (''unexpected /control response ('' @ e @ ''): '' @ t)))
      | Inr response \<Rightarrow>
          (case extractor response of
             Some payload \<Rightarrow> Got (Ok payload)
           | None \<Rightarrow>
               (case response of
                  ControlError m \<Rightarrow> Got (Err (Bail (''control request failed: '' @ m)))
                | _ \<Rightarrow> control_loop decode extractor fault n ins)))"
| "control_loop decode extractor fault n (PingIn payload # ins) =
     (case fault n of
        Some e \<Rightarrow> Got (Err (InContext ''failed to send pong'' (Bail e)))
      | None \<Rightarrow> control_loop decode extractor fault (Suc n) ins)"
| "control_loop decode extractor fault n (CloseIn # ins) = Got (Err (Bail ''control websocket closed before response''))"
| "control_loop decode extractor fault n (OtherIn # ins) = control_loop decode extractor fault n ins"
| "control_loop decode extractor fault n (ReadFails e # ins) =
     Got (Err (InContext ''failed to read /control response frame'' (Bail e)))"
| "control_loop decode extractor fault n (EndIn # ins) = Got (Err (Bail ''control websocket closed without response''))"

text \<open>The result, and the requests that were written.\<close>

definition request_control_to_url ::
  "(string \<Rightarrow> string + control_response) \<Rightarrow> string \<Rightarrow> control_request \<Rightarrow> (control_response \<Rightarrow> 'a option) \<Rightarrow> socket_peer
     \<Rightarrow> (cli_error + 'a) wait \<times> control_request list" where
  "request_control_to_url decode url request extractor peer =
     (case spr_connect peer of
        Inl e \<Rightarrow> (Got (Err (InContext (''failed to connect to '' @ url) (Bail e))), [])
      | Inr (status, shown) \<Rightarrow>
          (if status \<noteq> 101 then (Got (Err (Bail (''control websocket handshake failed with '' @ shown))), [])
           else (case spr_fault peer 0 of
                   Some e \<Rightarrow> (Got (Err (InContext ''failed to send play_audio control request'' (Bail e))), [])
                 | None \<Rightarrow> (control_loop decode extractor (spr_fault peer) 1 (spr_inputs peer), [request]))))"

definition derive_control_url :: "string \<Rightarrow> string" where
  "derive_control_url ws_url =
     (case strip_suffix ''/ws'' ws_url of
        Some base \<Rightarrow> base @ ''/control''
      | None \<Rightarrow> trim_end_slashes ws_url @ ''/control'')"

definition control_url_for :: "cli_runtime \<Rightarrow> string" where
  "control_url_for cli =
     unwrap_or (or_else (dfc_control_url (rtc_defaults cli)) (rtc_control_url cli)) (derive_control_url (rtc_url cli))"

definition request_control ::
  "(string \<Rightarrow> string + control_response) \<Rightarrow> cli_runtime \<Rightarrow> control_request \<Rightarrow> (control_response \<Rightarrow> 'a option)
     \<Rightarrow> (string \<Rightarrow> socket_peer) \<Rightarrow> (cli_error + 'a) wait \<times> control_request list" where
  "request_control decode cli request extractor peers =
     request_control_to_url decode (control_url_for cli) request extractor (peers (control_url_for cli))"

fun accepted_of :: "control_response \<Rightarrow> control_play_audio_accepted option" where
  "accepted_of (PlayAudioAccepted payload) = Some payload"
| "accepted_of _ = None"

fun devices_of :: "control_response \<Rightarrow> agent_snapshot list option" where
  "devices_of (DevicesListed agents) = Some agents"
| "devices_of _ = None"

fun status_result_of :: "control_response \<Rightarrow> agent_snapshot option option" where
  "status_result_of (AgentStatusResult agent) = Some agent"
| "status_result_of _ = None"

definition send_play_audio ::
  "(string \<Rightarrow> string + control_response) \<Rightarrow> (string \<Rightarrow> socket_peer) \<Rightarrow> string \<Rightarrow> control_play_audio
     \<Rightarrow> (cli_error + control_play_audio_accepted) wait \<times> control_request list" where
  "send_play_audio decode peers url payload = request_control_to_url decode url (PlayAudio payload) accepted_of (peers url)"

section \<open>Say\<close>

record playback_target =
  pbt_device_id :: string
  pbt_output_target :: "string option"

definition parse_playback_target :: "(string \<Rightarrow> string) \<Rightarrow> string \<Rightarrow> string + playback_target" where
  "parse_playback_target dbg raw =
     (let trimmed = trim raw
      in if trimmed = [] then Err ''playback target cannot be empty''
         else (case split_once (CHR '':'') trimmed of
                 None \<Rightarrow> Ok \<lparr>pbt_device_id = trimmed, pbt_output_target = None\<rparr>
               | Some (d, out) \<Rightarrow>
                   (if trim d = [] then Err (''playback target host is empty in '' @ dbg trimmed)
                    else if trim out = [] then Err (''playback target output is empty in '' @ dbg trimmed)
                    else Ok \<lparr>pbt_device_id = trim d, pbt_output_target = Some (trim out)\<rparr>)))"

text \<open>\<^verbatim>\<open>target.map(parse_playback_target).transpose()\<close>.\<close>

definition parse_target :: "(string \<Rightarrow> string) \<Rightarrow> string option \<Rightarrow> string + playback_target option" where
  "parse_target dbg device =
     (case device of None \<Rightarrow> Ok None | Some raw \<Rightarrow> map_sum id Some (parse_playback_target dbg raw))"

record say_args =
  sag_tts :: tts_run_args
  sag_device :: "string option"
  sag_agent_id :: "string option"
  sag_control_url :: "string option"
  sag_chunk_size_bytes :: "u64 option"

definition say_chunk_size :: "cli_runtime \<Rightarrow> say_args \<Rightarrow> u64" where
  "say_chunk_size cli args =
     max (unwrap_or (or_else (sag_chunk_size_bytes args) (dfc_chunk_size_bytes (rtc_defaults cli))) (16 * 1024)) 1"

definition say_payload ::
  "(bytes \<Rightarrow> string) \<Rightarrow> cli_runtime \<Rightarrow> say_args \<Rightarrow> playback_target option \<Rightarrow> synthesized_audio \<Rightarrow> control_play_audio" where
  "say_payload enc cli args target audio =
     \<lparr>cpa_task_id = None, cpa_device_id = map_option pbt_device_id target,
      cpa_output_target = Option.bind target pbt_output_target, cpa_agent_id = sag_agent_id args,
      cpa_format = sya_format audio, cpa_audio_base64 = enc (sya_audio audio),
      cpa_chunk_size_bytes = Some (unat (say_chunk_size cli args))\<rparr>"

definition run_say ::
  "(bytes \<Rightarrow> string) \<Rightarrow> (string \<Rightarrow> string + bytes) \<Rightarrow> (string \<Rightarrow> string) \<Rightarrow> (string \<Rightarrow> string + control_response) \<Rightarrow> cli_place
     \<Rightarrow> string cli_reads \<Rightarrow> cli_runtime \<Rightarrow> say_args \<Rightarrow> string + unit \<Rightarrow> sdk_input list \<Rightarrow> (string \<Rightarrow> socket_peer)
     \<Rightarrow> (cli_error + control_play_audio_accepted) wait \<times> control_request list" where
  "run_say enc dec dbg decode place rd cli args connected ins peers =
     (let target_device = or_else (sag_device args) (dfc_device (rtc_defaults cli))
      in if target_device = None \<and> sag_agent_id args = None
         then (Got (Err (Bail ''one of --device or --agent-id is required'')), [])
         else (case load_text_input rd (tra_input (sag_tts args)) of
           Inl e \<Rightarrow> (Got (Err (Bail e)), [])
         | Inr t \<Rightarrow>
             (if trim t = [] then (Got (Err (Bail ''TTS input is empty'')), [])
              else (case build_tts_request_with_stream place cli (sag_tts args) False of
                Inl e \<Rightarrow> (Got (Err (Bail e)), [])
              | Inr request \<Rightarrow>
                  (case synthesize_tts dec cli connected request t ins of
                     Waiting \<Rightarrow> (Waiting, [])
                   | Got (Inl e) \<Rightarrow> (Got (Err e), [])
                   | Got (Inr audio) \<Rightarrow>
                       (case parse_target dbg target_device of
                          Inl e \<Rightarrow> (Got (Err (Bail e)), [])
                        | Inr target \<Rightarrow>
                            send_play_audio decode peers (unwrap_or (sag_control_url args) (control_url_for cli))
                              (say_payload enc cli args target audio)))))))"

section \<open>Devices, versions, an agent\<close>

definition annotated ::
  "(request_id option \<Rightarrow> session_id option \<Rightarrow> error_info \<Rightarrow> string) \<Rightarrow> string \<Rightarrow> (cli_error + 'a) wait \<Rightarrow> (cli_error + 'a) wait" where
  "annotated rendered command r = wait_then r (annotate_control_capability_error rendered command) (\<lambda>x. Got (Ok x))"

definition run_devices ::
  "(request_id option \<Rightarrow> session_id option \<Rightarrow> error_info \<Rightarrow> string) \<Rightarrow> (string \<Rightarrow> string + control_response) \<Rightarrow> cli_runtime
     \<Rightarrow> (string \<Rightarrow> socket_peer) \<Rightarrow> (cli_error + agent_snapshot list) wait" where
  "run_devices rendered decode cli peers =
     annotated rendered ''devices.list'' (fst (request_control decode cli DevicesList devices_of peers))"

record version_row =
  vrw_agent_id :: string
  vrw_agent_name :: string
  vrw_device_id :: "string option"
  vrw_provider_id :: "string option"
  vrw_client_version :: "string option"
  vrw_update_state :: "string option"
  vrw_update_target_version :: "string option"
  vrw_update_applied :: "bool option"
  vrw_restart_performed :: "bool option"
  vrw_update_error :: "string option"

definition version_row_of :: "agent_snapshot \<Rightarrow> version_row" where
  "version_row_of a =
     \<lparr>vrw_agent_id = snap_agent_id a, vrw_agent_name = snap_agent_name a,
      vrw_device_id = map_option adi_device_id (snap_device a), vrw_provider_id = snap_provider_id a,
      vrw_client_version = snap_client_version a,
      vrw_update_state = Option.bind (snap_update_status a) aus_state,
      vrw_update_target_version = Option.bind (snap_update_status a) aus_target_version,
      vrw_update_applied = Option.bind (snap_update_status a) aus_applied,
      vrw_restart_performed = Option.bind (snap_update_status a) aus_restart_performed,
      vrw_update_error = Option.bind (snap_update_status a) aus_error\<rparr>"

definition version_row_key :: "version_row \<Rightarrow> string" where
  "version_row_key r = unwrap_or (vrw_device_id r) (vrw_agent_id r)"

definition run_versions ::
  "(request_id option \<Rightarrow> session_id option \<Rightarrow> error_info \<Rightarrow> string) \<Rightarrow> (string \<Rightarrow> string + control_response) \<Rightarrow> cli_runtime
     \<Rightarrow> (string \<Rightarrow> socket_peer) \<Rightarrow> (cli_error + version_row list) wait" where
  "run_versions rendered decode cli peers =
     wait_then (annotated rendered ''devices.list'' (fst (request_control decode cli DevicesList devices_of peers))) id
       (\<lambda>agents. Got (Ok (sort_key version_row_key (map version_row_of agents))))"

definition run_agent_status ::
  "(request_id option \<Rightarrow> session_id option \<Rightarrow> error_info \<Rightarrow> string) \<Rightarrow> (string \<Rightarrow> string + control_response) \<Rightarrow> cli_runtime
     \<Rightarrow> string option \<Rightarrow> string option \<Rightarrow> (string \<Rightarrow> socket_peer) \<Rightarrow> (cli_error + agent_snapshot) wait" where
  "run_agent_status rendered decode cli agent_id device peers =
     (let device_id = or_else device (dfc_device (rtc_defaults cli))
      in if agent_id = None \<and> device_id = None then Got (Err (Bail ''one of --agent-id or --device is required''))
         else wait_then (annotated rendered ''agent.status'' (fst (request_control decode cli
                (AgentStatus \<lparr>cas_agent_id = agent_id, cas_device_id = device_id\<rparr>) status_result_of peers))) id
              (\<lambda>agent. Got (ok_or agent (Bail ''no agent matched the requested selector''))))"

section \<open>Doctor\<close>

record 'a doctor_check =
  dck_ok :: bool
  dck_skipped :: bool
  dck_detail :: "'a option"
  dck_error :: "string option"

definition check_passed :: "'a \<Rightarrow> 'a doctor_check" where
  "check_passed detail = \<lparr>dck_ok = True, dck_skipped = False, dck_detail = Some detail, dck_error = None\<rparr>"

definition check_failed :: "string \<Rightarrow> 'a doctor_check" where
  "check_failed e = \<lparr>dck_ok = False, dck_skipped = False, dck_detail = None, dck_error = Some e\<rparr>"

definition check_skipped :: "string \<Rightarrow> 'a doctor_check" where
  "check_skipped reason = \<lparr>dck_ok = True, dck_skipped = True, dck_detail = None, dck_error = Some reason\<rparr>"

record doctor_gateway =
  dgw_server_name :: string
  dgw_protocol_version :: string
  dgw_one_session_per_connection :: bool

record doctor_playback =
  dpb_routed_agent_id :: string
  dpb_task_id :: string
  dpb_chunk_count :: u64
  dpb_total_bytes :: u64

record doctor_report =
  drp_gateway_url :: string
  drp_control_url :: string
  drp_device :: "string option"
  drp_agent_id :: "string option"
  drp_gateway :: "doctor_gateway doctor_check"
  drp_tts :: "string list doctor_check"
  drp_asr :: "string list doctor_check"
  drp_playback :: "doctor_playback doctor_check"

fun gateway_loop ::
  "(string \<Rightarrow> string + server_message) \<Rightarrow> (nat \<Rightarrow> string option) \<Rightarrow> nat \<Rightarrow> socket_input list
     \<Rightarrow> (cli_error + doctor_gateway) wait" where
  "gateway_loop decode fault n [] = Waiting"
| "gateway_loop decode fault n (TextIn t # ins) =
     (case decode t of
        Inl e \<Rightarrow> Got (Err (InContext ''failed to decode hello response'' (Bail e)))
      | Inr (SHelloOk r h) \<Rightarrow>
          Got (Ok \<lparr>dgw_server_name = hr_server_name h, dgw_protocol_version = hr_protocol_version h,
                  dgw_one_session_per_connection = hr_one_session_per_connection h\<rparr>)
      | Inr (SError r s e) \<Rightarrow>
          Got (Err (Bail (''gateway hello failed: '' @ ei_message e @ '' ('' @ ei_code e @ '')'')))
      | Inr _ \<Rightarrow> gateway_loop decode fault n ins)"
| "gateway_loop decode fault n (PingIn payload # ins) =
     (case fault n of
        Some e \<Rightarrow> Got (Err (InContext ''failed to send pong'' (Bail e)))
      | None \<Rightarrow> gateway_loop decode fault (Suc n) ins)"
| "gateway_loop decode fault n (CloseIn # ins) = Got (Err (Bail ''gateway closed before hello.ok''))"
| "gateway_loop decode fault n (OtherIn # ins) = gateway_loop decode fault n ins"
| "gateway_loop decode fault n (ReadFails e # ins) = Got (Err (InContext ''failed to read gateway frame'' (Bail e)))"
| "gateway_loop decode fault n (EndIn # ins) = Got (Err (Bail ''gateway closed before hello.ok''))"

definition check_gateway ::
  "(string \<Rightarrow> string + server_message) \<Rightarrow> cli_runtime \<Rightarrow> socket_peer \<Rightarrow> (cli_error + doctor_gateway) wait" where
  "check_gateway decode cli peer =
     (case spr_connect peer of
        Inl e \<Rightarrow> Got (Err (InContext (''failed to connect to '' @ rtc_url cli) (Bail e)))
      | Inr (status, shown) \<Rightarrow>
          (if status \<noteq> 101 then Got (Err (Bail (''gateway websocket handshake failed with '' @ shown)))
           else (case spr_fault peer 0 of
                   Some e \<Rightarrow> Got (Err (InContext ''failed to send hello'' (Bail e)))
                 | None \<Rightarrow> gateway_loop decode (spr_fault peer) 1 (spr_inputs peer))))"

text \<open>The ids of the providers; their number is the length of the list.\<close>

definition check_discover ::
  "cli_runtime \<Rightarrow> capability_domain \<Rightarrow> string + unit \<Rightarrow> sdk_input list \<Rightarrow> (cli_error + string list) wait" where
  "check_discover cli domain connected ins =
     (case connect_client cli connected ins of
        (r, ins1) \<Rightarrow> wait_then r connect_failed (\<lambda>k.
          wait_then (fst (sdk_discover [domain] ins1 k)) FromClient (\<lambda>providers. Got (Ok (map pd_id providers)))))"

definition silent_wav_16k_mono :: bytes where
  "silent_wav_16k_mono =
     (let sample_rate = (16000 :: u32); channels = (1 :: u16); bits_per_sample = (16 :: u16);
          bytes_per_sample = unat (bits_per_sample div 8); sample_count = unat (sample_rate div 20);
          data_size = sample_count * unat channels * bytes_per_sample;
          byte_rate = sample_rate * ucast channels * of_nat bytes_per_sample;
          block_align = channels * of_nat bytes_per_sample
      in as_bytes ''RIFF'' @ le_bytes 4 (36 + (of_nat data_size :: u32)) @ as_bytes ''WAVE'' @ as_bytes ''fmt '' @
         le_bytes 4 (16 :: u32) @ le_bytes 2 (1 :: u16) @ le_bytes 2 channels @ le_bytes 4 sample_rate @
         le_bytes 4 byte_rate @ le_bytes 2 block_align @ le_bytes 2 bits_per_sample @ as_bytes ''data'' @
         le_bytes 4 (of_nat data_size :: u32) @ replicate data_size 0)"

definition check_playback_route ::
  "(bytes \<Rightarrow> string) \<Rightarrow> (string \<Rightarrow> string) \<Rightarrow> (string \<Rightarrow> string + control_response) \<Rightarrow> cli_runtime \<Rightarrow> string option \<Rightarrow> string option
     \<Rightarrow> (string \<Rightarrow> socket_peer) \<Rightarrow> (cli_error + doctor_playback) wait" where
  "check_playback_route enc dbg decode cli device agent_id peers =
     (case parse_target dbg device of
        Inl e \<Rightarrow> Got (Err (Bail e))
      | Inr target \<Rightarrow>
          wait_then (fst (send_play_audio decode peers (control_url_for cli)
              \<lparr>cpa_task_id = Some ''doctor-playback'', cpa_device_id = map_option pbt_device_id target,
               cpa_output_target = Option.bind target pbt_output_target, cpa_agent_id = agent_id,
               cpa_format = Some \<lparr>af_encoding = Wav, af_sample_rate_hz = 16000, af_channels = 1\<rparr>,
               cpa_audio_base64 = enc silent_wav_16k_mono, cpa_chunk_size_bytes = Some 512\<rparr>)) id
            (\<lambda>acc. Got (Ok \<lparr>dpb_routed_agent_id = cac_routed_agent_id acc, dpb_task_id = cac_task_id acc,
               dpb_chunk_count = cac_chunk_count acc, dpb_total_bytes = cac_total_bytes acc\<rparr>)))"

fun check_of ::
  "(request_id option \<Rightarrow> session_id option \<Rightarrow> error_info \<Rightarrow> string) \<Rightarrow> (cli_error + 'a) wait \<Rightarrow> 'a doctor_check wait" where
  "check_of rendered Waiting = Waiting"
| "check_of rendered (Got (Inl e)) = Got (check_failed (error_text rendered e))"
| "check_of rendered (Got (Inr x)) = Got (check_passed x)"

fun wait_bind :: "'a wait \<Rightarrow> ('a \<Rightarrow> 'b wait) \<Rightarrow> 'b wait" where
  "wait_bind Waiting f = Waiting"
| "wait_bind (Got x) f = f x"

record doctor_args =
  dra_device :: "string option"
  dra_agent_id :: "string option"
  dra_skip_playback :: bool

text \<open>What the connections of the checks meet: the hello, the two discoveries, the control endpoint.\<close>

record doctor_net =
  dnt_gateway :: socket_peer
  dnt_tts :: "(string + unit) \<times> sdk_input list"
  dnt_asr :: "(string + unit) \<times> sdk_input list"
  dnt_control :: "string \<Rightarrow> socket_peer"

definition playback_check ::
  "(bytes \<Rightarrow> string) \<Rightarrow> (string \<Rightarrow> string) \<Rightarrow> (request_id option \<Rightarrow> session_id option \<Rightarrow> error_info \<Rightarrow> string)
     \<Rightarrow> (string \<Rightarrow> string + control_response) \<Rightarrow> cli_runtime \<Rightarrow> doctor_args \<Rightarrow> (string \<Rightarrow> socket_peer)
     \<Rightarrow> doctor_playback doctor_check wait" where
  "playback_check enc dbg rendered decode cli args peers =
     (let device = or_else (dra_device args) (dfc_device (rtc_defaults cli))
      in if dra_skip_playback args then Got (check_skipped ''skipped by --skip-playback'')
         else if device = None \<and> dra_agent_id args = None
         then Got (check_skipped ''no --device/--agent-id and no defaults.device configured'')
         else check_of rendered (check_playback_route enc dbg decode cli device (dra_agent_id args) peers))"

text \<open>The report, and whether the command succeeds.\<close>

definition run_doctor ::
  "(bytes \<Rightarrow> string) \<Rightarrow> (string \<Rightarrow> string) \<Rightarrow> (request_id option \<Rightarrow> session_id option \<Rightarrow> error_info \<Rightarrow> string)
     \<Rightarrow> (string \<Rightarrow> string + server_message) \<Rightarrow> (string \<Rightarrow> string + control_response) \<Rightarrow> cli_runtime \<Rightarrow> doctor_args \<Rightarrow> doctor_net
     \<Rightarrow> (doctor_report \<times> (cli_error + unit)) wait" where
  "run_doctor enc dbg rendered decode_hello decode cli args net =
     wait_bind (check_of rendered (check_gateway decode_hello cli (dnt_gateway net))) (\<lambda>gateway.
     wait_bind (check_of rendered (check_discover cli Tts (fst (dnt_tts net)) (snd (dnt_tts net)))) (\<lambda>tts.
     wait_bind (check_of rendered (check_discover cli Asr (fst (dnt_asr net)) (snd (dnt_asr net)))) (\<lambda>asr.
     wait_bind (playback_check enc dbg rendered decode cli args (dnt_control net)) (\<lambda>playback.
       Got (\<lparr>drp_gateway_url = rtc_url cli, drp_control_url = control_url_for cli,
             drp_device = or_else (dra_device args) (dfc_device (rtc_defaults cli)), drp_agent_id = dra_agent_id args,
             drp_gateway = gateway, drp_tts = tts, drp_asr = asr, drp_playback = playback\<rparr>,
            if \<not> dck_ok gateway \<or> \<not> dck_ok tts \<or> \<not> dck_ok asr \<or> \<not> dck_ok playback
            then Err (Bail ''doctor found one or more failing checks'') else Ok ())))))"

section \<open>Lemmas\<close>

text \<open>The probe is the encoder's own file of a twentieth of a second of silence.\<close>

lemma silent_wav: "encode_pcm_s16le_wav (replicate 1600 0) 16000 1 = Ok silent_wav_16k_mono"
  by (simp add: encode_pcm_s16le_wav_def silent_wav_16k_mono_def checked_mul_def checked_add_def Let_def)

lemma say_chunk_positive: "0 < unat (say_chunk_size cli args)"
proof -
  have "1 \<le> say_chunk_size cli args" by (simp add: say_chunk_size_def)
  then show ?thesis by (simp add: word_le_nat_alt)
qed

text \<open>At most one request is written, and only a written request is answered.\<close>

lemma request_sent:
  assumes "request_control_to_url decode url request extractor peer = (res, sent)"
  shows "sent = [] \<and> (\<forall>x. res \<noteq> Got (Ok x)) \<or> sent = [request]"
  using assms by (auto simp: request_control_to_url_def split: sum.splits prod.splits if_splits option.splits)

lemma handled_total_bytes:
  assumes "handle_control_play_audio enc dec env payload counter h = (Ok acc, counter', h')"
    and "dec (cpa_audio_base64 payload) = Ok audio"
  shows "cac_total_bytes acc = word_of_nat (length audio)"
  using assms
  by (auto simp: handle_control_play_audio_def split: prod.splits sum.splits if_splits)

section \<open>Properties\<close>

text \<open>C7: What \<^verbatim>\<open>say\<close> asks a device to play is what the provider synthesised. Whatever events the provider emits and
  whatever the control endpoint does, the client writes at most one request; if it writes one, the provider has
  ended its session, and the request carries the audio of its chunks, names a device or an agent, and asks for
  chunks of a positive size; a gateway that accepts it reports the number of these bytes. Without a request
  the command does not succeed.\<close>

theorem say_plays_what_was_synthesised:
  assumes "\<forall>b. dec (enc b) = Ok b" and "ssp_domain st = Tts"
    and "run_say enc dec dbg decode place rd cli args (Ok ())
           (session_messages r h s st (fst (run_pump (tts_pump_step enc s) (tts_pump_new kind) es))) peers = (res, sent)"
  shows "(sent = [] \<and> (\<forall>acc. res \<noteq> Got (Ok acc))) \<or>
         (\<exists>payload audio. sent = [PlayAudio payload] \<and> tts_outcome [] es = Some (Ok audio) \<and> audio \<noteq> [] \<and>
            dec (cpa_audio_base64 payload) = Ok audio \<and> (cpa_device_id payload \<noteq> None \<or> cpa_agent_id payload \<noteq> None) \<and>
            (\<exists>n > 0. cpa_chunk_size_bytes payload = Some n) \<and>
            (\<forall>env counter hub acc counter' hub'. handle_control_play_audio enc dec env payload counter hub = (Ok acc, counter', hub') \<longrightarrow>
               cac_total_bytes acc = word_of_nat (length audio)))"
proof -
  let ?ms = "session_messages r h s st (fst (run_pump (tts_pump_step enc s) (tts_pump_new kind) es))"
  let ?device = "or_else (sag_device args) (dfc_device (rtc_defaults cli))"
  show ?thesis
  proof (cases "sent = []")
    case True
    have "res \<noteq> Got (Ok acc)" for acc
      using assms(3) request_sent True
      by (fastforce simp: run_say_def send_play_audio_def Let_def split: if_splits sum.splits wait.splits)
    with True show ?thesis by blast
  next
    case False
    then obtain req t sya target where say: "?device \<noteq> None \<or> sag_agent_id args \<noteq> None"
      "synthesize_tts dec cli (Ok ()) req t ?ms = Got (Ok sya)" "parse_target dbg ?device = Ok target"
      "send_play_audio decode peers (unwrap_or (sag_control_url args) (control_url_for cli)) (say_payload enc cli args target sya) =
         (res, sent)"
      using assms(3) by (auto simp: run_say_def Let_def split: if_splits sum.splits wait.splits)
    let ?p = "say_payload enc cli args target sya"
    have sent: "sent = [PlayAudio ?p]"
      using request_sent [OF say(4) [unfolded send_play_audio_def]] False by blast
    have out: "tts_outcome [] es = Some (Ok (sya_audio sya))" "sya_audio sya \<noteq> []"
      using say(2) unfolding synthesize_outcome [OF assms(1,2)] by (auto split: option.splits sum.splits if_splits)
    have dec: "dec (cpa_audio_base64 ?p) = Ok (sya_audio sya)" using assms(1) by (simp add: say_payload_def)
    have "cpa_device_id ?p \<noteq> None \<or> cpa_agent_id ?p \<noteq> None"
      using say(1,3) by (auto simp: say_payload_def parse_target_def map_sum_Inr split: option.splits)
    moreover have "\<forall>env counter hub acc counter' hub'. handle_control_play_audio enc dec env ?p counter hub = (Ok acc, counter', hub') \<longrightarrow>
        cac_total_bytes acc = word_of_nat (length (sya_audio sya))"
      using handled_total_bytes dec by blast
    ultimately show ?thesis
      using sent out dec say_chunk_positive [of cli args]
      by (intro disjI2 exI [of _ ?p] exI [of _ "sya_audio sya"]) (auto simp: say_payload_def)
  qed
qed

text \<open>C27: The control endpoint answers the client's request to play, and the client takes its answer: the messages that the
  endpoint writes for the request end the client's wait, with what the gateway accepted or with the error it
  reported, however many pings and stray frames come before them.\<close>

theorem play_request_is_answered:
  assumes "cs_broken c = None" and "\<forall>m \<in> set (drop (length (cs_sent c)) (cs_sent c')). decode (encode m) = Ok m"
    and "control_frame b64 b64d env (TextFrame (Inr (PlayAudio payload))) c = (out, c')"
    and "\<forall>i \<in> set noise. i = OtherIn \<or> (\<exists>p. i = PingIn p)" and "\<forall>n. fault n = None"
  shows "\<exists>ms. cs_sent c' = cs_sent c @ ms \<and>
           control_loop decode accepted_of fault n (noise @ map (\<lambda>m. TextIn (encode m)) ms) =
             Got (case fst (handle_control_play_audio b64 b64d env payload (cs_counter c) (cs_hub c)) of
                    Inr acc \<Rightarrow> Ok acc
                  | Inl e \<Rightarrow> Err (Bail (''control request failed: '' @ bridge_error_text e)))"
proof -
  have skip: "\<exists>k. control_loop decode accepted_of fault n (noise @ ins) = control_loop decode accepted_of fault k ins" for ins
    using assms(4)
  proof (induction noise arbitrary: n)
    case (Cons i noise)
    have "\<forall>i \<in> set noise. i = OtherIn \<or> (\<exists>p. i = PingIn p)" using Cons.prems by simp
    note ih = Cons.IH [OF this]
    from Cons.prems consider "i = OtherIn" | p where "i = PingIn p" by auto
    then show ?case using ih assms(5) by cases auto
  qed auto
  obtain res counter h where run: "handle_control_play_audio b64 b64d env payload (cs_counter c) (cs_hub c) = (res, counter, h)"
    using prod_cases3 by blast
  define ms where "ms = [case res of Inr acc \<Rightarrow> PlayAudioAccepted acc | Inl e \<Rightarrow> ControlError (bridge_error_text e)]"
  have sent: "cs_sent c' = cs_sent c @ ms"
    using assms(1,3) run by (auto simp: ms_def control_play_def or_report_def send_control_def split: sum.splits prod.splits)
  have "control_loop decode accepted_of fault k (map (\<lambda>m. TextIn (encode m)) ms) =
      Got (case res of Inr acc \<Rightarrow> Ok acc | Inl e \<Rightarrow> Err (Bail (''control request failed: '' @ bridge_error_text e)))" for k
    using assms(2) unfolding sent by (simp add: ms_def split: sum.splits)
  then show ?thesis using sent run skip [of "map (\<lambda>m. TextIn (encode m)) ms"] by (intro exI [of _ ms]) auto
qed

definition demo_say :: say_args where
  "demo_say =
     \<lparr>sag_tts = \<lparr>tra_provider = \<lparr>pva_provider = None, pva_required = [], pva_preferred = []\<rparr>,
        tra_input = \<lparr>txa_text = Some ''hi'', txa_text_file = None, txa_stdin = False\<rparr>, tra_voice_profile = None,
        tra_voice = None, tra_language = None, tra_rate = None, tra_pitch = None, tra_volume = None, tra_format = None,
        tra_sample_rate = None, tra_channels = None\<rparr>,
      sag_device = Some ''mac:out'', sag_agent_id = None, sag_control_url = None, sag_chunk_size_bytes = Some 0\<rparr>"

definition demo_place :: cli_place where
  "demo_place = \<lparr>cpl_order = [], cpl_canon = (\<lambda>_. None), cpl_cwd = None\<rparr>"

definition demo_peer :: socket_peer where
  "demo_peer = \<lparr>spr_connect = Ok (101, ''101 Switching Protocols''), spr_fault = (\<lambda>_. None), spr_inputs = [OtherIn, TextIn ''accepted'']\<rparr>"

definition demo_said :: "(cli_error + control_play_audio_accepted) wait \<times> control_request list" where
  "demo_said = run_say byte_text (\<lambda>t. Ok (as_bytes t)) id
     (\<lambda>_. Ok (PlayAudioAccepted \<lparr>cac_task_id = ''t'', cac_routed_agent_id = ''a'', cac_chunk_count = 2, cac_total_bytes = 2\<rparr>))
     demo_place \<lparr>crd_file = (\<lambda>_. Err []), crd_stdin = Err []\<rparr> demo_cli demo_say (Ok ())
     (session_messages None demo_greeting (SessionId 7) demo_tts_started
       (fst (run_pump (tts_pump_step byte_text (SessionId 7)) (tts_pump_new TextInput)
          [TtsAudioEv (demo_chunk [1]), TtsAudioEv (demo_chunk [2]), TtsEndedEv None]))) (\<lambda>_. demo_peer)"

theorem say_plays_what_was_synthesised_witness:
  "\<exists>payload. snd demo_said = [PlayAudio payload] \<and> as_bytes (cpa_audio_base64 payload) = [1, 2]"
proof -
  have enc: "\<forall>b. Ok (as_bytes (byte_text b)) = (Ok b :: string + bytes)" by (simp add: byte_text_back)
  have tts: "ssp_domain demo_tts_started = Tts" by (simp add: demo_tts_started_def)
  obtain res sent where run: "demo_said = (res, sent)" by fastforce
  have syn: "synthesize_tts (\<lambda>t. Ok (as_bytes t)) demo_cli (Ok ()) req ''hi''
     (session_messages None demo_greeting (SessionId 7) demo_tts_started
       (fst (run_pump (tts_pump_step byte_text (SessionId 7)) (tts_pump_new TextInput)
          [TtsAudioEv (demo_chunk [1]), TtsAudioEv (demo_chunk [2]), TtsEndedEv None]))) =
     Got (Ok \<lparr>sya_audio = [1, 2], sya_format = None\<rparr>)" for req
    by (subst synthesize_outcome [OF enc tts]) (simp add: demo_chunk_def)
  have "trim ''hi'' \<noteq> []" by code_simp
  moreover have "parse_target id (Some ''mac:out'') = Ok (Some \<lparr>pbt_device_id = ''mac'', pbt_output_target = Some ''out''\<rparr>)"
    by code_simp
  ultimately have "sent \<noteq> []"
    using run by (auto simp: demo_said_def run_say_def demo_say_def load_text_input_def build_tts_request_with_stream_def
        voice_profile_for_def select_voice_profile_def demo_place_def syn send_play_audio_def request_control_to_url_def
        demo_peer_def Let_def simp del: run_pump.simps)
  with say_plays_what_was_synthesised [OF enc tts run [unfolded demo_said_def]] show ?thesis
    unfolding run by (auto simp: demo_chunk_def)
qed

definition demo_control :: control_state where
  "demo_control = \<lparr>cs_hub = demo_speaker_hub, cs_counter = 1, cs_sent = [], cs_broken = None\<rparr>"

theorem play_request_is_answered_witness:
  "\<exists>out c'. control_frame (\<lambda>_. []) (\<lambda>_. Err ''bad'') demo_play_env (TextFrame (Inr (PlayAudio demo_play))) demo_control = (out, c') \<and>
     control_loop (\<lambda>_. Ok (ControlError ''bridge protocol error: invalid audio_base64 payload: bad'')) accepted_of (\<lambda>_. None) 1
       ([PingIn [1], OtherIn] @ map (\<lambda>m. TextIn []) (cs_sent c')) =
     Got (Err (Bail ''control request failed: bridge protocol error: invalid audio_base64 payload: bad''))"
proof -
  let ?e = "''bridge protocol error: invalid audio_base64 payload: bad''"
  obtain out c' where run:
    "control_frame (\<lambda>_. []) (\<lambda>_. Err ''bad'') demo_play_env (TextFrame (Inr (PlayAudio demo_play))) demo_control = (out, c')"
    by fastforce
  have h: "fst (handle_control_play_audio (\<lambda>_. []) (\<lambda>_. Err ''bad'') demo_play_env demo_play 1 demo_speaker_hub) =
      Err (ProtocolError ''invalid audio_base64 payload: bad'')"
    by (simp add: handle_control_play_audio_def split: prod.split)
  have c': "cs_sent c' = [ControlError ?e]"
    using run by (auto simp: demo_control_def control_play_def or_report_def send_control_def handle_control_play_audio_def
        split: prod.splits)
  have "cs_broken demo_control = None" "\<forall>m \<in> set (drop (length (cs_sent demo_control)) (cs_sent c')). Ok (ControlError ?e) = (Ok m :: string + _)"
    "\<forall>i \<in> set [PingIn [1], OtherIn]. i = OtherIn \<or> (\<exists>p. i = PingIn p)" "\<forall>n. (\<lambda>_ :: nat. None :: string option) n = None"
    using c' by (simp_all add: demo_control_def)
  from play_request_is_answered [where encode = "\<lambda>_. []" and decode = "\<lambda>_. Ok (ControlError ?e)" and fault = "\<lambda>_. None" and n = 1,
      OF this(1,2) run this(3,4)] run h c' show ?thesis
    by (auto simp: demo_control_def)
qed

end
