(* ===== verification/ClientTools.thy ===== *)
theory ClientTools
  imports CliControl
begin

text \<open>
  Two small clients. \<^verbatim>\<open>speechmeshd/src/bin/speechmesh-play-audio.rs\<close> asks the control endpoint to play a file, and
  \<^verbatim>\<open>examples/ws-asr-e2e/src/main.rs\<close> streams a WAV file to a recognition session and checks the transcript. Reading a
  WAV file (the \<^verbatim>\<open>hound\<close> crate), converting a floating point sample, lower case beyond ASCII, JSON texts and the
  clock are parameters; parsing arguments (clap) and printing are left out.
\<close>

section \<open>Playing a file\<close>

datatype audio_encoding_arg = Mp3Arg | WavArg | FlacArg

record play_tool_args =
  ptl_url :: string
  ptl_file :: string
  ptl_task_id :: "string option"
  ptl_device_id :: "string option"
  ptl_agent_id :: "string option"
  ptl_chunk_size_bytes :: u64
  ptl_format :: "audio_encoding_arg option"
  ptl_sample_rate :: u32
  ptl_channels :: u16

fun tool_encoding :: "audio_encoding_arg \<Rightarrow> audio_encoding" where
  "tool_encoding Mp3Arg = Mp3"
| "tool_encoding WavArg = Wav"
| "tool_encoding FlacArg = Flac"

text \<open>The program's own copy of the parser of \<^verbatim>\<open>host:output\<close>; \<open>dbg\<close> is the \<^verbatim>\<open>Debug\<close> form of a string.\<close>

definition tool_playback_target :: "(string \<Rightarrow> string) \<Rightarrow> string \<Rightarrow> string + string \<times> string option" where
  "tool_playback_target dbg raw =
     (let trimmed = trim raw
      in if trimmed = [] then Err ''playback target cannot be empty''
         else (case split_once (CHR '':'') trimmed of
                 None \<Rightarrow> Ok (trimmed, None)
               | Some (device_id, output_target) \<Rightarrow>
                   (let d = trim device_id; t = trim output_target
                    in if d = [] then Err (''playback target host is empty in '' @ dbg trimmed)
                       else if t = [] then Err (''playback target output is empty in '' @ dbg trimmed)
                       else Ok (d, Some t))))"

definition tool_format :: "play_tool_args \<Rightarrow> audio_format option" where
  "tool_format args =
     map_option (\<lambda>e. \<lparr>af_encoding = tool_encoding e, af_sample_rate_hz = ptl_sample_rate args, af_channels = ptl_channels args\<rparr>)
       (ptl_format args)"

definition tool_payload :: "(bytes \<Rightarrow> string) \<Rightarrow> play_tool_args \<Rightarrow> (string \<times> string option) option \<Rightarrow> bytes \<Rightarrow> control_play_audio" where
  "tool_payload enc args target bytes =
     \<lparr>cpa_task_id = ptl_task_id args, cpa_device_id = map_option fst target, cpa_output_target = Option.bind target snd,
      cpa_agent_id = ptl_agent_id args, cpa_format = tool_format args, cpa_audio_base64 = enc bytes,
      cpa_chunk_size_bytes = Some (unat (max (ptl_chunk_size_bytes args) 1))\<rparr>"

text \<open>The loop that waits for the answer. \<open>fault n\<close> is the error of the \<open>n\<close>-th write.\<close>

fun tool_loop ::
  "(string \<Rightarrow> string + control_response) \<Rightarrow> (nat \<Rightarrow> string option) \<Rightarrow> nat \<Rightarrow> socket_input list
     \<Rightarrow> (cli_error + control_play_audio_accepted) wait" where
  "tool_loop decode fault n [] = Waiting"
| "tool_loop decode fault n (TextIn t # ins) =
     (case decode t of
        Inl e \<Rightarrow> Got (Err (Bail (''unexpected /control response ('' @ e @ ''): '' @ t)))
      | Inr (PlayAudioAccepted payload) \<Rightarrow> Got (Ok payload)
      | Inr (ControlError m) \<Rightarrow> Got (Err (Bail (''control request failed: '' @ m)))
      | Inr _ \<Rightarrow> tool_loop decode fault n ins)"
| "tool_loop decode fault n (PingIn payload # ins) =
     (case fault n of
        Some e \<Rightarrow> Got (Err (InContext ''failed to send pong'' (Bail e)))
      | None \<Rightarrow> tool_loop decode fault (Suc n) ins)"
| "tool_loop decode fault n (CloseIn # ins) = Got (Err (Bail ''control websocket closed before response''))"
| "tool_loop decode fault n (OtherIn # ins) = tool_loop decode fault n ins"
| "tool_loop decode fault n (ReadFails e # ins) = Got (Err (InContext ''failed to read /control response frame'' (Bail e)))"
| "tool_loop decode fault n (EndIn # ins) = Got (Err (Bail ''control websocket closed without response''))"

text \<open>\<^verbatim>\<open>main\<close>: the result, and the requests that were written. \<open>disk\<close> is what reading a file gives.\<close>

definition run_play_tool ::
  "(bytes \<Rightarrow> string) \<Rightarrow> (string \<Rightarrow> string) \<Rightarrow> (string \<Rightarrow> string + control_response) \<Rightarrow> (string \<Rightarrow> string + bytes) \<Rightarrow> play_tool_args
     \<Rightarrow> socket_peer \<Rightarrow> (cli_error + control_play_audio_accepted) wait \<times> control_request list" where
  "run_play_tool enc dbg decode disk args peer =
     (case disk (ptl_file args) of
        Inl e \<Rightarrow> (Got (Err (InContext (''failed to read audio file '' @ ptl_file args) (Bail e))), [])
      | Inr bytes \<Rightarrow>
          (if bytes = [] then (Got (Err (Bail ''audio file is empty'')), [])
           else (case (case ptl_device_id args of None \<Rightarrow> Ok None | Some raw \<Rightarrow> map_sum id Some (tool_playback_target dbg raw)) of
             Inl e \<Rightarrow> (Got (Err (Bail e)), [])
           | Inr target \<Rightarrow>
               (case spr_connect peer of
                  Inl e \<Rightarrow> (Got (Err (InContext (''failed to connect to '' @ ptl_url args) (Bail e))), [])
                | Inr (status, shown) \<Rightarrow>
                    (if status \<noteq> 101 then (Got (Err (Bail (''control websocket handshake failed with '' @ shown))), [])
                     else (case spr_fault peer 0 of
                             Some e \<Rightarrow> (Got (Err (InContext ''failed to send play_audio control request'' (Bail e))), [])
                           | None \<Rightarrow> (tool_loop decode (spr_fault peer) 1 (spr_inputs peer),
                                      [PlayAudio (tool_payload enc args target bytes)])))))))"

section \<open>The end-to-end client: reading the file\<close>

record e2e_args =
  eta_url :: string
  eta_wav :: string
  eta_language :: string
  eta_expected :: "string option"
  eta_provider_id :: "string option"
  eta_interim_results :: bool
  eta_prefer_on_device :: bool
  eta_timestamps :: bool
  eta_sample_rate_hz :: u32
  eta_channels :: u16
  eta_chunk_ms :: u64
  eta_timeout_secs :: u64

text \<open>What the reader of a WAV file gives: its header, and its samples read as integers or as floating point bits.\<close>

datatype sample_format = IntSamples | FloatSamples

record wav_reader =
  wvr_channels :: u16
  wvr_sample_rate :: u32
  wvr_format :: sample_format
  wvr_bits :: u16
  wvr_ints :: "string + u16 list"
  wvr_floats :: "string + f32_bits list"

fun sample_format_debug :: "sample_format \<Rightarrow> string" where
  "sample_format_debug IntSamples = ''Int''"
| "sample_format_debug FloatSamples = ''Float''"

text \<open>\<open>convert\<close> is \<^verbatim>\<open>(sample.clamp(-1.0, 1.0) * i16::MAX as f32).round() as i16\<close>.\<close>

definition read_wav_as_pcm_s16le ::
  "(f32_bits \<Rightarrow> u16) \<Rightarrow> (string \<Rightarrow> string + wav_reader) \<Rightarrow> string \<Rightarrow> u32 \<Rightarrow> u16 \<Rightarrow> cli_error + bytes" where
  "read_wav_as_pcm_s16le convert open_wav path rate channels =
     (case open_wav path of
        Inl e \<Rightarrow> Err (InContext (''failed to open wav file '' @ path) (Bail e))
      | Inr w \<Rightarrow>
          (if wvr_channels w \<noteq> channels then
             Err (Bail (''wav channel mismatch: expected '' @ show_nat (unat channels) @ '', got '' @ show_nat (unat (wvr_channels w))))
           else if wvr_sample_rate w \<noteq> rate then
             Err (Bail (''wav sample rate mismatch: expected '' @ show_nat (unat rate) @ '', got '' @ show_nat (unat (wvr_sample_rate w))))
           else (case (wvr_format w, unat (wvr_bits w)) of
                   (IntSamples, n) \<Rightarrow>
                     (if n = 16 then map_sum (\<lambda>e. InContext ''failed to decode 16-bit wav samples'' (Bail e))
                                       (\<lambda>xs. concat (map (le_bytes 2) xs)) (wvr_ints w)
                      else Err (Bail (''unsupported wav format: sample_format='' @ sample_format_debug (wvr_format w) @
                                      '', bits_per_sample='' @ show_nat n)))
                 | (FloatSamples, n) \<Rightarrow>
                     (if n = 32 then map_sum (\<lambda>e. InContext ''failed to decode float wav samples'' (Bail e))
                                       (\<lambda>xs. concat (map (\<lambda>x. le_bytes 2 (convert x)) xs)) (wvr_floats w)
                      else Err (Bail (''unsupported wav format: sample_format='' @ sample_format_debug (wvr_format w) @
                                      '', bits_per_sample='' @ show_nat n))))))"

text \<open>An overflow panics in the debug build that the project's script runs: \<^term>\<open>None\<close>.\<close>

definition calc_chunk_bytes :: "u32 \<Rightarrow> u16 \<Rightarrow> u64 \<Rightarrow> u64 option" where
  "calc_chunk_bytes rate channels chunk_ms =
     Option.bind (checked_mul (ucast rate) chunk_ms) (\<lambda>x.
     Option.bind (checked_mul (x div 1000) (ucast channels)) (\<lambda>y. checked_mul y 2))"

text \<open>\<^verbatim>\<open>pcm.chunks(n)\<close>, which panics for a size of zero.\<close>

definition pcm_chunks :: "u64 option \<Rightarrow> bytes \<Rightarrow> bytes list option" where
  "pcm_chunks size' pcm =
     Option.bind size' (\<lambda>n. if n = 0 then None else Some (chunks (unat n) pcm))"

section \<open>The end-to-end client: the session\<close>

definition e2e_request :: "e2e_args \<Rightarrow> asr_stream_request" where
  "e2e_request args =
     (let provider = (case eta_provider_id args of
                        Some provider_id \<Rightarrow> (selector_provider provider_id)\<lparr>sel_required := [''streaming-input'']\<rparr>
                      | None \<Rightarrow> selector_default\<lparr>sel_required := [''streaming-input''], sel_preferred := [''on-device'']\<rparr>)
      in \<lparr>asq_provider = provider,
          asq_input_format =
            \<lparr>af_encoding = PcmS16Le, af_sample_rate_hz = eta_sample_rate_hz args, af_channels = eta_channels args\<rparr>,
          asq_options =
            \<lparr>ro_language = Some (eta_language args), ro_hints = [''speechmesh'', ''e2e'', ''streaming''],
             ro_interim_results = eta_interim_results args, ro_timestamps = eta_timestamps args, ro_punctuation = True,
             ro_prefer_on_device = eta_prefer_on_device args, ro_provider_options = JObject []\<rparr>\<rparr>)"

fun send_chunks :: "bytes list \<Rightarrow> sdk_client \<Rightarrow> (client_error + unit) \<times> sdk_client" where
  "send_chunks [] k = (Ok (), k)"
| "send_chunks (c # cs) k =
     (case send_audio c k of
        (Inl e, k1) \<Rightarrow> (Err e, k1)
      | (Inr _, k1) \<Rightarrow> send_chunks cs k1)"

text \<open>What a message means for the wait: its end, or nothing.\<close>

fun e2e_message :: "server_message \<Rightarrow> (cli_error + string) option" where
  "e2e_message (SAsrResult _ _ payload) =
     (if arp_is_final payload \<and> arp_speech_final payload then Some (Ok (arp_text payload)) else None)"
| "e2e_message (SSessionEnded _ _) = Some (Err (Bail ''session ended before final speech result''))"
| "e2e_message (SError _ _ e) = Some (Err (Bail (''server returned error: '' @ ei_message e)))"
| "e2e_message _ = None"

text \<open>
  The wait until the deadline. \<open>ins\<close> is what arrives before it, and \<open>late n\<close> says that the clock is past it when the
  \<open>n\<close>-th message is asked for; a wait for a message that does not come ends with the deadline.
\<close>

function (sequential) wait_for_final_transcript ::
  "(nat \<Rightarrow> bool) \<Rightarrow> nat \<Rightarrow> sdk_input list \<Rightarrow> sdk_client \<Rightarrow> cli_error + string" where
  "wait_for_final_transcript late n ins k =
     (if late n then Err (Bail ''timed out waiting for websocket message'')
      else (case sdk_recv ins k of
              (Waiting, _, _) \<Rightarrow> Err (InContext ''timed out waiting for websocket frame'' (Bail ''deadline has elapsed''))
            | (Got (Inl e), _, _) \<Rightarrow> Err (InContext ''websocket read failed'' (FromClient e))
            | (Got (Inr m), ins1, k1) \<Rightarrow>
                (case e2e_message m of
                   Some r \<Rightarrow> r
                 | None \<Rightarrow> wait_for_final_transcript late (Suc n) ins1 k1)))"
  by pat_completeness auto
termination
  by (relation "measure (\<lambda>(late, n, ins, k). length ins)") (auto dest: sdk_recv_shorter [OF sym])

declare wait_for_final_transcript.simps [simp del]

text \<open>The comparison with the expected text; \<open>lower\<close> is \<^verbatim>\<open>str::to_lowercase\<close>.\<close>

definition check_expected :: "(string \<Rightarrow> string) \<Rightarrow> (string \<Rightarrow> string) \<Rightarrow> string option \<Rightarrow> string \<Rightarrow> cli_error + string" where
  "check_expected lower dbg expected final_text =
     (case map_option lower expected of
        None \<Rightarrow> Ok final_text
      | Some e \<Rightarrow>
          (if \<not> str_contains e (lower final_text) then
             Err (Bail (''assertion failed: transcript does not contain expected text; expected='' @ dbg e @ '' got='' @ dbg final_text))
           else Ok final_text))"

text \<open>\<^verbatim>\<open>main\<close>, with the transcript it prints. \<^term>\<open>None\<close> is a panic.\<close>

definition run_e2e ::
  "(string \<Rightarrow> string) \<Rightarrow> (string \<Rightarrow> string) \<Rightarrow> (f32_bits \<Rightarrow> u16) \<Rightarrow> (string \<Rightarrow> string + wav_reader) \<Rightarrow> (nat \<Rightarrow> bool) \<Rightarrow> e2e_args
     \<Rightarrow> string + unit \<Rightarrow> sdk_input list \<Rightarrow> (cli_error + string) wait option" where
  "run_e2e lower dbg convert open_wav late args connected ins =
     (case read_wav_as_pcm_s16le convert open_wav (eta_wav args) (eta_sample_rate_hz args) (eta_channels args) of
        Inl e \<Rightarrow> Some (Got (Err e))
      | Inr pcm \<Rightarrow>
          (case sdk_connect (client_config_new (eta_url args)) connected ins of
             (Waiting, _) \<Rightarrow> Some Waiting
           | (Got (Inl e), _) \<Rightarrow> Some (Got (Err (InContext (''failed to connect websocket: '' @ eta_url args) (FromClient e))))
           | (Got (Inr k), ins1) \<Rightarrow>
               (case start_asr (e2e_request args) ins1 k of
                  (Waiting, _, _) \<Rightarrow> Some Waiting
                | (Got (Inl e), _, _) \<Rightarrow> Some (Got (Err (InContext ''failed to start asr stream'' (FromClient e))))
                | (Got (Inr _), ins2, k2) \<Rightarrow>
                    map_option (\<lambda>parts.
                      (case send_chunks parts k2 of
                         (Inl e, _) \<Rightarrow> Got (Err (InContext ''failed to send audio chunk'' (FromClient e)))
                       | (Inr _, k3) \<Rightarrow>
                           (case sdk_commit k3 of
                              (Inl e, _) \<Rightarrow> Got (Err (InContext ''failed to send asr.commit'' (FromClient e)))
                            | (Inr _, k4) \<Rightarrow>
                                Got (and_then (wait_for_final_transcript late 0 ins2 k4) (check_expected lower dbg (eta_expected args))))))
                      (pcm_chunks (calc_chunk_bytes (eta_sample_rate_hz args) (eta_channels args) (eta_chunk_ms args)) pcm))))"

section \<open>Lemmas: playing a file\<close>

text \<open>The two programs read a target alike and wait for the answer alike.\<close>

lemma targets_alike:
  "parse_playback_target dbg raw =
     map_sum id (\<lambda>(d, t). \<lparr>pbt_device_id = d, pbt_output_target = t\<rparr>) (tool_playback_target dbg raw)"
  by (simp add: parse_playback_target_def tool_playback_target_def Let_def split: option.split)

lemma waits_alike: "tool_loop decode fault n ins = control_loop decode accepted_of fault n ins"
proof (induction decode fault n ins rule: tool_loop.induct)
  case (2 decode fault n t ins)
  then show ?case by (auto split: sum.split option.split control_response.split)
qed (auto split: option.split)

text \<open>The program is a request of the client's own, \<^const>\<open>request_control_to_url\<close>, made from the file and the target.\<close>

lemma play_tool_request:
  assumes "disk (ptl_file args) = Ok bytes" and "bytes \<noteq> []"
    and "parse_target dbg (ptl_device_id args) = Ok target"
  shows "run_play_tool enc dbg decode disk args peer =
    request_control_to_url decode (ptl_url args)
      (PlayAudio (tool_payload enc args (map_option (\<lambda>t. (pbt_device_id t, pbt_output_target t)) target) bytes)) accepted_of peer"
proof -
  have "(case ptl_device_id args of None \<Rightarrow> Ok None | Some raw \<Rightarrow> map_sum id Some (tool_playback_target dbg raw)) =
      Ok (map_option (\<lambda>t. (pbt_device_id t, pbt_output_target t)) target)"
    using assms(3) by (auto simp: parse_target_def targets_alike map_sum_Inr split: option.splits)
  with assms(1,2) show ?thesis
    by (simp add: run_play_tool_def request_control_to_url_def waits_alike split: sum.split prod.split option.split)
qed

section \<open>Lemmas: the end-to-end client\<close>

text \<open>The client panics exactly when a chunk would hold no sample, or when its size does not fit in 64 bits.\<close>

lemma checked_mul_value: "checked_mul a b = Some c \<longleftrightarrow> unat a * unat b < 2 ^ LENGTH('a) \<and> unat c = unat a * unat b"
  for a b c :: "'a :: len word"
  by (auto simp: checked_mul_def unat_mult_lem [THEN iffD1] word_unat_eq_iff)

lemma calc_chunk_bytes_Some:
  "calc_chunk_bytes rate channels ms = Some n \<longleftrightarrow>
     unat rate * unat ms < 2 ^ 64 \<and> unat n = (unat rate * unat ms div 1000) * unat channels * 2 \<and>
     (unat rate * unat ms div 1000) * unat channels * 2 < 2 ^ 64"
proof -
  have up: "unat (ucast rate :: u64) = unat rate" "unat (ucast channels :: u64) = unat channels"
    by (simp_all add: unsigned_ucast_eq take_bit_nat_eq_self order_less_trans [OF unsigned_less])
  define x where "x = unat rate * unat ms"
  define y where "y = x div 1000 * unat channels"
  have step: "Option.bind (checked_mul a b) f = Some n \<longleftrightarrow> unat a * unat b < 2 ^ 64 \<and> f (a * b) = Some n"
    for a b :: u64 and f by (simp add: checked_mul_def bind_eq_Some_conv)
  have mult: "unat (a * b) = unat a * unat b" if "unat a * unat b < 2 ^ 64" for a b :: u64
    using that by (intro unat_mult_lem [THEN iffD1]) simp
  let ?a = "ucast rate * ms" and ?c = "ucast channels :: u64"
  have a: "unat (?a div 1000) = x div 1000" if "x < 2 ^ 64"
    using that mult [of "ucast rate" ms] by (simp add: up x_def unat_div_distrib)
  have c: "unat (?a div 1000 * ?c) = y" if "x < 2 ^ 64" "y < 2 ^ 64"
    using that mult [of "?a div 1000" ?c] a by (simp add: up y_def)
  have "calc_chunk_bytes rate channels ms = Some n \<longleftrightarrow> x < 2 ^ 64 \<and> y < 2 ^ 64 \<and> y * 2 < 2 ^ 64 \<and> unat n = y * 2"
    unfolding calc_chunk_bytes_def step checked_mul_value using a c by (auto simp: up x_def [symmetric] y_def [symmetric])
  also have "\<dots> \<longleftrightarrow> x < 2 ^ 64 \<and> unat n = y * 2 \<and> y * 2 < 2 ^ 64" by auto
  finally show ?thesis unfolding x_def y_def .
qed

lemma pcm_chunks_panics:
  "pcm_chunks (calc_chunk_bytes rate channels ms) pcm = None \<longleftrightarrow>
     2 ^ 64 \<le> unat rate * unat ms \<or> 2 ^ 64 \<le> (unat rate * unat ms div 1000) * unat channels * 2 \<or>
     unat rate * unat ms < 1000 \<or> channels = 0"
proof (cases "calc_chunk_bytes rate channels ms")
  case None
  define v where "v = (unat rate * unat ms div 1000) * unat channels * 2"
  have "\<not> (unat rate * unat ms < 2 ^ 64 \<and> v < 2 ^ 64)"
  proof
    assume v: "unat rate * unat ms < 2 ^ 64 \<and> v < 2 ^ 64"
    then have "unat (word_of_nat v :: u64) = v" by (simp add: unsigned_of_nat take_bit_nat_eq_self)
    with v have "calc_chunk_bytes rate channels ms = Some (word_of_nat v)" unfolding calc_chunk_bytes_Some v_def by blast
    with None show False by simp
  qed
  with None show ?thesis by (auto simp: pcm_chunks_def not_less v_def)
next
  case (Some n)
  then have n: "unat n = (unat rate * unat ms div 1000) * unat channels * 2" "unat rate * unat ms < 2 ^ 64"
    "(unat rate * unat ms div 1000) * unat channels * 2 < 2 ^ 64" by (simp_all only: calc_chunk_bytes_Some)
  have "n = 0 \<longleftrightarrow> unat n = 0" by (simp add: unat_eq_0)
  also have "\<dots> \<longleftrightarrow> unat rate * unat ms < 1000 \<or> channels = 0" using n(1) by (simp add: unat_eq_0 div_eq_0_iff)
  finally show ?thesis using n(2,3) Some by (simp add: pcm_chunks_def linorder_not_less [symmetric])
qed

text \<open>On a whole connection with a recognition session every chunk is sent, and the chunks are the file.\<close>

lemma send_chunks_sends:
  assumes "ensure_active_session_domain Asr k = Ok u" and "sdk_broken k = None"
  shows "send_chunks cs k = (Ok (), k\<lparr>sdk_sent := sdk_sent k @ map OutAudio cs\<rparr>)"
  using assms
proof (induction cs arbitrary: k)
  case (Cons c cs)
  have "ensure_active_session_domain Asr (k\<lparr>sdk_sent := sdk_sent k @ [OutAudio c]\<rparr>) = Ok u"
    using Cons.prems(1) by (simp add: ensure_active_session_domain_def)
  with Cons show ?case by (simp add: send_audio_def sdk_write_def)
qed simp

lemma pcm_chunks_whole: "pcm_chunks n pcm = Some parts \<Longrightarrow> concat parts = pcm"
  by (auto simp: pcm_chunks_def concat_chunks unat_gt_0 split: if_splits Option.bind_splits)

text \<open>The reference: the first event that decides.\<close>

fun first_final :: "bridge_asr_event list \<Rightarrow> (cli_error + string) option" where
  "first_final [] = None"
| "first_final (AsrPartialEv t # es) = first_final es"
| "first_final (AsrFinalEv tr # es) = Some (Ok (tr_text tr))"
| "first_final (AsrEndedEv reason # es) = Some (Err (Bail ''session ended before final speech result''))"
| "first_final (AsrErrorEv m # es) = Some (Err (Bail (''server returned error: '' @ m)))"

definition wait_elapsed :: cli_error where
  "wait_elapsed = InContext ''timed out waiting for websocket frame'' (Bail ''deadline has elapsed'')"

lemma wait_simps:
  "\<not> late n \<Longrightarrow> wait_for_final_transcript late n [] k = Err wait_elapsed"
  "\<not> late n \<Longrightarrow> wait_for_final_transcript late n (Arrives (Some (TextFrame (Inr m))) # ins) k =
     (case e2e_message m of Some r \<Rightarrow> r | None \<Rightarrow> wait_for_final_transcript late (Suc n) ins (observe_message m k))"
  by (simp_all add: wait_for_final_transcript.simps wait_elapsed_def)

lemma wait_outcome:
  "wait_for_final_transcript (\<lambda>_. False) n (arrives (fst (run_pump (asr_pump_step s) p es))) k =
    unwrap_or (first_final es) (Err wait_elapsed)"
proof (induction es arbitrary: n p k)
  case Nil
  then show ?case by (simp add: arrives_simps wait_simps)
next
  case (Cons e es)
  show ?case
    by (cases e) (simp_all add: Let_def arrives_simps wait_simps Cons.IH provider_error_message_def
        error_info_new_def fst_pumped)
qed

lemma start_e2e_answered:
  assumes "ssp_domain st = Asr"
  shows "\<exists>k u. start_asr req (Arrives (Some (TextFrame (Inr (SSessionStarted (Some (numbered_id 1)) s st)))) # ins) (greeted cli) =
           (Got (Ok \<lparr>sst_request_id = Some (numbered_id 1), sst_session_id = s, sst_payload = st\<rparr>), ins, k) \<and>
         ensure_active_session_domain Asr k = Ok u \<and> sdk_broken k = None \<and>
         (\<forall>log. \<exists>k'. sdk_commit (k\<lparr>sdk_sent := log\<rparr>) = (Ok (), k'))"
  using assms
  by (simp add: start_asr_def sdk_request_def next_request_id_def greeted_def sdk_client_new_def send_json_def
      sdk_write_def sdk_await.simps ensure_active_session_domain_def sdk_commit_def numbered_id_def)

text \<open>
  On a session the gateway relays, the client ends at the first event that decides: with the text of the first
  final result, which it compares with the expected text, with an error, or at the deadline.
\<close>

lemma e2e_end_to_end:
  assumes "read_wav_as_pcm_s16le convert open_wav (eta_wav args) (eta_sample_rate_hz args) (eta_channels args) = Ok pcm"
    and "calc_chunk_bytes (eta_sample_rate_hz args) (eta_channels args) (eta_chunk_ms args) = Some n" and "n \<noteq> 0"
    and "ssp_domain st = Asr" and "\<forall>n. \<not> late n"
  shows "run_e2e lower dbg convert open_wav late args (Ok ())
           (session_messages r h s st (fst (run_pump (asr_pump_step s) asr_pump_new es))) =
         Some (Got (and_then (unwrap_or (first_final es) (Err wait_elapsed)) (check_expected lower dbg (eta_expected args))))"
proof -
  let ?ms = "fst (run_pump (asr_pump_step s) asr_pump_new es)"
  let ?cli = "demo_cli\<lparr>rtc_url := eta_url args, rtc_client_name := ''speechmesh-rust-sdk''\<rparr>"
  have config: "(client_config_new (eta_url args))\<lparr>ccf_client_name := ''speechmesh-rust-sdk''\<rparr> = client_config_new (eta_url args)"
    by (simp add: client_config_new_def)
  have greet: "sdk_connect (client_config_new (eta_url args)) (Ok ()) (Arrives (Some (TextFrame (Inr (SHelloOk r h)))) # ins) =
      (Got (Ok (greeted ?cli)), ins)" for ins
    using connect_greeted [of ?cli r h ins] by (simp add: connect_client_def config)
  from start_e2e_answered [OF assms(4)] obtain k u where k:
    "start_asr (e2e_request args) (Arrives (Some (TextFrame (Inr (SSessionStarted (Some (numbered_id 1)) s st)))) # arrives ?ms) (greeted ?cli) =
       (Got (Ok \<lparr>sst_request_id = Some (numbered_id 1), sst_session_id = s, sst_payload = st\<rparr>), arrives ?ms, k)"
    "ensure_active_session_domain Asr k = Ok u" "sdk_broken k = None"
    "\<forall>log. \<exists>k'. sdk_commit (k\<lparr>sdk_sent := log\<rparr>) = (Ok (), k')" by blast
  obtain k' where commit: "sdk_commit (k\<lparr>sdk_sent := sdk_sent k @ map OutAudio (chunks (unat n) pcm)\<rparr>) = (Ok (), k')"
    using k(4) by blast
  have late: "late = (\<lambda>_. False)" using assms(5) by blast
  show ?thesis
    by (simp add: late run_e2e_def assms(1,2,3) session_messages_def arrives_simps greet k(1) pcm_chunks_def
        send_chunks_sends [OF k(2,3)] commit wait_outcome del: One_nat_def)
qed

end
