(* ===== verification/Spec2Isabelle.thy ===== *)
theory Spec2Isabelle
  imports Protocol DeviceRouter AgentHubInv AgentBridge LocalAgent Composite TtsProviders GatewayInv Control AsrProviders MinimaxWs SdkClient PlayAudio Daemon AppUpdate ClientTools
begin

text \<open>
  A verification development for SpeechMesh, a gateway that joins speech recognition and synthesis providers,
  remote agents and clients over websockets.

  \<^bold>\<open>The program.\<close> The daemon \<^verbatim>\<open>speechmeshd\<close> serves three endpoints. Clients open \<^verbatim>\<open>/ws\<close>, choose a provider by its
  capabilities and hold one session per connection: audio or text goes in, results or audio come out. Agents open
  \<^verbatim>\<open>/agent\<close> and register: some recognise speech for the gateway, others play audio on a device. Control programs
  open \<^verbatim>\<open>/control\<close> to have audio played and to look at the agents. Behind \<^verbatim>\<open>/ws\<close> stand the bridges, one for each
  provider; a composite bridge chooses among them. Around the daemon are the device agent, the Rust SDK, the
  command-line client, the updater of the binary and two small clients.

  \<^bold>\<open>Theories and sources.\<close> Every path is below \<^verbatim>\<open>src/\<close>.

  \<^item> \<open>Prelude\<close>: machine types (\<open>u8\<close> to \<open>u64\<close> are words of that width), the parts of the Rust standard library that are
    used, hash maps that are iterated in an order given as a list, channels and the locale \<open>channel\<close> of what a
    sender relies on. Strings are character lists; a length in bytes is taken where the source takes one.
  \<^item> \<open>CoreTypes\<close>: the data of \<^verbatim>\<open>core\<close>, \<^verbatim>\<open>asr\<close>, \<^verbatim>\<open>tts\<close> and of the bridge handles. \<open>Protocol\<close>: the messages of the three
    endpoints, \<^verbatim>\<open>transport/src\<close>. \<open>JsonDecode\<close>: how serde reads and writes the structs of files.
  \<^item> \<open>DeviceModel\<close>, \<open>DeviceRegistry\<close>, \<open>DeviceRouter\<close>: \<^verbatim>\<open>device/src\<close>, the aggregate, the registry of agents and task
    routes, and routing to an endpoint. The locale \<open>route_table\<close> is the contract of a table of routes.
  \<^item> \<open>Promises\<close>, \<open>AgentHub\<close>, \<open>AgentHubInv\<close>, \<open>AgentBridge\<close>, \<open>LocalAgent\<close>: \<^verbatim>\<open>speechmeshd/src/agent.rs\<close>. The hub is
    one state (registry, sessions, waiters, what was sent) with a function for each method of \<^verbatim>\<open>AgentRegistry\<close>; a
    one-shot channel is an entry of a table and of a log of outcomes, under the locale \<open>promises\<close>. A method that
    waits is split at its wait, and one that chooses an agent under one lock and enters a route to it under another is
    split between the locks; any number of other methods may run in between. The others are one step each.
  \<^item> \<open>BridgeCommon\<close>, \<open>Composite\<close>, \<open>AsrProviders\<close>, \<open>TtsProviders\<close>, \<open>MinimaxWs\<close>: \<^verbatim>\<open>bridges/src\<close>. A session task is a
    step function over its commands and the service's replies; \<open>recognition_task\<close> and \<open>buffered_session\<close> are the
    contracts that the providers' tasks share, \<open>automatic_choice\<close> that of the choice of a provider.
  \<^item> \<open>Gateway\<close>, \<open>GatewayInv\<close>, \<open>Control\<close>: \<^verbatim>\<open>speechmeshd/src/server.rs\<close>. A client connection is a record of what the frame
    loop and the relay tasks share; its steps are an inductive relation, in which frames, relays, the providers and
    the loss of the writer interleave.
  \<^item> \<open>Providers\<close>, \<open>Daemon\<close>: \<^verbatim>\<open>speechmeshd/src/providers.rs\<close> and \<^verbatim>\<open>main.rs\<close>, the provider commands, their files, and the
    start of the gateway on them.
  \<^item> \<open>AgentRuntime\<close>, \<open>PlayAudio\<close>: \<^verbatim>\<open>speechmeshd/src/bin/speechmesh_agent/runtime.rs\<close>, the device agent, and play-audio
    through control endpoint, hub and agent to the player.
  \<^item> \<open>ConfigText\<close>, \<open>AgentConfig\<close>, \<open>CliConfig\<close>: the file \<^verbatim>\<open>~/.speechmesh/config.yml\<close> and the two programs that parse it,
    \<^verbatim>\<open>speechmeshd/src/bin/speechmesh-agent.rs\<close> and \<^verbatim>\<open>sdks/rust/src/bin/speechmesh-cli.rs\<close>, with locales for a parser,
    one that cannot fail, one whose errors are known, and two that agree.
  \<^item> \<open>SdkClient\<close>, \<open>CliSession\<close>, \<open>CliControl\<close>, \<open>ClientTools\<close>: \<^verbatim>\<open>sdks/rust/src/lib.rs\<close>, the sessions and the control commands
    of the command-line client, \<^verbatim>\<open>speechmeshd/src/bin/speechmesh-play-audio.rs\<close> and \<^verbatim>\<open>examples/ws-asr-e2e\<close>. The
    locales \<open>kept_while_waiting\<close> and \<open>kept_by_request\<close> say what a call may rely on while it waits.
  \<^item> \<open>AppUpdate\<close>: \<^verbatim>\<open>app/src/main.rs\<close>, the manifest, self-update and the automatic update loop.

  \<^bold>\<open>What is shown.\<close> Every property carries its number C1 to C40; most are stated over a whole component or several.

  \<^item> The hub: nobody waits for an agent that is gone (C1), answers are given once (C2), a task's route leads to a
    registered agent, except that of a task entered after its agent had gone, which is found out at its first use
    (C3); every registered agent comes from a hello that was received with the secret (C4); what starts, connections
    and play-audio requests leave behind, whatever runs between their steps (C15, C16, C32, C33); registry and
    selection are exact (C5, C14).
  \<^item> Play-audio and agents: the player gets exactly the audio of the request (C6, C7), an agent's tasks follow a
    small specification (C8), players are killed by some ends of the connection and run on
    after others (C13), forwarded commands arrive (C17).
  \<^item> The gateway: what a client receives is what the relay makes of the provider's events, complete and in order
    (C29, C30), and a second session is refused without effect (C31).
  \<^item> Providers: choice (C21), encodings and chunks (C18, C19, C20), text and audio delivered and sessions closed
    (C22, C23, C34, C35).
  \<^item> Clients: synthesis and transcription over provider, gateway and SDK equal a reference (C24, C25), answers of the
    control endpoint (C27), sessions and requests of the SDK (C36, C37, C38); the two
    programs take the same profile and URL from one configuration (C26, C28).
  \<^item> The daemon's files are a table of providers, which the commands change as a separate specification says
    (C40) and the gateway serves (C39). The updater installs only what
    was verified (C9, C10), and ends (C11) or does not (C12).

  \<^bold>\<open>Parameters and bounds.\<close> Code outside the repository is an argument with the documented behaviour as hypothesis:
  base64 (decoding what was encoded gives it back), JSON and semver parsers, HTTP replies, the digest, floating
  point conversion, the clock, file and process errors. No definition needs fuel: loops recurse over the inputs
  that arrive, and a call that finds no more input is \<open>Waiting\<close>; the automatic update, which may run for ever, is
  given what each of its cycles meets, and is shown to end (C11) or to go on however many cycles it is given (C12). Iteration orders of hash maps are arbitrary in
  the properties. Counters are words and wrap; where a property needs them not to, the bound is a hypothesis.

  \<^bold>\<open>Not modelled.\<close> Sockets, TLS, processes and tasks of the runtime themselves, logging, argument parsing (clap) and
  the tables that commands print: they are inputs and outputs of the functions here. \<^verbatim>\<open>bridge_tcpd.rs\<close> only copies two
  byte streams and \<^verbatim>\<open>apple_agent.rs\<close> only starts \<^verbatim>\<open>run_local_agent\<close> with its arguments. The SDKs in Go and Swift, the
  iOS demos, the Swift bridges and the deployment scripts are other programs in other languages.
\<close>

end
